(* ===== verification/Prelude.thy ===== *)
theory Prelude
  imports Main "HOL-Library.Word" "HOL-Library.Signed_Division"
begin

text \<open>
  Shared vocabulary of the development: the faults a run of the C++ code can end in, results that
  are a fault or a value with the state after it, loops with an early return, bit-flag tests,
  and the rule collection \<open>keeps\<close> by which invariants are carried through a handler step by step.
\<close>

unbundle bit_operations_syntax

section \<open>Faults and results\<close>

text \<open>
  What the C++ code does beyond returning: it dereferences a null pointer, writes past the end of a
  fixed array, divides by zero or overflows in a division, shifts by an amount out of range, or
  does not return from a loop. Error codes that the code returns are ordinary integer results, not faults.
\<close>

datatype fault = Null_deref | Array_overflow | Div_fault | Bad_shift | Diverges

type_synonym ('a, 's) outcome = "fault + ('a \<times> 's)"

text \<open>
  Sequencing: the next step gets the value and the state, a fault ends the run.
\<close>

definition bindS :: "('a, 's) outcome \<Rightarrow> ('a \<Rightarrow> 's \<Rightarrow> ('b, 't) outcome) \<Rightarrow> ('b, 't) outcome" where
  "bindS m f = (case m of Inl e \<Rightarrow> Inl e | Inr (a, s) \<Rightarrow> f a s)"

lemma bindS_simps [simp]:
  "bindS (Inl e) f = Inl e"
  "bindS (Inr (a, s)) f = f a s"
  by (simp_all add: bindS_def)

lemma bindS_Inr_eq:
  "bindS m f = Inr r \<longleftrightarrow> (\<exists>a s. m = Inr (a, s) \<and> f a s = Inr r)"
  by (auto simp: bindS_def split: sum.splits)

lemma bindS_assoc: "bindS (bindS m f) g = bindS m (\<lambda>a s. bindS (f a s) g)"
  by (auto simp: bindS_def split: sum.splits)

text \<open>
  The same for steps that have no state: a fault or a value.
\<close>

definition bindF :: "fault + 'a \<Rightarrow> ('a \<Rightarrow> fault + 'b) \<Rightarrow> fault + 'b" where
  "bindF m f = (case m of Inl e \<Rightarrow> Inl e | Inr a \<Rightarrow> f a)"

lemma bindF_simps [simp]:
  "bindF (Inl e) f = Inl e"
  "bindF (Inr a) f = f a"
  by (simp_all add: bindF_def)

lemma bindF_Inr_eq:
  "bindF m f = Inr r \<longleftrightarrow> (\<exists>a. m = Inr a \<and> f a = Inr r)"
  by (auto simp: bindF_def split: sum.splits)

section \<open>Loops with an early return\<close>

text \<open>
  A \<open>for\<close> loop over the elements of a container: the body yields \<open>Some r\<close> to leave the loop
  with \<open>r\<close> (a \<open>return\<close> or a \<open>break\<close> that carries the result) and \<open>None\<close> to go on.
\<close>

fun loopS :: "('x \<Rightarrow> 's \<Rightarrow> ('r option, 's) outcome) \<Rightarrow> 'x list \<Rightarrow> 's \<Rightarrow> ('r option, 's) outcome" where
  "loopS f [] s = Inr (None, s)"
| "loopS f (x # xs) s =
     bindS (f x s) (\<lambda>r s'. case r of Some v \<Rightarrow> Inr (Some v, s') | None \<Rightarrow> loopS f xs s')"

section \<open>Invariants of runs\<close>

text \<open>
  \<open>keeps I F m\<close>: a run that ends with a state ends in one where \<open>I\<close> holds, and a run that
  faults does so only in one of the ways \<open>F\<close> admits.
\<close>

definition keeps :: "('s \<Rightarrow> bool) \<Rightarrow> (fault \<Rightarrow> bool) \<Rightarrow> ('a, 's) outcome \<Rightarrow> bool" where
  "keeps I F m = (case m of Inl e \<Rightarrow> F e | Inr (a, s) \<Rightarrow> I s)"

named_theorems keeps_rules \<open>how a construct of a handler carries an invariant\<close>

lemma keeps_simps [simp]:
  "keeps I F (Inl e) = F e"
  "keeps I F (Inr (a, s)) = I s"
  by (simp_all add: keeps_def)

lemma keeps_bindS:
  "keeps I F m \<Longrightarrow> (\<And>a s. m = Inr (a, s) \<Longrightarrow> I s \<Longrightarrow> keeps J F (f a s)) \<Longrightarrow> keeps J F (bindS m f)"
  by (auto simp: keeps_def bindS_def split: sum.splits)

lemma keeps_InrD: "keeps I F m \<Longrightarrow> m = Inr (a, s) \<Longrightarrow> I s"
  by (simp add: keeps_def)

lemma keeps_InlD: "keeps I F m \<Longrightarrow> m = Inl e \<Longrightarrow> F e"
  by (simp add: keeps_def)

lemma keeps_weaken:
  "keeps I F m \<Longrightarrow> (\<And>s. I s \<Longrightarrow> J s) \<Longrightarrow> (\<And>e. F e \<Longrightarrow> G e) \<Longrightarrow> keeps J G m"
  by (auto simp: keeps_def split: sum.splits)

lemma keeps_loopS:
  assumes "\<And>x s. x \<in> set xs \<Longrightarrow> I s \<Longrightarrow> keeps I F (f x s)" and "I s"
  shows "keeps I F (loopS f xs s)"
  using assms
proof (induction xs arbitrary: s)
  case Nil
  then show ?case by simp
next
  case (Cons x xs)
  have "keeps I F (f x s)" using Cons.prems by simp
  then show ?case
    by (auto intro!: keeps_bindS Cons.IH Cons.prems(1) split: option.splits)
qed

section \<open>Bit flags\<close>

definition has :: "'a::len word \<Rightarrow> 'a word \<Rightarrow> bool" where
  "has f m \<longleftrightarrow> f AND m \<noteq> 0"

lemma has_OR [simp]: "has (f OR g) m \<longleftrightarrow> has f m \<or> has g m"
  by (auto simp: has_def bit_eq_iff bit_and_iff bit_or_iff)

lemma has_zero [simp]: "\<not> has 0 m"
  by (simp add: has_def)

lemma has_self [simp]: "has m m \<longleftrightarrow> m \<noteq> 0"
  by (simp add: has_def)

text \<open>Packing a field above \<open>n\<close> low bits is adding it.\<close>

lemma push_bit_OR_add:
  assumes "0 \<le> i" "i < (2::int) ^ n"
  shows "push_bit n k OR i = k * 2 ^ n + i"
proof -
  have i: "take_bit n i = i" using assms by (simp add: take_bit_int_eq_self)
  have low: "m < n" if "bit i m" for m
    using bit_take_bit_iff [of n i m] i that by simp
  have "push_bit n k AND i = 0"
  proof (rule bit_eqI)
    fix m
    have "\<not> (bit (push_bit n k) m \<and> bit i m)"
      using low [of m] by (cases "bit i m") (simp_all add: bit_push_bit_iff)
    then show "bit (push_bit n k AND i) m \<longleftrightarrow> bit 0 m" by (simp add: bit_and_iff)
  qed
  then have "push_bit n k OR i = push_bit n k + i" by (simp add: disjunctive_add_eq_or)
  then show ?thesis by (simp add: push_bit_eq_mult)
qed

section \<open>Maps\<close>

lemma map_le_updI: "m \<subseteq>\<^sub>m m' \<Longrightarrow> m k = None \<Longrightarrow> m \<subseteq>\<^sub>m m'(k \<mapsto> v)"
  by (auto simp: map_le_def dom_def)

lemma map_le_upd_new: "m k = None \<Longrightarrow> m \<subseteq>\<^sub>m m(k \<mapsto> v)"
  by (auto simp: map_le_def)

section \<open>C strings\<close>

text \<open>
  \<open>strnicmp\<close> and \<open>atoi\<close> of the C library, on the characters before the terminating zero.
  Lower case is ASCII lower case; \<open>atoi\<close> skips blanks, reads a sign and digits and stops at the
  first other character.
\<close>

definition code_of :: "char \<Rightarrow> nat" where
  "code_of c = of_char c"

definition lower_code :: "char \<Rightarrow> nat" where
  "lower_code c = (let k = code_of c in if 65 \<le> k \<and> k \<le> 90 then k + 32 else k)"

definition strnicmp_eq :: "string \<Rightarrow> string \<Rightarrow> nat \<Rightarrow> bool" where
  "strnicmp_eq a b n \<longleftrightarrow> map lower_code (take n a) = map lower_code (take n b)"

fun atoi_digits :: "int \<Rightarrow> string \<Rightarrow> int" where
  "atoi_digits acc [] = acc"
| "atoi_digits acc (c # cs) =
     (if 48 \<le> code_of c \<and> code_of c \<le> 57
      then atoi_digits (10 * acc + (int (code_of c) - 48)) cs else acc)"

definition is_blank :: "char \<Rightarrow> bool" where
  "is_blank c \<longleftrightarrow> code_of c = 32 \<or> (9 \<le> code_of c \<and> code_of c \<le> 13)"

definition atoi :: "string \<Rightarrow> int" where
  "atoi s =
     (case dropWhile is_blank s of
        [] \<Rightarrow> 0
      | c # cs \<Rightarrow>
          if code_of c = 45 then - atoi_digits 0 cs
          else if code_of c = 43 then atoi_digits 0 cs
          else atoi_digits 0 (c # cs))"

end
