(* ===== verification/Config.thy ===== *)
theory Config
  imports Prelude
begin

text \<open>
  The debugger's configuration (\<open>xvmdebug.h\<close>, \<open>xvmdebug.cpp\<close>): the record of settings, the field
  ids they are stored under, and the functions that write them into and read them from a packet
  buffer and a file. The packet buffer \<open>NPacketBuffer\<close> is a class of the base library, which is not in the
  repository: it is a parameter, with the laws of a buffer of tagged fields as a predicate.
\<close>

section \<open>Settings\<close>

text \<open>
  \<open>int\<close>, \<open>long\<close>, \<open>BOOL\<close> and \<open>ULONG_PTR\<close> are 32 bits wide on the target; a
  \<open>std::wstring\<close> is a list of 16-bit units. The nested structs \<open>vmopt\<close> and \<open>bkopt\<close> are
  flattened, with their names as prefixes.
\<close>

type_synonym int32 = "32 word"
type_synonym cbyte = "8 word"
type_synonym cstring = "8 word list"
type_synonym wstring = "16 word list"

definition DEFAULT_RECENTPASM_NUM :: nat where "DEFAULT_RECENTPASM_NUM = 5"

definition mac_showread :: int32 where "mac_showread = 0x2"
definition mac_showwrite :: int32 where "mac_showwrite = 0x4"
definition vmopt_flags_pausemr :: int32 where "vmopt_flags_pausemr = 0x1"
definition vmopt_flags_bypasssys :: int32 where "vmopt_flags_bypasssys = 0x2"
definition vmopt_flags_recordfrompipe :: int32 where "vmopt_flags_recordfrompipe = 0x4"
definition vmopt_flags_default :: int32 where
  "vmopt_flags_default =
     vmopt_flags_bypasssys OR vmopt_flags_pausemr OR vmopt_flags_recordfrompipe"

record xvmdbg_config =
  maxPreExecLines :: int32
  maxIATTraceLines :: int32
  scp_stackSize :: int32
  preExecDetectMultiBranch :: int32
  enableVirtualDebug :: int32
  breakOnLdrLoadDll :: int32
  bIATTraceCheckCtx :: int32
  int3cmd :: cbyte
  int3ecode :: int32
  stepcmd :: cbyte
  stepecode :: int32
  singletd :: int32
  loadPatternOnStartup :: int32
  vdCRT :: wstring
  patternDir :: wstring
  enhancePreExecUI :: int32
  antiAntiDebug :: int32
  enablexVMRuntime :: int32
  autoRemoveJmp :: int32
  embedNotepadPP :: int32
  scriptDir :: wstring
  disableSafeSEH :: int32
  showMemAccFlags :: int32
  scp_libs :: cstring
  bProtectDrx :: int32
  bkopt_filter :: int32
  bDirectImport :: int32
  bEnableApiSpy :: int32
  bStartupScript :: int32
  startupscp :: wstring
  bRemoteIDA :: int32
  iStartupDLL :: int32
  startupdll :: wstring
  vmopt_maxRecords :: int32
  vmopt_flags :: int32
  vmopt_rcfile :: wstring
  vmopt_msfile :: wstring
  vmopt_bkfile :: wstring
  vmopt_stopaddr :: int32
  bFreeStkEach :: int32
  bReleaseStub :: int32
  recentPASM :: "wstring list"
  sbox_state :: int32
  sbox_script :: wstring
  idasvr :: wstring

datatype xvmdbg_cfg_vids =
    xvmdbg_vid_maxpeline
  | xvmdbg_vid_maxiattline
  | xvmdbg_vid_prdemultibranch
  | xvmdbg_vid_enableVD
  | xvmdbg_vid_VDCRT
  | xvmdbg_vid_breakOnSys
  | xvmdbg_vid_int3cmd
  | xvmdbg_vid_int3ecode
  | xvmdbg_vid_stepcmd
  | xvmdbg_vid_stepecode
  | xvmdbg_vid_singletd
  | xvmdbg_vid_checkctx
  | xvmdbg_vid_loadpatternonstartup
  | xvmdbg_vid_patternDir
  | xvmdbg_vid_enhancePreExecUI
  | xvmdbg_vid_antiAntiDebug
  | xvmdbg_vid_enablexVMRuntime
  | xvmdbg_vid_autoremoveJmp
  | xvmdbg_vid_embednpp
  | xvmdbg_vid_scriptdir
  | xvmdbg_vid_scpstacksize
  | xvmdbg_vid_maxrecords
  | xvmdbg_vid_vmoptflags
  | xvmdbg_vid_nosafeseh
  | xvmdbg_vid_rcfile
  | xvmdbg_vid_showstackmac
  | xvmdbg_vid_recentpasm
  | xvmdbg_vid_msfile
  | xvmdbg_vid_scplibs
  | xvmdbg_vid_vmstopaddr
  | xvmdbg_vid_protectdrx
  | xvmdbg_vid_bkflags
  | xvmdbg_vid_diimport
  | xvmdbg_vid_apispy
  | xvmdbg_vid_bkfile
  | xvmdbg_vid_ldstartupscp
  | xvmdbg_vid_startscp
  | xvmdbg_vid_remoteIDA
  | xvmdbg_vid_startupdll
  | xvmdbg_vid_startupdllmode
  | xvmdbg_vid_freestkeach
  | xvmdbg_vid_sandboxstate
  | xvmdbg_vid_sboxscp
  | xvmdbg_vid_releasestub
  | xvmdbg_vid_idasvrname

section \<open>The packet buffer\<close>

text \<open>
  The functions of the class that are called; \<open>tonext\<close>, called in a loop, visits the
  data of all fields with an id in order, so the model has the list of them.
\<close>

record 'p packet_ops =
  pk_empty :: 'p
  pk_putInt :: "'p \<Rightarrow> xvmdbg_cfg_vids \<Rightarrow> int32 \<Rightarrow> 'p"
  pk_putInt64 :: "'p \<Rightarrow> xvmdbg_cfg_vids \<Rightarrow> 64 word \<Rightarrow> 'p"
  pk_putString :: "'p \<Rightarrow> xvmdbg_cfg_vids \<Rightarrow> cstring \<Rightarrow> 'p"
  pk_putWString :: "'p \<Rightarrow> xvmdbg_cfg_vids \<Rightarrow> wstring \<Rightarrow> 'p"
  pk_getInt :: "'p \<Rightarrow> xvmdbg_cfg_vids \<Rightarrow> int32 \<Rightarrow> int32"
  pk_getLongLong :: "'p \<Rightarrow> xvmdbg_cfg_vids \<Rightarrow> 64 word \<Rightarrow> 64 word"
  pk_getString :: "'p \<Rightarrow> xvmdbg_cfg_vids \<Rightarrow> cstring \<Rightarrow> cstring"
  pk_getWString :: "'p \<Rightarrow> xvmdbg_cfg_vids \<Rightarrow> wstring \<Rightarrow> wstring"
  pk_fields :: "'p \<Rightarrow> xvmdbg_cfg_vids \<Rightarrow> wstring list"
  pk_data :: "'p \<Rightarrow> cbyte list"
  pk_parse :: "cbyte list \<Rightarrow> 'p"

text \<open>\<open>c_str()\<close>: the characters up to the first zero.\<close>

definition c_str :: "'a::zero list \<Rightarrow> 'a list" where
  "c_str s = takeWhile (\<lambda>c. c \<noteq> 0) s"

definition lit :: "string \<Rightarrow> ('a::len) word list" where
  "lit s = map (\<lambda>c. of_nat (code_of c)) s"

section \<open>Loading\<close>

text \<open>The loop over the stored list of recent files fills the array from the start, up to its size.\<close>

definition load_recent :: "wstring list \<Rightarrow> wstring list \<Rightarrow> wstring list" where
  "load_recent stored old =
     (let new = take DEFAULT_RECENTPASM_NUM stored in new @ drop (length new) old)"

definition loadxvmcfg :: "'p packet_ops \<Rightarrow> 'p \<Rightarrow> xvmdbg_config \<Rightarrow> xvmdbg_config" where
  "loadxvmcfg P pkopt cfg = cfg\<lparr>
     maxPreExecLines := pk_getInt P pkopt xvmdbg_vid_maxpeline 1000,
     maxIATTraceLines := pk_getInt P pkopt xvmdbg_vid_maxiattline 1000,
     scp_stackSize := pk_getInt P pkopt xvmdbg_vid_scpstacksize 64,
     preExecDetectMultiBranch := pk_getInt P pkopt xvmdbg_vid_prdemultibranch 1,
     enableVirtualDebug := pk_getInt P pkopt xvmdbg_vid_enableVD 0,
     breakOnLdrLoadDll := pk_getInt P pkopt xvmdbg_vid_breakOnSys 0,
     bIATTraceCheckCtx := pk_getInt P pkopt xvmdbg_vid_checkctx 0,
     int3cmd := ucast (pk_getInt P pkopt xvmdbg_vid_int3cmd 0),
     int3ecode := pk_getInt P pkopt xvmdbg_vid_int3ecode 0,
     stepcmd := ucast (pk_getInt P pkopt xvmdbg_vid_stepcmd 0),
     stepecode := pk_getInt P pkopt xvmdbg_vid_stepecode 0,
     singletd := pk_getInt P pkopt xvmdbg_vid_singletd 0,
     loadPatternOnStartup := pk_getInt P pkopt xvmdbg_vid_loadpatternonstartup 1,
     vdCRT := pk_getWString P pkopt xvmdbg_vid_VDCRT (lit ''xVMRuntime32.dll''),
     patternDir := pk_getWString P pkopt xvmdbg_vid_patternDir (lit ''./xVMDebug/patterns/''),
     enhancePreExecUI := pk_getInt P pkopt xvmdbg_vid_enhancePreExecUI 1,
     antiAntiDebug := pk_getInt P pkopt xvmdbg_vid_antiAntiDebug 0,
     enablexVMRuntime := pk_getInt P pkopt xvmdbg_vid_enablexVMRuntime 1,
     autoRemoveJmp := pk_getInt P pkopt xvmdbg_vid_autoremoveJmp 1,
     embedNotepadPP := pk_getInt P pkopt xvmdbg_vid_embednpp 0,
     scriptDir := pk_getWString P pkopt xvmdbg_vid_scriptdir (lit ''./xVMDebug/scripts/''),
     disableSafeSEH := pk_getInt P pkopt xvmdbg_vid_nosafeseh 1,
     showMemAccFlags := pk_getInt P pkopt xvmdbg_vid_showstackmac (mac_showwrite OR mac_showread),
     scp_libs := pk_getString P pkopt xvmdbg_vid_scplibs (lit ''user32;gdi32''),
     bProtectDrx := pk_getInt P pkopt xvmdbg_vid_protectdrx 1,
     bkopt_filter := pk_getInt P pkopt xvmdbg_vid_bkflags 0,
     bDirectImport := pk_getInt P pkopt xvmdbg_vid_diimport 1,
     bEnableApiSpy := pk_getInt P pkopt xvmdbg_vid_apispy 0,
     bStartupScript := pk_getInt P pkopt xvmdbg_vid_ldstartupscp 0,
     startupscp := pk_getWString P pkopt xvmdbg_vid_startscp [],
     bRemoteIDA := pk_getInt P pkopt xvmdbg_vid_remoteIDA 0,
     iStartupDLL := pk_getInt P pkopt xvmdbg_vid_startupdllmode 0,
     startupdll := pk_getWString P pkopt xvmdbg_vid_startupdll [],
     vmopt_maxRecords := pk_getInt P pkopt xvmdbg_vid_maxrecords 1000,
     vmopt_flags := pk_getInt P pkopt xvmdbg_vid_vmoptflags vmopt_flags_default,
     vmopt_rcfile := pk_getWString P pkopt xvmdbg_vid_rcfile (lit ''./xVMDebug/records/temp.xtrace''),
     vmopt_msfile := pk_getWString P pkopt xvmdbg_vid_msfile (lit ''./xVMDebug/scripts/vmexec.c''),
     vmopt_bkfile := pk_getWString P pkopt xvmdbg_vid_bkfile (lit ''./xVMDebug/records/temp.xblock''),
     vmopt_stopaddr := ucast (pk_getLongLong P pkopt xvmdbg_vid_vmstopaddr 0),
     bFreeStkEach := pk_getInt P pkopt xvmdbg_vid_freestkeach 0,
     bReleaseStub := pk_getInt P pkopt xvmdbg_vid_releasestub 0,
     recentPASM := load_recent (pk_fields P pkopt xvmdbg_vid_recentpasm) (recentPASM cfg),
     sbox_state := pk_getInt P pkopt xvmdbg_vid_sandboxstate 0,
     sbox_script := pk_getWString P pkopt xvmdbg_vid_sboxscp [],
     idasvr := pk_getWString P pkopt xvmdbg_vid_idasvrname (lit ''.'')\<rparr>"

section \<open>Saving\<close>

text \<open>One call of a \<open>put\<close> function, with its id and its argument; saving is the sequence of them.\<close>

datatype put_call =
    PutInt xvmdbg_cfg_vids int32
  | PutInt64 xvmdbg_cfg_vids "64 word"
  | PutString xvmdbg_cfg_vids cstring
  | PutWString xvmdbg_cfg_vids wstring

primrec put :: "'p packet_ops \<Rightarrow> put_call \<Rightarrow> 'p \<Rightarrow> 'p" where
  "put P (PutInt k v) p = pk_putInt P p k v"
| "put P (PutInt64 k v) p = pk_putInt64 P p k v"
| "put P (PutString k s) p = pk_putString P p k s"
| "put P (PutWString k s) p = pk_putWString P p k s"

definition save_calls :: "xvmdbg_config \<Rightarrow> put_call list" where
  "save_calls cfg =
    [
     PutInt xvmdbg_vid_maxpeline (maxPreExecLines cfg),
     PutInt xvmdbg_vid_maxiattline (maxIATTraceLines cfg),
     PutInt xvmdbg_vid_scpstacksize (scp_stackSize cfg),
     PutInt xvmdbg_vid_prdemultibranch (preExecDetectMultiBranch cfg),
     PutInt xvmdbg_vid_enableVD (enableVirtualDebug cfg),
     PutInt xvmdbg_vid_breakOnSys (breakOnLdrLoadDll cfg),
     PutInt xvmdbg_vid_checkctx (bIATTraceCheckCtx cfg),
     PutInt xvmdbg_vid_int3cmd (ucast (int3cmd cfg)),
     PutInt xvmdbg_vid_int3ecode (int3ecode cfg),
     PutInt xvmdbg_vid_stepcmd (ucast (stepcmd cfg)),
     PutInt xvmdbg_vid_stepecode (stepecode cfg),
     PutInt xvmdbg_vid_singletd (singletd cfg),
     PutInt xvmdbg_vid_enhancePreExecUI (enhancePreExecUI cfg),
     PutInt xvmdbg_vid_enablexVMRuntime (enablexVMRuntime cfg),
     PutInt xvmdbg_vid_autoremoveJmp (autoRemoveJmp cfg),
     PutInt xvmdbg_vid_loadpatternonstartup (loadPatternOnStartup cfg),
     PutInt xvmdbg_vid_embednpp (embedNotepadPP cfg),
     PutWString xvmdbg_vid_VDCRT (c_str (vdCRT cfg)),
     PutWString xvmdbg_vid_patternDir (c_str (patternDir cfg)),
     PutWString xvmdbg_vid_scriptdir (c_str (scriptDir cfg)),
     PutString xvmdbg_vid_scplibs (c_str (scp_libs cfg)),
     PutInt xvmdbg_vid_antiAntiDebug (antiAntiDebug cfg),
     PutInt xvmdbg_vid_nosafeseh (disableSafeSEH cfg),
     PutInt xvmdbg_vid_showstackmac (showMemAccFlags cfg),
     PutInt xvmdbg_vid_protectdrx (bProtectDrx cfg),
     PutInt xvmdbg_vid_bkflags (bkopt_filter cfg),
     PutInt xvmdbg_vid_diimport (bDirectImport cfg),
     PutInt xvmdbg_vid_apispy (bEnableApiSpy cfg),
     PutInt xvmdbg_vid_ldstartupscp (bStartupScript cfg),
     PutWString xvmdbg_vid_startscp (c_str (startupscp cfg)),
     PutInt xvmdbg_vid_remoteIDA (bRemoteIDA cfg),
     PutInt xvmdbg_vid_startupdllmode (iStartupDLL cfg),
     PutWString xvmdbg_vid_startupdll (c_str (startupdll cfg)),
     PutInt xvmdbg_vid_freestkeach (bFreeStkEach cfg),
     PutInt xvmdbg_vid_maxrecords (vmopt_maxRecords cfg),
     PutInt xvmdbg_vid_vmoptflags (vmopt_flags cfg),
     PutInt64 xvmdbg_vid_vmstopaddr (ucast (vmopt_stopaddr cfg)),
     PutWString xvmdbg_vid_rcfile (c_str (vmopt_rcfile cfg)),
     PutWString xvmdbg_vid_msfile (c_str (vmopt_msfile cfg)),
     PutWString xvmdbg_vid_bkfile (c_str (vmopt_bkfile cfg)),
     PutInt xvmdbg_vid_releasestub (bReleaseStub cfg)]
     @ map (\<lambda>s. PutWString xvmdbg_vid_recentpasm (c_str s)) (recentPASM cfg)
     @ [
     PutInt xvmdbg_vid_sandboxstate (sbox_state cfg),
     PutWString xvmdbg_vid_sboxscp (c_str (sbox_script cfg)),
     PutWString xvmdbg_vid_idasvrname (c_str (idasvr cfg))]"

definition savexvmcfg :: "'p packet_ops \<Rightarrow> 'p \<Rightarrow> xvmdbg_config \<Rightarrow> 'p" where
  "savexvmcfg P pkopt cfg = fold (put P) (save_calls cfg) pkopt"

text \<open>
  The file functions: the content of the file, if it could be read, and the content written, if it could
  be opened. A null configuration pointer is the error -1.
\<close>

definition loadxvmdbg_config ::
  "'p packet_ops \<Rightarrow> xvmdbg_config option \<Rightarrow> cbyte list \<Rightarrow> int \<times> xvmdbg_config option" where
  "loadxvmdbg_config P cfg content =
     (case cfg of
        None \<Rightarrow> (-1, None)
      | Some c \<Rightarrow>
          (let pkopt = (if content = [] then pk_empty P else pk_parse P content)
           in (0, Some (loadxvmcfg P pkopt c))))"

definition savexvmdbg_config ::
  "'p packet_ops \<Rightarrow> xvmdbg_config \<Rightarrow> bool \<Rightarrow> int \<times> cbyte list option" where
  "savexvmdbg_config P cfg opened =
     (if \<not> opened then (-1, None)
      else (0, Some (pk_data P (savexvmcfg P (pk_empty P) cfg))))"

section \<open>What the buffer promises\<close>

text \<open>
  The laws of the buffer, over the sequence of calls that filled it: a field put once is read back, the
  fields of a repeated id are visited in order, and a field never put reads as the default. A string is
  stored up to its terminating zero.
\<close>

primrec call_id :: "put_call \<Rightarrow> xvmdbg_cfg_vids" where
  "call_id (PutInt k v) = k"
| "call_id (PutInt64 k v) = k"
| "call_id (PutString k s) = k"
| "call_id (PutWString k s) = k"

definition calls_of :: "xvmdbg_cfg_vids \<Rightarrow> put_call list \<Rightarrow> put_call list" where
  "calls_of k cs = filter (\<lambda>c. call_id c = k) cs"

definition packet_laws :: "'p packet_ops \<Rightarrow> bool" where
  "packet_laws P \<longleftrightarrow> (\<forall>cs k. let p = fold (put P) cs (pk_empty P) in
     (\<forall>v d. calls_of k cs = [PutInt k v] \<longrightarrow> pk_getInt P p k d = v)
     \<and> (\<forall>v d. calls_of k cs = [PutInt64 k v] \<longrightarrow> pk_getLongLong P p k d = v)
     \<and> (\<forall>s d. calls_of k cs = [PutString k s] \<longrightarrow> pk_getString P p k d = s)
     \<and> (\<forall>s d. calls_of k cs = [PutWString k s] \<longrightarrow> pk_getWString P p k d = s)
     \<and> (\<forall>ss. calls_of k cs = map (PutWString k) ss \<longrightarrow> pk_fields P p k = ss)
     \<and> (calls_of k cs = [] \<longrightarrow> (\<forall>d. pk_getInt P p k d = d) \<and> (\<forall>d. pk_getLongLong P p k d = d)
          \<and> (\<forall>d. pk_getString P p k d = d) \<and> (\<forall>d. pk_getWString P p k d = d)))"

lemma packet_lawsD:
  assumes "packet_laws P"
  defines "p \<equiv> \<lambda>cs. fold (put P) cs (pk_empty P)"
  shows "calls_of k cs = [PutInt k v] \<Longrightarrow> pk_getInt P (p cs) k d = v"
    and "calls_of k cs = [PutInt64 k w] \<Longrightarrow> pk_getLongLong P (p cs) k e = w"
    and "calls_of k cs = [PutString k s] \<Longrightarrow> pk_getString P (p cs) k f = s"
    and "calls_of k cs = [PutWString k t] \<Longrightarrow> pk_getWString P (p cs) k g = t"
    and "calls_of k cs = map (PutWString k) ss \<Longrightarrow> pk_fields P (p cs) k = ss"
    and "calls_of k cs = [] \<Longrightarrow> pk_getInt P (p cs) k d = d"
    and "calls_of k cs = [] \<Longrightarrow> pk_getLongLong P (p cs) k e = e"
    and "calls_of k cs = [] \<Longrightarrow> pk_getString P (p cs) k f = f"
    and "calls_of k cs = [] \<Longrightarrow> pk_getWString P (p cs) k g = g"
    and "calls_of k cs = [] \<Longrightarrow> pk_fields P (p cs) k = []"
  using assms(1) unfolding packet_laws_def Let_def p_def by (blast | force)+

section \<open>Saving and loading\<close>

text \<open>The strings of the settings hold no zero, and the array of recent files has its size.\<close>

definition storable :: "xvmdbg_config \<Rightarrow> bool" where
  "storable cfg \<longleftrightarrow> length (recentPASM cfg) = DEFAULT_RECENTPASM_NUM
     \<and> 0 \<notin> set (scp_libs cfg)
     \<and> (\<forall>s \<in> set (recentPASM cfg). 0 \<notin> set s)
     \<and> (\<forall>s \<in> {vdCRT cfg, patternDir cfg, scriptDir cfg, startupscp cfg, startupdll cfg,
              vmopt_rcfile cfg, vmopt_msfile cfg, vmopt_bkfile cfg, sbox_script cfg, idasvr cfg}.
          0 \<notin> set s)"

lemma c_str_id [simp]: "0 \<notin> set s \<Longrightarrow> c_str s = s"
  by (auto simp: c_str_def takeWhile_eq_all_conv)

lemma calls_of_recent [simp]:
  "calls_of k (map (\<lambda>s. PutWString j (g s)) ss)
    = (if j = k then map (\<lambda>s. PutWString k (g s)) ss else [])"
  by (induction ss) (simp_all add: calls_of_def)

lemma calls_of_simps [simp]:
  "calls_of k [] = []"
  "calls_of k (c # cs) = (if call_id c = k then c # calls_of k cs else calls_of k cs)"
  "calls_of k (cs @ ds) = calls_of k cs @ calls_of k ds"
  by (simp_all add: calls_of_def)

lemma calls_of_save:
  "calls_of xvmdbg_vid_maxpeline (save_calls cfg) = [PutInt xvmdbg_vid_maxpeline (maxPreExecLines cfg)]"
  "calls_of xvmdbg_vid_maxiattline (save_calls cfg) = [PutInt xvmdbg_vid_maxiattline (maxIATTraceLines cfg)]"
  "calls_of xvmdbg_vid_scpstacksize (save_calls cfg) = [PutInt xvmdbg_vid_scpstacksize (scp_stackSize cfg)]"
  "calls_of xvmdbg_vid_prdemultibranch (save_calls cfg) = [PutInt xvmdbg_vid_prdemultibranch (preExecDetectMultiBranch cfg)]"
  "calls_of xvmdbg_vid_enableVD (save_calls cfg) = [PutInt xvmdbg_vid_enableVD (enableVirtualDebug cfg)]"
  "calls_of xvmdbg_vid_breakOnSys (save_calls cfg) = [PutInt xvmdbg_vid_breakOnSys (breakOnLdrLoadDll cfg)]"
  "calls_of xvmdbg_vid_checkctx (save_calls cfg) = [PutInt xvmdbg_vid_checkctx (bIATTraceCheckCtx cfg)]"
  "calls_of xvmdbg_vid_int3cmd (save_calls cfg) = [PutInt xvmdbg_vid_int3cmd (ucast (int3cmd cfg))]"
  "calls_of xvmdbg_vid_int3ecode (save_calls cfg) = [PutInt xvmdbg_vid_int3ecode (int3ecode cfg)]"
  "calls_of xvmdbg_vid_stepcmd (save_calls cfg) = [PutInt xvmdbg_vid_stepcmd (ucast (stepcmd cfg))]"
  "calls_of xvmdbg_vid_stepecode (save_calls cfg) = [PutInt xvmdbg_vid_stepecode (stepecode cfg)]"
  "calls_of xvmdbg_vid_singletd (save_calls cfg) = [PutInt xvmdbg_vid_singletd (singletd cfg)]"
  "calls_of xvmdbg_vid_enhancePreExecUI (save_calls cfg) = [PutInt xvmdbg_vid_enhancePreExecUI (enhancePreExecUI cfg)]"
  "calls_of xvmdbg_vid_enablexVMRuntime (save_calls cfg) = [PutInt xvmdbg_vid_enablexVMRuntime (enablexVMRuntime cfg)]"
  "calls_of xvmdbg_vid_autoremoveJmp (save_calls cfg) = [PutInt xvmdbg_vid_autoremoveJmp (autoRemoveJmp cfg)]"
  "calls_of xvmdbg_vid_loadpatternonstartup (save_calls cfg) = [PutInt xvmdbg_vid_loadpatternonstartup (loadPatternOnStartup cfg)]"
  "calls_of xvmdbg_vid_embednpp (save_calls cfg) = [PutInt xvmdbg_vid_embednpp (embedNotepadPP cfg)]"
  "calls_of xvmdbg_vid_VDCRT (save_calls cfg) = [PutWString xvmdbg_vid_VDCRT (c_str (vdCRT cfg))]"
  "calls_of xvmdbg_vid_patternDir (save_calls cfg) = [PutWString xvmdbg_vid_patternDir (c_str (patternDir cfg))]"
  "calls_of xvmdbg_vid_scriptdir (save_calls cfg) = [PutWString xvmdbg_vid_scriptdir (c_str (scriptDir cfg))]"
  "calls_of xvmdbg_vid_scplibs (save_calls cfg) = [PutString xvmdbg_vid_scplibs (c_str (scp_libs cfg))]"
  "calls_of xvmdbg_vid_antiAntiDebug (save_calls cfg) = [PutInt xvmdbg_vid_antiAntiDebug (antiAntiDebug cfg)]"
  "calls_of xvmdbg_vid_nosafeseh (save_calls cfg) = [PutInt xvmdbg_vid_nosafeseh (disableSafeSEH cfg)]"
  "calls_of xvmdbg_vid_showstackmac (save_calls cfg) = [PutInt xvmdbg_vid_showstackmac (showMemAccFlags cfg)]"
  "calls_of xvmdbg_vid_protectdrx (save_calls cfg) = [PutInt xvmdbg_vid_protectdrx (bProtectDrx cfg)]"
  "calls_of xvmdbg_vid_bkflags (save_calls cfg) = [PutInt xvmdbg_vid_bkflags (bkopt_filter cfg)]"
  "calls_of xvmdbg_vid_diimport (save_calls cfg) = [PutInt xvmdbg_vid_diimport (bDirectImport cfg)]"
  "calls_of xvmdbg_vid_apispy (save_calls cfg) = [PutInt xvmdbg_vid_apispy (bEnableApiSpy cfg)]"
  "calls_of xvmdbg_vid_ldstartupscp (save_calls cfg) = [PutInt xvmdbg_vid_ldstartupscp (bStartupScript cfg)]"
  "calls_of xvmdbg_vid_startscp (save_calls cfg) = [PutWString xvmdbg_vid_startscp (c_str (startupscp cfg))]"
  "calls_of xvmdbg_vid_remoteIDA (save_calls cfg) = [PutInt xvmdbg_vid_remoteIDA (bRemoteIDA cfg)]"
  "calls_of xvmdbg_vid_startupdllmode (save_calls cfg) = [PutInt xvmdbg_vid_startupdllmode (iStartupDLL cfg)]"
  "calls_of xvmdbg_vid_startupdll (save_calls cfg) = [PutWString xvmdbg_vid_startupdll (c_str (startupdll cfg))]"
  "calls_of xvmdbg_vid_freestkeach (save_calls cfg) = [PutInt xvmdbg_vid_freestkeach (bFreeStkEach cfg)]"
  "calls_of xvmdbg_vid_maxrecords (save_calls cfg) = [PutInt xvmdbg_vid_maxrecords (vmopt_maxRecords cfg)]"
  "calls_of xvmdbg_vid_vmoptflags (save_calls cfg) = [PutInt xvmdbg_vid_vmoptflags (vmopt_flags cfg)]"
  "calls_of xvmdbg_vid_vmstopaddr (save_calls cfg) = [PutInt64 xvmdbg_vid_vmstopaddr (ucast (vmopt_stopaddr cfg))]"
  "calls_of xvmdbg_vid_rcfile (save_calls cfg) = [PutWString xvmdbg_vid_rcfile (c_str (vmopt_rcfile cfg))]"
  "calls_of xvmdbg_vid_msfile (save_calls cfg) = [PutWString xvmdbg_vid_msfile (c_str (vmopt_msfile cfg))]"
  "calls_of xvmdbg_vid_bkfile (save_calls cfg) = [PutWString xvmdbg_vid_bkfile (c_str (vmopt_bkfile cfg))]"
  "calls_of xvmdbg_vid_releasestub (save_calls cfg) = [PutInt xvmdbg_vid_releasestub (bReleaseStub cfg)]"
  "calls_of xvmdbg_vid_recentpasm (save_calls cfg) = map (PutWString xvmdbg_vid_recentpasm) (map c_str (recentPASM cfg))"
  "calls_of xvmdbg_vid_sandboxstate (save_calls cfg) = [PutInt xvmdbg_vid_sandboxstate (sbox_state cfg)]"
  "calls_of xvmdbg_vid_sboxscp (save_calls cfg) = [PutWString xvmdbg_vid_sboxscp (c_str (sbox_script cfg))]"
  "calls_of xvmdbg_vid_idasvrname (save_calls cfg) = [PutWString xvmdbg_vid_idasvrname (c_str (idasvr cfg))]"
  by (simp_all add: save_calls_def)

lemma ucast_ucast_8_32 [simp]: "ucast (ucast (w :: 8 word) :: 32 word) = w"
  by (simp add: ucast_up_ucast_id is_up_def source_size target_size)

lemma ucast_ucast_32_64 [simp]: "ucast (ucast (w :: 32 word) :: 64 word) = w"
  by (simp add: ucast_up_ucast_id is_up_def source_size target_size)

lemma load_save:
  assumes P: "packet_laws P" and cfg: "storable cfg" and old: "length (recentPASM old) = DEFAULT_RECENTPASM_NUM"
  shows "loadxvmcfg P (savexvmcfg P (pk_empty P) cfg) old = cfg"
proof -
  have recent: "map c_str (recentPASM cfg) = recentPASM cfg"
    using cfg by (auto simp: storable_def intro!: map_idI)
  show ?thesis
    using cfg old
    by (intro xvmdbg_config.equality)
      (simp_all add: loadxvmcfg_def savexvmcfg_def storable_def load_recent_def
        packet_lawsD(1-5) [OF P] calls_of_save recent)
qed

end
