(* ===== verification/X86Interface.thy ===== *)
theory X86Interface
  imports Prelude
begin

text \<open>
  The assembler and disassembler library \<open>ncasm::x86\<close> is not part of the repository: the sources
  include \<open>ncvm/ncasm/ncasm86.h\<close> and call it. It is a parameter of the model, the record
  \<open>x86_env\<close> below, which holds the constants and functions the sources use of it. The structures
  \<open>ncasm::x86::operand\<close> and \<open>ncasm::x86::inst\<close> are given with the members the sources read or write.
\<close>

section \<open>Decoded instructions\<close>

record x86operand =
  xo_type :: int
  xo_index :: int
  xo_size :: int

record x86inst =
  xi_opcode :: int
  xi_size :: int
  xi_flags :: "32 word"
  xi_base :: int
  xi_scale :: int
  xi_disp :: "64 word"
  xi_imm :: "64 word"
  xi_ops :: "nat \<Rightarrow> x86operand"

type_synonym byte = "8 word"

section \<open>The library as a parameter\<close>

record x86_env =
  \<comment> \<open>number of operands of an instruction\<close>
  OPERANDS_NO :: nat
  \<comment> \<open>operand types\<close>
  O_NONE :: int
  O_REG :: int
  O_IMM :: int
  O_IMM1 :: int
  O_IMM2 :: int
  O_PC :: int
  O_PTR :: int
  O_MEM :: int
  O_SMEM :: int
  O_DISP :: int
  \<comment> \<open>no register; the undefined and the no-operation mnemonic\<close>
  R_NONE :: int
  I_UNDEFINED :: int
  I_NOP :: int
  \<comment> \<open>the register of the given width that shares storage with a register\<close>
  get_relate_reg :: "int \<Rightarrow> int \<Rightarrow> int"
  \<comment> \<open>equality of operand \<open>i\<close> of one instruction and operand \<open>j\<close> of another\<close>
  is_same_operand :: "x86inst \<Rightarrow> nat \<Rightarrow> x86inst \<Rightarrow> nat \<Rightarrow> bool"
  \<comment> \<open>\<open>FLAGSIZE_TO_BITS(FLAG_GET_OPSIZE(flags))\<close> and \<open>FLAG_SET_OPSIZE(ins, k)\<close>\<close>
  flags_opsize_bits :: "32 word \<Rightarrow> int"
  flag_set_opsize :: "32 word \<Rightarrow> int \<Rightarrow> 32 word"
  \<comment> \<open>the assembler: \<open>set_op(&ins, i, type, imm, size, base, index, scale)\<close>,
     \<open>set_inst_mnemonic\<close>, and \<open>inst_to_bc\<close>: the bytes, or the error code\<close>
  set_op :: "x86inst \<Rightarrow> nat \<Rightarrow> int \<Rightarrow> 64 word \<Rightarrow> int \<Rightarrow> int \<Rightarrow> int \<Rightarrow> int \<Rightarrow> x86inst"
  set_inst_mnemonic :: "x86inst \<Rightarrow> int \<Rightarrow> x86inst"
  inst_to_bc :: "x86inst \<Rightarrow> int \<Rightarrow> int + byte list"
  \<comment> \<open>the disassembler on the bytes at an address, in 32-bit mode\<close>
  disasm :: "byte list \<Rightarrow> 32 word \<Rightarrow> x86inst"

text \<open>
  Register operands, immediates and memory operands, as the \<open>case\<close> labels of the sources group them.
\<close>

definition is_imm_type :: "x86_env \<Rightarrow> int \<Rightarrow> bool" where
  "is_imm_type E t \<longleftrightarrow> t = O_IMM E \<or> t = O_IMM1 E \<or> t = O_IMM2 E \<or> t = O_PC E \<or> t = O_PTR E"

definition is_mem_type :: "x86_env \<Rightarrow> int \<Rightarrow> bool" where
  "is_mem_type E t \<longleftrightarrow> t = O_MEM E \<or> t = O_SMEM E \<or> t = O_DISP E"

end
