(* ===== verification/PatternData.thy ===== *)
theory PatternData
  imports X86Interface
begin

text \<open>
  The data of the pattern engine (\<open>patternAsm.h\<close>): pattern statements, instruction alternatives and
  their operand matchers, pattern variables, and a pattern sequence with its run-time part.
  A C \<open>int\<close> is an \<open>int\<close> where the code only compares, copies and combines bit fields of it; flag words
  and 64-bit immediates are words. \<open>NAvlList\<close> and \<open>NLinkedList\<close> are the keyed and the
  sequential container of the program's base library: a map and a list.
\<close>

section \<open>Statements and operands\<close>

datatype patternMode = mode_sequence | mode_reverse

datatype pattern_inst_type =
    pattern_inst_none
  | pattern_inst_instruction
  | pattern_inst_control
  | pattern_inst_express
  | pattern_inst_memexpr

datatype pattern_op_type =
    pattern_op_none
  | pattern_op_any
  | pattern_op_reg
  | pattern_op_imm
  | pattern_op_mem
  | pattern_op_size
  | pattern_op_mnemonic
  | pattern_op_memexpr
  | pattern_op_explicit

text \<open>The numbers of the enumeration \<open>pattern_op_type\<close>, which variable ids are made of.\<close>

primrec op_type_code :: "pattern_op_type \<Rightarrow> int" where
  "op_type_code pattern_op_none = 0"
| "op_type_code pattern_op_any = 1"
| "op_type_code pattern_op_reg = 2"
| "op_type_code pattern_op_imm = 3"
| "op_type_code pattern_op_mem = 4"
| "op_type_code pattern_op_size = 5"
| "op_type_code pattern_op_mnemonic = 6"
| "op_type_code pattern_op_memexpr = 7"
| "op_type_code pattern_op_explicit = 8"

definition op_varid_base :: int where
  "op_varid_base = 2 ^ 24"

record pasm_operand =
  pa_type :: int
  pa_size :: int
  pa_opcode :: int
  pa_base :: int
  pa_index :: int
  pa_dispvar :: int
  pa_scale :: int
  pa_seg :: int
  pa_imm :: "64 word"

text \<open>The constructor \<open>pasm_operand()\<close>.\<close>

definition new_pasm_operand :: "x86_env \<Rightarrow> pasm_operand" where
  "new_pasm_operand E =
     \<lparr>pa_type = O_NONE E, pa_size = 0, pa_opcode = I_UNDEFINED E, pa_base = R_NONE E,
      pa_index = R_NONE E, pa_dispvar = 0, pa_scale = 0, pa_seg = 0, pa_imm = 0\<rparr>"

definition PATTERN_CFLAG_NONE :: "32 word" where "PATTERN_CFLAG_NONE = 0"
definition PATTERN_CFLAG_NOREF :: "32 word" where "PATTERN_CFLAG_NOREF = 0x1"
definition PATTERN_CFLAG_NOT :: "32 word" where "PATTERN_CFLAG_NOT = 0x2"
definition PATTERN_CFLAG_INALLOP :: "32 word" where "PATTERN_CFLAG_INALLOP = 0x4"
definition PATTERN_CFLAG_REF :: "32 word" where "PATTERN_CFLAG_REF = 0x8"
definition PATTERN_CFLAG_STRICT :: "32 word" where "PATTERN_CFLAG_STRICT = 0x10"
definition PATTERN_CFLAG_8BIT :: "32 word" where "PATTERN_CFLAG_8BIT = 0x20"
definition PATTERN_CFLAG_16BIT :: "32 word" where "PATTERN_CFLAG_16BIT = 0x40"
definition PATTERN_CFLAG_32BIT :: "32 word" where "PATTERN_CFLAG_32BIT = 0x80"
definition PATTERN_CFLAG_64BIT :: "32 word" where "PATTERN_CFLAG_64BIT = 0x100"

lemmas cflag_defs =
  PATTERN_CFLAG_NONE_def PATTERN_CFLAG_NOREF_def PATTERN_CFLAG_NOT_def PATTERN_CFLAG_INALLOP_def
  PATTERN_CFLAG_REF_def PATTERN_CFLAG_STRICT_def PATTERN_CFLAG_8BIT_def PATTERN_CFLAG_16BIT_def
  PATTERN_CFLAG_32BIT_def PATTERN_CFLAG_64BIT_def

record pattern_op =
  po_type :: pattern_op_type
  po_id :: int
  po_szid :: int
  po_cflags :: "32 word"

record pattern_inst_body =
  ib_ins :: x86inst
  ib_szid :: int
  ib_mnemonicid :: int
  ib_cflags :: "32 word"
  ib_ops :: "nat \<Rightarrow> pattern_op"

text \<open>
  The constructor \<open>pattern_inst_body()\<close>; the embedded instruction \<open>ins\<close> has a constructor of
  its own in the assembler library.
\<close>

definition new_pattern_op :: pattern_op where
  "new_pattern_op = \<lparr>po_type = pattern_op_none, po_id = 0, po_szid = 0, po_cflags = 0\<rparr>"

definition new_pattern_inst_body :: "x86inst \<Rightarrow> pattern_inst_body" where
  "new_pattern_inst_body ins =
     \<lparr>ib_ins = ins, ib_szid = 0, ib_mnemonicid = 0, ib_cflags = PATTERN_CFLAG_NONE,
      ib_ops = (\<lambda>i. new_pattern_op)\<rparr>"

section \<open>Expressions\<close>

text \<open>
  The expression tree of the expression parser (\<open>nexpress.h\<close>, not in the repository) as
  \<open>calculateExpress\<close> reads it: a node is an immediate, a floating-point constant, a variable with
  its name, or an operator with optional operands; every node carries flags. The C++ conversion of a
  floating-point constant to \<open>int64_t\<close> is part of the node.
\<close>

datatype nexpr_oper =
    nexpr_oper_not | nexpr_oper_and | nexpr_oper_or | nexpr_oper_xor | nexpr_oper_shl
  | nexpr_oper_shr | nexpr_oper_add | nexpr_oper_sub | nexpr_oper_mul | nexpr_oper_div
  | nexpr_oper_mod | nexpr_oper_other

datatype nexpr_expr =
    nexpr_value_imm (nx_not: bool) (nx_neg: bool) "64 word"
  | nexpr_value_float (nx_not: bool) (nx_neg: bool) "64 word"
  | nexpr_value_var (nx_not: bool) (nx_neg: bool) string
  | nexpr_node (nx_not: bool) (nx_neg: bool) nexpr_oper "nexpr_expr option" "nexpr_expr option"

section \<open>Statements of a pattern\<close>

definition PATTERN_FLAG_NOESPCHANGE :: "32 word" where "PATTERN_FLAG_NOESPCHANGE = 0x1"
definition PATTERN_FLAG_NOEFLAGSCHG :: "32 word" where "PATTERN_FLAG_NOEFLAGSCHG = 0x2"
definition PATTERN_FLAG_NOT :: "32 word" where "PATTERN_FLAG_NOT = 0x4"
definition PATTERN_FLAG_LESSMATCH :: "32 word" where "PATTERN_FLAG_LESSMATCH = 0x8"

lemmas pflag_defs =
  PATTERN_FLAG_NOESPCHANGE_def PATTERN_FLAG_NOEFLAGSCHG_def PATTERN_FLAG_NOT_def
  PATTERN_FLAG_LESSMATCH_def

text \<open>
  \<open>userdata\<close> is the caller's opaque pointer: the identity of a trace record, or null.
\<close>

record patternInst =
  pi_type :: pattern_inst_type
  pi_flags :: "32 word"
  pi_insts :: "pattern_inst_body list"
  pi_rps :: "pattern_inst_body list"
  pi_minc :: int
  pi_maxc :: int
  pi_userdata :: "nat option"
  pi_matched_count :: int
  pi_varid :: int
  pi_expr :: "nexpr_expr option"
  pi_memexpr :: "pasm_operand option"
  pi_mnemops :: "int list"

text \<open>
  \<open>newinst(type)\<close> appends a statement built by \<open>patternInst()\<close> and sets its type. The
  constructor leaves \<open>varid\<close> and \<open>matched_count\<close> uninitialised: the arguments \<open>v\<close> and \<open>m\<close>.
\<close>

definition new_patternInst :: "int \<Rightarrow> int \<Rightarrow> patternInst" where
  "new_patternInst v m =
     \<lparr>pi_type = pattern_inst_none, pi_flags = 0, pi_insts = [], pi_rps = [], pi_minc = 1,
      pi_maxc = 1, pi_userdata = None, pi_matched_count = m, pi_varid = v, pi_expr = None,
      pi_memexpr = None, pi_mnemops = []\<rparr>"

section \<open>The run-time part and the sequence\<close>

definition MAX_VAR_NEWONCE :: nat where "MAX_VAR_NEWONCE = 16"

text \<open>
  \<open>crt_inst\<close> is the position of the statement the matcher stands at (a pointer into the statement
  list, null at the end). \<open>navar\<close> and the array \<open>nvars\<close> are one list: the ids noted so
  far, of which the array has room for \<open>MAX_VAR_NEWONCE\<close>.
\<close>

record seqRuntime =
  crt_inst :: "nat option"
  crt_count :: int
  crt_vars :: "int \<rightharpoonup> pasm_operand"
  crt_opvars :: "int \<rightharpoonup> pasm_operand"
  crt_nvars :: "int list"

definition PATTERN_SEQ_FLAG_NONE :: "32 word" where "PATTERN_SEQ_FLAG_NONE = 0"
definition PATTERN_SEQ_FLAG_OFF :: "32 word" where "PATTERN_SEQ_FLAG_OFF = 0x1"

record patternSequence =
  ps_id :: int
  ps_mode :: patternMode
  ps_flags :: "32 word"
  ps_maximumInst :: int
  ps_insts :: "patternInst list"
  ps_crt :: seqRuntime
  ps_prev :: "nat option"
  ps_next :: "nat option"
  ps_comment :: string
  ps_pattern :: string
  ps_uuid :: int
  ps_dyops :: "int \<rightharpoonup> pasm_operand"
  ps_ndyops :: nat

definition new_seqRuntime :: seqRuntime where
  "new_seqRuntime = \<lparr>crt_inst = None, crt_count = 0, crt_vars = Map.empty,
     crt_opvars = Map.empty, crt_nvars = []\<rparr>"

text \<open>
  The constructor \<open>patternSequence()\<close>. \<open>id\<close> and \<open>prev\<close> are left uninitialised by it:
  the arguments \<open>i\<close> and \<open>p\<close>.
\<close>

definition new_patternSequence :: "int \<Rightarrow> nat option \<Rightarrow> patternSequence" where
  "new_patternSequence i p =
     \<lparr>ps_id = i, ps_mode = mode_sequence, ps_flags = PATTERN_SEQ_FLAG_NONE, ps_maximumInst = 30,
      ps_insts = [], ps_crt = new_seqRuntime, ps_prev = p, ps_next = None, ps_comment = [],
      ps_pattern = [], ps_uuid = -1, ps_dyops = Map.empty, ps_ndyops = 0\<rparr>"

definition newinst :: "patternSequence \<Rightarrow> pattern_inst_type \<Rightarrow> int \<Rightarrow> int \<Rightarrow> patternSequence" where
  "newinst seq t v m =
     seq\<lparr>ps_insts := ps_insts seq @ [(new_patternInst v m)\<lparr>pi_type := t\<rparr>]\<rparr>"

section \<open>Variable ids\<close>

definition varid :: "pattern_op_type \<Rightarrow> int \<Rightarrow> int" where
  "varid t i = (push_bit 24 (op_type_code t)) OR i"

text \<open>
  A numbered variable lies above every register number and size the assembler uses, and two
  variables are the same exactly when their kind and number are.
\<close>

lemma op_type_code_range: "0 \<le> op_type_code t" "op_type_code t \<le> 8"
  by (cases t; simp)+

lemma op_type_code_inject [simp]: "op_type_code t = op_type_code u \<longleftrightarrow> t = u"
  by (cases t; cases u; simp)

lemma varid_add:
  assumes "0 \<le> i" "i < op_varid_base"
  shows "varid t i = op_type_code t * op_varid_base + i"
  using assms push_bit_OR_add [of i 24 "op_type_code t"] by (simp add: varid_def op_varid_base_def)

lemma varid_ge_base:
  assumes "0 \<le> i" "i < op_varid_base" "t \<noteq> pattern_op_none"
  shows "op_varid_base \<le> varid t i"
  using assms by (cases t) (simp_all add: varid_add op_varid_base_def)

lemma varid_inject:
  assumes "0 \<le> i" "i < op_varid_base" "0 \<le> j" "j < op_varid_base"
  shows "varid t i = varid u j \<longleftrightarrow> t = u \<and> i = j"
proof
  assume eq: "varid t i = varid u j"
  then have e: "op_type_code t * op_varid_base + i = op_type_code u * op_varid_base + j"
    using assms by (simp add: varid_add)
  then have "(op_type_code t * op_varid_base + i) div op_varid_base
      = (op_type_code u * op_varid_base + j) div op_varid_base"
    by simp
  then have "op_type_code t = op_type_code u"
    using assms by (simp add: op_varid_base_def)
  with e show "t = u \<and> i = j" by simp
qed simp

end
