(* ===== verification/PatternVars.thy ===== *)
theory PatternVars
  imports PatternData
begin

text \<open>
  The variables of a pattern: \<open>checkAndSaveVar\<close> binds a variable at its first use and compares at
  later ones, \<open>resolveVar\<close> replaces the variables inside a memory expression by what they are
  bound to, and \<open>saveMemoryExprVar\<close> binds the variables of a memory expression that matched.
  The pointers \<open>seq->crt.vars.find(id)\<close> are reads of the map at \<open>id\<close>, and an assignment through
  one is an update of the map at that id.
\<close>

section \<open>New variables\<close>

text \<open>
  \<open>seq->crt.nvars[seq->crt.navar++] = vid\<close> has no bound check: past the end of the array it is a
  fault. \<open>add_var\<close> is \<open>new_back(vid)\<close> with the note and the assignments to the new entry.
\<close>

definition note_var :: "seqRuntime \<Rightarrow> int \<Rightarrow> (unit, seqRuntime) outcome" where
  "note_var crt vid =
     (if length (crt_nvars crt) < MAX_VAR_NEWONCE
      then Inr ((), crt\<lparr>crt_nvars := crt_nvars crt @ [vid]\<rparr>)
      else Inl Array_overflow)"

definition set_var :: "seqRuntime \<Rightarrow> int \<Rightarrow> pasm_operand \<Rightarrow> seqRuntime" where
  "set_var crt vid v = crt\<lparr>crt_vars := (crt_vars crt)(vid \<mapsto> v)\<rparr>"

definition add_var :: "seqRuntime \<Rightarrow> int \<Rightarrow> pasm_operand \<Rightarrow> (unit, seqRuntime) outcome" where
  "add_var crt vid v = note_var (set_var crt vid v) vid"

section \<open>Resolving variables\<close>

text \<open>
  The loops \<open>while (op->f >= op_varid_base) { asmop = vars.find(op->f); if (asmop) \<dots> else break; }\<close>
  of \<open>resolveVar\<close>: \<open>key\<close> is the member the loop looks at, \<open>nxt\<close> the operand after one turn, if
  the variable is bound. The loop need not end (a variable may be bound to itself), so
  the result is an option.
\<close>

partial_function (option) chase ::
  "(pasm_operand \<Rightarrow> int) \<Rightarrow> (pasm_operand \<Rightarrow> pasm_operand option) \<Rightarrow> pasm_operand
    \<Rightarrow> pasm_operand option" where
  "chase key nxt op =
     (if op_varid_base \<le> key op
      then (case nxt op of Some op' \<Rightarrow> chase key nxt op' | None \<Rightarrow> Some op)
      else Some op)"

declare chase.simps [code]

definition chaseF ::
  "(pasm_operand \<Rightarrow> int) \<Rightarrow> (pasm_operand \<Rightarrow> pasm_operand \<Rightarrow> pasm_operand)
    \<Rightarrow> seqRuntime \<Rightarrow> pasm_operand \<Rightarrow> fault + pasm_operand" where
  "chaseF key assign crt op =
     (case chase key (\<lambda>o1. map_option (assign o1) (crt_vars crt (key o1))) op of
        None \<Rightarrow> Inl Diverges
      | Some op' \<Rightarrow> Inr op')"

text \<open>
  \<open>resolveVar\<close>. When the size variable named by the operand is not bound, the code tests
  \<open>op1->size\<close> with \<open>op1\<close> null. The return value is 0 always, and nothing but \<open>op\<close> is written.
\<close>

definition resolveVar :: "seqRuntime \<Rightarrow> pasm_operand \<Rightarrow> pattern_op \<Rightarrow> fault + pasm_operand" where
  "resolveVar crt op pop =
     bindF (chaseF pa_size (\<lambda>o1 a. o1\<lparr>pa_size := pa_size a\<rparr>) crt op) (\<lambda>op1.
     bindF (if 0 < po_szid pop
            then (case crt_vars crt (varid pattern_op_size (po_szid pop)) of
                    None \<Rightarrow> Inl Null_deref
                  | Some v \<Rightarrow> Inr (op1\<lparr>pa_size := pa_size v\<rparr>))
            else Inr op1) (\<lambda>op2.
     bindF (chaseF pa_base (\<lambda>o1 a. o1\<lparr>pa_base := pa_base a\<rparr>) crt op2) (\<lambda>op3.
     bindF (chaseF pa_index (\<lambda>o1 a. o1\<lparr>pa_index := pa_index a\<rparr>) crt op3) (\<lambda>op4.
     chaseF pa_dispvar (\<lambda>o1 a. o1\<lparr>pa_dispvar := pa_dispvar a, pa_imm := pa_imm a\<rparr>) crt op4))))"

section \<open>Binding and comparing\<close>

definition checkAndSaveVar_reg ::
  "x86_env \<Rightarrow> seqRuntime \<Rightarrow> pattern_op \<Rightarrow> x86operand \<Rightarrow> (int, seqRuntime) outcome" where
  "checkAndSaveVar_reg E crt pop iop =
     (let vid = varid (po_type pop) (po_id pop)
      in case crt_vars crt vid of
        None \<Rightarrow>
          if has (po_cflags pop) PATTERN_CFLAG_NOREF \<or> has (po_cflags pop) PATTERN_CFLAG_REF
          then Inr (-5, crt)
          else bindS (add_var crt vid ((new_pasm_operand E)
                 \<lparr>pa_type := O_REG E, pa_base := xo_index iop, pa_size := xo_size iop\<rparr>))
               (\<lambda>_ crt'. Inr (1, crt'))
      | Some op \<Rightarrow>
          if has (po_cflags pop) PATTERN_CFLAG_NOREF then
            (if get_relate_reg E (pa_base op) 32 = get_relate_reg E (xo_index iop) 32
             then Inr (-5, crt) else Inr (1, crt))
          else if has (po_cflags pop) PATTERN_CFLAG_REF then
            (if get_relate_reg E (pa_base op) 32 \<noteq> get_relate_reg E (xo_index iop) 32
             then Inr (-6, crt) else Inr (1, crt))
          else
            (if xo_index iop \<noteq> pa_base op \<or> xo_size iop \<noteq> pa_size op
             then Inr (-3, crt) else Inr (1, crt)))"

definition checkAndSaveVar_imm ::
  "x86_env \<Rightarrow> seqRuntime \<Rightarrow> pattern_op \<Rightarrow> x86inst \<Rightarrow> x86operand \<Rightarrow> (int, seqRuntime) outcome" where
  "checkAndSaveVar_imm E crt pop ins iop =
     (let vid = varid (po_type pop) (po_id pop)
      in case crt_vars crt vid of
        None \<Rightarrow>
          if has (po_cflags pop) PATTERN_CFLAG_NOREF \<or> has (po_cflags pop) PATTERN_CFLAG_REF
          then Inr (-5, crt)
          else bindS (add_var crt vid ((new_pasm_operand E)
                 \<lparr>pa_type := O_IMM E, pa_imm := xi_imm ins, pa_size := xo_size iop\<rparr>))
               (\<lambda>_ crt'. Inr (1, crt'))
      | Some op \<Rightarrow>
          if has (po_cflags pop) PATTERN_CFLAG_REF then Inr (-8, crt)
          else if has (po_cflags pop) PATTERN_CFLAG_NOREF then Inr (1, crt)
          else
            (if pa_imm op \<noteq> xi_imm ins \<or> pa_size op \<noteq> xo_size iop
             then Inr (-4, crt) else Inr (1, crt)))"

text \<open>
  The comparison of a bound (or resolved) memory operand with the instruction's: not
  referenced, referenced, or equal. A register member counts only when it is a register,
  that is set and below the variable ids.
\<close>

definition matchMem_noref ::
  "x86_env \<Rightarrow> pasm_operand \<Rightarrow> x86inst \<Rightarrow> x86operand \<Rightarrow> int" where
  "matchMem_noref E op ins iop =
     (if xo_type iop = O_MEM E then
        (if pa_base op \<noteq> R_NONE E \<and> pa_base op < op_varid_base
            \<and> get_relate_reg E (pa_base op) 32 = get_relate_reg E (xi_base ins) 32 then -5
         else if pa_index op \<noteq> R_NONE E \<and> pa_index op < op_varid_base
            \<and> get_relate_reg E (pa_index op) 32 = get_relate_reg E (xo_index iop) 32 then -6
         else 1)
      else if xo_type iop = O_SMEM E then
        (if pa_base op \<noteq> R_NONE E \<and> pa_base op < op_varid_base
            \<and> get_relate_reg E (pa_base op) 32 = get_relate_reg E (xo_index iop) 32 then -5
         else 1)
      else 1)"

definition matchMem_ref ::
  "x86_env \<Rightarrow> pasm_operand \<Rightarrow> x86inst \<Rightarrow> x86operand \<Rightarrow> int" where
  "matchMem_ref E op ins iop =
     (let hasref =
        (if xo_type iop = O_MEM E then
           (pa_base op \<noteq> R_NONE E \<and> pa_base op < op_varid_base
              \<and> get_relate_reg E (pa_base op) 32 = get_relate_reg E (xi_base ins) 32)
           \<or> (pa_index op \<noteq> R_NONE E \<and> pa_index op < op_varid_base
              \<and> get_relate_reg E (pa_index op) 32 \<noteq> get_relate_reg E (xo_index iop) 32)
         else if xo_type iop = O_SMEM E then
           pa_base op \<noteq> R_NONE E \<and> pa_base op < op_varid_base
             \<and> get_relate_reg E (pa_base op) 32 \<noteq> get_relate_reg E (xo_index iop) 32
         else False)
      in if \<not> hasref then -8 else 1)"

definition matchMem_eq ::
  "x86_env \<Rightarrow> pasm_operand \<Rightarrow> x86inst \<Rightarrow> x86operand \<Rightarrow> int" where
  "matchMem_eq E op ins iop =
     (if pa_type op \<noteq> xo_type iop then -4
      else if pa_size op \<noteq> 0 \<and> pa_size op \<noteq> xo_size iop then -19
      else if pa_dispvar op < op_varid_base \<and> pa_imm op \<noteq> xi_disp ins then -7
      else if pa_type op = O_MEM E then
        (if pa_scale op \<noteq> xi_scale ins then -6
         else if pa_base op < op_varid_base \<and> pa_base op \<noteq> xi_base ins then -5
         else if pa_index op < op_varid_base \<and> pa_index op \<noteq> xo_index iop then -4
         else 1)
      else
        (if xi_scale ins \<noteq> 0 then -6
         else if xi_base ins \<noteq> R_NONE E then -5
         else if pa_base op < op_varid_base \<and> pa_base op \<noteq> xo_index iop then -4
         else 1))"

definition matchMem ::
  "x86_env \<Rightarrow> pattern_op \<Rightarrow> pasm_operand \<Rightarrow> x86inst \<Rightarrow> x86operand \<Rightarrow> int" where
  "matchMem E pop op ins iop =
     (if has (po_cflags pop) PATTERN_CFLAG_NOREF then matchMem_noref E op ins iop
      else if has (po_cflags pop) PATTERN_CFLAG_REF then matchMem_ref E op ins iop
      else matchMem_eq E op ins iop)"

text \<open>What a memory variable is bound to at its first use.\<close>

definition memVar :: "x86_env \<Rightarrow> x86inst \<Rightarrow> x86operand \<Rightarrow> pasm_operand" where
  "memVar E ins iop = (new_pasm_operand E)
     \<lparr>pa_type := xo_type iop, pa_imm := xi_disp ins, pa_size := xo_size iop,
      pa_base := (if xo_type iop = O_MEM E then xi_base ins else xo_index iop),
      pa_index := (if xo_type iop = O_MEM E then xo_index iop else R_NONE E),
      pa_scale := (if xo_type iop = O_MEM E then xi_scale ins else 0)\<rparr>"

definition checkAndSaveVar_mem ::
  "x86_env \<Rightarrow> seqRuntime \<Rightarrow> pattern_op \<Rightarrow> x86inst \<Rightarrow> x86operand \<Rightarrow> (int, seqRuntime) outcome" where
  "checkAndSaveVar_mem E crt pop ins iop =
     (if po_type pop = pattern_op_memexpr then
        (case crt_opvars crt (po_id pop) of
           None \<Rightarrow> Inr (-21, crt)
         | Some op \<Rightarrow>
             (case resolveVar crt op pop of
                Inl e \<Rightarrow> Inl e
              | Inr opan \<Rightarrow> Inr (matchMem E pop opan ins iop, crt)))
      else
        (let vid = varid (po_type pop) (po_id pop)
         in case crt_vars crt vid of
           None \<Rightarrow>
             if has (po_cflags pop) PATTERN_CFLAG_NOREF \<or> has (po_cflags pop) PATTERN_CFLAG_REF
             then Inr (-5, crt)
             else bindS (add_var crt vid (memVar E ins iop))
                  (\<lambda>_ crt'. Inr (matchMem E pop (memVar E ins iop) ins iop, crt'))
         | Some op \<Rightarrow> Inr (matchMem E pop op ins iop, crt)))"

definition checkAndSaveVar ::
  "x86_env \<Rightarrow> seqRuntime \<Rightarrow> pattern_op \<Rightarrow> x86inst \<Rightarrow> x86operand \<Rightarrow> (int, seqRuntime) outcome" where
  "checkAndSaveVar E crt pop ins iop =
     (if xo_type iop = O_REG E then checkAndSaveVar_reg E crt pop iop
      else if is_imm_type E (xo_type iop) then checkAndSaveVar_imm E crt pop ins iop
      else if is_mem_type E (xo_type iop) then checkAndSaveVar_mem E crt pop ins iop
      else Inr (1, crt))"

section \<open>Binding the variables of a memory expression\<close>

text \<open>
  The four blocks of \<open>saveMemoryExprVar\<close>: find the variable or make it, then assign to it. The
  displacement, size and index blocks note a new variable for removal, the base block does not.
\<close>

definition save_noted ::
  "x86_env \<Rightarrow> seqRuntime \<Rightarrow> int \<Rightarrow> (pasm_operand \<Rightarrow> pasm_operand) \<Rightarrow> (unit, seqRuntime) outcome" where
  "save_noted E crt vid f =
     (if op_varid_base \<le> vid then
        (case crt_vars crt vid of
           None \<Rightarrow> add_var crt vid (f (new_pasm_operand E))
         | Some asmop \<Rightarrow> Inr ((), set_var crt vid (f asmop)))
      else Inr ((), crt))"

definition save_unnoted ::
  "x86_env \<Rightarrow> seqRuntime \<Rightarrow> int \<Rightarrow> (pasm_operand \<Rightarrow> pasm_operand) \<Rightarrow> seqRuntime" where
  "save_unnoted E crt vid f =
     (if op_varid_base \<le> vid then
        set_var crt vid (f (case crt_vars crt vid of None \<Rightarrow> new_pasm_operand E | Some asmop \<Rightarrow> asmop))
      else crt)"

definition saveMemoryExprVar ::
  "x86_env \<Rightarrow> seqRuntime \<Rightarrow> pattern_op \<Rightarrow> x86inst \<Rightarrow> x86operand \<Rightarrow> (int, seqRuntime) outcome" where
  "saveMemoryExprVar E crt pop ins iop =
     (case crt_opvars crt (po_id pop) of
        None \<Rightarrow> Inr (-1, crt)
      | Some op0 \<Rightarrow>
          (let op = op0\<lparr>pa_type := xo_type iop,
                        pa_scale := (if xo_type iop = O_MEM E then xi_scale ins else 0)\<rparr>
           in bindS (save_noted E crt (pa_dispvar op)
                (\<lambda>a. a\<lparr>pa_type := O_IMM E, pa_imm := xi_disp ins\<rparr>)) (\<lambda>_ crt1.
              bindS (save_noted E crt1 (pa_size op)
                (\<lambda>a. a\<lparr>pa_type := O_IMM E, pa_imm := word_of_int (xo_size iop)\<rparr>)) (\<lambda>_ crt2.
              (let crt3 = save_unnoted E crt2 (pa_base op)
                 (\<lambda>a. a\<lparr>pa_type := O_REG E,
                       pa_base := (if xo_type iop = O_MEM E then xi_base ins else xo_index iop)\<rparr>)
               in bindS (save_noted E crt3 (pa_index op)
                 (\<lambda>a. a\<lparr>pa_type := O_REG E,
                       pa_base := (if xo_type iop = O_MEM E then xo_index iop else R_NONE E)\<rparr>)) (\<lambda>_ crt4.
               (case resolveVar crt4 op pop of
                  Inl e \<Rightarrow> Inl e
                | Inr op' \<Rightarrow>
                    Inr (0, crt4\<lparr>crt_opvars := (crt_opvars crt4)(po_id pop \<mapsto> op')\<rparr>))))))))"

section \<open>The invariant of the variable table\<close>

text \<open>
  An entry is resolved when none of its members names a variable; registers and sizes of
  decoded instructions lie below the variable ids.
\<close>

definition resolved :: "pasm_operand \<Rightarrow> bool" where
  "resolved v \<longleftrightarrow> pa_size v < op_varid_base \<and> pa_base v < op_varid_base
     \<and> pa_index v < op_varid_base \<and> pa_dispvar v < op_varid_base"

definition vars_resolved :: "seqRuntime \<Rightarrow> bool" where
  "vars_resolved crt \<longleftrightarrow> (\<forall>k v. crt_vars crt k = Some v \<longrightarrow> resolved v)"

definition env_small :: "x86_env \<Rightarrow> bool" where
  "env_small E \<longleftrightarrow> R_NONE E < op_varid_base \<and> (\<forall>f. flags_opsize_bits E f < op_varid_base)"

definition small_operand :: "x86operand \<Rightarrow> bool" where
  "small_operand iop \<longleftrightarrow> xo_index iop < op_varid_base \<and> xo_size iop < op_varid_base"

definition small_ins :: "x86inst \<Rightarrow> bool" where
  "small_ins ins \<longleftrightarrow> xi_base ins < op_varid_base \<and> (\<forall>i. small_operand (xi_ops ins i))"

lemma resolved_new [simp]: "env_small E \<Longrightarrow> resolved (new_pasm_operand E)"
  by (simp add: resolved_def new_pasm_operand_def env_small_def op_varid_base_def)

lemma vars_resolvedD: "vars_resolved crt \<Longrightarrow> crt_vars crt k = Some v \<Longrightarrow> resolved v"
  by (auto simp: vars_resolved_def)

lemma vars_resolved_set_var [intro]:
  "vars_resolved crt \<Longrightarrow> resolved v \<Longrightarrow> vars_resolved (set_var crt k v)"
  by (auto simp: vars_resolved_def set_var_def)

text \<open>
  \<open>inv_vars D\<close>: the table is resolved and binds at least the ids in \<open>D\<close>. It is what a match
  carries along; the bound ids only grow.
\<close>

definition inv_vars :: "int set \<Rightarrow> seqRuntime \<Rightarrow> bool" where
  "inv_vars D crt \<longleftrightarrow> vars_resolved crt \<and> D \<subseteq> dom (crt_vars crt)"

lemma inv_varsI [intro]: "vars_resolved crt \<Longrightarrow> D \<subseteq> dom (crt_vars crt) \<Longrightarrow> inv_vars D crt"
  by (simp add: inv_vars_def)

lemma inv_vars_resolved: "inv_vars D crt \<Longrightarrow> vars_resolved crt"
  by (simp add: inv_vars_def)

lemma inv_vars_mono: "inv_vars D crt \<Longrightarrow> D' \<subseteq> D \<Longrightarrow> inv_vars D' crt"
  by (auto simp: inv_vars_def)

lemma inv_vars_set_var:
  "inv_vars D crt \<Longrightarrow> resolved v \<Longrightarrow> inv_vars (insert k D) (set_var crt k v)"
  by (auto simp: inv_vars_def set_var_def vars_resolved_def)

lemma inv_vars_frame [simp]:
  "inv_vars D (crt\<lparr>crt_nvars := n\<rparr>) = inv_vars D crt"
  "inv_vars D (crt\<lparr>crt_opvars := ov\<rparr>) = inv_vars D crt"
  "inv_vars D (crt\<lparr>crt_inst := i\<rparr>) = inv_vars D crt"
  "inv_vars D (crt\<lparr>crt_count := c\<rparr>) = inv_vars D crt"
  by (simp_all add: inv_vars_def vars_resolved_def)

abbreviation only_overflow :: "fault \<Rightarrow> bool" where
  "only_overflow e \<equiv> e = Array_overflow"

lemma keeps_add_var [keeps_rules]:
  "inv_vars D crt \<Longrightarrow> resolved v \<Longrightarrow> keeps (inv_vars (insert k D)) only_overflow (add_var crt k v)"
  by (simp add: add_var_def note_var_def inv_vars_set_var)

section \<open>Resolving always ends on a resolved table\<close>

text \<open>One turn of the loop is enough, since what a variable is bound to names no variable.\<close>

definition chase1 ::
  "(pasm_operand \<Rightarrow> int) \<Rightarrow> (pasm_operand \<Rightarrow> pasm_operand \<Rightarrow> pasm_operand)
    \<Rightarrow> seqRuntime \<Rightarrow> pasm_operand \<Rightarrow> pasm_operand" where
  "chase1 key assign crt op =
     (if op_varid_base \<le> key op
      then (case crt_vars crt (key op) of Some v \<Rightarrow> assign op v | None \<Rightarrow> op)
      else op)"

lemma chaseF_chase1:
  assumes "\<And>o1 k v. crt_vars crt k = Some v \<Longrightarrow> key (assign o1 v) < op_varid_base"
  shows "chaseF key assign crt op = Inr (chase1 key assign crt op)"
proof (cases "op_varid_base \<le> key op")
  case False
  then show ?thesis by (simp add: chaseF_def chase1_def chase.simps)
next
  case True
  show ?thesis
  proof (cases "crt_vars crt (key op)")
    case None
    with True show ?thesis by (simp add: chaseF_def chase1_def chase.simps)
  next
    case (Some v)
    then have "\<not> op_varid_base \<le> key (assign op v)" using assms [of "key op" v op] by simp
    with True Some show ?thesis
      by (simp add: chaseF_def chase1_def chase.simps [of _ _ op]
          chase.simps [of _ _ "assign op v"])
  qed
qed

text \<open>The value \<open>resolveVar\<close> computes then.\<close>

definition resolve1 :: "seqRuntime \<Rightarrow> pattern_op \<Rightarrow> pasm_operand \<Rightarrow> pasm_operand" where
  "resolve1 crt pop op =
     (let op1 = chase1 pa_size (\<lambda>o1 a. o1\<lparr>pa_size := pa_size a\<rparr>) crt op;
          op2 = (if 0 < po_szid pop
                 then op1\<lparr>pa_size := pa_size (the (crt_vars crt (varid pattern_op_size (po_szid pop))))\<rparr>
                 else op1);
          op3 = chase1 pa_base (\<lambda>o1 a. o1\<lparr>pa_base := pa_base a\<rparr>) crt op2;
          op4 = chase1 pa_index (\<lambda>o1 a. o1\<lparr>pa_index := pa_index a\<rparr>) crt op3
      in chase1 pa_dispvar (\<lambda>o1 a. o1\<lparr>pa_dispvar := pa_dispvar a, pa_imm := pa_imm a\<rparr>) crt op4)"

lemma resolveVar_resolve1:
  assumes res: "vars_resolved crt"
    and size_bound: "0 < po_szid pop \<Longrightarrow> crt_vars crt (varid pattern_op_size (po_szid pop)) \<noteq> None"
  shows "resolveVar crt op pop = Inr (resolve1 crt pop op)"
proof -
  note [simp] = chaseF_chase1
  have small: "pa_size v < op_varid_base \<and> pa_base v < op_varid_base
      \<and> pa_index v < op_varid_base \<and> pa_dispvar v < op_varid_base"
    if "crt_vars crt k = Some v" for k v
    using vars_resolvedD [OF res that] by (simp add: resolved_def)
  show ?thesis
    using size_bound by (auto simp: resolveVar_def resolve1_def Let_def small)
qed

section \<open>What each operation keeps\<close>

lemma keeps_checkAndSaveVar_reg [keeps_rules]:
  assumes "inv_vars D crt" "env_small E" "small_operand iop"
  shows "keeps (inv_vars D) only_overflow (checkAndSaveVar_reg E crt pop iop)"
proof -
  have "resolved ((new_pasm_operand E)
      \<lparr>pa_type := O_REG E, pa_base := xo_index iop, pa_size := xo_size iop\<rparr>)"
    using assms by (simp add: resolved_def new_pasm_operand_def env_small_def small_operand_def
        op_varid_base_def)
  with assms(1) show ?thesis
    by (auto simp: checkAndSaveVar_reg_def Let_def split: option.split
        intro!: keeps_bindS keeps_add_var elim: inv_vars_mono)
qed

lemma keeps_checkAndSaveVar_imm [keeps_rules]:
  assumes "inv_vars D crt" "env_small E" "small_operand iop"
  shows "keeps (inv_vars D) only_overflow (checkAndSaveVar_imm E crt pop ins iop)"
proof -
  have "resolved ((new_pasm_operand E)
      \<lparr>pa_type := O_IMM E, pa_imm := xi_imm ins, pa_size := xo_size iop\<rparr>)"
    using assms by (simp add: resolved_def new_pasm_operand_def env_small_def small_operand_def
        op_varid_base_def)
  with assms(1) show ?thesis
    by (auto simp: checkAndSaveVar_imm_def Let_def split: option.split
        intro!: keeps_bindS keeps_add_var elim: inv_vars_mono)
qed

lemma resolved_memVar [simp]:
  "env_small E \<Longrightarrow> xi_base ins < op_varid_base \<Longrightarrow> small_operand iop \<Longrightarrow> resolved (memVar E ins iop)"
  by (simp add: resolved_def memVar_def new_pasm_operand_def env_small_def small_operand_def
      op_varid_base_def)

text \<open>
  The size variable of the operand must be bound: \<open>resolveVar\<close> reads it without a check.
\<close>

definition size_bound :: "pattern_op \<Rightarrow> int set \<Rightarrow> bool" where
  "size_bound pop D \<longleftrightarrow> (0 < po_szid pop \<longrightarrow> varid pattern_op_size (po_szid pop) \<in> D)"

lemma resolveVar_inv:
  assumes "inv_vars D crt" "size_bound pop D"
  shows "resolveVar crt op pop = Inr (resolve1 crt pop op)"
  using assms by (auto intro!: resolveVar_resolve1 simp: inv_vars_def size_bound_def)

lemma keeps_checkAndSaveVar_mem [keeps_rules]:
  assumes "inv_vars D crt" "env_small E" "small_operand iop" "xi_base ins < op_varid_base"
    and "size_bound pop D"
  shows "keeps (inv_vars D) only_overflow (checkAndSaveVar_mem E crt pop ins iop)"
  using assms
  by (auto simp: checkAndSaveVar_mem_def Let_def resolveVar_inv split: option.split
      intro!: keeps_bindS keeps_add_var elim: inv_vars_mono)

lemma keeps_checkAndSaveVar [keeps_rules]:
  assumes "inv_vars D crt" "env_small E" "small_operand iop" "xi_base ins < op_varid_base"
    and "size_bound pop D"
  shows "keeps (inv_vars D) only_overflow (checkAndSaveVar E crt pop ins iop)"
  using assms by (simp add: checkAndSaveVar_def keeps_rules)

lemma keeps_save_noted [keeps_rules]:
  assumes "inv_vars D crt" "env_small E" "\<And>a. resolved a \<Longrightarrow> resolved (f a)"
  shows "keeps (inv_vars D) only_overflow (save_noted E crt vid f)"
proof (cases "crt_vars crt vid")
  case None
  then show ?thesis using assms
    by (auto simp: save_noted_def intro!: keeps_weaken [OF keeps_add_var] elim: inv_vars_mono)
next
  case (Some a)
  then have "resolved (f a)"
    using assms vars_resolvedD inv_vars_resolved by blast
  then show ?thesis using assms Some
    by (auto simp: save_noted_def elim: inv_vars_mono [OF inv_vars_set_var])
qed

lemma inv_vars_save_unnoted:
  assumes "inv_vars D crt" "env_small E" "\<And>a. resolved a \<Longrightarrow> resolved (f a)"
  shows "inv_vars D (save_unnoted E crt vid f)"
proof -
  have "resolved (f (case crt_vars crt vid of None \<Rightarrow> new_pasm_operand E | Some a \<Rightarrow> a))"
    using assms vars_resolvedD [OF inv_vars_resolved [OF assms(1)]] by (auto split: option.split)
  then show ?thesis using assms
    by (auto simp: save_unnoted_def elim: inv_vars_mono [OF inv_vars_set_var])
qed

lemma keeps_saveMemoryExprVar [keeps_rules]:
  assumes inv: "inv_vars D crt" and E: "env_small E" and iop: "small_operand iop"
    and ins: "xi_base ins < op_varid_base" and sz: "size_bound pop D"
  shows "keeps (inv_vars D) only_overflow (saveMemoryExprVar E crt pop ins iop)"
proof -
  have base: "resolved (a\<lparr>pa_type := t, pa_base := b\<rparr>)"
    if "resolved a" "b < op_varid_base" for a t b
    using that by (simp add: resolved_def)
  have imm: "resolved (a\<lparr>pa_type := t, pa_imm := i\<rparr>)" if "resolved a" for a t i
    using that by (simp add: resolved_def)
  have small: "xo_index iop < op_varid_base" "R_NONE E < op_varid_base"
    using iop E by (simp_all add: small_operand_def env_small_def)
  show ?thesis
    unfolding saveMemoryExprVar_def Let_def
    using inv E ins sz small
    by (auto split: option.split intro!: keeps_bindS [OF keeps_save_noted] base imm
        inv_vars_save_unnoted simp: resolveVar_inv)
qed

section \<open>The interface of the variable table\<close>

text \<open>
  The matcher touches the run-time part of a pattern through the variable table alone: it adds a new
  variable, or, for a memory expression, assigns to one and rewrites the expression. A property these keep
  is kept by every operation of the matcher; the lemmas of the two locales say so once for all such properties.
\<close>

locale new_var_frame =
  fixes I :: "seqRuntime \<Rightarrow> bool"
  assumes frame_new: "I crt \<Longrightarrow> crt_vars crt k = None \<Longrightarrow> keeps I (\<lambda>_. True) (add_var crt k v)"
begin

lemma frame_add_then:
  "I crt \<Longrightarrow> crt_vars crt k = None
    \<Longrightarrow> keeps I (\<lambda>_. True) (bindS (add_var crt k v) (\<lambda>_ crt'. Inr (st, crt')))"
  by (rule keeps_bindS [OF frame_new]) simp_all

lemma frame_checkAndSaveVar:
  assumes "I crt"
  shows "keeps I (\<lambda>_. True) (checkAndSaveVar E crt pop ins iop)"
proof -
  have "keeps I (\<lambda>_. True) (checkAndSaveVar_reg E crt pop iop)"
    using assms by (simp add: frame_add_then checkAndSaveVar_reg_def Let_def split: option.split)
  moreover have "keeps I (\<lambda>_. True) (checkAndSaveVar_imm E crt pop ins iop)"
    using assms by (simp add: frame_add_then checkAndSaveVar_imm_def Let_def split: option.split)
  moreover have "keeps I (\<lambda>_. True) (checkAndSaveVar_mem E crt pop ins iop)"
    using assms
    by (simp add: frame_add_then checkAndSaveVar_mem_def Let_def split: option.split sum.split)
  ultimately show ?thesis using assms by (simp add: checkAndSaveVar_def)
qed

end

text \<open>
  Binding the variables of a memory expression does more: it assigns to variables that are bound and rewrites
  the expression. An operand that is none needs no more than the first interface.
\<close>

locale var_frame = new_var_frame +
  assumes frame_set: "I crt \<Longrightarrow> I (set_var crt k v)"
    and frame_opvars: "I crt \<Longrightarrow> I (crt\<lparr>crt_opvars := ov\<rparr>)"
begin

lemma frame_save_noted:
  "I crt \<Longrightarrow> keeps I (\<lambda>_. True) (save_noted E crt vid f)"
  by (auto simp: save_noted_def frame_new frame_set split: option.split)

lemma frame_save_unnoted: "I crt \<Longrightarrow> I (save_unnoted E crt vid f)"
  by (simp add: save_unnoted_def frame_set)

lemma frame_resolve:
  "I crt \<Longrightarrow> keeps I (\<lambda>_. True)
    (case resolveVar crt op pop of Inl e \<Rightarrow> Inl e
     | Inr op' \<Rightarrow> Inr (0, crt\<lparr>crt_opvars := (crt_opvars crt)(k \<mapsto> op')\<rparr>))"
  by (cases "resolveVar crt op pop") (simp_all add: frame_opvars)

lemma frame_saveMemoryExprVar:
  assumes "I crt"
  shows "keeps I (\<lambda>_. True) (saveMemoryExprVar E crt pop ins iop)"
proof (cases "crt_opvars crt (po_id pop)")
  case None
  then show ?thesis using assms by (simp add: saveMemoryExprVar_def)
next
  case (Some op)
  show ?thesis
    unfolding saveMemoryExprVar_def Let_def Some option.case
    by (intro keeps_bindS [OF frame_save_noted] frame_resolve frame_save_unnoted assms)
qed

end

definition save_ok :: "(seqRuntime \<Rightarrow> bool) \<Rightarrow> x86_env \<Rightarrow> pattern_op \<Rightarrow> x86inst \<Rightarrow> bool" where
  "save_ok I E pop ins \<longleftrightarrow> (po_type pop = pattern_op_memexpr \<longrightarrow>
     (\<forall>c iop. I c \<longrightarrow> keeps I (\<lambda>_. True) (saveMemoryExprVar E c pop ins iop)))"

lemma save_ok_plain [simp]: "po_type pop \<noteq> pattern_op_memexpr \<Longrightarrow> save_ok I E pop ins"
  by (simp add: save_ok_def)

context var_frame
begin

lemma frame_save_ok [simp]: "save_ok I E pop ins"
  by (simp add: save_ok_def frame_saveMemoryExprVar)

end

text \<open>The position of the pattern is such a property, and so is that given ids are bound.\<close>

definition pos_inv :: "nat option \<Rightarrow> seqRuntime \<Rightarrow> bool" where
  "pos_inv p crt \<longleftrightarrow> crt_inst crt = p"

interpretation pos: var_frame "pos_inv p" for p
  by unfold_locales (simp_all add: add_var_def note_var_def set_var_def pos_inv_def)

definition bound_inv :: "int set \<Rightarrow> seqRuntime \<Rightarrow> bool" where
  "bound_inv D crt \<longleftrightarrow> D \<subseteq> dom (crt_vars crt)"

interpretation bound: var_frame "bound_inv D" for D
  by unfold_locales (auto simp: add_var_def note_var_def set_var_def bound_inv_def)

text \<open>
  Variables added are noted: taking those noted out again gives the table back as it was at \<open>vars0\<close>.
\<close>

definition noted_new :: "(int \<rightharpoonup> pasm_operand) \<Rightarrow> seqRuntime \<Rightarrow> bool" where
  "noted_new vars0 crt \<longleftrightarrow>
     crt_vars crt |` (- set (crt_nvars crt)) = vars0 \<and> dom vars0 \<inter> set (crt_nvars crt) = {}"

lemma noted_new_restrict:
  "crt_vars crt |` (- set (crt_nvars crt)) = vars0 \<Longrightarrow> dom vars0 \<inter> set (crt_nvars crt) = {}"
  by (auto simp: restrict_map_def split: if_splits)

interpretation noting: new_var_frame "noted_new vars0" for vars0
proof
  fix crt k v
  assume I: "noted_new vars0 crt" and k: "crt_vars crt k = None"
  have "(crt_vars crt)(k \<mapsto> v) |` (- insert k (set (crt_nvars crt))) = crt_vars crt |` (- set (crt_nvars crt))"
    using k by (auto simp: restrict_map_def fun_eq_iff)
  then show "keeps (noted_new vars0) (\<lambda>_. True) (add_var crt k v)"
    using I by (auto simp: add_var_def note_var_def set_var_def noted_new_def intro: noted_new_restrict)
qed

end
