(* ===== verification/PatternExpr.thy ===== *)
theory PatternExpr
  imports PatternVars
begin

text \<open>
  The two calculations of pattern statements: \<open>calculateExpress\<close> evaluates an arithmetic
  expression over the bound variables in 64-bit arithmetic, \<open>calculateMemoryExpress\<close> builds the
  memory operand of a \<open>mem?=\<close> statement.
\<close>

section \<open>Expressions\<close>

text \<open>
  The operators on \<open>int64_t\<close>. Signed overflow wraps, as on the compilers the program is built with;
  a division by zero, or of the least value by -1, faults, and so does a shift by an amount that
  is negative or at least 64. \<open>nexpr_oper_not\<close> and operators the switch does not list
  leave the result as it was, so the old value is an argument.
\<close>

definition apply_oper ::
  "nexpr_oper \<Rightarrow> 64 word \<Rightarrow> 64 word \<Rightarrow> 64 word \<Rightarrow> fault + 64 word" where
  "apply_oper oper old l r =
     (case oper of
        nexpr_oper_not \<Rightarrow> Inr old
      | nexpr_oper_and \<Rightarrow> Inr (l AND r)
      | nexpr_oper_or \<Rightarrow> Inr (l OR r)
      | nexpr_oper_xor \<Rightarrow> Inr (l XOR r)
      | nexpr_oper_shl \<Rightarrow>
          if 0 \<le> sint r \<and> sint r < 64 then Inr (push_bit (nat (sint r)) l) else Inl Bad_shift
      | nexpr_oper_shr \<Rightarrow>
          if 0 \<le> sint r \<and> sint r < 64 then Inr (signed_drop_bit (nat (sint r)) l) else Inl Bad_shift
      | nexpr_oper_add \<Rightarrow> Inr (l + r)
      | nexpr_oper_sub \<Rightarrow> Inr (l - r)
      | nexpr_oper_mul \<Rightarrow> Inr (l * r)
      | nexpr_oper_div \<Rightarrow>
          if r = 0 \<or> (sint l = - (2 ^ 63) \<and> sint r = -1) then Inl Div_fault else Inr (word_of_int (sint l sdiv sint r))
      | nexpr_oper_mod \<Rightarrow>
          if r = 0 \<or> (sint l = - (2 ^ 63) \<and> sint r = -1) then Inl Div_fault else Inr (word_of_int (sint l smod sint r))
      | nexpr_oper_other \<Rightarrow> Inr old)"

definition apply_flags :: "bool \<Rightarrow> bool \<Rightarrow> 64 word \<Rightarrow> 64 word" where
  "apply_flags nt ng v = (let v1 = (if nt then NOT v else v) in if ng then - v1 else v1)"

text \<open>
  The variable case: \<open>imm<n>\<close> reads the immediate of a variable, \<open>size<n>\<close> its size; a variable
  that is not bound is the error -1, any other name leaves the value as it was.
\<close>

definition calculateVar :: "seqRuntime \<Rightarrow> string \<Rightarrow> 64 word \<Rightarrow> int \<times> 64 word" where
  "calculateVar crt name val =
     (if strnicmp_eq name ''imm'' 3 then
        (case crt_vars crt (varid pattern_op_imm (atoi (drop 3 name))) of
           None \<Rightarrow> (-1, val) | Some op \<Rightarrow> (0, pa_imm op))
      else if strnicmp_eq name ''size'' 4 then
        (case crt_vars crt (varid pattern_op_size (atoi (drop 4 name))) of
           None \<Rightarrow> (-1, val) | Some op \<Rightarrow> (0, word_of_int (pa_size op)))
      else (0, val))"

text \<open>
  \<open>calculateExpress(seq, expr, val)\<close>: the return code with the value of the reference parameter
  \<open>val\<close> after the call. The codes of the recursive calls are ignored, as in the source.
\<close>

fun calculateExpress ::
  "seqRuntime \<Rightarrow> nexpr_expr \<Rightarrow> 64 word \<Rightarrow> fault + (int \<times> 64 word)" where
  "calculateExpress crt (nexpr_value_imm nt ng i) val = Inr (0, apply_flags nt ng i)"
| "calculateExpress crt (nexpr_value_float nt ng d) val = Inr (0, apply_flags nt ng d)"
| "calculateExpress crt (nexpr_value_var nt ng name) val =
     (let (st, v) = calculateVar crt name val
      in if st < 0 then Inr (st, v) else Inr (0, apply_flags nt ng v))"
| "calculateExpress crt (nexpr_node nt ng oper left right) val =
     bindF (case left of None \<Rightarrow> Inr (0, 0) | Some e \<Rightarrow> calculateExpress crt e 0) (\<lambda>lv.
     bindF (case right of None \<Rightarrow> Inr (0, 0) | Some e \<Rightarrow> calculateExpress crt e 0) (\<lambda>rv.
     bindF (apply_oper oper val (snd lv) (snd rv)) (\<lambda>v.
     Inr (0, apply_flags nt ng v))))"

section \<open>Memory expressions\<close>

text \<open>
  One member of \<open>calculateMemoryExpress\<close>: what the variable holds, the number itself when
  there is no such variable and it is not a variable id, an error otherwise.
\<close>

definition expr_member ::
  "seqRuntime \<Rightarrow> int \<Rightarrow> (pasm_operand \<Rightarrow> 'a) \<Rightarrow> 'a \<Rightarrow> 'a option" where
  "expr_member crt k f d =
     (case crt_vars crt k of
        Some opasm \<Rightarrow> Some (f opasm)
      | None \<Rightarrow> if op_varid_base \<le> k then None else Some d)"

text \<open>
  \<open>calculateMemoryExpress(seq, expr, op)\<close> with \<open>op\<close> the entry \<open>vid\<close> of the variable table: every
  assignment through \<open>op\<close> is visible to the look-ups after it. \<open>member_step\<close> is one of its
  blocks: look a member up, store it through \<open>op\<close>.
\<close>

definition update_var :: "seqRuntime \<Rightarrow> int \<Rightarrow> (pasm_operand \<Rightarrow> pasm_operand) \<Rightarrow> seqRuntime" where
  "update_var crt vid g =
     (case crt_vars crt vid of Some op \<Rightarrow> set_var crt vid (g op) | None \<Rightarrow> crt)"

definition member_step ::
  "seqRuntime \<Rightarrow> int \<Rightarrow> int \<Rightarrow> (pasm_operand \<Rightarrow> 'a) \<Rightarrow> 'a
    \<Rightarrow> ('a \<Rightarrow> pasm_operand \<Rightarrow> pasm_operand) \<Rightarrow> seqRuntime option" where
  "member_step crt vid k f d assign =
     map_option (\<lambda>x. update_var crt vid (assign x)) (expr_member crt k f d)"

definition calculateMemoryExpress ::
  "seqRuntime \<Rightarrow> pasm_operand \<Rightarrow> int \<Rightarrow> (int, seqRuntime) outcome" where
  "calculateMemoryExpress crt expr vid =
     (let crt1 = update_var crt vid (\<lambda>op. op\<lparr>pa_type := pa_type expr, pa_scale := pa_scale expr\<rparr>)
      in (case member_step crt1 vid (pa_base expr) pa_base (pa_base expr)
                 (\<lambda>x op. op\<lparr>pa_base := x\<rparr>) of
            None \<Rightarrow> Inr (-1, crt1)
          | Some crt2 \<Rightarrow>
         (case member_step crt2 vid (pa_index expr) pa_base (pa_index expr)
                 (\<lambda>x op. op\<lparr>pa_index := x\<rparr>) of
            None \<Rightarrow> Inr (-2, crt2)
          | Some crt3 \<Rightarrow>
         (case member_step crt3 vid (pa_size expr) pa_size (pa_size expr)
                 (\<lambda>x op. op\<lparr>pa_size := x\<rparr>) of
            None \<Rightarrow> Inr (-3, crt3)
          | Some crt4 \<Rightarrow>
         (case member_step crt4 vid (pa_dispvar expr) pa_imm (pa_imm expr)
                 (\<lambda>x op. op\<lparr>pa_imm := x\<rparr>) of
            None \<Rightarrow> Inr (-4, crt4)
          | Some crt5 \<Rightarrow> Inr (0, crt5))))))"

section \<open>Wrap-around\<close>

text \<open>
  The value of an expression over the mathematical integers, where it is made of literals, bound
  variables, sums, differences, products and bitwise operators.
\<close>

fun ideal_expr :: "(string \<Rightarrow> int option) \<Rightarrow> nexpr_expr \<Rightarrow> int option" where
  "ideal_expr env (nexpr_value_imm nt ng i) =
     Some (let v = (if nt then NOT (sint i) else sint i) in if ng then - v else v)"
| "ideal_expr env (nexpr_value_float nt ng d) =
     Some (let v = (if nt then NOT (sint d) else sint d) in if ng then - v else v)"
| "ideal_expr env (nexpr_value_var nt ng name) =
     map_option (\<lambda>x. let v = (if nt then NOT x else x) in if ng then - v else v) (env name)"
| "ideal_expr env (nexpr_node nt ng oper (Some l) (Some r)) =
     Option.bind (ideal_expr env l) (\<lambda>x. Option.bind (ideal_expr env r) (\<lambda>y.
       map_option (\<lambda>z. let v = (if nt then NOT z else z) in if ng then - v else v)
         (case oper of
            nexpr_oper_and \<Rightarrow> Some (x AND y)
          | nexpr_oper_or \<Rightarrow> Some (x OR y)
          | nexpr_oper_xor \<Rightarrow> Some (x XOR y)
          | nexpr_oper_add \<Rightarrow> Some (x + y)
          | nexpr_oper_sub \<Rightarrow> Some (x - y)
          | nexpr_oper_mul \<Rightarrow> Some (x * y)
          | _ \<Rightarrow> None)))"
| "ideal_expr env (nexpr_node nt ng oper l r) = None"

text \<open>The integers the variables of a run stand for.\<close>

definition var_env :: "seqRuntime \<Rightarrow> string \<Rightarrow> int option" where
  "var_env crt name =
     (if strnicmp_eq name ''imm'' 3 then
        map_option (\<lambda>op. sint (pa_imm op)) (crt_vars crt (varid pattern_op_imm (atoi (drop 3 name))))
      else if strnicmp_eq name ''size'' 4 then
        map_option pa_size (crt_vars crt (varid pattern_op_size (atoi (drop 4 name))))
      else None)"

lemma word_of_int_flags:
  "apply_flags nt ng (word_of_int x) =
     word_of_int (let v = (if nt then NOT x else x) in if ng then - v else v)"
  by (simp add: apply_flags_def Let_def of_int_not_eq)

lemma calculateVar_env:
  assumes "var_env crt name = Some x"
  shows "calculateVar crt name val = (0, word_of_int x)"
  using assms by (auto simp: var_env_def calculateVar_def split: if_splits option.splits)

text \<open>
  Where the ideal value is defined, \<open>calculateExpress\<close> succeeds and yields it modulo \<open>2 ^ 64\<close>.
\<close>

lemma calculateExpress_ideal:
  "ideal_expr (var_env crt) e = Some x \<Longrightarrow> calculateExpress crt e val = Inr (0, word_of_int x)"
proof (induction e arbitrary: x val)
  case (nexpr_value_imm nt ng i)
  then show ?case using word_of_int_flags [of nt ng "sint i"] by (simp add: Let_def)
next
  case (nexpr_value_float nt ng d)
  then show ?case using word_of_int_flags [of nt ng "sint d"] by (simp add: Let_def)
next
  case (nexpr_value_var nt ng name)
  then obtain y where y: "var_env crt name = Some y"
    and x: "x = (let v = (if nt then NOT y else y) in if ng then - v else v)"
    by auto
  then show ?case by (simp add: calculateVar_env [OF y] word_of_int_flags)
next
  case (nexpr_node nt ng oper l r)
  then obtain el er where lr: "l = Some el" "r = Some er"
    by (cases l; cases r) auto
  with nexpr_node.prems obtain y z where
      y: "ideal_expr (var_env crt) el = Some y" and z: "ideal_expr (var_env crt) er = Some z"
    by (auto simp: bind_eq_Some_conv)
  have el: "calculateExpress crt el 0 = Inr (0, word_of_int y)"
    using nexpr_node.IH(1) lr y by simp
  have er: "calculateExpress crt er 0 = Inr (0, word_of_int z)"
    using nexpr_node.IH(2) lr z by simp
  show ?case
    using nexpr_node.prems lr y z
    by (cases oper)
      (auto simp: el er apply_oper_def simp flip: word_of_int_flags
        simp: of_int_and_eq of_int_or_eq of_int_xor_eq)
qed

section \<open>How an expression can fault\<close>

definition arith_fault :: "fault \<Rightarrow> bool" where
  "arith_fault e \<longleftrightarrow> e = Div_fault \<or> e = Bad_shift"

lemma apply_oper_fault: "apply_oper oper old l r = Inl e \<Longrightarrow> arith_fault e"
  by (auto simp: apply_oper_def arith_fault_def split: nexpr_oper.splits if_splits)

lemma calculateExpress_fault: "calculateExpress crt e val = Inl f \<Longrightarrow> arith_fault f"
proof (induction e arbitrary: f val)
  case (nexpr_node nt ng oper l r)
  then show ?case
    by (auto simp: bindF_def Let_def split: sum.splits option.splits dest: apply_oper_fault)
qed (auto split: if_splits prod.splits)

section \<open>What the calculations keep\<close>

lemma expr_member_small:
  assumes "vars_resolved crt" "\<And>a. resolved a \<Longrightarrow> f a < op_varid_base"
    and "expr_member crt k f k = Some x"
  shows "x < op_varid_base"
  using assms by (auto simp: expr_member_def vars_resolved_def split: option.splits if_splits)

lemma inv_vars_update_var:
  assumes "inv_vars D crt" "\<And>a. resolved a \<Longrightarrow> resolved (g a)"
  shows "inv_vars D (update_var crt vid g)"
proof (cases "crt_vars crt vid")
  case (Some a)
  then have "resolved (g a)"
    using assms vars_resolvedD inv_vars_resolved by blast
  then have "inv_vars (insert vid D) (set_var crt vid (g a))"
    using assms(1) by (simp add: inv_vars_set_var)
  then show ?thesis using Some by (auto simp: update_var_def elim: inv_vars_mono)
qed (use assms in \<open>simp add: update_var_def\<close>)

lemma inv_vars_member_step:
  assumes "inv_vars D crt" "member_step crt vid k f d assign = Some crt'"
    and "\<And>x a. expr_member crt k f d = Some x \<Longrightarrow> resolved a \<Longrightarrow> resolved (assign x a)"
  shows "inv_vars D crt'"
  using assms by (auto simp: member_step_def intro!: inv_vars_update_var)

text \<open>A block of the calculation and what follows it.\<close>

lemma keeps_member_step:
  assumes inv: "inv_vars D c"
    and res: "\<And>x a. vars_resolved c \<Longrightarrow> expr_member c k f d = Some x \<Longrightarrow> resolved a
      \<Longrightarrow> resolved (assign x a)"
    and g: "\<And>c'. inv_vars D c' \<Longrightarrow> keeps (inv_vars D) F (g c')"
  shows "keeps (inv_vars D) F
    (case member_step c vid k f d assign of None \<Rightarrow> Inr (e, c) | Some c' \<Rightarrow> g c')"
proof (cases "member_step c vid k f d assign")
  case (Some c')
  have "inv_vars D c'"
    using inv_vars_resolved [OF inv] by (rule inv_vars_member_step [OF inv Some res])
  then show ?thesis using Some g by simp
qed (use inv in simp)

lemma expr_member_base:
  "expr_member c k pa_base k = Some x \<Longrightarrow> vars_resolved c \<Longrightarrow> x < op_varid_base"
  by (rule expr_member_small) (simp_all add: resolved_def)

lemma expr_member_size:
  "expr_member c k pa_size k = Some x \<Longrightarrow> vars_resolved c \<Longrightarrow> x < op_varid_base"
  by (rule expr_member_small) (simp_all add: resolved_def)

lemma keeps_calculateMemoryExpress [keeps_rules]:
  assumes "inv_vars D crt"
  shows "keeps (inv_vars D) only_overflow (calculateMemoryExpress crt expr vid)"
  unfolding calculateMemoryExpress_def Let_def
proof (intro keeps_member_step)
  show "inv_vars D (update_var crt vid
      (\<lambda>op. op\<lparr>pa_type := pa_type expr, pa_scale := pa_scale expr\<rparr>))"
    using assms by (auto intro!: inv_vars_update_var simp: resolved_def)
qed (simp_all add: resolved_def expr_member_base expr_member_size)

end
