(* ===== verification/PatternMatch.thy ===== *)
theory PatternMatch
  imports PatternExpr
begin

text \<open>
  Matching one decoded instruction: an operand against an operand matcher, an instruction against
  an alternative, an alternative list and the repetition counts of a statement, and the walk of a
  pattern over its statements (\<open>isMatchInstOperand\<close> up to \<open>testForSequence\<close>).
\<close>

section \<open>Explicit operands\<close>

text \<open>
  \<open>case pattern_op_explicit\<close>: referenced by, not referenced by, or equal to the instruction's
  operand. The register members are compared with \<open>O_NONE\<close>, as in the source.
\<close>

definition shares :: "x86_env \<Rightarrow> int \<Rightarrow> int \<Rightarrow> bool" where
  "shares E r s \<longleftrightarrow> get_relate_reg E r 32 = get_relate_reg E s 32"

definition matchExplicit_ref ::
  "x86_env \<Rightarrow> pattern_inst_body \<Rightarrow> x86operand \<Rightarrow> x86operand \<Rightarrow> x86inst \<Rightarrow> int" where
  "matchExplicit_ref E ib op1 iop ins =
     (if xo_index op1 = O_NONE E \<and> xi_base (ib_ins ib) = O_NONE E then -9
      else
        let hasref =
          (xo_index op1 \<noteq> O_NONE E \<and>
             ((xo_index iop \<noteq> O_NONE E \<and> shares E (xo_index op1) (xo_index iop))
              \<or> (xi_base ins \<noteq> O_NONE E \<and> shares E (xo_index op1) (xi_base ins))))
          \<or> (xi_base (ib_ins ib) \<noteq> O_NONE E \<and>
             ((xo_index iop \<noteq> O_NONE E \<and> shares E (xi_base (ib_ins ib)) (xo_index iop))
              \<or> (xi_base ins \<noteq> O_NONE E \<and> shares E (xi_base (ib_ins ib)) (xi_base ins))))
        in if \<not> hasref then -10 else 0)"

definition matchExplicit_noref ::
  "x86_env \<Rightarrow> pattern_inst_body \<Rightarrow> x86operand \<Rightarrow> x86operand \<Rightarrow> x86inst \<Rightarrow> int" where
  "matchExplicit_noref E ib op1 iop ins =
     (if xo_index op1 \<noteq> O_NONE E \<and> xo_index iop \<noteq> O_NONE E
         \<and> shares E (xo_index op1) (xo_index iop) then -5
      else if xo_index op1 \<noteq> O_NONE E \<and> xi_base ins \<noteq> O_NONE E
         \<and> shares E (xo_index op1) (xi_base ins) then -6
      else if xi_base (ib_ins ib) \<noteq> O_NONE E \<and> xo_index iop \<noteq> O_NONE E
         \<and> shares E (xi_base (ib_ins ib)) (xo_index iop) then -5
      else if xi_base (ib_ins ib) \<noteq> O_NONE E \<and> xi_base ins \<noteq> O_NONE E
         \<and> shares E (xi_base (ib_ins ib)) (xi_base ins) then -6
      else 0)"

definition matchExplicit_eq ::
  "x86_env \<Rightarrow> pattern_inst_body \<Rightarrow> pattern_op \<Rightarrow> nat \<Rightarrow> nat \<Rightarrow> x86inst \<Rightarrow> int" where
  "matchExplicit_eq E ib pop ivop ix86op ins =
     (let pins = ib_ins ib; op1 = xi_ops pins ivop; op2 = xi_ops ins ix86op
      in if 0 < po_szid pop then
           (if xo_type op1 \<noteq> xo_type op2 then -6
            else if xo_type op1 = O_SMEM E then
              (if xo_index op1 \<noteq> xo_index op2 \<or> xi_disp pins \<noteq> xi_disp ins then -7 else 0)
            else if xo_type op1 = O_MEM E then
              (if xo_index op1 \<noteq> xo_index op2 \<or> xi_disp pins \<noteq> xi_disp ins
                  \<or> xi_base pins \<noteq> xi_base ins then -8 else 0)
            else if xo_type op1 = O_DISP E then
              (if xi_disp pins \<noteq> xi_disp ins then -9 else 0)
            else (if \<not> is_same_operand E pins ivop ins ix86op then -6 else 0))
         else (if \<not> is_same_operand E pins ivop ins ix86op then -6 else 0))"

definition matchExplicit ::
  "x86_env \<Rightarrow> pattern_inst_body \<Rightarrow> pattern_op \<Rightarrow> nat \<Rightarrow> x86operand \<Rightarrow> nat \<Rightarrow> x86inst \<Rightarrow> int" where
  "matchExplicit E ib pop ivop iop ix86op ins =
     (if has (po_cflags pop) PATTERN_CFLAG_REF
      then matchExplicit_ref E ib (xi_ops (ib_ins ib) ivop) iop ins
      else if has (po_cflags pop) PATTERN_CFLAG_NOREF
      then matchExplicit_noref E ib (xi_ops (ib_ins ib) ivop) iop ins
      else matchExplicit_eq E ib pop ivop ix86op ins)"

section \<open>One operand\<close>

definition size_flags_ok :: "pattern_op \<Rightarrow> x86operand \<Rightarrow> bool" where
  "size_flags_ok pop iop \<longleftrightarrow>
     \<not> (has (po_cflags pop) PATTERN_CFLAG_8BIT \<and> xo_size iop \<noteq> 8)
     \<and> \<not> (has (po_cflags pop) PATTERN_CFLAG_16BIT \<and> xo_size iop \<noteq> 16)
     \<and> \<not> (has (po_cflags pop) PATTERN_CFLAG_32BIT \<and> xo_size iop \<noteq> 32)
     \<and> \<not> (has (po_cflags pop) PATTERN_CFLAG_64BIT \<and> xo_size iop \<noteq> 64)"

definition ref_or_noref :: "pattern_op \<Rightarrow> bool" where
  "ref_or_noref pop \<longleftrightarrow>
     has (po_cflags pop) PATTERN_CFLAG_REF \<or> has (po_cflags pop) PATTERN_CFLAG_NOREF"

text \<open>
  The size variable of an operand (\<open>if (pop->szid > 0) \<dots>\<close>): bound at its first use, compared
  later; \<open>False\<close> is the return of -9.
\<close>

definition matchSizeVar ::
  "x86_env \<Rightarrow> seqRuntime \<Rightarrow> int \<Rightarrow> int \<Rightarrow> (bool, seqRuntime) outcome" where
  "matchSizeVar E crt szid sz =
     (if 0 < szid then
        (let vid = varid pattern_op_size szid
         in case crt_vars crt vid of
           None \<Rightarrow> bindS (add_var crt vid ((new_pasm_operand E)\<lparr>pa_size := sz\<rparr>))
                     (\<lambda>_ crt'. Inr (True, crt'))
         | Some op \<Rightarrow> Inr (sz = pa_size op, crt))
      else Inr (True, crt))"

text \<open>
  The dispatch on the operand matcher's type. Each branch ends in \<open>return 0\<close> unless it returns an
  error: \<open>zero_if\<close> is that end.
\<close>

definition zero_if :: "(int, seqRuntime) outcome \<Rightarrow> (int, seqRuntime) outcome" where
  "zero_if m = bindS m (\<lambda>st crt. Inr (if st < 0 then st else 0, crt))"

definition matchByType ::
  "x86_env \<Rightarrow> seqRuntime \<Rightarrow> pattern_inst_body \<Rightarrow> pattern_op \<Rightarrow> nat \<Rightarrow> x86operand \<Rightarrow> nat \<Rightarrow> x86inst
    \<Rightarrow> (int, seqRuntime) outcome" where
  "matchByType E crt ib pop ivop iop ix86op ins =
     (case po_type pop of
        pattern_op_none \<Rightarrow>
          if has (po_cflags pop) PATTERN_CFLAG_REF then Inr (-8, crt)
          else if has (po_cflags pop) PATTERN_CFLAG_NOREF then Inr (0, crt)
          else if xo_type iop \<noteq> O_NONE E then Inr (-2, crt) else Inr (0, crt)
      | pattern_op_any \<Rightarrow> zero_if (checkAndSaveVar E crt pop ins iop)
      | pattern_op_reg \<Rightarrow>
          if \<not> ref_or_noref pop \<and> xo_type iop \<noteq> O_REG E then Inr (-3, crt)
          else zero_if (checkAndSaveVar E crt pop ins iop)
      | pattern_op_imm \<Rightarrow>
          if \<not> ref_or_noref pop \<and> \<not> is_imm_type E (xo_type iop) then Inr (-4, crt)
          else zero_if (checkAndSaveVar E crt pop ins iop)
      | pattern_op_mem \<Rightarrow>
          if \<not> ref_or_noref pop \<and> \<not> is_mem_type E (xo_type iop) then Inr (-5, crt)
          else zero_if (checkAndSaveVar E crt pop ins iop)
      | pattern_op_explicit \<Rightarrow> Inr (matchExplicit E ib pop ivop iop ix86op ins, crt)
      | pattern_op_memexpr \<Rightarrow>
          if \<not> ref_or_noref pop \<and> \<not> is_mem_type E (xo_type iop) then Inr (-5, crt)
          else bindS (checkAndSaveVar E crt pop ins iop) (\<lambda>st crt'.
                 if st < 0 then Inr (st, crt')
                 else bindS (saveMemoryExprVar E crt' pop ins iop) (\<lambda>_ crt''. Inr (0, crt'')))
      | pattern_op_size \<Rightarrow> Inr (0, crt)
      | pattern_op_mnemonic \<Rightarrow> Inr (0, crt))"

definition isMatchInstOperand ::
  "x86_env \<Rightarrow> seqRuntime \<Rightarrow> pattern_inst_body \<Rightarrow> pattern_op \<Rightarrow> nat \<Rightarrow> x86operand \<Rightarrow> nat \<Rightarrow> x86inst
    \<Rightarrow> (int, seqRuntime) outcome" where
  "isMatchInstOperand E crt ib pop ivop iop ix86op ins =
     (if \<not> size_flags_ok pop iop then Inr (-10, crt)
      else bindS (matchSizeVar E crt (po_szid pop) (xo_size iop)) (\<lambda>same crt1.
        if \<not> same then Inr (-9, crt1)
        else matchByType E crt1 ib pop ivop iop ix86op ins))"

section \<open>One alternative\<close>

text \<open>
  The loop of a matcher marked \<open>{*}\<close> over the instruction's operands: it stops at the first absent
  operand, and with \<open>Some False\<close> at the first operand that does not go along.
\<close>

definition matchInAll ::
  "x86_env \<Rightarrow> pattern_inst_body \<Rightarrow> pattern_op \<Rightarrow> nat \<Rightarrow> x86inst \<Rightarrow> seqRuntime
    \<Rightarrow> (bool option, seqRuntime) outcome" where
  "matchInAll E ib pop i ins crt =
     loopS (\<lambda>j crt.
       let iop = xi_ops ins j
       in if xo_type iop = O_NONE E then Inr (Some True, crt)
          else bindS (isMatchInstOperand E crt ib pop i iop j ins) (\<lambda>st crt'.
            let matched = (if st < 0 then has (po_cflags pop) PATTERN_CFLAG_NOT
                           else \<not> has (po_cflags pop) PATTERN_CFLAG_NOT)
            in if matched then Inr (None, crt') else Inr (Some False, crt')))
       [0..<OPERANDS_NO E] crt"

definition matchBodyOperand ::
  "x86_env \<Rightarrow> pattern_inst_body \<Rightarrow> x86inst \<Rightarrow> nat \<Rightarrow> seqRuntime
    \<Rightarrow> (int option, seqRuntime) outcome" where
  "matchBodyOperand E ib ins i crt =
     (let pop = ib_ops ib i
      in if po_type pop = pattern_op_none \<and> \<not> has (ib_cflags ib) PATTERN_CFLAG_STRICT
         then Inr (None, crt)
         else if has (po_cflags pop) PATTERN_CFLAG_INALLOP then
           bindS (matchInAll E ib pop i ins crt) (\<lambda>r crt'.
             if r = Some False then Inr (Some (-12), crt') else Inr (None, crt'))
         else
           bindS (isMatchInstOperand E crt ib pop i (xi_ops ins i) i ins) (\<lambda>st crt'.
             if st < 0 then
               (if \<not> has (po_cflags pop) PATTERN_CFLAG_NOT then Inr (Some st, crt')
                else Inr (None, crt'))
             else
               (if has (po_cflags pop) PATTERN_CFLAG_NOT then Inr (Some (-11), crt')
                else Inr (None, crt'))))"

definition opcode_ok :: "x86_env \<Rightarrow> pattern_inst_body \<Rightarrow> x86inst \<Rightarrow> bool" where
  "opcode_ok E ib ins \<longleftrightarrow>
     xi_opcode (ib_ins ib) = I_UNDEFINED E
     \<or> (if has (ib_cflags ib) PATTERN_CFLAG_NOT
        then xi_opcode ins \<noteq> xi_opcode (ib_ins ib)
        else xi_opcode ins = xi_opcode (ib_ins ib))"

definition isMatchInstBody ::
  "x86_env \<Rightarrow> seqRuntime \<Rightarrow> pattern_inst_body \<Rightarrow> x86inst \<Rightarrow> (int, seqRuntime) outcome" where
  "isMatchInstBody E crt ib ins =
     (if \<not> opcode_ok E ib ins then Inr (-1, crt)
      else bindS (loopS (matchBodyOperand E ib ins) [0..<OPERANDS_NO E] crt) (\<lambda>r crt'.
        case r of Some st \<Rightarrow> Inr (st, crt') | None \<Rightarrow> Inr (1, crt')))"

section \<open>What a match keeps\<close>

lemma keeps_matchSizeVar:
  assumes "inv_vars D crt" "env_small E" "sz < op_varid_base"
  shows "keeps (inv_vars (if 0 < szid then insert (varid pattern_op_size szid) D else D))
    only_overflow (matchSizeVar E crt szid sz)"
proof -
  have "resolved ((new_pasm_operand E)\<lparr>pa_size := sz\<rparr>)"
    using assms by (simp add: resolved_def new_pasm_operand_def env_small_def op_varid_base_def)
  with assms(1) show ?thesis
    by (auto simp: matchSizeVar_def Let_def inv_vars_def split: option.split
        intro!: keeps_bindS [OF keeps_add_var])
qed

lemma keeps_matchSizeVar_weak [keeps_rules]:
  assumes "inv_vars D crt" "env_small E" "sz < op_varid_base"
  shows "keeps (inv_vars D) only_overflow (matchSizeVar E crt szid sz)"
  using keeps_matchSizeVar [OF assms] by (rule keeps_weaken) (auto elim: inv_vars_mono)

lemma keeps_zero_if [keeps_rules]:
  "keeps (inv_vars D) F m \<Longrightarrow> keeps (inv_vars D) F (zero_if m)"
  by (auto simp: zero_if_def intro!: keeps_bindS)

lemma keeps_matchByType [keeps_rules]:
  assumes "inv_vars D crt" "env_small E" "small_operand iop" "xi_base ins < op_varid_base"
    and "size_bound pop D"
  shows "keeps (inv_vars D) only_overflow (matchByType E crt ib pop ivop iop ix86op ins)"
  using assms
  by (cases "po_type pop")
    (auto simp: matchByType_def intro!: keeps_rules keeps_bindS [OF keeps_checkAndSaveVar]
      keeps_bindS [OF keeps_saveMemoryExprVar])

lemma keeps_isMatchInstOperand [keeps_rules]:
  assumes "inv_vars D crt" "env_small E" "small_operand iop" "xi_base ins < op_varid_base"
  shows "keeps (inv_vars D) only_overflow (isMatchInstOperand E crt ib pop ivop iop ix86op ins)"
proof -
  let ?D = "if 0 < po_szid pop then insert (varid pattern_op_size (po_szid pop)) D else D"
  have bound: "size_bound pop ?D" by (simp add: size_bound_def)
  have "keeps (inv_vars D) only_overflow (matchByType E crt1 ib pop ivop iop ix86op ins)"
    if "inv_vars ?D crt1" for crt1
    using keeps_matchByType [OF that assms(2-4) bound]
    by (rule keeps_weaken) (auto elim: inv_vars_mono split: if_splits)
  moreover have "xo_size iop < op_varid_base" using assms(3) by (simp add: small_operand_def)
  ultimately show ?thesis using assms
    by (auto simp: isMatchInstOperand_def intro!: keeps_bindS [OF keeps_matchSizeVar]
        elim: inv_vars_mono split: if_splits)
qed

lemma small_insD:
  "small_ins ins \<Longrightarrow> xi_base ins < op_varid_base"
  "small_ins ins \<Longrightarrow> small_operand (xi_ops ins i)"
  by (simp_all add: small_ins_def)

lemma keeps_matchInAll [keeps_rules]:
  assumes "inv_vars D crt" "env_small E" "small_ins ins"
  shows "keeps (inv_vars D) only_overflow (matchInAll E ib pop i ins crt)"
  unfolding matchInAll_def
  by (rule keeps_loopS)
    (use assms in \<open>auto simp: Let_def small_insD intro!: keeps_bindS [OF keeps_isMatchInstOperand]\<close>)

lemma keeps_matchBodyOperand [keeps_rules]:
  assumes "inv_vars D crt" "env_small E" "small_ins ins"
  shows "keeps (inv_vars D) only_overflow (matchBodyOperand E ib ins i crt)"
  using assms
  by (auto simp: matchBodyOperand_def Let_def small_insD
      intro!: keeps_bindS [OF keeps_isMatchInstOperand] keeps_bindS [OF keeps_matchInAll])

lemma keeps_isMatchInstBody [keeps_rules]:
  assumes "inv_vars D crt" "env_small E" "small_ins ins"
  shows "keeps (inv_vars D) only_overflow (isMatchInstBody E crt ib ins)"
proof -
  have "keeps (inv_vars D) only_overflow
      (loopS (matchBodyOperand E ib ins) [0..<OPERANDS_NO E] crt)"
    using assms by (intro keeps_loopS keeps_matchBodyOperand)
  then show ?thesis using assms
    by (auto simp: isMatchInstBody_def intro!: keeps_bindS split: option.split)
qed

context new_var_frame
begin

lemma frame_matchSizeVar: "I crt \<Longrightarrow> keeps I (\<lambda>_. True) (matchSizeVar E crt z k)"
  by (auto simp: matchSizeVar_def Let_def split: option.split intro!: keeps_bindS [OF frame_new])

lemma frame_isMatchInstOperand:
  assumes "I crt" "save_ok I E pop ins"
  shows "keeps I (\<lambda>_. True) (isMatchInstOperand E crt ib pop ivop iop ix86op ins)"
proof -
  have "keeps I (\<lambda>_. True) (matchByType E c ib pop ivop iop ix86op ins)" if "I c" for c
  proof (cases "po_type pop = pattern_op_memexpr")
    case True
    then have save: "keeps I (\<lambda>_. True) (saveMemoryExprVar E d pop ins iop)" if "I d" for d
      using assms(2) that by (simp add: save_ok_def)
    show ?thesis using that True
      by (auto simp: matchByType_def intro!: keeps_bindS [OF frame_checkAndSaveVar]
          keeps_bindS [OF save])
  next
    case False
    then show ?thesis using that
      by (cases "po_type pop")
        (auto simp: matchByType_def zero_if_def intro!: keeps_bindS [OF frame_checkAndSaveVar])
  qed
  with assms show ?thesis
    by (auto simp: isMatchInstOperand_def intro!: keeps_bindS [OF frame_matchSizeVar])
qed

lemma frame_matchInAll:
  assumes "I crt" "save_ok I E pop ins"
  shows "keeps I (\<lambda>_. True) (matchInAll E ib pop i ins crt)"
  unfolding matchInAll_def
  by (rule keeps_loopS)
    (use assms in \<open>auto simp: Let_def intro!: keeps_bindS [OF frame_isMatchInstOperand]\<close>)

lemma frame_matchBodyOperand:
  "I crt \<Longrightarrow> save_ok I E (ib_ops ib i) ins \<Longrightarrow> keeps I (\<lambda>_. True) (matchBodyOperand E ib ins i crt)"
  by (auto simp: matchBodyOperand_def Let_def intro!: keeps_bindS [OF frame_isMatchInstOperand]
      keeps_bindS [OF frame_matchInAll])

lemma frame_isMatchInstBody:
  assumes "I crt" "\<And>i. save_ok I E (ib_ops ib i) ins"
  shows "keeps I (\<lambda>_. True) (isMatchInstBody E crt ib ins)"
proof -
  have "keeps I (\<lambda>_. True) (loopS (matchBodyOperand E ib ins) [0..<OPERANDS_NO E] crt)"
    using assms by (intro keeps_loopS frame_matchBodyOperand)
  then show ?thesis using assms
    by (auto simp: isMatchInstBody_def intro!: keeps_bindS split: option.split)
qed

end

end
