(* ===== verification/PatternSeq.thy ===== *)
theory PatternSeq
  imports PatternMatch
begin

text \<open>
  A statement against an instruction (\<open>isMatchInst\<close>), its repetition counts and the look-ahead of
  the lazy match (\<open>testForInstruction\<close>), and one step of a pattern (\<open>testForSequence\<close>).
  A \<open>patternInst*\<close> is a position in the statement list of its sequence.
\<close>

section \<open>Positions and assignments\<close>

definition next_inst :: "patternSequence \<Rightarrow> nat \<Rightarrow> nat option" where
  "next_inst seq i = (if Suc i < length (ps_insts seq) then Some (Suc i) else None)"

definition upd_inst :: "patternSequence \<Rightarrow> nat \<Rightarrow> (patternInst \<Rightarrow> patternInst) \<Rightarrow> patternSequence" where
  "upd_inst seq i f = seq\<lparr>ps_insts := (ps_insts seq)[i := f (ps_insts seq ! i)]\<rparr>"

definition upd_crt :: "patternSequence \<Rightarrow> (seqRuntime \<Rightarrow> seqRuntime) \<Rightarrow> patternSequence" where
  "upd_crt seq f = seq\<lparr>ps_crt := f (ps_crt seq)\<rparr>"

definition on_crt :: "patternSequence \<Rightarrow> ('a, seqRuntime) outcome \<Rightarrow> ('a, patternSequence) outcome" where
  "on_crt seq m = bindS m (\<lambda>a crt. Inr (a, seq\<lparr>ps_crt := crt\<rparr>))"

text \<open>\<open>for (i = 0; i < navar; i++) vars.remove(nvars[i])\<close>.\<close>

definition remove_new_vars :: "seqRuntime \<Rightarrow> seqRuntime" where
  "remove_new_vars crt =
     crt\<lparr>crt_vars := fold (\<lambda>k m. m(k := None)) (crt_nvars crt) (crt_vars crt)\<rparr>"

section \<open>One statement\<close>

text \<open>
  The body of the loop over the alternatives: \<open>Some b\<close> is its \<open>break\<close> with \<open>hasMatched = b\<close>.
\<close>

definition matchMnemonicVar ::
  "x86_env \<Rightarrow> seqRuntime \<Rightarrow> pattern_inst_body \<Rightarrow> x86inst \<Rightarrow> (bool, seqRuntime) outcome" where
  "matchMnemonicVar E crt ib ins =
     (if 0 < ib_mnemonicid ib then
        (let vid = varid pattern_op_mnemonic (ib_mnemonicid ib)
         in case crt_vars crt vid of
           None \<Rightarrow> bindS (add_var crt vid ((new_pasm_operand E)\<lparr>pa_opcode := xi_opcode ins\<rparr>))
                     (\<lambda>_ crt'. Inr (True, crt'))
         | Some op \<Rightarrow> Inr (pa_opcode op = xi_opcode ins, crt))
      else Inr (True, crt))"

definition matchAlternative ::
  "x86_env \<Rightarrow> x86inst \<Rightarrow> pattern_inst_body \<Rightarrow> seqRuntime \<Rightarrow> (bool option, seqRuntime) outcome" where
  "matchAlternative E ins ib crt =
     bindS (matchSizeVar E crt (ib_szid ib) (flags_opsize_bits E (xi_flags ins))) (\<lambda>same crt1.
       if \<not> same then Inr (None, crt1)
       else bindS (isMatchInstBody E crt1 ib ins) (\<lambda>st crt2.
         if 0 \<le> st
         then bindS (matchMnemonicVar E crt2 ib ins) (\<lambda>b crt3. Inr (Some b, crt3))
         else Inr (None, crt2)))"

definition isMatchInst ::
  "x86_env \<Rightarrow> patternSequence \<Rightarrow> nat \<Rightarrow> x86inst \<Rightarrow> bool \<Rightarrow> bool \<Rightarrow> (int, patternSequence) outcome" where
  "isMatchInst E seq0 i ins isEspChanged isEflagsChanged =
     (let seq = upd_crt seq0 (\<lambda>crt. crt\<lparr>crt_nvars := []\<rparr>);
          pi = ps_insts seq ! i
      in if has (pi_flags pi) PATTERN_FLAG_NOESPCHANGE \<and> isEspChanged then Inr (-2, seq)
         else if has (pi_flags pi) PATTERN_FLAG_NOEFLAGSCHG \<and> isEflagsChanged then Inr (-3, seq)
         else if has (pi_flags pi) PATTERN_CFLAG_16BIT \<and> xi_size ins \<noteq> 0 then Inr (-4, seq)
         else if has (pi_flags pi) PATTERN_CFLAG_32BIT \<and> xi_size ins \<noteq> 1 then Inr (-4, seq)
         else if has (pi_flags pi) PATTERN_CFLAG_64BIT \<and> xi_size ins \<noteq> 2 then Inr (-4, seq)
         else bindS (on_crt seq (loopS (matchAlternative E ins) (pi_insts pi) (ps_crt seq)))
           (\<lambda>r seq'. if r = Some True
              then Inr (1, upd_inst seq' i (\<lambda>p. p\<lparr>pi_matched_count := pi_matched_count p + 1\<rparr>))
              else Inr (-1, seq')))"

section \<open>Repetition and look-ahead\<close>

text \<open>
  \<open>matched_step\<close> is the part of \<open>testForInstruction\<close> that follows a match within the bounds (it
  stands twice in the source): at the upper bound the pattern moves on; a lazy statement tries the
  one after it on the same instruction and drops the variables of a failed try.
\<close>

definition matched_step ::
  "x86_env \<Rightarrow> patternSequence \<Rightarrow> nat \<Rightarrow> x86inst \<Rightarrow> bool \<Rightarrow> bool \<Rightarrow> nat option
    \<Rightarrow> (unit, patternSequence) outcome" where
  "matched_step E seq i ins isEspChanged isEflagsChanged ud =
     (let pi = ps_insts seq ! i
      in if pi_matched_count pi = pi_maxc pi then
           Inr ((), upd_crt seq (\<lambda>crt. crt\<lparr>crt_inst := next_inst seq i\<rparr>))
         else if has (pi_flags pi) PATTERN_FLAG_LESSMATCH then
           (case next_inst seq i of
              None \<Rightarrow> Inr ((), seq)
            | Some j \<Rightarrow>
                bindS (isMatchInst E seq j ins isEspChanged isEflagsChanged) (\<lambda>st seq'.
                  if 0 \<le> st
                  then Inr ((), upd_crt (upd_inst seq' j (\<lambda>p. p\<lparr>pi_userdata := ud\<rparr>))
                                 (\<lambda>crt. crt\<lparr>crt_inst := next_inst seq' j\<rparr>))
                  else Inr ((), upd_crt seq' remove_new_vars)))
         else Inr ((), seq))"

definition testForInstruction ::
  "x86_env \<Rightarrow> patternSequence \<Rightarrow> nat \<Rightarrow> x86inst \<Rightarrow> bool \<Rightarrow> bool \<Rightarrow> nat option
    \<Rightarrow> (int, patternSequence) outcome" where
  "testForInstruction E seq i ins isEspChanged isEflagsChanged ud =
     bindS (isMatchInst E seq i ins isEspChanged isEflagsChanged) (\<lambda>st seq1.
       let seq2 = (if 0 \<le> st then upd_inst seq1 i (\<lambda>p. p\<lparr>pi_userdata := ud\<rparr>) else seq1);
           pi = ps_insts seq2 ! i
       in if 0 \<le> st \<and> pi_matched_count pi < pi_minc pi then Inr (0, seq2)
          else if 0 \<le> st \<and> pi_matched_count pi \<le> pi_maxc pi then
            bindS (matched_step E seq2 i ins isEspChanged isEflagsChanged ud) (\<lambda>_ seq3. Inr (0, seq3))
          else if pi_matched_count pi < pi_minc pi then Inr (-2, seq2)
          else
            (let seq3 = upd_crt seq2 (\<lambda>crt. crt\<lparr>crt_inst := next_inst seq2 i\<rparr>)
             in case next_inst seq2 i of
               None \<Rightarrow> Inr (-1, seq3)
             | Some j \<Rightarrow>
                 bindS (isMatchInst E seq3 j ins isEspChanged isEflagsChanged) (\<lambda>st2 seq4.
                   if st2 < 0 then Inr (-1, seq4)
                   else
                     (let seq5 = upd_inst seq4 j (\<lambda>p. p\<lparr>pi_userdata := ud\<rparr>);
                          pj = ps_insts seq5 ! j
                      in if pi_matched_count pj < pi_minc pj then Inr (0, seq5)
                         else if pi_matched_count pj \<le> pi_maxc pj then
                           bindS (matched_step E seq5 j ins isEspChanged isEflagsChanged ud)
                             (\<lambda>_ seq6. Inr (0, seq6))
                         else Inr (-1, seq5)))))"

section \<open>One step of a pattern\<close>

text \<open>
  The statements between instructions: an expression, a memory expression and a mnemonic
  control statement. \<open>find_or_new\<close> is \<open>op = find(vid); if (!op) op = new_back(vid)\<close>, which notes
  nothing in \<open>nvars\<close>. A null expression pointer faults.
\<close>

definition find_or_new :: "x86_env \<Rightarrow> seqRuntime \<Rightarrow> int \<Rightarrow> seqRuntime" where
  "find_or_new E crt vid =
     (case crt_vars crt vid of Some op \<Rightarrow> crt | None \<Rightarrow> set_var crt vid (new_pasm_operand E))"

definition runExpress :: "x86_env \<Rightarrow> patternInst \<Rightarrow> seqRuntime \<Rightarrow> (int, seqRuntime) outcome" where
  "runExpress E pi crt =
     (case pi_expr pi of
        None \<Rightarrow> Inl Null_deref
      | Some e \<Rightarrow>
          (case calculateExpress crt e 0 of
             Inl f \<Rightarrow> Inl f
           | Inr (st, val) \<Rightarrow>
               if st < 0 then Inr (-8, crt)
               else (let vid = varid pattern_op_imm (pi_varid pi)
                     in Inr (0, update_var (find_or_new E crt vid) vid
                          (\<lambda>op. op\<lparr>pa_type := O_IMM E, pa_imm := val\<rparr>)))))"

definition runMemoryExpress :: "x86_env \<Rightarrow> patternInst \<Rightarrow> seqRuntime \<Rightarrow> (int, seqRuntime) outcome" where
  "runMemoryExpress E pi crt =
     (case pi_memexpr pi of
        None \<Rightarrow> Inl Null_deref
      | Some e \<Rightarrow>
          (let vid = varid pattern_op_mem (pi_varid pi)
           in bindS (calculateMemoryExpress (find_or_new E crt vid) e vid) (\<lambda>st crt'.
                if st < 0 then Inr (-7, crt'\<lparr>crt_vars := (crt_vars crt')(vid := None)\<rparr>)
                else Inr (0, crt'))))"

definition runControl :: "patternInst \<Rightarrow> seqRuntime \<Rightarrow> (int, seqRuntime) outcome" where
  "runControl pi crt =
     (case crt_vars crt (varid pattern_op_mnemonic (pi_varid pi)) of
        None \<Rightarrow> Inr (-8, crt)
      | Some op \<Rightarrow>
          (let bmatch = list_ex (\<lambda>mnem. mnem = pa_opcode op) (pi_mnemops pi)
           in if has (pi_flags pi) PATTERN_FLAG_NOT
              then (if bmatch then Inr (-9, crt) else Inr (0, crt))
              else (if \<not> bmatch then Inr (-10, crt) else Inr (0, crt))))"

definition runStatement :: "x86_env \<Rightarrow> patternInst \<Rightarrow> seqRuntime \<Rightarrow> (int, seqRuntime) outcome" where
  "runStatement E pi crt =
     (case pi_type pi of
        pattern_inst_express \<Rightarrow> runExpress E pi crt
      | pattern_inst_memexpr \<Rightarrow> runMemoryExpress E pi crt
      | pattern_inst_control \<Rightarrow> runControl pi crt
      | _ \<Rightarrow> Inr (0, crt))"

text \<open>
  The loop of \<open>testForSequence\<close> from the statement at \<open>i\<close> (\<open>None\<close>: past the last), with
  \<open>psed\<close> for \<open>instruction_psed\<close>. It ends: an instruction statement is tested once, and between
  instruction statements the position grows. A position past the list would be a dangling pointer.
\<close>

lemma bindS_cong [fundef_cong]:
  "m = m' \<Longrightarrow> (\<And>a s. m' = Inr (a, s) \<Longrightarrow> f a s = g a s) \<Longrightarrow> bindS m f = bindS m' g"
  by (auto simp: bindS_def split: sum.splits)

function testLoop ::
  "x86_env \<Rightarrow> x86inst \<Rightarrow> bool \<Rightarrow> bool \<Rightarrow> nat option \<Rightarrow> bool \<Rightarrow> nat option \<Rightarrow> patternSequence
    \<Rightarrow> (int, patternSequence) outcome" where
  "testLoop E ins esp efl ud psed None seq = Inr (1, seq)"
| "testLoop E ins esp efl ud psed (Some i) seq =
     (if length (ps_insts seq) \<le> i then Inl Null_deref
      else if pi_type (ps_insts seq ! i) = pattern_inst_instruction then
        (if psed then Inr (0, seq)
         else bindS (testForInstruction E seq i ins esp efl ud) (\<lambda>st seq1.
           if st < 0 then Inr (st, seq1)
           else case crt_inst (ps_crt seq1) of
               None \<Rightarrow> Inr (1, seq1)
             | Some j \<Rightarrow>
                 if length (ps_insts seq1) \<le> j then Inl Null_deref
                 else if pi_type (ps_insts seq1 ! j) \<noteq> pattern_inst_instruction
                 then testLoop E ins esp efl ud True (Some j) seq1
                 else Inr (0, seq1)))
      else bindS (runStatement E (ps_insts seq ! i) (ps_crt seq)) (\<lambda>st crt.
        let seq1 = seq\<lparr>ps_crt := crt\<rparr>
        in if st < 0 then Inr (st, seq1)
           else testLoop E ins esp efl ud psed (next_inst seq1 i) seq1))"
  by pat_completeness auto
termination
  by (relation "measures [\<lambda>(E, ins, esp, efl, ud, psed, pi, seq). if psed then 0 else 1,
      \<lambda>(E, ins, esp, efl, ud, psed, pi, seq).
        case pi of None \<Rightarrow> 0 | Some i \<Rightarrow> Suc (length (ps_insts seq) - i)]")
    (auto simp: next_inst_def split: if_splits)

declare testLoop.simps [simp del]

definition testForSequence ::
  "x86_env \<Rightarrow> patternSequence \<Rightarrow> x86inst \<Rightarrow> bool \<Rightarrow> bool \<Rightarrow> nat option
    \<Rightarrow> (int, patternSequence) outcome" where
  "testForSequence E seq ins isEspChanged isEflagsChanged ud =
     (let c = crt_count (ps_crt seq);
          seq1 = upd_crt seq (\<lambda>crt. crt\<lparr>crt_count := c + 1\<rparr>)
      in if ps_maximumInst seq \<le> c then Inr (-6, seq1)
         else testLoop E ins isEspChanged isEflagsChanged ud False (crt_inst (ps_crt seq1)) seq1)"

section \<open>What a step keeps\<close>

lemma keeps_matchMnemonicVar [keeps_rules]:
  assumes "inv_vars D crt" "env_small E"
  shows "keeps (inv_vars D) only_overflow (matchMnemonicVar E crt ib ins)"
proof -
  have "resolved ((new_pasm_operand E)\<lparr>pa_opcode := xi_opcode ins\<rparr>)"
    using assms by (simp add: resolved_def new_pasm_operand_def env_small_def op_varid_base_def)
  with assms(1) show ?thesis
    by (auto simp: matchMnemonicVar_def Let_def split: option.split
        intro!: keeps_bindS [OF keeps_add_var] elim: inv_vars_mono)
qed

lemma keeps_matchAlternative [keeps_rules]:
  assumes "inv_vars D crt" "env_small E" "small_ins ins"
  shows "keeps (inv_vars D) only_overflow (matchAlternative E ins ib crt)"
proof -
  have "flags_opsize_bits E (xi_flags ins) < op_varid_base"
    using assms by (simp add: env_small_def)
  with assms show ?thesis
    by (auto simp: matchAlternative_def intro!: keeps_bindS [OF keeps_matchSizeVar_weak]
        keeps_bindS [OF keeps_isMatchInstBody] keeps_bindS [OF keeps_matchMnemonicVar])
qed

lemma keeps_alternatives:
  assumes "inv_vars D crt" "env_small E" "small_ins ins"
  shows "keeps (inv_vars D) only_overflow (loopS (matchAlternative E ins) ibs crt)"
  using assms by (intro keeps_loopS keeps_matchAlternative)

text \<open>
  A statement is well formed when it carries the tree its type needs (the parser drops a statement
  whose expression did not parse), and a sequence when its statements are and its position is a
  statement of it or the end.
\<close>

definition wf_stmt :: "patternInst \<Rightarrow> bool" where
  "wf_stmt pi \<longleftrightarrow> (pi_type pi = pattern_inst_express \<longrightarrow> pi_expr pi \<noteq> None)
     \<and> (pi_type pi = pattern_inst_memexpr \<longrightarrow> pi_memexpr pi \<noteq> None)"

definition wf_pos :: "patternSequence \<Rightarrow> nat option \<Rightarrow> bool" where
  "wf_pos seq p \<longleftrightarrow> (case p of None \<Rightarrow> True | Some i \<Rightarrow> i < length (ps_insts seq))"

definition wf_seq :: "patternSequence \<Rightarrow> bool" where
  "wf_seq seq \<longleftrightarrow> (\<forall>pi \<in> set (ps_insts seq). wf_stmt pi) \<and> wf_pos seq (crt_inst (ps_crt seq))
     \<and> vars_resolved (ps_crt seq)"

lemma wf_pos_None [simp]: "wf_pos seq None"
  by (simp add: wf_pos_def)

lemma wf_pos_Some [simp]: "wf_pos seq (Some i) \<longleftrightarrow> i < length (ps_insts seq)"
  by (simp add: wf_pos_def)

lemma wf_pos_crt [simp]:
  "wf_pos (seq\<lparr>ps_crt := c\<rparr>) p = wf_pos seq p"
  "wf_pos (upd_crt seq f) p = wf_pos seq p"
  by (simp_all add: wf_pos_def upd_crt_def split: option.split)

lemma wf_pos_next [simp]: "wf_pos seq (next_inst seq i)"
  by (simp add: next_inst_def)

text \<open>
  The frame of a step: the statements change in nothing but their counters and their user data.
\<close>

definition frozen :: "patternInst \<Rightarrow> patternInst" where
  "frozen pi = pi\<lparr>pi_matched_count := 0, pi_userdata := None\<rparr>"

definition same_stmts :: "patternSequence \<Rightarrow> patternSequence \<Rightarrow> bool" where
  "same_stmts s t \<longleftrightarrow> map frozen (ps_insts s) = map frozen (ps_insts t)
     \<and> ps_maximumInst s = ps_maximumInst t"

lemma same_stmts_refl [simp]: "same_stmts s s"
  by (simp add: same_stmts_def)

lemma same_stmts_trans: "same_stmts s t \<Longrightarrow> same_stmts t u \<Longrightarrow> same_stmts s u"
  by (simp add: same_stmts_def)

lemma same_stmts_length: "same_stmts s t \<Longrightarrow> length (ps_insts s) = length (ps_insts t)"
  by (auto simp: same_stmts_def dest: map_eq_imp_length_eq)

lemma wf_stmt_frozen: "wf_stmt (frozen pi) = wf_stmt pi"
  by (simp add: wf_stmt_def frozen_def)

lemma same_stmts_wf:
  assumes "same_stmts s t"
  shows "(\<forall>pi \<in> set (ps_insts s). wf_stmt pi) \<longleftrightarrow> (\<forall>pi \<in> set (ps_insts t). wf_stmt pi)"
proof -
  have "(\<forall>pi \<in> set (map frozen (ps_insts s)). wf_stmt pi)
      \<longleftrightarrow> (\<forall>pi \<in> set (map frozen (ps_insts t)). wf_stmt pi)"
    using assms by (simp add: same_stmts_def)
  then show ?thesis by (simp add: wf_stmt_frozen)
qed

lemma same_stmts_crt [simp]:
  "same_stmts s (t\<lparr>ps_crt := c\<rparr>) = same_stmts s t"
  "same_stmts s (upd_crt t f) = same_stmts s t"
  by (simp_all add: same_stmts_def upd_crt_def)

lemma same_stmts_upd_inst:
  "same_stmts s t \<Longrightarrow> (\<And>p. frozen (f p) = frozen p) \<Longrightarrow> same_stmts s (upd_inst t i f)"
  by (simp add: same_stmts_def upd_inst_def map_update list_update_same_conv)
    (metis list_update_id map_update)

lemma frozen_simps [simp]:
  "frozen (p\<lparr>pi_userdata := u\<rparr>) = frozen p"
  "frozen (p\<lparr>pi_matched_count := m\<rparr>) = frozen p"
  by (simp_all add: frozen_def)

text \<open>\<open>step_inv s0\<close>: well formed, with the statements of \<open>s0\<close>.\<close>

definition step_inv :: "patternSequence \<Rightarrow> patternSequence \<Rightarrow> bool" where
  "step_inv s0 s \<longleftrightarrow> wf_seq s \<and> same_stmts s0 s"

lemma step_inv_refl: "wf_seq s \<Longrightarrow> step_inv s s"
  by (simp add: step_inv_def)

lemma step_inv_length: "step_inv s0 s \<Longrightarrow> length (ps_insts s) = length (ps_insts s0)"
  by (metis step_inv_def same_stmts_length)

lemma step_inv_crt:
  assumes "step_inv s0 s" "vars_resolved c" "crt_inst c = crt_inst (ps_crt s)"
  shows "step_inv s0 (s\<lparr>ps_crt := c\<rparr>)"
  using assms by (auto simp: step_inv_def wf_seq_def wf_pos_def split: option.splits)

lemma step_inv_upd_inst:
  assumes "step_inv s0 s" "\<And>p. frozen (f p) = frozen p"
  shows "step_inv s0 (upd_inst s i f)"
proof -
  have same: "same_stmts s (upd_inst s i f)"
    using assms(2) by (rule same_stmts_upd_inst [OF same_stmts_refl])
  moreover have "ps_crt (upd_inst s i f) = ps_crt s" by (simp add: upd_inst_def)
  ultimately show ?thesis
    using assms(1) same_stmts_wf [OF same] same_stmts_length [OF same]
    by (auto simp: step_inv_def wf_seq_def wf_pos_def intro: same_stmts_trans split: option.splits)
qed

lemma step_inv_move:
  "step_inv s0 s \<Longrightarrow> wf_pos s p \<Longrightarrow> step_inv s0 (upd_crt s (\<lambda>crt. crt\<lparr>crt_inst := p\<rparr>))"
  by (auto simp: step_inv_def wf_seq_def wf_pos_def upd_crt_def vars_resolved_def same_stmts_def
      split: option.splits)

lemma vars_resolved_fold_remove:
  "vars_resolved c \<Longrightarrow>
    vars_resolved (c\<lparr>crt_vars := fold (\<lambda>k m. m(k := None)) ks (crt_vars c)\<rparr>)"
proof (induction ks arbitrary: c)
  case (Cons k ks)
  have "vars_resolved (c\<lparr>crt_vars := (crt_vars c)(k := None)\<rparr>)"
    using Cons.prems by (auto simp: vars_resolved_def split: if_splits)
  from Cons.IH [OF this] show ?case by simp
qed simp

lemma step_inv_remove:
  "step_inv s0 s \<Longrightarrow> step_inv s0 (upd_crt s remove_new_vars)"
  using vars_resolved_fold_remove [of "ps_crt s" "crt_nvars (ps_crt s)"]
  by (auto simp: upd_crt_def remove_new_vars_def wf_seq_def step_inv_def wf_pos_def same_stmts_def
      split: option.splits)

text \<open>
  Alternatives keep every property of the variable table's interface, the position among them, so
  lifting a run over the table to the sequence keeps the step invariant.
\<close>

context new_var_frame
begin

lemma frame_matchAlternative:
  assumes "I crt" "\<And>i. save_ok I E (ib_ops ib i) ins"
  shows "keeps I (\<lambda>_. True) (matchAlternative E ins ib crt)"
proof -
  have mnem: "keeps I (\<lambda>_. True) (matchMnemonicVar E c ib ins)" if "I c" for c
    using that by (auto simp: matchMnemonicVar_def Let_def split: option.split
        intro!: keeps_bindS [OF frame_new])
  show ?thesis using assms
    by (auto simp: matchAlternative_def intro!: keeps_bindS [OF frame_matchSizeVar]
        keeps_bindS [OF frame_isMatchInstBody] keeps_bindS [OF mnem])
qed

lemma frame_alternatives:
  "I crt \<Longrightarrow> (\<And>ib i. ib \<in> set ibs \<Longrightarrow> save_ok I E (ib_ops ib i) ins)
    \<Longrightarrow> keeps I (\<lambda>_. True) (loopS (matchAlternative E ins) ibs crt)"
  by (intro keeps_loopS frame_matchAlternative)

end

lemma alternatives_position:
  assumes "loopS (matchAlternative E ins) ibs crt = Inr (r, crt')"
  shows "crt_inst crt' = crt_inst crt"
  using pos.frame_alternatives [where p = "crt_inst crt" and crt = crt and E = E and ins = ins and ibs = ibs]
    assms by (simp add: pos_inv_def)

lemma alternatives_resolved:
  assumes "vars_resolved crt" "env_small E" "small_ins ins"
  shows "keeps vars_resolved only_overflow (loopS (matchAlternative E ins) ibs crt)"
  using keeps_alternatives [of "{}" crt E ins ibs] assms
  by (auto simp: inv_vars_def elim: keeps_weaken)

lemma keeps_isMatchInst [keeps_rules]:
  assumes inv: "step_inv s0 s" and E: "env_small E" and ins: "small_ins ins"
  shows "keeps (step_inv s0) only_overflow (isMatchInst E s i ins esp efl)"
proof -
  let ?s = "upd_crt s (\<lambda>crt. crt\<lparr>crt_nvars := []\<rparr>)"
  have s: "step_inv s0 ?s"
    using inv by (auto simp: upd_crt_def intro!: step_inv_crt simp: step_inv_def wf_seq_def
        vars_resolved_def)
  then have res: "vars_resolved (ps_crt ?s)" by (simp add: step_inv_def wf_seq_def)
  have "keeps (step_inv s0) only_overflow
      (on_crt ?s (loopS (matchAlternative E ins) (pi_insts (ps_insts ?s ! i)) (ps_crt ?s)))"
    unfolding on_crt_def
    by (rule keeps_bindS [OF alternatives_resolved [OF res E ins]])
      (auto intro!: step_inv_crt [OF s] dest: alternatives_position)
  with s show ?thesis
    by (auto simp: isMatchInst_def Let_def intro!: keeps_bindS step_inv_upd_inst)
qed

text \<open>
  The faults a step can end in: the array of new variables overflows, or an expression divides by
  zero or shifts out of range. A null pointer is never dereferenced and every loop ends.
\<close>

definition step_fault :: "fault \<Rightarrow> bool" where
  "step_fault e \<longleftrightarrow> e = Array_overflow \<or> e = Div_fault \<or> e = Bad_shift"

lemma keeps_isMatchInst_step:
  assumes "step_inv s0 s" "env_small E" "small_ins ins"
  shows "keeps (step_inv s0) step_fault (isMatchInst E s i ins esp efl)"
  using keeps_isMatchInst [OF assms] by (rule keeps_weaken) (simp_all add: step_fault_def)

lemma upd_inst_length [simp]: "length (ps_insts (upd_inst s i f)) = length (ps_insts s)"
  by (simp add: upd_inst_def)

lemma next_inst_upd_inst [simp]: "next_inst (upd_inst s i f) j = next_inst s j"
  by (simp add: next_inst_def)

lemma step_inv_record [simp]:
  "step_inv s0 s \<Longrightarrow> step_inv s0 (upd_inst s i (\<lambda>p. p\<lparr>pi_userdata := ud\<rparr>))"
  by (rule step_inv_upd_inst) simp_all

lemma step_inv_next [simp]:
  "step_inv s0 s \<Longrightarrow> step_inv s0 (upd_crt s (\<lambda>crt. crt\<lparr>crt_inst := next_inst s j\<rparr>))"
  by (rule step_inv_move) simp_all

lemma next_inst_SomeD: "next_inst s i = Some j \<Longrightarrow> j < length (ps_insts s)"
  by (auto simp: next_inst_def split: if_splits)

lemma keeps_matched_step:
  assumes inv: "step_inv s0 s" and E: "env_small E" and ins: "small_ins ins"
  shows "keeps (step_inv s0) step_fault (matched_step E s i ins esp efl ud)"
proof -
  have after: "step_inv s0 (upd_crt (upd_inst t j (\<lambda>p. p\<lparr>pi_userdata := ud\<rparr>))
      (\<lambda>crt. crt\<lparr>crt_inst := next_inst t j\<rparr>))" if "step_inv s0 t" for t j
    using step_inv_next [OF step_inv_record [OF that, of j ud], of j] by simp
  show ?thesis using inv
    by (auto simp: matched_step_def Let_def after step_inv_remove split: option.split
        intro!: keeps_bindS [OF keeps_isMatchInst_step [OF _ E ins]])
qed

lemma keeps_testForInstruction:
  assumes inv: "step_inv s0 s" and E: "env_small E" and ins: "small_ins ins"
  shows "keeps (step_inv s0) step_fault (testForInstruction E s i ins esp efl ud)"
proof -
  note match = keeps_bindS [OF keeps_isMatchInst_step [OF _ E ins]]
  note step = keeps_bindS [OF keeps_matched_step [OF _ E ins]]
  show ?thesis
    unfolding testForInstruction_def Let_def
    by (rule match [OF inv]) (auto split: option.split intro!: match step step_inv_move step_inv_record dest: next_inst_SomeD)
qed

lemma vars_resolved_inv: "vars_resolved crt \<longleftrightarrow> inv_vars {} crt"
  by (simp add: inv_vars_def)

lemma inv_find_or_new:
  "inv_vars {} crt \<Longrightarrow> env_small E \<Longrightarrow> inv_vars {} (find_or_new E crt vid)"
  by (auto simp: find_or_new_def split: option.split elim: inv_vars_mono [OF inv_vars_set_var])

lemma resolved_assign_imm:
  "resolved a \<Longrightarrow> resolved (a\<lparr>pa_type := t, pa_imm := v\<rparr>)"
  by (simp add: resolved_def)

text \<open>A statement that is not an instruction keeps the table and the position.\<close>

lemma keeps_runStatement:
  assumes inv: "inv_vars {} crt" and E: "env_small E" and wf: "wf_stmt pi"
  shows "keeps (inv_vars {}) step_fault (runStatement E pi crt)"
proof -
  have "keeps (inv_vars {}) step_fault (runExpress E pi crt)" if e: "pi_expr pi = Some e" for e
  proof (cases "calculateExpress crt e 0")
    case (Inl f)
    then show ?thesis using e calculateExpress_fault [OF Inl]
      by (auto simp: runExpress_def step_fault_def arith_fault_def)
  next
    case (Inr r)
    then show ?thesis using e inv E
      by (cases r) (auto simp: runExpress_def Let_def resolved_assign_imm
          intro!: inv_vars_update_var inv_find_or_new)
  qed
  moreover have "keeps (inv_vars {}) step_fault (runMemoryExpress E pi crt)"
    if e: "pi_memexpr pi = Some e" for e
  proof -
    have "keeps (inv_vars {}) step_fault (calculateMemoryExpress (find_or_new E crt v) e v)" for v
      using keeps_calculateMemoryExpress [OF inv_find_or_new [OF inv E], of v e v]
      by (rule keeps_weaken) (simp_all add: step_fault_def)
    moreover have "inv_vars {} (c\<lparr>crt_vars := (crt_vars c)(v := None)\<rparr>)" if "inv_vars {} c" for c v
      using that by (auto simp: inv_vars_def vars_resolved_def split: if_splits)
    ultimately show ?thesis using e
      by (auto simp: runMemoryExpress_def Let_def intro!: keeps_bindS)
  qed
  moreover have "keeps (inv_vars {}) step_fault (runControl pi crt)"
    using inv by (simp add: runControl_def Let_def split: option.split)
  ultimately show ?thesis using wf inv
    by (cases "pi_type pi") (auto simp: runStatement_def wf_stmt_def)
qed

lemma position_simps [simp]:
  "crt_inst (set_var crt k v) = crt_inst crt"
  "crt_inst (update_var crt k g) = crt_inst crt"
  "crt_inst (find_or_new E crt k) = crt_inst crt"
  by (simp_all add: set_var_def update_var_def find_or_new_def split: option.split)

lemma member_step_position:
  "member_step crt vid k f d assign = Some crt' \<Longrightarrow> crt_inst crt' = crt_inst crt"
  by (auto simp: member_step_def)

lemma runStatement_position:
  "runStatement E pi crt = Inr (st, crt') \<Longrightarrow> crt_inst crt' = crt_inst crt"
  by (auto simp: runStatement_def runExpress_def runMemoryExpress_def runControl_def Let_def
      bindS_Inr_eq calculateMemoryExpress_def
      split: pattern_inst_type.splits option.splits if_splits sum.splits prod.splits
      dest!: member_step_position)

lemma testLoop_keeps:
  assumes "step_inv s0 s" "wf_pos s p" "env_small E" "small_ins ins"
  shows "keeps (step_inv s0) step_fault (testLoop E ins esp efl ud psed p s)"
  using assms
proof (induction E ins esp efl ud psed p s rule: testLoop.induct)
  case (1 E ins esp efl ud psed s)
  then show ?case by (simp add: testLoop.simps)
next
  case (2 E ins esp efl ud psed i s)
  have i: "i < length (ps_insts s)" using "2.prems" by simp
  show ?case
  proof (cases "pi_type (ps_insts s ! i) = pattern_inst_instruction")
    case True
    have "keeps (step_inv s0) step_fault
        (if st < 0 then Inr (st, s1)
         else case crt_inst (ps_crt s1) of
             None \<Rightarrow> Inr (1, s1)
           | Some j \<Rightarrow>
               if length (ps_insts s1) \<le> j then Inl Null_deref
               else if pi_type (ps_insts s1 ! j) \<noteq> pattern_inst_instruction
               then testLoop E ins esp efl ud True (Some j) s1
               else Inr (0, s1))"
      if t: "testForInstruction E s i ins esp efl ud = Inr (st, s1)" and inv: "step_inv s0 s1"
        and psed: "\<not> psed" for st s1
    proof -
      have pos: "wf_pos s1 (crt_inst (ps_crt s1))" using inv by (simp add: step_inv_def wf_seq_def)
      show ?thesis
      proof (cases "crt_inst (ps_crt s1)")
        case (Some j)
        have j: "j < length (ps_insts s1)" using pos Some by simp
        then show ?thesis using Some inv psed i True
            "2.IH"(1) [OF _ True psed t _ Some _ _ inv _ "2.prems"(3,4)]
          by (auto simp: not_less)
      qed (use inv in auto)
    qed
    then show ?thesis using "2.prems" i True
      by (auto simp: testLoop.simps(2) intro!: keeps_bindS [OF keeps_testForInstruction])
  next
    case False
    have wf: "wf_stmt (ps_insts s ! i)" and res: "inv_vars {} (ps_crt s)"
      using "2.prems"(1) i by (auto simp: step_inv_def wf_seq_def inv_vars_def)
    have "keeps (step_inv s0) step_fault
        (let s1 = s\<lparr>ps_crt := crt\<rparr>
         in if st < 0 then Inr (st, s1)
            else testLoop E ins esp efl ud psed (next_inst s1 i) s1)"
      if run: "runStatement E (ps_insts s ! i) (ps_crt s) = Inr (st, crt)" and inv: "inv_vars {} crt"
      for st crt
    proof -
      have "step_inv s0 (s\<lparr>ps_crt := crt\<rparr>)"
        using inv "2.prems"(1) runStatement_position [OF run]
        by (auto intro!: step_inv_crt simp: inv_vars_def)
      then show ?thesis
        using "2.IH"(2) [OF _ False run refl] i "2.prems"(3,4) by (auto simp: Let_def)
    qed
    then show ?thesis using i False
      by (auto simp: testLoop.simps(2)
          intro!: keeps_bindS [OF keeps_runStatement [OF res "2.prems"(3) wf]])
  qed
qed

lemma testForSequence_keeps:
  assumes "wf_seq s" "env_small E" "small_ins ins"
  shows "keeps (step_inv s) step_fault (testForSequence E s ins esp efl ud)"
proof -
  let ?s = "upd_crt s (\<lambda>crt. crt\<lparr>crt_count := crt_count (ps_crt s) + 1\<rparr>)"
  have inv: "step_inv s ?s"
    using assms(1) by (auto simp: step_inv_def wf_seq_def upd_crt_def vars_resolved_def
        same_stmts_def wf_pos_def split: option.split)
  then have "wf_pos ?s (crt_inst (ps_crt ?s))" by (simp add: step_inv_def wf_seq_def)
  then show ?thesis
    using inv testLoop_keeps [OF inv _ assms(2,3)] by (simp add: testForSequence_def Let_def)
qed

section \<open>The interface of a step\<close>

text \<open>
  A step writes a pattern in three ways: it replaces the run-time part, counts a match of a statement,
  and notes the caller's data with a statement. What these keep, every step keeps.
\<close>

locale step_frame =
  fixes J :: "patternSequence \<Rightarrow> bool"
    and ud :: "nat option"
  assumes J_crt: "J s \<Longrightarrow> J (s\<lparr>ps_crt := c\<rparr>)"
    and J_count: "J s \<Longrightarrow> J (upd_inst s i (\<lambda>p. p\<lparr>pi_matched_count := pi_matched_count p + 1\<rparr>))"
    and J_data: "J s \<Longrightarrow> J (upd_inst s i (\<lambda>p. p\<lparr>pi_userdata := ud\<rparr>))"
begin

lemma J_upd_crt: "J s \<Longrightarrow> J (upd_crt s f)"
  by (simp add: upd_crt_def J_crt)

lemma J_on_crt: "J s \<Longrightarrow> keeps J (\<lambda>_. True) (on_crt s m)"
  by (cases m) (auto simp: on_crt_def J_crt)

lemma J_isMatchInst: "J s \<Longrightarrow> keeps J (\<lambda>_. True) (isMatchInst E s i ins esp efl)"
  by (auto simp: isMatchInst_def Let_def J_upd_crt J_count intro!: keeps_bindS [OF J_on_crt])

lemma J_matched_step: "J s \<Longrightarrow> keeps J (\<lambda>_. True) (matched_step E s i ins esp efl ud)"
  by (auto simp: matched_step_def Let_def J_upd_crt J_data split: option.split
      intro!: keeps_bindS [OF J_isMatchInst])

lemma J_testForInstruction: "J s \<Longrightarrow> keeps J (\<lambda>_. True) (testForInstruction E s i ins esp efl ud)"
  unfolding testForInstruction_def Let_def
  by (rule keeps_bindS [OF J_isMatchInst])
    (auto simp: J_upd_crt J_data split: option.split
      intro!: keeps_bindS [OF J_isMatchInst] keeps_bindS [OF J_matched_step])

lemma J_testLoop:
  "u = ud \<Longrightarrow> J s \<Longrightarrow> keeps J (\<lambda>_. True) (testLoop E ins esp efl u psed p s)"
proof (induction E ins esp efl u psed p s rule: testLoop.induct)
  case (1 E ins esp efl u psed s)
  then show ?case by (simp add: testLoop.simps)
next
  case (2 E ins esp efl u psed i s)
  have more: "keeps J (\<lambda>_. True)
      (if st < 0 then Inr (st, s1)
       else case crt_inst (ps_crt s1) of
           None \<Rightarrow> Inr (1, s1)
         | Some j \<Rightarrow>
             if length (ps_insts s1) \<le> j then Inl Null_deref
             else if pi_type (ps_insts s1 ! j) \<noteq> pattern_inst_instruction
             then testLoop E ins esp efl u True (Some j) s1
             else Inr (0, s1))"
    if "\<not> length (ps_insts s) \<le> i" "pi_type (ps_insts s ! i) = pattern_inst_instruction" "\<not> psed"
      "testForInstruction E s i ins esp efl u = Inr (st, s1)" "J s1" for st s1
    using that "2.IH"(1) [OF that(1-4)] "2.prems"(1) by (auto split: option.split)
  have rest: "keeps J (\<lambda>_. True)
      (let s1 = s\<lparr>ps_crt := c\<rparr>
       in if st < 0 then Inr (st, s1) else testLoop E ins esp efl u psed (next_inst s1 i) s1)"
    if "\<not> length (ps_insts s) \<le> i" "pi_type (ps_insts s ! i) \<noteq> pattern_inst_instruction"
      "runStatement E (ps_insts s ! i) (ps_crt s) = Inr (st, c)" for st c
    using that "2.IH"(2) [OF that refl] "2.prems" by (simp add: Let_def J_crt)
  have step: "keeps J (\<lambda>_. True) (testForInstruction E s i ins esp efl u)"
    using J_testForInstruction [OF "2.prems"(2)] "2.prems"(1) by simp
  have "keeps (\<lambda>_. True) (\<lambda>_. True) (runStatement E (ps_insts s ! i) (ps_crt s))"
    by (simp add: keeps_def split: sum.split)
  then show ?case
    using more rest step "2.prems"(2)
    by (auto simp: testLoop.simps(2) intro!: keeps_bindS [OF step]
        keeps_bindS [of "\<lambda>_. True" _ "runStatement E (ps_insts s ! i) (ps_crt s)"])
qed

lemma J_testForSequence: "J s \<Longrightarrow> keeps J (\<lambda>_. True) (testForSequence E s ins esp efl ud)"
  by (auto simp: testForSequence_def Let_def J_upd_crt intro!: J_testLoop)

end

text \<open>
  Two such properties: the data noted with the statements comes from a given set, and the parts of a
  pattern that say what it is do not change.
\<close>

definition data_in :: "nat set \<Rightarrow> patternSequence \<Rightarrow> bool" where
  "data_in U s \<longleftrightarrow> (\<forall>pi \<in> set (ps_insts s). set_option (pi_userdata pi) \<subseteq> U)"

lemma data_in_upd_inst:
  assumes "data_in U s" "\<And>p. set_option (pi_userdata p) \<subseteq> U \<Longrightarrow> set_option (pi_userdata (f p)) \<subseteq> U"
  shows "data_in U (upd_inst s i f)"
proof (cases "i < length (ps_insts s)")
  case True
  then show ?thesis using assms set_update_subset_insert [of "ps_insts s" i "f (ps_insts s ! i)"]
    by (fastforce simp: data_in_def upd_inst_def)
next
  case False
  then show ?thesis using assms by (simp add: data_in_def upd_inst_def list_update_beyond)
qed

interpretation data: step_frame "data_in (U \<union> set_option u)" u for U u
proof
  fix s c i
  assume J: "data_in (U \<union> set_option u) s"
  show "data_in (U \<union> set_option u) (s\<lparr>ps_crt := c\<rparr>)" using J by (simp add: data_in_def)
  show "data_in (U \<union> set_option u) (upd_inst s i (\<lambda>p. p\<lparr>pi_matched_count := pi_matched_count p + 1\<rparr>))"
    using J by (rule data_in_upd_inst) simp
  show "data_in (U \<union> set_option u) (upd_inst s i (\<lambda>p. p\<lparr>pi_userdata := u\<rparr>))"
    using J by (rule data_in_upd_inst) simp
qed

definition identity :: "patternSequence \<Rightarrow> int \<times> patternMode \<times> 32 word \<times> patternInst list" where
  "identity s = (ps_id s, ps_mode s, ps_flags s, map frozen (ps_insts s))"

lemma identity_upd_inst: "(\<And>p. frozen (f p) = frozen p) \<Longrightarrow> identity (upd_inst s i f) = identity s"
  using same_stmts_upd_inst [OF same_stmts_refl, of f s i]
  by (simp add: identity_def same_stmts_def upd_inst_def)

interpretation ident: step_frame "\<lambda>s. identity s = d" u for d u
  by unfold_locales (simp_all add: identity_upd_inst, simp add: identity_def)

end
