(* ===== verification/PatternReplace.thy ===== *)
theory PatternReplace
  imports PatternSeq
begin

text \<open>
  The replacement instructions of a matched pattern (\<open>genReplaceOpcode\<close>): the operands of the
  template are filled in from the variables the match has bound, the operand size and the mnemonic
  are set, and the instruction is handed to the assembler.
\<close>

section \<open>Filling in the operands\<close>

definition forced_size :: "pattern_op \<Rightarrow> int \<Rightarrow> int" where
  "forced_size vop sz =
     (if has (po_cflags vop) PATTERN_CFLAG_8BIT then 8
      else if has (po_cflags vop) PATTERN_CFLAG_16BIT then 16
      else if has (po_cflags vop) PATTERN_CFLAG_32BIT then 32
      else if has (po_cflags vop) PATTERN_CFLAG_64BIT then 64
      else sz)"

definition place_op :: "x86_env \<Rightarrow> x86inst \<Rightarrow> nat \<Rightarrow> pattern_op \<Rightarrow> pasm_operand \<Rightarrow> x86inst" where
  "place_op E ins i vop iop =
     set_op E ins i (pa_type iop) (pa_imm iop) (forced_size vop (pa_size iop))
       (pa_base iop) (pa_index iop) (pa_scale iop)"

definition drop_op :: "x86_env \<Rightarrow> x86inst \<Rightarrow> nat \<Rightarrow> x86inst" where
  "drop_op E ins i = ins\<lparr>xi_ops := (xi_ops ins)(i := (xi_ops ins i)\<lparr>xo_type := O_NONE E\<rparr>)\<rparr>"

text \<open>
  The body of the loop over the operands; the state is the instruction being built and the
  run-time part, and \<open>Some\<close> leaves the function with an error code.
\<close>

definition replaceOperand ::
  "x86_env \<Rightarrow> pattern_inst_body \<Rightarrow> nat \<Rightarrow> x86inst \<times> seqRuntime
    \<Rightarrow> (int option, x86inst \<times> seqRuntime) outcome" where
  "replaceOperand E pi i st =
     (case st of (ins, crt) \<Rightarrow>
       (let vop = ib_ops pi i
        in if po_type vop = pattern_op_none then Inr (None, (drop_op E ins i, crt))
           else if po_type vop = pattern_op_explicit then Inr (None, (ins, crt))
           else if po_type vop = pattern_op_memexpr then
             (case crt_opvars crt (po_id vop) of
                None \<Rightarrow> Inr (Some (-2), (ins, crt))
              | Some iop \<Rightarrow>
                  (case resolveVar crt iop vop of
                     Inl e \<Rightarrow> Inl e
                   | Inr iop' \<Rightarrow>
                       Inr (None, (place_op E ins i vop iop',
                         crt\<lparr>crt_opvars := (crt_opvars crt)(po_id vop \<mapsto> iop')\<rparr>))))
           else
             (case crt_vars crt (varid (po_type vop) (po_id vop)) of
                None \<Rightarrow> Inr (Some (-1), (ins, crt))
              | Some iop \<Rightarrow> Inr (None, (place_op E ins i vop iop, crt)))))"

section \<open>Operand size and mnemonic\<close>

definition clear_opsize :: "32 word \<Rightarrow> 32 word" where
  "clear_opsize f = f AND NOT (push_bit 8 7)"

text \<open>
  The switch over the size variable has no \<open>break\<close>: every case falls through to those below it.
\<close>

definition switch_opsize :: "x86_env \<Rightarrow> int \<Rightarrow> 32 word \<Rightarrow> 32 word" where
  "switch_opsize E sz f =
     (if sz = 16 then flag_set_opsize E (flag_set_opsize E (flag_set_opsize E f 0) 1) 2
      else if sz = 32 then flag_set_opsize E (flag_set_opsize E f 1) 2
      else if sz = 64 then flag_set_opsize E f 2
      else f)"

definition replaceSize :: "x86_env \<Rightarrow> seqRuntime \<Rightarrow> pattern_inst_body \<Rightarrow> x86inst \<Rightarrow> x86inst" where
  "replaceSize E crt pi ins =
     (let ins1 =
        (if 0 < ib_szid pi then
           (case crt_vars crt (varid pattern_op_size (ib_szid pi)) of
              None \<Rightarrow> ins
            | Some pop \<Rightarrow> ins\<lparr>xi_flags := switch_opsize E (pa_size pop) (clear_opsize (xi_flags ins))\<rparr>)
         else ins);
          force = (\<lambda>k. ins1\<lparr>xi_size := k, xi_flags := flag_set_opsize E (clear_opsize (xi_flags ins1)) k\<rparr>)
      in if has (ib_cflags pi) PATTERN_CFLAG_16BIT then force 0
         else if has (ib_cflags pi) PATTERN_CFLAG_32BIT then force 1
         else if has (ib_cflags pi) PATTERN_CFLAG_64BIT then force 2
         else ins1)"

definition replaceMnemonic :: "x86_env \<Rightarrow> seqRuntime \<Rightarrow> pattern_inst_body \<Rightarrow> x86inst \<Rightarrow> x86inst" where
  "replaceMnemonic E crt pi ins =
     (if 0 < ib_mnemonicid pi then
        (case crt_vars crt (varid pattern_op_mnemonic (ib_mnemonicid pi)) of
           None \<Rightarrow> ins
         | Some pop \<Rightarrow> set_inst_mnemonic E ins (pa_opcode pop))
      else ins)"

text \<open>The result is an error code, or the bytes the assembler wrote.\<close>

definition genReplaceOpcode ::
  "x86_env \<Rightarrow> patternSequence \<Rightarrow> pattern_inst_body \<Rightarrow> int
    \<Rightarrow> (int + byte list, patternSequence) outcome" where
  "genReplaceOpcode E seq pi szop =
     bindS (loopS (replaceOperand E pi) [0..<OPERANDS_NO E] (ib_ins pi, ps_crt seq)) (\<lambda>r st.
       let seq' = seq\<lparr>ps_crt := snd st\<rparr>
       in case r of
            Some code \<Rightarrow> Inr (Inl code, seq')
          | None \<Rightarrow>
              Inr (inst_to_bc E
                (replaceMnemonic E (snd st) pi (replaceSize E (snd st) pi (fst st))) szop, seq'))"

section \<open>What a replacement needs\<close>

text \<open>The variable behind an operand of the template is bound.\<close>

definition operand_ready :: "seqRuntime \<Rightarrow> pattern_op \<Rightarrow> bool" where
  "operand_ready crt vop \<longleftrightarrow>
     (case po_type vop of
        pattern_op_none \<Rightarrow> True
      | pattern_op_explicit \<Rightarrow> True
      | pattern_op_memexpr \<Rightarrow> crt_opvars crt (po_id vop) \<noteq> None
          \<and> (0 < po_szid vop \<longrightarrow> crt_vars crt (varid pattern_op_size (po_szid vop)) \<noteq> None)
      | t \<Rightarrow> crt_vars crt (varid t (po_id vop)) \<noteq> None)"

definition same_bound :: "seqRuntime \<Rightarrow> seqRuntime \<Rightarrow> bool" where
  "same_bound crt crt' \<longleftrightarrow> crt_vars crt' = crt_vars crt \<and> dom (crt_opvars crt') = dom (crt_opvars crt)
     \<and> crt_inst crt' = crt_inst crt \<and> crt_count crt' = crt_count crt"

lemma same_bound_refl [simp]: "same_bound c c"
  by (simp add: same_bound_def)

lemma same_bound_ready: "same_bound c c' \<Longrightarrow> operand_ready c' vop = operand_ready c vop"
  by (auto simp: same_bound_def operand_ready_def domIff set_eq_iff split: pattern_op_type.split)

lemma replaceOperand_ready:
  assumes "vars_resolved crt" "operand_ready crt (ib_ops pi i)"
  shows "\<exists>ins' crt'. replaceOperand E pi i (ins, crt) = Inr (None, (ins', crt')) \<and> same_bound crt crt'"
proof (cases "po_type (ib_ops pi i) = pattern_op_memexpr")
  case True
  then obtain iop where "crt_opvars crt (po_id (ib_ops pi i)) = Some iop"
    using assms(2) by (auto simp: operand_ready_def)
  moreover have "resolveVar crt iop (ib_ops pi i) = Inr (resolve1 crt (ib_ops pi i) iop)"
    using assms True by (intro resolveVar_resolve1) (auto simp: operand_ready_def)
  ultimately show ?thesis using True
    by (auto simp: replaceOperand_def Let_def same_bound_def)
next
  case False
  then show ?thesis using assms(2)
    by (cases "po_type (ib_ops pi i)")
      (auto simp: replaceOperand_def Let_def operand_ready_def)
qed

lemma replaceOperands_ready:
  assumes "vars_resolved crt" "\<forall>i \<in> set is. operand_ready crt (ib_ops pi i)"
  shows "\<exists>ins' crt'. loopS (replaceOperand E pi) is (ins, crt) = Inr (None, (ins', crt'))
    \<and> same_bound crt crt'"
  using assms
proof (induction "is" arbitrary: ins crt)
  case (Cons i "is")
  then obtain ins1 crt1 where 1: "replaceOperand E pi i (ins, crt) = Inr (None, (ins1, crt1))"
      "same_bound crt crt1"
    using replaceOperand_ready [of crt pi i E ins] by auto
  have "vars_resolved crt1" using Cons.prems(1) 1(2) by (simp add: vars_resolved_def same_bound_def)
  moreover have "\<forall>j \<in> set is. operand_ready crt1 (ib_ops pi j)"
    using Cons.prems(2) same_bound_ready [OF 1(2)] by simp
  ultimately obtain ins2 crt2 where
      "loopS (replaceOperand E pi) is (ins1, crt1) = Inr (None, (ins2, crt2))" "same_bound crt1 crt2"
    using Cons.IH by blast
  with 1 show ?case by (auto simp: same_bound_def)
qed simp

text \<open>
  With every variable bound the replacement is assembled, whatever the assembler makes of it, and
  nothing but resolved memory expressions is written.
\<close>

lemma genReplaceOpcode_ready:
  assumes "vars_resolved (ps_crt seq)"
    and "\<forall>i < OPERANDS_NO E. operand_ready (ps_crt seq) (ib_ops pi i)"
  shows "\<exists>ins seq'. genReplaceOpcode E seq pi szop = Inr (inst_to_bc E ins szop, seq')
    \<and> same_bound (ps_crt seq) (ps_crt seq')"
  using replaceOperands_ready [of "ps_crt seq" "[0..<OPERANDS_NO E]" pi E "ib_ins pi"] assms
  by (fastforce simp: genReplaceOpcode_def Let_def)

text \<open>Otherwise the first operand whose variable is missing decides the code.\<close>

lemma loopS_append:
  "loopS f (xs @ ys) s
    = bindS (loopS f xs s) (\<lambda>r s'. case r of Some v \<Rightarrow> Inr (Some v, s') | None \<Rightarrow> loopS f ys s')"
  by (induction xs arbitrary: s) (auto simp: bindS_assoc intro!: bindS_cong split: option.split)

lemma genReplaceOpcode_unbound:
  assumes res: "vars_resolved (ps_crt seq)" and i: "i < OPERANDS_NO E"
    and before: "\<forall>j < i. operand_ready (ps_crt seq) (ib_ops pi j)"
    and var: "po_type (ib_ops pi i) \<in> {pattern_op_any, pattern_op_reg, pattern_op_imm, pattern_op_mem}"
    and unbound: "crt_vars (ps_crt seq) (varid (po_type (ib_ops pi i)) (po_id (ib_ops pi i))) = None"
  shows "\<exists>seq'. genReplaceOpcode E seq pi szop = Inr (Inl (-1), seq')"
proof -
  obtain ins crt where pre: "loopS (replaceOperand E pi) [0..<i] (ib_ins pi, ps_crt seq)
      = Inr (None, (ins, crt))" "same_bound (ps_crt seq) crt"
    using replaceOperands_ready [OF res, of "[0..<i]" pi E "ib_ins pi"] before by auto
  have "replaceOperand E pi i (ins, crt) = Inr (Some (-1), (ins, crt))"
    using var unbound pre(2) by (auto simp: replaceOperand_def Let_def same_bound_def)
  moreover have "[0..<OPERANDS_NO E] = [0..<i] @ i # [Suc i..<OPERANDS_NO E]"
    using i by (metis upt_add_eq_append le_add_diff_inverse less_imp_le upt_conv_Cons zero_le)
  ultimately show ?thesis
    using pre(1) by (simp add: genReplaceOpcode_def loopS_append)
qed

text \<open>
  A memory expression whose size variable is not bound makes \<open>resolveVar\<close> read through a null pointer.
\<close>

lemma genReplaceOpcode_null:
  assumes i: "OPERANDS_NO E = Suc n" and ty: "po_type (ib_ops pi 0) = pattern_op_memexpr"
    and op: "crt_opvars (ps_crt seq) (po_id (ib_ops pi 0)) = Some iop" "resolved iop"
    and sz: "0 < po_szid (ib_ops pi 0)"
      "crt_vars (ps_crt seq) (varid pattern_op_size (po_szid (ib_ops pi 0))) = None"
  shows "genReplaceOpcode E seq pi szop = Inl Null_deref"
proof -
  have "resolveVar (ps_crt seq) iop (ib_ops pi 0) = Inl Null_deref"
    using op(2) sz by (simp add: resolveVar_def chaseF_def chase.simps resolved_def)
  then have "replaceOperand E pi 0 (ib_ins pi, ps_crt seq) = Inl Null_deref"
    using ty op(1) by (simp add: replaceOperand_def Let_def)
  moreover have "[0..<OPERANDS_NO E] = 0 # [1..<Suc n]" using i by (simp add: upt_conv_Cons)
  ultimately show ?thesis by (simp add: genReplaceOpcode_def)
qed

end
