(* ===== verification/TraceData.thy ===== *)
theory TraceData
  imports X86Interface
begin

text \<open>
  Trace records: what the debugger keeps of every executed instruction. \<open>TraceRecord\<close>,
  \<open>TraceRecordEx\<close> and \<open>InstSequence\<close> come from the emulator library (\<open>xHooklib\<close>), which is not in the
  repository; they are given with the members the sources read or write. A pointer to a record of a
  sequence is the number of its node: numbers are handed out once, so a record keeps its number while
  others are inserted and erased around it.
\<close>

type_synonym addr = "32 word"

record TraceRecord =
  tr_unqueID :: "32 word"
  tr_rip :: addr
  tr_nip :: addr
  tr_szOP :: int
  tr_eflags :: "32 word"
  tr_regs :: "32 word list"
  tr_opcode :: "byte list"

record TraceRecordEx =
  tx_flags :: "32 word"
  tx_ctx1 :: TraceRecord
  tx_ctx2 :: TraceRecord
  tx_mraddr :: addr
  tx_mrsize :: int
  tx_mrvalue :: "32 word"
  tx_mwaddr :: addr
  tx_mwsize :: int
  tx_mwvalue :: "32 word"

text \<open>A sequence: the numbered records in order, and the next number to hand out.\<close>

record InstSequence =
  is_nodes :: "(nat \<times> TraceRecordEx) list"
  is_fresh :: nat

definition nodes_ok :: "InstSequence \<Rightarrow> bool" where
  "nodes_ok seq \<longleftrightarrow> distinct (map fst (is_nodes seq))
     \<and> list_all (\<lambda>n. n < is_fresh seq) (map fst (is_nodes seq))"

definition rec_at :: "InstSequence \<Rightarrow> nat \<Rightarrow> TraceRecordEx option" where
  "rec_at seq n = map_of (is_nodes seq) n"

text \<open>\<open>push_back\<close>, \<open>AddAfter\<close>, \<open>erase\<close> and writing a record through its pointer.\<close>

definition push_back :: "TraceRecordEx \<Rightarrow> InstSequence \<Rightarrow> InstSequence" where
  "push_back tr seq = seq\<lparr>is_nodes := is_nodes seq @ [(is_fresh seq, tr)], is_fresh := is_fresh seq + 1\<rparr>"

definition add_after :: "nat \<Rightarrow> TraceRecordEx \<Rightarrow> InstSequence \<Rightarrow> nat \<times> InstSequence" where
  "add_after n tr seq =
     (let pre = takeWhile (\<lambda>e. fst e \<noteq> n) (is_nodes seq);
          post = dropWhile (\<lambda>e. fst e \<noteq> n) (is_nodes seq)
      in (is_fresh seq,
          seq\<lparr>is_nodes := pre @ take 1 post @ (is_fresh seq, tr) # drop 1 post,
              is_fresh := is_fresh seq + 1\<rparr>))"

definition erase_rec :: "nat \<Rightarrow> InstSequence \<Rightarrow> InstSequence" where
  "erase_rec n seq = seq\<lparr>is_nodes := filter (\<lambda>e. fst e \<noteq> n) (is_nodes seq)\<rparr>"

definition upd_rec :: "nat \<Rightarrow> (TraceRecordEx \<Rightarrow> TraceRecordEx) \<Rightarrow> InstSequence \<Rightarrow> InstSequence" where
  "upd_rec n f seq = seq\<lparr>is_nodes := map (\<lambda>e. if fst e = n then (n, f (snd e)) else e) (is_nodes seq)\<rparr>"

text \<open>\<open>first\<close>, \<open>next\<close>, \<open>last\<close> and \<open>prev\<close> on the list of numbers.\<close>

fun succ_in :: "nat list \<Rightarrow> nat \<Rightarrow> nat option" where
  "succ_in (x # y # xs) n = (if x = n then Some y else succ_in (y # xs) n)"
| "succ_in _ n = None"

definition rec_next :: "InstSequence \<Rightarrow> nat \<Rightarrow> nat option" where
  "rec_next seq n = succ_in (map fst (is_nodes seq)) n"

definition rec_prev :: "InstSequence \<Rightarrow> nat \<Rightarrow> nat option" where
  "rec_prev seq n = succ_in (rev (map fst (is_nodes seq))) n"

definition rec_first :: "InstSequence \<Rightarrow> nat option" where
  "rec_first seq = (case is_nodes seq of [] \<Rightarrow> None | e # _ \<Rightarrow> Some (fst e))"

definition rec_last :: "InstSequence \<Rightarrow> nat option" where
  "rec_last seq = (case rev (is_nodes seq) of [] \<Rightarrow> None | e # _ \<Rightarrow> Some (fst e))"

section \<open>The operations keep the numbering\<close>

lemma nodes_ok_push_back [intro]: "nodes_ok seq \<Longrightarrow> nodes_ok (push_back tr seq)"
  by (auto simp: nodes_ok_def push_back_def list_all_iff)

lemma nodes_ok_erase [intro]: "nodes_ok seq \<Longrightarrow> nodes_ok (erase_rec n seq)"
  by (auto simp: nodes_ok_def erase_rec_def distinct_map_filter list_all_iff)

lemma map_fst_upd_rec [simp]: "map fst (is_nodes (upd_rec n f seq)) = map fst (is_nodes seq)"
  by (auto simp: upd_rec_def)

lemma is_fresh_upd_rec [simp]: "is_fresh (upd_rec n f seq) = is_fresh seq"
  by (simp add: upd_rec_def)

lemma nodes_ok_upd_rec [intro]: "nodes_ok seq \<Longrightarrow> nodes_ok (upd_rec n f seq)"
  unfolding nodes_ok_def map_fst_upd_rec by (simp add: upd_rec_def)


lemma nodes_split:
  fixes n seq
  defines "pre \<equiv> takeWhile (\<lambda>e. fst e \<noteq> n) (is_nodes seq)"
  defines "post \<equiv> dropWhile (\<lambda>e. fst e \<noteq> n) (is_nodes seq)"
  shows "is_nodes seq = (pre @ take 1 post) @ drop 1 post"
    and "is_nodes (snd (add_after n tr seq)) = (pre @ take 1 post) @ (is_fresh seq, tr) # drop 1 post"
  by (simp_all add: pre_def post_def add_after_def Let_def)

lemma nodes_ok_add_after [intro]:
  assumes "nodes_ok seq"
  shows "nodes_ok (snd (add_after n tr seq))"
proof -
  obtain xs ys where s: "is_nodes seq = xs @ ys"
      "is_nodes (snd (add_after n tr seq)) = xs @ (is_fresh seq, tr) # ys"
    using nodes_split [where n = n and seq = seq] by blast
  have f: "is_fresh (snd (add_after n tr seq)) = is_fresh seq + 1"
    by (simp add: add_after_def Let_def)
  show ?thesis
    using assms unfolding nodes_ok_def s f
    by (auto simp: list.pred_map list_all_iff intro!: less_SucI)
qed

end
