(* ===== verification/TraceCPU.thy ===== *)
theory TraceCPU
  imports TraceData Config
begin

text \<open>
  The tracing CPU (\<open>class xVMDebugCPU\<close>, \<open>xvmdebugcpu.cpp\<close>): an emulator whose memory
  accesses go to a virtual layer over the debuggee's memory, which records every instruction it executes, and
  which recognises conditional jumps whose two branches meet again. Its base class \<open>xHook_VMExec\<close>, the
  memory layer \<open>vmem\<close>, the decoder and OllyDbg are not in the repository: parameters, in the record
  \<open>cpu_env\<close>. Registers, addresses and \<open>ULONG_PTR\<close> are 32 bits wide, as the emulator's
  configuration in the repository has it (no x86-64 support, no long physical addresses), so
  \<open>RAX\<close> and \<open>EAX\<close> are the same register.
\<close>

section \<open>State\<close>

datatype vmexec_state = vmexec_emu_r3_deobfuscate | vmexec_state_other int

datatype vmexec_dob =
    vmexec_dob_oftcheate | vmexec_dob_lastmemac | vmexec_dob_puretrace | vmexec_dob_iatrace
  | vmexec_dob_trace | vmexec_dob_multibrunch | vmexec_dob_stackob | vmexec_dob_mmstrace
  | vmexec_dob_other int

datatype vcpu_return = VCPU_LOOPRET_NORMAL | VCPU_LOOPRET_FINISHED | VCPU_LOOPRET_other int

text \<open>The emulator's decoded instruction: its length and its bytes.\<close>

record bxInstruction =
  bx_ilen :: nat
  bx_opcode_bytes :: "byte list"

record mem_access =
  ma_flags :: "32 word"
  ma_addr :: addr
  ma_size :: "32 word"
  ma_value :: "32 word"

record 'v xVMDebugCPU =
  c_state :: vmexec_state
  c_dobMode :: vmexec_dob
  c_EAX :: "32 word"
  c_ECX :: "32 word"
  c_EDX :: "32 word"
  c_EBX :: "32 word"
  c_ESP :: "32 word"
  c_EBP :: "32 word"
  c_ESI :: "32 word"
  c_EDI :: "32 word"
  c_RIP :: addr
  c_eflags :: "32 word"
  c_prev_rip :: addr
  c_prev_rsp :: addr
  c_lastRead :: mem_access
  c_lastWrite :: mem_access
  m_vmem :: 'v
  m_tempop :: "byte list"
  m_uqid :: "32 word"
  m_seq1 :: InstSequence
  m_lastTr :: TraceRecordEx
  m_multiBrunch :: bool
  m_vcpus :: bool
  m_lastmem :: addr
  m_szlstmem :: "32 word"
  m_traceaddr :: addr
  m_lastAccessAddr :: addr
  m_lastAccessSize :: "32 word"
  m_offsetDelta :: "32 word"

text \<open>
  What the class calls: reads of the layer and of the debuggee take the buffer and give the count
  with the buffer after the call. \<open>branch_trace a\<close> is the sequence the helper CPU has recorded after
  \<open>initDeobfuscate\<close>, \<open>setRip(a)\<close> and at most 256 steps of the emulator. The members \<open>m_vcpu1\<close> and
  \<open>m_vcpu2\<close> are created and destroyed together: one flag.
\<close>

record 'v cpu_env =
  vmem_init :: 'v
  vmem_read :: "'v \<Rightarrow> addr \<Rightarrow> byte list \<Rightarrow> int \<times> byte list"
  vmem_write :: "'v \<Rightarrow> addr \<Rightarrow> byte list \<Rightarrow> 'v"
  host_read :: "addr \<Rightarrow> byte list \<Rightarrow> int \<times> byte list"
  find_memory :: "addr \<Rightarrow> (addr \<times> 32 word) option"
  find_module :: "addr \<Rightarrow> nat option"
  branch_trace :: "'v xVMDebugCPU \<Rightarrow> addr \<Rightarrow> TraceRecordEx list"
  fetchDecode :: "byte list \<Rightarrow> bxInstruction option"
  base_write :: "addr \<Rightarrow> byte list \<Rightarrow> 'v xVMDebugCPU \<Rightarrow> 'v xVMDebugCPU"
  base_read :: "addr \<Rightarrow> byte list \<Rightarrow> 'v xVMDebugCPU \<Rightarrow> byte list \<times> 'v xVMDebugCPU"
  base_before :: "bxInstruction \<Rightarrow> 'v xVMDebugCPU \<Rightarrow> vcpu_return \<times> 'v xVMDebugCPU"
  base_after :: "bxInstruction \<Rightarrow> 'v xVMDebugCPU \<Rightarrow> vcpu_return \<times> 'v xVMDebugCPU"
  base_step :: "addr \<Rightarrow> byte list \<Rightarrow> 'v xVMDebugCPU \<Rightarrow> 'v xVMDebugCPU"
  base_initDeobfuscate :: "'v xVMDebugCPU \<Rightarrow> 'v xVMDebugCPU"
  no_access :: mem_access
  RECORD_FLAG_MEMREAD :: "32 word"
  RECORD_FLAG_MEMWRITE :: "32 word"
  RECORD_FLAG_SPREAD :: "32 word"
  RECORD_FLAG_SPWRITE :: "32 word"
  RECORD_FLAG_MULTIB :: "32 word"
  DEOBFUSCATE_REGS :: "32 word list"
  DEOBFUSCATE_ESP :: "32 word"

section \<open>Memory accesses\<close>

text \<open>\<open>memcpy(&memv, data, min(sizeof(ULONG_PTR), len))\<close> into a zeroed word, little-endian.\<close>

definition le_word :: "byte list \<Rightarrow> 32 word" where
  "le_word data = foldr (\<lambda>b w. ucast b OR push_bit 8 w) (take 4 data) 0"

text \<open>\<open>addr\<close> within \<open>sizeof(ULONG_PTR) * BX_GENERAL_REGISTERS\<close> bytes of the stack pointer.\<close>

definition near_stack :: "'v xVMDebugCPU \<Rightarrow> addr \<Rightarrow> bool" where
  "near_stack c a \<longleftrightarrow> c_ESP c - 4 * 8 \<le> a \<and> a \<le> c_ESP c + 4 * 8"

text \<open>
  The recorded access after a new one at \<open>[addr, addr + len)\<close>: merged with the recorded one when
  the two touch, else the new one alone.
\<close>

definition merge_access ::
  "32 word \<Rightarrow> 32 word \<Rightarrow> addr \<Rightarrow> 32 word \<Rightarrow> 32 word \<Rightarrow> mem_access \<Rightarrow> mem_access" where
  "merge_access kind flags a len memv old =
     (if has (ma_flags old) kind \<and> ma_addr old \<le> a + len \<and> a \<le> ma_addr old + ma_size old
      then \<lparr>ma_flags = flags, ma_addr = min a (ma_addr old),
            ma_size = max (a + len) (ma_addr old + ma_size old) - min a (ma_addr old),
            ma_value = memv\<rparr>
      else \<lparr>ma_flags = flags, ma_addr = a, ma_size = len, ma_value = memv\<rparr>)"

text \<open>
  The switch over the modes falls through from the first to the last: the offset mode shifts the address and,
  like the last-access mode, notes it; then all of them work on the layer.
\<close>

definition layered :: "'v xVMDebugCPU \<Rightarrow> bool" where
  "layered c \<longleftrightarrow> c_state c = vmexec_emu_r3_deobfuscate
     \<and> c_dobMode c \<in> {vmexec_dob_oftcheate, vmexec_dob_lastmemac, vmexec_dob_puretrace,
         vmexec_dob_iatrace, vmexec_dob_trace}"

definition note_access ::
  "addr \<Rightarrow> 32 word \<Rightarrow> 'v xVMDebugCPU \<Rightarrow> addr \<times> 'v xVMDebugCPU" where
  "note_access a len c =
     (let a' = (if c_dobMode c = vmexec_dob_oftcheate then a + m_offsetDelta c else a)
      in if c_dobMode c = vmexec_dob_oftcheate \<or> c_dobMode c = vmexec_dob_lastmemac
         then (a', c\<lparr>m_lastAccessAddr := a', m_lastAccessSize := len\<rparr>)
         else (a', c))"

definition access_write_physical ::
  "'v cpu_env \<Rightarrow> addr \<Rightarrow> byte list \<Rightarrow> 'v xVMDebugCPU \<Rightarrow> 'v xVMDebugCPU" where
  "access_write_physical E a data c =
     (if layered c then
        (let len = of_nat (length data);
             (a', c1) = note_access a len c;
             flags = RECORD_FLAG_MEMWRITE E
               OR (if near_stack c1 a' then RECORD_FLAG_SPWRITE E else 0)
         in c1\<lparr>c_lastWrite := merge_access (RECORD_FLAG_MEMWRITE E) flags a' len (le_word data)
                 (c_lastWrite c1),
               m_vmem := vmem_write E (m_vmem c1) a' data\<rparr>)
      else base_write E a data c)"

definition layered_read :: "'v cpu_env \<Rightarrow> 'v \<Rightarrow> addr \<Rightarrow> byte list \<Rightarrow> int \<times> byte list" where
  "layered_read E v a buf =
     (let (state, buf1) = vmem_read E v a buf
      in if state \<noteq> int (length buf) then host_read E a buf1 else (state, buf1))"

definition access_read_physical ::
  "'v cpu_env \<Rightarrow> addr \<Rightarrow> byte list \<Rightarrow> 'v xVMDebugCPU \<Rightarrow> byte list \<times> 'v xVMDebugCPU" where
  "access_read_physical E a buf c =
     (if layered c then
        (let len = of_nat (length buf);
             (a', c1) = note_access a len c;
             data = snd (layered_read E (m_vmem c1) a' buf);
             flags = RECORD_FLAG_MEMREAD E
               OR (if near_stack c1 a' then RECORD_FLAG_SPREAD E else 0)
         in (data, c1\<lparr>c_lastRead := merge_access (RECORD_FLAG_MEMREAD E) flags a' len (le_word data)
                 (c_lastRead c1)\<rparr>))
      else base_read E a buf c)"

text \<open>The bytes of the next instruction; \<open>None\<close> is the null return.\<close>

definition vcpu_fetch_op ::
  "'v cpu_env \<Rightarrow> addr \<Rightarrow> 'v xVMDebugCPU \<Rightarrow> byte list option \<times> 'v xVMDebugCPU" where
  "vcpu_fetch_op E a c =
     (if c_state c = vmexec_emu_r3_deobfuscate
         \<and> c_dobMode c \<in> {vmexec_dob_oftcheate, vmexec_dob_lastmemac, vmexec_dob_puretrace,
             vmexec_dob_multibrunch, vmexec_dob_trace, vmexec_dob_iatrace} then
        (let (state, buf1) = vmem_read E (m_vmem c) a (m_tempop c)
         in if state \<noteq> 16 then
              (let (nlen, buf2) = host_read E a buf1
               in (if nlen \<le> 0 then None else Some buf2, c\<lparr>m_tempop := buf2\<rparr>))
            else (Some buf1, c\<lparr>m_tempop := buf1\<rparr>))
      else
        (let (buf, c1) = access_read_physical E a (m_tempop c) c
         in (Some buf, c1\<lparr>m_tempop := buf\<rparr>)))"

section \<open>Contexts\<close>

definition get_regs :: "'v xVMDebugCPU \<Rightarrow> 32 word list" where
  "get_regs c = [c_EAX c, c_ECX c, c_EDX c, c_EBX c, c_ESP c, c_EBP c, c_ESI c, c_EDI c]"

definition saveContextToRecord ::
  "'v xVMDebugCPU \<Rightarrow> TraceRecord \<Rightarrow> bxInstruction option \<Rightarrow> TraceRecord" where
  "saveContextToRecord c ctx inst =
     (let ctx1 = ctx\<lparr>tr_rip := c_RIP c, tr_eflags := c_eflags c, tr_regs := get_regs c\<rparr>
      in case inst of
           None \<Rightarrow> ctx1
         | Some i \<Rightarrow> ctx1\<lparr>tr_nip := c_RIP c + of_nat (bx_ilen i), tr_szOP := int (bx_ilen i),
             tr_opcode := take (bx_ilen i) (bx_opcode_bytes i) @ drop (bx_ilen i) (tr_opcode ctx)\<rparr>)"

definition loadContextFromRecord :: "TraceRecord \<Rightarrow> 'v xVMDebugCPU \<Rightarrow> 'v xVMDebugCPU" where
  "loadContextFromRecord ctx c =
     c\<lparr>c_eflags := tr_eflags ctx,
       c_EDI := tr_regs ctx ! 7, c_ESI := tr_regs ctx ! 6, c_EBP := tr_regs ctx ! 5,
       c_ESP := tr_regs ctx ! 4, c_EBX := tr_regs ctx ! 3, c_EDX := tr_regs ctx ! 2,
       c_ECX := tr_regs ctx ! 1, c_EAX := tr_regs ctx ! 0\<rparr>"

text \<open>A thread context of Windows, the members that are read.\<close>

record CONTEXT =
  cx_EFlags :: "32 word"
  cx_Edi :: "32 word"
  cx_Esi :: "32 word"
  cx_Ebp :: "32 word"
  cx_Esp :: "32 word"
  cx_Ebx :: "32 word"
  cx_Edx :: "32 word"
  cx_Ecx :: "32 word"
  cx_Eax :: "32 word"

definition init_cpu :: "'v cpu_env \<Rightarrow> 'v xVMDebugCPU \<Rightarrow> 'v xVMDebugCPU" where
  "init_cpu E c =
     c\<lparr>m_seq1 := (m_seq1 c)\<lparr>is_nodes := []\<rparr>, m_vmem := vmem_init E, m_uqid := 0,
       m_lastAccessAddr := 0, m_lastAccessSize := 0, m_offsetDelta := 0,
       c_lastRead := no_access E, c_lastWrite := no_access E\<rparr>"

definition initTrace :: "'v cpu_env \<Rightarrow> CONTEXT \<Rightarrow> 'v xVMDebugCPU \<Rightarrow> 'v xVMDebugCPU" where
  "initTrace E context c =
     init_cpu E (c\<lparr>c_state := vmexec_emu_r3_deobfuscate, c_dobMode := vmexec_dob_trace,
       c_eflags := cx_EFlags context, c_EDI := cx_Edi context, c_ESI := cx_Esi context,
       c_EBP := cx_Ebp context, c_ESP := cx_Esp context, c_EBX := cx_Ebx context,
       c_EDX := cx_Edx context, c_ECX := cx_Ecx context, c_EAX := cx_Eax context\<rparr>)"

definition initPureTrace :: "'v cpu_env \<Rightarrow> CONTEXT \<Rightarrow> 'v xVMDebugCPU \<Rightarrow> 'v xVMDebugCPU" where
  "initPureTrace E context c = (initTrace E context c)\<lparr>c_dobMode := vmexec_dob_puretrace\<rparr>"

definition initIATrace :: "'v cpu_env \<Rightarrow> addr \<Rightarrow> 'v xVMDebugCPU \<Rightarrow> 'v xVMDebugCPU" where
  "initIATrace E a c =
     (base_initDeobfuscate E c)\<lparr>c_dobMode := vmexec_dob_iatrace, m_vmem := vmem_init E,
       m_lastmem := 0, m_szlstmem := 0, m_traceaddr := a, c_RIP := a\<rparr>"

definition initRecordStep :: "TraceRecordEx \<Rightarrow> 'v xVMDebugCPU \<Rightarrow> 'v xVMDebugCPU" where
  "initRecordStep tr c =
     loadContextFromRecord (tx_ctx1 tr)
       (c\<lparr>c_state := vmexec_emu_r3_deobfuscate, c_dobMode := vmexec_dob_puretrace\<rparr>)"

definition initColorTrace :: "'v cpu_env \<Rightarrow> 'v xVMDebugCPU \<Rightarrow> 'v xVMDebugCPU" where
  "initColorTrace E c =
     (init_cpu E c)\<lparr>c_state := vmexec_emu_r3_deobfuscate, c_dobMode := vmexec_dob_mmstrace,
       c_prev_rip := 0, c_prev_rsp := 0\<rparr>"

text \<open>
  \<open>DEOBFUSCATE_REGS\<close> holds the constants for the registers in the order of \<open>get_regs\<close>.
\<close>

definition resetColorContext :: "'v cpu_env \<Rightarrow> 'v xVMDebugCPU \<Rightarrow> 'v xVMDebugCPU" where
  "resetColorContext E c =
     (let r = DEOBFUSCATE_REGS E
      in c\<lparr>c_eflags := 0x202, c_EAX := r ! 0, c_ECX := r ! 1, c_EDX := r ! 2, c_EBX := r ! 3,
           c_ESP := DEOBFUSCATE_ESP E, c_EBP := r ! 5, c_ESI := r ! 6, c_EDI := r ! 7\<rparr>)"

section \<open>Conditional jumps whose branches meet\<close>

text \<open>
  The two addresses a conditional jump may go to. The displacement of the short form is read from an
  array of unsigned bytes and is not sign-extended; that of the near form is a signed 32-bit number.
\<close>

definition jcc_targets :: "byte list \<Rightarrow> addr \<Rightarrow> (addr \<times> addr) option" where
  "jcc_targets ops rip =
     (if 0x70 \<le> ops ! 0 \<and> ops ! 0 \<le> 0x7F then Some (rip + 2, rip + ucast (ops ! 1) + 2)
      else if ops ! 0 = 0x0F \<and> 0x80 \<le> ops ! 1 \<and> ops ! 1 \<le> 0x8F
      then Some (rip + 6, rip + le_word (drop 2 ops) + 6)
      else None)"

definition same_point :: "TraceRecordEx \<Rightarrow> TraceRecordEx \<Rightarrow> bool" where
  "same_point tr1 tr2 \<longleftrightarrow> tr_rip (tx_ctx1 tr1) = tr_rip (tx_ctx1 tr2)
     \<and> list_all (\<lambda>i. tr_regs (tx_ctx1 tr1) ! i = tr_regs (tx_ctx1 tr2) ! i) [0..<8]"

definition branches_meet :: "TraceRecordEx list \<Rightarrow> TraceRecordEx list \<Rightarrow> bool" where
  "branches_meet seq1 seq2 \<longleftrightarrow> list_ex (\<lambda>tr1. list_ex (\<lambda>tr2. same_point tr1 tr2) seq2) seq1"

text \<open>\<open>E9\<close> and the distance from the end of the jump, little-endian.\<close>

definition le_bytes :: "32 word \<Rightarrow> byte list" where
  "le_bytes w = map (\<lambda>i. ucast (drop_bit (8 * i) w)) [0..<4]"

definition jmp_bytes :: "addr \<Rightarrow> addr \<Rightarrow> byte list" where
  "jmp_bytes a target = 0xE9 # le_bytes (target - a - 5)"

definition madeJmpInst :: "'v cpu_env \<Rightarrow> bxInstruction \<Rightarrow> addr \<Rightarrow> addr \<Rightarrow> bxInstruction" where
  "madeJmpInst E inst a target =
     (case fetchDecode E (jmp_bytes a target) of
        None \<Rightarrow> inst
      | Some i \<Rightarrow> i\<lparr>bx_opcode_bytes := jmp_bytes a target @ drop 5 (bx_opcode_bytes i)\<rparr>)"

definition detect_branch ::
  "'v cpu_env \<Rightarrow> bxInstruction \<Rightarrow> 'v xVMDebugCPU \<Rightarrow> bxInstruction \<times> 'v xVMDebugCPU" where
  "detect_branch E inst c =
     (if m_multiBrunch c then
        (case jcc_targets (bx_opcode_bytes inst) (c_RIP c) of
           None \<Rightarrow> (inst, c)
         | Some (addr1, addr2) \<Rightarrow>
             if branches_meet (branch_trace E c addr1) (branch_trace E c addr2)
             then (madeJmpInst E inst (c_RIP c) addr2,
                   c\<lparr>m_lastTr := (m_lastTr c)\<lparr>tx_flags := tx_flags (m_lastTr c) OR RECORD_FLAG_MULTIB E\<rparr>\<rparr>)
             else (inst, c))
      else (inst, c))"

definition vcpu_before_exec ::
  "'v cpu_env \<Rightarrow> bxInstruction \<Rightarrow> 'v xVMDebugCPU
    \<Rightarrow> bxInstruction \<times> vcpu_return \<times> 'v xVMDebugCPU" where
  "vcpu_before_exec E inst c =
     (if c_dobMode c = vmexec_dob_multibrunch \<or> c_dobMode c = vmexec_dob_trace then
        (let c1 = c\<lparr>m_lastTr := (m_lastTr c)\<lparr>tx_flags := 0\<rparr>\<rparr>;
             (inst', c2) = detect_branch E inst c1;
             lt = m_lastTr c2;
             c3 = c2\<lparr>m_lastTr := lt\<lparr>tx_ctx1 := saveContextToRecord c2
                       ((tx_ctx1 lt)\<lparr>tr_unqueID := m_uqid c2\<rparr>) (Some inst')\<rparr>,
                     m_uqid := m_uqid c2 + 1\<rparr>
         in (inst', base_before E inst' c3))
      else (inst, base_before E inst c))"

text \<open>A string instruction that repeats leaves \<open>RIP\<close> in place; the trace goes past it.\<close>

definition skip_repeat :: "bxInstruction \<Rightarrow> 'v xVMDebugCPU \<Rightarrow> 'v xVMDebugCPU" where
  "skip_repeat inst c =
     (if c_prev_rip c = c_RIP c then c\<lparr>c_RIP := c_RIP c + of_nat (bx_ilen inst)\<rparr> else c)"

definition record_step :: "bxInstruction \<Rightarrow> 'v xVMDebugCPU \<Rightarrow> 'v xVMDebugCPU" where
  "record_step inst c =
     (let r = c_lastRead c; w = c_lastWrite c; lt = m_lastTr c;
          lt' = lt\<lparr>tx_flags := tx_flags lt OR ma_flags r OR ma_flags w,
                   tx_mraddr := ma_addr r, tx_mrsize := sint (ma_size r), tx_mrvalue := ma_value r,
                   tx_mwaddr := ma_addr w, tx_mwsize := sint (ma_size w), tx_mwvalue := ma_value w,
                   tx_ctx2 := saveContextToRecord c ((tx_ctx2 lt)\<lparr>tr_unqueID := m_uqid c\<rparr>) (Some inst)\<rparr>
      in skip_repeat inst (c\<lparr>m_lastTr := lt', m_seq1 := push_back lt' (m_seq1 c)\<rparr>))"

text \<open>Tracing through an import stub ends when control reaches a module other than the stub's.\<close>

definition iat_arrived ::
  "'v cpu_env \<Rightarrow> 'v xVMDebugCPU \<Rightarrow> bool \<times> 'v xVMDebugCPU" where
  "iat_arrived E c =
     (if c_RIP c < m_lastmem c \<or> m_lastmem c + m_szlstmem c < c_RIP c then
        (case find_memory E (c_RIP c) of
           None \<Rightarrow> (False, c)
         | Some (base, sz) \<Rightarrow>
             (let c1 = c\<lparr>m_lastmem := base, m_szlstmem := sz\<rparr>
              in case find_module E base of
                   None \<Rightarrow> (False, c1)
                 | Some md \<Rightarrow> (find_module E (m_traceaddr c1) \<noteq> Some md, c1)))
      else (False, c))"

definition vcpu_after_exec ::
  "'v cpu_env \<Rightarrow> bxInstruction \<Rightarrow> 'v xVMDebugCPU \<Rightarrow> vcpu_return \<times> 'v xVMDebugCPU" where
  "vcpu_after_exec E inst c =
     (case c_dobMode c of
        vmexec_dob_puretrace \<Rightarrow> (VCPU_LOOPRET_NORMAL, skip_repeat inst c)
      | vmexec_dob_multibrunch \<Rightarrow> base_after E inst (record_step inst c)
      | vmexec_dob_trace \<Rightarrow> base_after E inst (record_step inst c)
      | vmexec_dob_iatrace \<Rightarrow>
          (let (arrived, c1) = iat_arrived E c
           in if arrived then (VCPU_LOOPRET_FINISHED, c1) else base_after E inst c1)
      | _ \<Rightarrow> base_after E inst c)"

definition EnableMBDetect :: "'v xVMDebugCPU \<Rightarrow> 'v xVMDebugCPU" where
  "EnableMBDetect c = c\<lparr>m_vcpus := True, m_multiBrunch := True\<rparr>"

definition DisableMBDetect :: "'v xVMDebugCPU \<Rightarrow> 'v xVMDebugCPU" where
  "DisableMBDetect c = c\<lparr>m_multiBrunch := False, m_vcpus := False\<rparr>"

section \<open>Checks on the final state\<close>

definition isValidIATCall :: "'v cpu_env \<Rightarrow> xvmdbg_config \<Rightarrow> 'v xVMDebugCPU \<Rightarrow> int" where
  "isValidIATCall E cfg c =
     (let isvalid =
        (if bIATTraceCheckCtx cfg \<noteq> 0 then
           (if c_ECX c = 0x22222222 \<and> c_ESI c = 0x66666666 \<and> c_EDI c = 0x77777777
               \<and> c_EBP c = 0x55555555 then 0 else -1)
         else 0)
      in if c_ESP c \<noteq> DEOBFUSCATE_ESP E \<and> isvalid = 0
         then sint (DEOBFUSCATE_ESP E - c_ESP c) else isvalid)"

definition checkESPSpace ::
  "'v cpu_env \<Rightarrow> byte list \<Rightarrow> int \<Rightarrow> 'v xVMDebugCPU \<Rightarrow> bool \<times> 'v xVMDebugCPU" where
  "checkESPSpace E lpOP szStk c =
     (let c1 = c\<lparr>c_state := vmexec_emu_r3_deobfuscate, c_dobMode := vmexec_dob_trace,
                 c_ESP := DEOBFUSCATE_ESP E\<rparr>;
          c2 = base_step E 0x400000 lpOP c1
      in (c_ESP c1 - c_ESP c2 = word_of_int szStk, c2))"

definition setOffsetDelta :: "32 word \<Rightarrow> 'v xVMDebugCPU \<Rightarrow> 'v xVMDebugCPU" where
  "setOffsetDelta d c = c\<lparr>m_offsetDelta := d\<rparr>"

text \<open>\<open>deleteFlagedInSeq\<close> walks the sequence and erases the flagged records.\<close>

fun delete_from :: "32 word \<Rightarrow> (nat \<times> TraceRecordEx) list \<Rightarrow> (nat \<times> TraceRecordEx) list \<times> int" where
  "delete_from flags [] = ([], 0)"
| "delete_from flags (e # es) =
     (let (rest, nc) = delete_from flags es
      in if has (tx_flags (snd e)) flags then (rest, nc + 1) else (e # rest, nc))"

definition deleteFlagedInSeq :: "32 word \<Rightarrow> InstSequence \<Rightarrow> int \<times> InstSequence" where
  "deleteFlagedInSeq flags seq =
     (let (nodes, nc) = delete_from flags (is_nodes seq) in (nc, seq\<lparr>is_nodes := nodes\<rparr>))"

definition deleteJunkInSeq :: "32 word \<Rightarrow> 'v xVMDebugCPU \<Rightarrow> 'v xVMDebugCPU" where
  "deleteJunkInSeq flags c = c\<lparr>m_seq1 := snd (deleteFlagedInSeq flags (m_seq1 c))\<rparr>"

section \<open>Facts\<close>

text \<open>A word is what its bytes say.\<close>

lemma fold_bytes_bit:
  "bit (foldr (\<lambda>b w. ucast b OR push_bit 8 w) bs 0 :: 32 word) n
    \<longleftrightarrow> n < 32 \<and> n div 8 < length bs \<and> bit (bs ! (n div 8) :: byte) (n mod 8)"
proof (induction bs arbitrary: n)
  case (Cons b bs)
  have far: "8 \<le> n \<Longrightarrow> \<not> bit b n" using bit_imp_le_length [of b n] by auto
  show ?case
  proof (cases "n < 8")
    case True
    then show ?thesis by (simp add: bit_or_iff bit_push_bit_iff bit_ucast_iff)
  next
    case False
    then have "n div 8 = Suc ((n - 8) div 8)" "(n - 8) mod 8 = n mod 8"
      by (simp_all add: le_div_geq le_mod_geq)
    then show ?thesis using False far
      by (auto simp: bit_or_iff bit_push_bit_iff bit_ucast_iff Cons.IH)
  qed
qed simp

lemma le_word_bit:
  "length bs = 4 \<Longrightarrow> bit (le_word bs) n \<longleftrightarrow> n < 32 \<and> bit (bs ! (n div 8)) (n mod 8)"
  by (auto simp: le_word_def fold_bytes_bit)

lemma le_word_le_bytes: "le_word (le_bytes w @ rest) = w"
proof -
  have "le_word (le_bytes w @ rest) = le_word (le_bytes w)"
    by (simp add: le_word_def le_bytes_def)
  also have "\<dots> = w"
  proof (rule bit_eqI)
    fix n assume "possible_bit TYPE(32 word) n"
    then have n: "n < 32" by simp
    then have "n div 8 < 4" by simp
    moreover have "8 * (n div 8) + n mod 8 = n" by simp
    ultimately show "bit (le_word (le_bytes w)) n \<longleftrightarrow> bit w n"
      using n by (simp add: le_word_bit le_bytes_def bit_ucast_iff bit_drop_bit_eq)
  qed
  finally show ?thesis .
qed

lemma delete_from_filter:
  "delete_from flags es
    = (filter (\<lambda>e. \<not> has (tx_flags (snd e)) flags) es,
       int (length (filter (\<lambda>e. has (tx_flags (snd e)) flags) es)))"
  by (induction es) auto

lemma deleteFlagedInSeq_filter:
  "deleteFlagedInSeq flags seq =
    (int (length (filter (\<lambda>e. has (tx_flags (snd e)) flags) (is_nodes seq))),
     seq\<lparr>is_nodes := filter (\<lambda>e. \<not> has (tx_flags (snd e)) flags) (is_nodes seq)\<rparr>)"
  by (simp add: deleteFlagedInSeq_def delete_from_filter)

lemma nodes_ok_delete: "nodes_ok seq \<Longrightarrow> nodes_ok (snd (deleteFlagedInSeq flags seq))"
  by (auto simp: deleteFlagedInSeq_filter nodes_ok_def distinct_map_filter list.pred_map list_all_iff)

text \<open>
  An access as an interval of the naturals, when it does not wrap around the address space.
\<close>

definition no_wrap :: "addr \<Rightarrow> 32 word \<Rightarrow> bool" where
  "no_wrap a len \<longleftrightarrow> unat a + unat len < 2 ^ 32"

definition span_of :: "mem_access \<Rightarrow> nat set" where
  "span_of m = {unat (ma_addr m)..unat (ma_addr m) + unat (ma_size m)}"

lemma unat_plus_no_wrap: "no_wrap a len \<Longrightarrow> unat (a + len) = unat a + unat len"
  by (simp add: no_wrap_def unat_word_ariths)

lemma merge_access_span:
  assumes new: "no_wrap a len" and old: "no_wrap (ma_addr m) (ma_size m)"
    and kind: "has (ma_flags m) kind" and touch: "ma_addr m \<le> a + len" "a \<le> ma_addr m + ma_size m"
  shows "span_of (merge_access kind flags a len v m) = span_of m \<union> {unat a..unat a + unat len}"
proof -
  let ?hi = "max (a + len) (ma_addr m + ma_size m)" and ?lo = "min a (ma_addr m)"
  have hi: "unat ?hi = max (unat a + unat len) (unat (ma_addr m) + unat (ma_size m))"
    using unat_plus_no_wrap [OF new] unat_plus_no_wrap [OF old]
    by (simp add: max_def word_le_nat_alt)
  have lo: "unat ?lo = min (unat a) (unat (ma_addr m))"
    by (simp add: min_def word_le_nat_alt)
  have le: "unat ?lo \<le> unat ?hi" using hi lo by simp
  then have size: "unat (?hi - ?lo) = unat ?hi - unat ?lo"
    by (simp add: unat_sub word_le_nat_alt)
  have t: "unat (ma_addr m) \<le> unat a + unat len" "unat a \<le> unat (ma_addr m) + unat (ma_size m)"
    using touch unat_plus_no_wrap [OF new] unat_plus_no_wrap [OF old]
    by (simp_all add: word_le_nat_alt)
  have "span_of (merge_access kind flags a len v m) = {unat ?lo..unat ?hi}"
    using kind touch le size by (simp add: merge_access_def span_of_def)
  also have "\<dots> = span_of m \<union> {unat a..unat a + unat len}"
    using t by (auto simp: hi lo span_of_def)
  finally show ?thesis .
qed

text \<open>A trace goes forward: after a step \<open>RIP\<close> is not where it was before it.\<close>

lemma skip_repeat_moves:
  assumes "0 < bx_ilen inst" "bx_ilen inst < 2 ^ 32"
  shows "c_RIP (skip_repeat inst c) \<noteq> c_prev_rip c"
proof -
  have "(of_nat (bx_ilen inst) :: 32 word) \<noteq> 0"
    using assms nat_dvd_not_less by (auto simp: word_of_nat_eq_0_iff)
  then show ?thesis by (simp add: skip_repeat_def)
qed

end
