(* ===== verification/ConstFold.thy ===== *)
theory ConstFold
  imports TraceCPU
begin

text \<open>
  Constant folding of the push/pop elimination (\<open>xVMDebugFrame\<close>, \<open>xvmdebugframe.cpp\<close>): byte
  swapping and the arithmetic on the union \<open>ud_lval\<close> that holds the constant a register carries, with the
  proof that the folded value is what the processor would have in the register.
\<close>

section \<open>The operations\<close>

datatype ud_mnemonic =
    UD_Ipush | UD_Ipop | UD_Imov | UD_Ibswap | UD_Inot | UD_Ineg | UD_Idec | UD_Iinc
  | UD_Isub | UD_Iadd | UD_Ixor | UD_Iand | UD_Ior | UD_Ishr | UD_Ishl
  | UD_Ixchg | UD_Irdtsc | UD_Ilea | UD_Iret | UD_Ijmp | UD_Iother int

definition is_unary :: "ud_mnemonic \<Rightarrow> bool" where
  "is_unary m \<longleftrightarrow> m \<in> {UD_Ibswap, UD_Inot, UD_Ineg, UD_Idec, UD_Iinc}"

definition is_binary :: "ud_mnemonic \<Rightarrow> bool" where
  "is_binary m \<longleftrightarrow> m \<in> {UD_Isub, UD_Iadd, UD_Ixor, UD_Iand, UD_Ior, UD_Ishr, UD_Ishl}"

section \<open>Byte swapping\<close>

definition xvm_bswap16 :: "16 word \<Rightarrow> 16 word" where
  "xvm_bswap16 val16 = push_bit 8 val16 OR drop_bit 8 val16"

definition xvm_bswap32 :: "32 word \<Rightarrow> 32 word" where
  "xvm_bswap32 val0 =
     (let val32 = (push_bit 8 val0 AND 0xFF00FF00) OR (drop_bit 8 val0 AND 0x00FF00FF)
      in push_bit 16 val32 OR drop_bit 16 val32)"

definition xvm_bswap64 :: "64 word \<Rightarrow> 64 word" where
  "xvm_bswap64 val64 =
     (let lo = xvm_bswap32 (ucast (drop_bit 32 val64));
          hi = xvm_bswap32 (ucast (val64 AND 0xFFFFFFFF))
      in push_bit 32 (ucast hi) OR ucast lo)"

section \<open>Computing the constant\<close>

text \<open>
  An assignment to a member of the union replaces its low bits: 8, 16, 32 or 64 of them (a size of
  48 is treated as 64, any other size leaves the value alone).
\<close>

definition lv_bits :: "int \<Rightarrow> nat" where
  "lv_bits sz = (if sz = 8 then 8 else if sz = 16 then 16 else if sz = 32 then 32
     else if sz = 48 \<or> sz = 64 then 64 else 0)"

definition upd_low :: "nat \<Rightarrow> 64 word \<Rightarrow> 64 word \<Rightarrow> 64 word" where
  "upd_low n lv v = (lv AND NOT (mask n)) OR take_bit n v"

definition fold_unary :: "ud_mnemonic \<Rightarrow> int \<Rightarrow> 64 word \<Rightarrow> 64 word" where
  "fold_unary mnem sz lv =
     (case mnem of
        UD_Inot \<Rightarrow> upd_low (lv_bits sz) lv (NOT lv)
      | UD_Iinc \<Rightarrow> upd_low (lv_bits sz) lv (lv + 1)
      | UD_Idec \<Rightarrow> upd_low (lv_bits sz) lv (lv - 1)
      | UD_Ineg \<Rightarrow> upd_low (lv_bits sz) lv (- lv)
      | UD_Ibswap \<Rightarrow>
          if sz = 8 \<or> sz = 16 then upd_low 16 lv (ucast (xvm_bswap16 (ucast lv)))
          else if sz = 32 then upd_low 32 lv (ucast (xvm_bswap32 (ucast lv)))
          else if sz = 48 \<or> sz = 64 then xvm_bswap64 lv
          else lv
      | _ \<Rightarrow> lv)"

text \<open>
  A shift is of the promoted member: by less than 32 for the members up to 32 bits, by less
  than 64 for the quad word, and not by a negative amount.
\<close>

definition shift_ok :: "int \<Rightarrow> 64 word \<Rightarrow> bool" where
  "shift_ok sz i \<longleftrightarrow> 0 \<le> sint i \<and> sint i < (if sz = 48 \<or> sz = 64 then 64 else 32)"

definition fold_binary :: "ud_mnemonic \<Rightarrow> int \<Rightarrow> 64 word \<Rightarrow> 64 word \<Rightarrow> fault + 64 word" where
  "fold_binary mnem sz i lv =
     (let n = lv_bits sz
      in case mnem of
           UD_Isub \<Rightarrow> Inr (upd_low n lv (lv - i))
         | UD_Iadd \<Rightarrow> Inr (upd_low n lv (lv + i))
         | UD_Ixor \<Rightarrow> Inr (upd_low n lv (lv XOR i))
         | UD_Iand \<Rightarrow> Inr (upd_low n lv (lv AND i))
         | UD_Ior \<Rightarrow> Inr (upd_low n lv (lv OR i))
         | UD_Ishr \<Rightarrow>
             if n = 0 then Inr lv
             else if shift_ok sz i then Inr (upd_low n lv (drop_bit (nat (sint i)) (take_bit n lv)))
             else Inl Bad_shift
         | UD_Ishl \<Rightarrow>
             if n = 0 then Inr lv
             else if shift_ok sz i then Inr (upd_low n lv (push_bit (nat (sint i)) lv))
             else Inl Bad_shift
         | _ \<Rightarrow> Inr lv)"

section \<open>What the byte swaps do\<close>

lemma bswap16_bit: "bit (xvm_bswap16 w) n \<longleftrightarrow> n < 16 \<and> bit w (if n < 8 then n + 8 else n - 8)"
  using bit_imp_le_length [of w "n + 8"]
  by (auto simp: xvm_bswap16_def bit_or_iff bit_push_bit_iff bit_drop_bit_eq add.commute)

lemma xvm_bswap16_inv [simp]: "xvm_bswap16 (xvm_bswap16 w) = w"
  by (rule bit_eqI) (auto simp: bswap16_bit)

lemma less_32_cases:
  fixes n :: nat
  assumes "n < 32"
  shows "\<exists>i < 4. \<exists>j < 8. n = 8 * i + j"
  using assms by (intro exI [of _ "n div 8"] exI [of _ "n mod 8"] conjI) auto

lemma bswap32_bytes:
  assumes "j < 8"
  shows "bit (xvm_bswap32 w) j = bit w (24 + j)"
    "bit (xvm_bswap32 w) (8 + j) = bit w (16 + j)"
    "bit (xvm_bswap32 w) (16 + j) = bit w (8 + j)"
    "bit (xvm_bswap32 w) (24 + j) = bit w j"
proof -
  have "j \<in> {0, 1, 2, 3, 4, 5, 6, 7}" using assms by auto
  then show "bit (xvm_bswap32 w) j = bit w (24 + j)"
    "bit (xvm_bswap32 w) (8 + j) = bit w (16 + j)"
    "bit (xvm_bswap32 w) (16 + j) = bit w (8 + j)"
    "bit (xvm_bswap32 w) (24 + j) = bit w j"
    by (elim insertE emptyE; simp add: xvm_bswap32_def Let_def bit_or_iff bit_and_iff
        bit_push_bit_iff bit_drop_bit_eq bit_simps)+
qed

lemma bswap32_bit:
  "bit (xvm_bswap32 w) n \<longleftrightarrow> n < 32 \<and> bit w (8 * (3 - n div 8) + n mod 8)"
proof (cases "n < 32")
  case True
  then obtain i j where ij: "i < 4" "j < 8" "n = 8 * i + j" using less_32_cases by blast
  then have d: "n div 8 = i" "n mod 8 = j" by simp_all
  from ij(1) consider "i = 0" | "i = 1" | "i = 2" | "i = 3" by linarith
  then show ?thesis using True ij(2,3) bswap32_bytes [of j w] unfolding d by cases simp_all
next
  case False
  then show ?thesis using bit_imp_le_length [of "xvm_bswap32 w" n] by auto
qed

text \<open>The bytes come out in the opposite order.\<close>

lemma le_bytes_nth: "i < 4 \<Longrightarrow> le_bytes w ! i = ucast (drop_bit (8 * i) w)"
  by (simp add: le_bytes_def)

lemma le_bytes_length [simp]: "length (le_bytes w) = 4"
  by (simp add: le_bytes_def)

lemma le_bytes_bswap32: "le_bytes (xvm_bswap32 w) = rev (le_bytes w)"
proof (rule nth_equalityI)
  fix i assume "i < length (le_bytes (xvm_bswap32 w))"
  then have i: "i < 4" by simp
  show "le_bytes (xvm_bswap32 w) ! i = rev (le_bytes w) ! i"
  proof (rule bit_eqI)
    fix n assume "possible_bit TYPE(8 word) n"
    then have n: "n < 8" by simp
    then have "(8 * i + n) div 8 = i" "(8 * i + n) mod 8 = n" "8 * i + n < 32" using i by simp_all
    then show "bit (le_bytes (xvm_bswap32 w) ! i) n = bit (rev (le_bytes w) ! i) n"
      using i n by (simp add: le_bytes_nth rev_nth bit_ucast_iff bit_drop_bit_eq bswap32_bit)
  qed
qed simp

lemma le_word_bytes_inject: "le_bytes v = le_bytes w \<Longrightarrow> v = w"
  by (metis append_Nil2 le_word_le_bytes)

lemma xvm_bswap32_inv [simp]: "xvm_bswap32 (xvm_bswap32 w) = w"
  by (rule le_word_bytes_inject) (simp add: le_bytes_bswap32)

lemma bswap64_halves:
  "(ucast (drop_bit 32 (xvm_bswap64 w)) :: 32 word) = xvm_bswap32 (ucast w)"
  "(ucast (xvm_bswap64 w AND 0xFFFFFFFF) :: 32 word) = xvm_bswap32 (ucast (drop_bit 32 w))"
proof -
  have m: "(0xFFFFFFFF :: 64 word) = mask 32" by (simp add: mask_eq_decr_exp)
  have u: "(ucast (w AND mask 32) :: 32 word) = ucast w"
    by (rule bit_eqI) (simp add: bit_ucast_iff bit_and_iff bit_mask_iff)
  show "(ucast (drop_bit 32 (xvm_bswap64 w)) :: 32 word) = xvm_bswap32 (ucast w)"
    by (rule bit_eqI) (auto simp: xvm_bswap64_def Let_def m u bit_ucast_iff bit_drop_bit_eq
        bit_or_iff bit_push_bit_iff dest: bit_imp_le_length)
  show "(ucast (xvm_bswap64 w AND 0xFFFFFFFF) :: 32 word) = xvm_bswap32 (ucast (drop_bit 32 w))"
    by (rule bit_eqI) (auto simp: xvm_bswap64_def Let_def m u bit_ucast_iff bit_and_iff bit_mask_iff
        bit_or_iff bit_push_bit_iff dest: bit_imp_le_length)
qed

lemma halves_64:
  fixes w :: "64 word"
  shows "push_bit 32 (ucast (ucast (drop_bit 32 w) :: 32 word)) OR ucast (ucast w :: 32 word) = w"
proof (rule bit_eqI)
  fix n assume "possible_bit TYPE(64 word) n"
  then show "bit (push_bit 32 (ucast (ucast (drop_bit 32 w) :: 32 word)) OR
      ucast (ucast w :: 32 word) :: 64 word) n = bit w n"
    by (cases "n < 32") (auto simp: bit_or_iff bit_push_bit_iff bit_ucast_iff bit_drop_bit_eq)
qed

lemma xvm_bswap64_inv: "xvm_bswap64 (xvm_bswap64 w) = w"
  unfolding xvm_bswap64_def [of "xvm_bswap64 w"] Let_def bswap64_halves xvm_bswap32_inv
  by (rule halves_64)

section \<open>Folding is what the processor computes\<close>

text \<open>
  The instructions on a register of \<open>LENGTH('w)\<close> bits.
\<close>

definition reg_unary :: "ud_mnemonic \<Rightarrow> 'w::len word \<Rightarrow> 'w word" where
  "reg_unary m r =
     (case m of UD_Inot \<Rightarrow> NOT r | UD_Iinc \<Rightarrow> r + 1 | UD_Idec \<Rightarrow> r - 1 | UD_Ineg \<Rightarrow> - r | _ \<Rightarrow> r)"

definition reg_binary :: "ud_mnemonic \<Rightarrow> nat \<Rightarrow> 'w::len word \<Rightarrow> 'w word \<Rightarrow> 'w word" where
  "reg_binary m k i r =
     (case m of UD_Isub \<Rightarrow> r - i | UD_Iadd \<Rightarrow> r + i | UD_Ixor \<Rightarrow> r XOR i | UD_Iand \<Rightarrow> r AND i
      | UD_Ior \<Rightarrow> r OR i | UD_Ishr \<Rightarrow> drop_bit k r | UD_Ishl \<Rightarrow> push_bit k r | _ \<Rightarrow> r)"

lemma upd_low_high: "drop_bit n (upd_low n lv v) = drop_bit n lv"
  by (rule bit_eqI) (auto simp: upd_low_def bit_drop_bit_eq bit_or_iff bit_and_iff bit_not_iff
      bit_mask_iff bit_take_bit_iff dest: bit_imp_le_length)

lemma upd_low_low:
  assumes "LENGTH('w::len) = n"
  shows "(ucast (upd_low n lv v) :: 'w word) = ucast v"
  using assms by (intro bit_eqI) (auto simp: upd_low_def bit_ucast_iff bit_or_iff bit_and_iff
      bit_not_iff bit_mask_iff bit_take_bit_iff)

lemma lv_bits_le: "lv_bits sz \<le> 64"
  by (simp add: lv_bits_def)

lemma ucast_arith:
  assumes "LENGTH('w::len) \<le> 64"
  shows "(ucast (x + y :: 64 word) :: 'w word) = ucast x + ucast y"
    "(ucast (x - y :: 64 word) :: 'w word) = ucast x - ucast y"
    "(ucast (- x :: 64 word) :: 'w word) = - ucast x"
    "(ucast (NOT x :: 64 word) :: 'w word) = NOT (ucast x)"
    "(ucast (1 :: 64 word) :: 'w word) = 1"
proof -
  have low: "(word_of_int (k mod 2 ^ LENGTH(64)) :: 'w word) = word_of_int k" for k
    using assms unfolding take_bit_eq_mod [symmetric] by (simp add: word_of_int_eq_iff min_absorb1)
  show "(ucast (x + y :: 64 word) :: 'w word) = ucast x + ucast y"
    "(ucast (x - y :: 64 word) :: 'w word) = ucast x - ucast y"
    "(ucast (- x :: 64 word) :: 'w word) = - ucast x"
    unfolding ucast_eq uint_word_ariths low by simp_all
  show "(ucast (NOT x :: 64 word) :: 'w word) = NOT (ucast x)"
    using assms by (intro bit_eqI) (simp add: bit_ucast_iff bit_not_iff)
  show "(ucast (1 :: 64 word) :: 'w word) = 1" by simp
qed

lemma fold_unary_reg:
  fixes lv :: "64 word"
  assumes w: "LENGTH('w::len) = lv_bits sz" and m: "is_unary m" "m \<noteq> UD_Ibswap"
  shows "(ucast (fold_unary m sz lv) :: 'w word) = reg_unary m (ucast lv)"
    and "drop_bit (lv_bits sz) (fold_unary m sz lv) = drop_bit (lv_bits sz) lv"
proof -
  have "LENGTH('w) \<le> 64" using w lv_bits_le by simp
  note ucast_arith [where 'w = 'w, OF this]
  then show "(ucast (fold_unary m sz lv) :: 'w word) = reg_unary m (ucast lv)"
    using m by (cases m) (simp_all add: is_unary_def fold_unary_def upd_low_low [OF w] reg_unary_def)
  show "drop_bit (lv_bits sz) (fold_unary m sz lv) = drop_bit (lv_bits sz) lv"
    using m by (cases m) (simp_all add: is_unary_def fold_unary_def upd_low_high)
qed

lemma fold_binary_reg:
  fixes lv i :: "64 word"
  assumes w: "LENGTH('w::len) = lv_bits sz" and m: "is_binary m" and r: "fold_binary m sz i lv = Inr v"
  shows "(ucast v :: 'w word) = reg_binary m (nat (sint i)) (ucast i) (ucast lv)"
    and "drop_bit (lv_bits sz) v = drop_bit (lv_bits sz) lv"
proof -
  have len: "LENGTH('w) \<le> 64" using w lv_bits_le by simp
  have pos: "lv_bits sz \<noteq> 0" using w [symmetric] by simp
  have bitwise: "(ucast (x XOR y :: 64 word) :: 'w word) = ucast x XOR ucast y"
      "(ucast (x AND y :: 64 word) :: 'w word) = ucast x AND ucast y"
      "(ucast (x OR y :: 64 word) :: 'w word) = ucast x OR ucast y" for x y
    by (simp_all add: unsigned_xor_eq unsigned_and_eq unsigned_or_eq)
  have shifts: "(ucast (drop_bit k (take_bit (lv_bits sz) lv)) :: 'w word) = drop_bit k (ucast lv)"
      "(ucast (push_bit k lv) :: 'w word) = push_bit k (ucast lv)" for k
    using len by (intro bit_eqI; auto simp: bit_ucast_iff bit_drop_bit_eq bit_take_bit_iff
        bit_push_bit_iff w [symmetric] dest: bit_imp_le_length)+
  show "(ucast v :: 'w word) = reg_binary m (nat (sint i)) (ucast i) (ucast lv)"
    using m r pos ucast_arith [where 'w = 'w, OF len]
    by (cases m) (auto simp: is_binary_def fold_binary_def Let_def upd_low_low [OF w] reg_binary_def
        bitwise shifts split: if_split_asm)
  show "drop_bit (lv_bits sz) v = drop_bit (lv_bits sz) lv"
    using m r by (cases m) (auto simp: is_binary_def fold_binary_def Let_def upd_low_high split: if_split_asm)
qed
end
