(* ===== verification/PushPop.thy ===== *)
theory PushPop
  imports ConstFold
begin

text \<open>
  Removing temporary pushes and pops (\<open>xVMDebugFrame::doDeobfuscateTempPushPop\<close> in
  \<open>xvmdebugframe.cpp\<close>): between a \<open>push\<close> of a register and the \<open>pop\<close> that restores it, the register
  is a scratch register. When it only carries a constant, the constant is computed and put into the
  instructions that use the register; when it is not used, push and pop are dropped.
  The disassembler (\<open>libudis86\<close>) and the encoder are not in the repository: parameters.
\<close>

section \<open>Decoded instructions\<close>

text \<open>The operand's value is the union \<open>ud_lval\<close>, read as a 64-bit word.\<close>

record ud_operand =
  uo_type :: int
  uo_base :: int
  uo_index :: int
  uo_scale :: int
  uo_offset :: int
  uo_size :: int
  uo_lval :: "64 word"

record ud_insn =
  ui_len :: int
  ui_mnemonic :: ud_mnemonic
  ui_opr :: "nat \<Rightarrow> ud_operand option"
  ui_opr_mode :: int

text \<open>
  \<open>esp_after\<close> is \<open>initRecordStep\<close> followed by a step of the emulator: the stack pointer, if the
  step returned normally. \<open>udex_to_bc\<close> yields the length (or an error) and the bytes. The last argument
  of \<open>IsEspMemOperand\<close> asks to ignore the displacement; \<open>set_op_size\<close> and \<open>set_op_base\<close> are the default
  arguments of \<open>udex_set_op\<close>. The operand predicates take the pointer they are called with, null
  included; \<open>udex_init\<close> makes an instruction at an address; \<open>imm_shl\<close> and \<open>imm_shr\<close> are the shifts at
  the type of \<open>udex_get_opimm\<close>'s result.
\<close>

record ud_env =
  ud_decode :: "byte list \<Rightarrow> addr \<Rightarrow> ud_insn"
  esp_after :: "TraceRecordEx \<Rightarrow> (32 word) option"
  UD_NONE :: int
  UD_OP_REG :: int
  UD_OP_IMM :: int
  UD_OP_CONST :: int
  UD_OP_MEM :: int
  UD_R_RSP :: int
  udex_get_rel_reg :: "int \<Rightarrow> int \<Rightarrow> int"
  udex_isref_reg :: "ud_operand \<Rightarrow> int \<Rightarrow> int"
  udex_get_opimm :: "ud_operand \<Rightarrow> 64 word"
  IsEspMemOperand :: "ud_operand option \<Rightarrow> int \<Rightarrow> bool \<Rightarrow> bool"
  udex_set_op :: "ud_insn \<Rightarrow> nat \<Rightarrow> int \<Rightarrow> 64 word \<Rightarrow> int \<Rightarrow> int \<Rightarrow> ud_insn"
  set_op_size :: int
  set_op_base :: int
  udex_to_bc :: "ud_insn \<Rightarrow> int \<times> byte list"
  UD_R_ESP :: int
  ud_set_pc :: "ud_insn \<Rightarrow> addr \<Rightarrow> ud_insn"
  udex_init :: "ud_mnemonic \<Rightarrow> addr \<Rightarrow> ud_insn"
  IsSameOperand :: "ud_operand option \<Rightarrow> ud_operand option \<Rightarrow> bool"
  IsRegister :: "ud_operand option \<Rightarrow> int \<Rightarrow> bool \<Rightarrow> bool"
  IsNoneEspRelateOP :: "ud_operand option \<Rightarrow> bool"
  IsImmOperand :: "ud_operand option \<Rightarrow> bool"
  udex_get_sizeimm :: "64 word \<Rightarrow> int \<Rightarrow> 64 word"
  imm_shl :: "64 word \<Rightarrow> 64 word \<Rightarrow> 64 word"
  imm_shr :: "64 word \<Rightarrow> 64 word \<Rightarrow> 64 word"
  RECORD_FLAG_DELETE :: "32 word"
  RECORD_FLAG_JUNK :: "32 word"
  RECORD_FLAG_TEMPFLAG :: "32 word"
  RECORD_FLAG_OPERFLAG :: "32 word"
  RECORD_FLAG_MOVETOTOP :: "32 word"

definition decode_rec :: "ud_env \<Rightarrow> TraceRecordEx \<Rightarrow> ud_insn" where
  "decode_rec U tr =
     ud_decode U (take (nat (tr_szOP (tx_ctx1 tr))) (tr_opcode (tx_ctx1 tr))) (tr_rip (tx_ctx1 tr))"

definition IsEffectESP :: "ud_env \<Rightarrow> TraceRecordEx \<Rightarrow> bool" where
  "IsEffectESP U tr =
     (case esp_after U tr of None \<Rightarrow> True | Some esp \<Rightarrow> esp \<noteq> tr_regs (tx_ctx1 tr) ! 4)"

definition is_const :: "ud_env \<Rightarrow> ud_operand \<Rightarrow> bool" where
  "is_const U op \<longleftrightarrow> uo_type op = UD_OP_IMM U \<or> uo_type op = UD_OP_CONST U"

section \<open>Computing the constant\<close>

text \<open>
  The walk over the instructions between push and pop. \<open>fs_ts\<close>: 0 nothing seen, 1 the register was
  set to a constant, 2 it was computed with, 3 it was used, 4 the saved value was changed on the stack,
  -1 something else touched the register or the stack. \<open>fs_lruse\<close> is the form of the register in use.
\<close>

record fold_state =
  fs_ts :: int
  fs_lv :: "64 word"
  fs_lruse :: int

text \<open>A step: whether it is one of the accepted forms, the state after it, and the flag it sets.\<close>

type_synonym fold_result = "bool \<times> fold_state \<times> 32 word"

definition fold_mov :: "ud_env \<Rightarrow> int \<Rightarrow> ud_operand \<Rightarrow> ud_operand \<Rightarrow> fold_state \<Rightarrow> fold_result" where
  "fold_mov U lastReg op1 op2 st =
     (if fs_ts st < 2 \<and> uo_type op1 = UD_OP_REG U
         \<and> udex_get_rel_reg U (uo_base op1) 64 = udex_get_rel_reg U lastReg 64 \<and> is_const U op2
      then (True, \<lparr>fs_ts = 1, fs_lv = uo_lval op2, fs_lruse = uo_base op1\<rparr>, RECORD_FLAG_TEMPFLAG U)
      else if fs_ts st < 3 then
        (if udex_isref_reg U op1 lastReg \<noteq> UD_NONE U then
           (if is_const U op2
            then (True, st\<lparr>fs_ts := 2, fs_lv := uo_lval op2\<rparr>, RECORD_FLAG_TEMPFLAG U)
            else (False, st, 0))
         else if uo_type op2 = UD_OP_REG U \<and> uo_base op2 = fs_lruse st
         then (True, st\<lparr>fs_ts := 3\<rparr>, RECORD_FLAG_OPERFLAG U)
         else (False, st, 0))
      else (False, st, 0))"

definition fold_un :: "ud_env \<Rightarrow> ud_mnemonic \<Rightarrow> ud_operand \<Rightarrow> fold_state \<Rightarrow> fold_result" where
  "fold_un U mnem op1 st =
     (if fs_ts st < 3 \<and> uo_type op1 = UD_OP_REG U \<and> uo_base op1 = fs_lruse st
      then (True, st\<lparr>fs_ts := 2, fs_lv := fold_unary mnem (uo_size op1) (fs_lv st)\<rparr>,
            RECORD_FLAG_TEMPFLAG U)
      else (False, st, 0))"

definition fold_bin ::
  "ud_env \<Rightarrow> int \<Rightarrow> ud_mnemonic \<Rightarrow> ud_operand \<Rightarrow> ud_operand \<Rightarrow> fold_state \<Rightarrow> fault + fold_result" where
  "fold_bin U lastReg mnem op1 op2 st =
     (if fs_ts st < 3 then
        (if udex_isref_reg U op1 lastReg \<noteq> UD_NONE U then
           (if is_const U op2 then
              bindF (fold_binary mnem (uo_size op1) (udex_get_opimm U op2) (fs_lv st)) (\<lambda>v.
                Inr (True, st\<lparr>fs_ts := 2, fs_lv := v\<rparr>, RECORD_FLAG_TEMPFLAG U))
            else Inr (False, st, 0))
         else if uo_type op2 = UD_OP_REG U \<and> uo_base op2 = fs_lruse st
         then Inr (True, st\<lparr>fs_ts := 3\<rparr>, RECORD_FLAG_OPERFLAG U)
         else Inr (False, st, 0))
      else Inr (False, st, 0))"

text \<open>
  The switch over the mnemonic: from 3 on no form is accepted. A missing operand that the branch reads is a
  null pointer.
\<close>

definition fold_switch :: "ud_env \<Rightarrow> int \<Rightarrow> ud_insn \<Rightarrow> fold_state \<Rightarrow> fault + fold_result" where
  "fold_switch U lastReg ud st =
     (let m = ui_mnemonic ud
      in if 3 \<le> fs_ts st then Inr (False, st, 0)
         else if m = UD_Imov then
           (case (ui_opr ud 0, ui_opr ud 1) of
              (Some op1, Some op2) \<Rightarrow> Inr (fold_mov U lastReg op1 op2 st) | _ \<Rightarrow> Inl Null_deref)
         else if is_unary m then
           (case ui_opr ud 0 of Some op1 \<Rightarrow> Inr (fold_un U m op1 st) | None \<Rightarrow> Inl Null_deref)
         else if is_binary m then
           (case (ui_opr ud 0, ui_opr ud 1) of
              (Some op1, Some op2) \<Rightarrow> fold_bin U lastReg m op1 op2 st | _ \<Rightarrow> Inl Null_deref)
         else Inr (False, st, 0))"

definition touches :: "ud_env \<Rightarrow> int \<Rightarrow> ud_operand \<Rightarrow> bool" where
  "touches U lastReg op \<longleftrightarrow>
     (let lr64 = udex_get_rel_reg U lastReg 64; rel = (\<lambda>r. udex_get_rel_reg U r 64)
      in (uo_base op \<noteq> UD_NONE U \<and> rel (uo_base op) = lr64)
         \<or> (uo_index op \<noteq> UD_NONE U \<and> rel (uo_index op) = lr64)
         \<or> rel (uo_base op) = UD_R_RSP U \<or> rel (uo_index op) = UD_R_RSP U)"

text \<open>What is not an accepted form: a change of the saved value, or a use that spoils the pair.\<close>

definition fold_other :: "ud_env \<Rightarrow> int \<Rightarrow> ud_insn \<Rightarrow> fold_result \<Rightarrow> fold_state \<times> 32 word" where
  "fold_other U lastReg ud r =
     (case r of (valid, st, flag) \<Rightarrow>
        if valid then (st, flag)
        else if is_unary (ui_mnemonic ud)
             \<and> (case ui_opr ud 0 of None \<Rightarrow> False | Some op1 \<Rightarrow> IsEspMemOperand U (Some op1) 0 False)
        then (st\<lparr>fs_ts := 4\<rparr>, RECORD_FLAG_MOVETOTOP U)
        else if list_ex (\<lambda>i. case ui_opr ud i of None \<Rightarrow> False
               | Some op \<Rightarrow> uo_type op \<noteq> UD_NONE U \<and> touches U lastReg op) [0..<3]
        then (st\<lparr>fs_ts := -1\<rparr>, 0)
        else (st, 0))"

definition or_flags :: "32 word \<Rightarrow> TraceRecordEx \<Rightarrow> TraceRecordEx" where
  "or_flags f tr = tr\<lparr>tx_flags := tx_flags tr OR f\<rparr>"

definition clear_flags :: "32 word \<Rightarrow> TraceRecordEx \<Rightarrow> TraceRecordEx" where
  "clear_flags f tr = tr\<lparr>tx_flags := tx_flags tr AND NOT f\<rparr>"

fun fold_loop ::
  "ud_env \<Rightarrow> int \<Rightarrow> nat list \<Rightarrow> fold_state \<Rightarrow> InstSequence \<Rightarrow> (fold_state, InstSequence) outcome" where
  "fold_loop U lastReg [] st seq = Inr (st, seq)"
| "fold_loop U lastReg (n # ns) st seq =
     (case rec_at seq n of
        None \<Rightarrow> Inl Null_deref
      | Some tr \<Rightarrow>
          (let ud = decode_rec U tr
           in if ui_len ud < 1 then Inr (st, seq)
              else case fold_switch U lastReg ud st of
                  Inl f \<Rightarrow> Inl f
                | Inr r \<Rightarrow>
                    (let (st', flag) = fold_other U lastReg ud r;
                         seq' = upd_rec n (or_flags flag) seq
                     in if fs_ts st' < 0 then Inr (st', seq')
                        else fold_loop U lastReg ns st' seq')))"

section \<open>Rewriting the window\<close>

definition ids :: "InstSequence \<Rightarrow> nat list" where
  "ids seq = map fst (is_nodes seq)"

text \<open>The records from \<open>a\<close> on, up to \<open>b\<close> (the end of the list, if \<open>b\<close> is null or not met).\<close>

definition until_rec :: "nat option \<Rightarrow> nat list \<Rightarrow> nat list" where
  "until_rec b ns = (case b of None \<Rightarrow> ns | Some m \<Rightarrow> takeWhile (\<lambda>n. n \<noteq> m) ns)"

definition from_rec :: "InstSequence \<Rightarrow> nat \<Rightarrow> nat list" where
  "from_rec seq a = dropWhile (\<lambda>n. n \<noteq> a) (ids seq)"

definition put_code :: "int \<times> byte list \<Rightarrow> TraceRecordEx \<Rightarrow> TraceRecordEx" where
  "put_code code tr =
     tr\<lparr>tx_ctx1 := (tx_ctx1 tr)\<lparr>tr_szOP := fst code,
          tr_opcode := snd code @ drop (length (snd code)) (tr_opcode (tx_ctx1 tr))\<rparr>\<rparr>"

text \<open>The constant takes the place of the register as second operand.\<close>

definition put_constant :: "ud_env \<Rightarrow> 64 word \<Rightarrow> TraceRecordEx \<Rightarrow> TraceRecordEx" where
  "put_constant U lv tr =
     (if has (tx_flags tr) (RECORD_FLAG_OPERFLAG U) then
        (let ud = decode_rec U tr
         in if 0 \<le> ui_len ud then
              put_code (udex_to_bc U (udex_set_op U ud 1 (UD_OP_IMM U) lv
                (case ui_opr ud 1 of None \<Rightarrow> 0 | Some op \<Rightarrow> uo_size op) (set_op_base U))) tr
            else tr)
      else tr)"

text \<open>Without the push the stack pointer is 4 higher: displacements from it are lowered.\<close>

definition lower_disp :: "ud_env \<Rightarrow> ud_operand \<Rightarrow> ud_operand" where
  "lower_disp U op = op\<lparr>uo_lval := upd_low (lv_bits (uo_size op)) (uo_lval op) (uo_lval op - 4)\<rparr>"

definition on_stack :: "ud_env \<Rightarrow> ud_operand option \<Rightarrow> bool" where
  "on_stack U o1 \<longleftrightarrow> (case o1 of None \<Rightarrow> False
     | Some op \<Rightarrow> uo_type op = UD_OP_MEM U \<and> udex_get_rel_reg U (uo_base op) 64 = UD_R_RSP U)"

definition lower_stack :: "ud_env \<Rightarrow> TraceRecordEx \<Rightarrow> TraceRecordEx" where
  "lower_stack U tr =
     (let ud = decode_rec U tr
      in if 0 < ui_len ud \<and> list_ex (\<lambda>i. on_stack U (ui_opr ud i)) [0..<3] then
           put_code (udex_to_bc U (ud\<lparr>ui_opr := (\<lambda>i.
             if i < 3 \<and> on_stack U (ui_opr ud i)
             then map_option (lower_disp U) (ui_opr ud i) else ui_opr ud i)\<rparr>)) tr
         else tr)"

text \<open>The saved value's change, as a change of the register before the push.\<close>

definition to_register :: "ud_env \<Rightarrow> int \<Rightarrow> TraceRecordEx \<Rightarrow> TraceRecordEx" where
  "to_register U lastReg tr =
     (let ud = decode_rec U tr
      in if 0 < ui_len ud then
           put_code (udex_to_bc U (udex_set_op U ud 0 (UD_OP_REG U) 0 (ui_opr_mode ud)
             (udex_get_rel_reg U lastReg (ui_opr_mode ud)))) tr
         else tr)"

definition move_before :: "nat \<Rightarrow> nat \<Rightarrow> InstSequence \<Rightarrow> InstSequence" where
  "move_before n a seq =
     (if n = a then seq
      else
        (let node = filter (\<lambda>e. fst e = n) (is_nodes seq);
             rest = filter (\<lambda>e. fst e \<noteq> n) (is_nodes seq)
         in seq\<lparr>is_nodes := takeWhile (\<lambda>e. fst e \<noteq> a) rest @ node
                             @ dropWhile (\<lambda>e. fst e \<noteq> a) rest\<rparr>))"

text \<open>
  The last loop over the window. A record marked for moving is put before the push, and the
  walk goes on from the push again: \<open>seen\<close> are the records walked since then. \<open>k\<close> is the number of
  marked records, which bounds the moves: a move clears the mark.
\<close>

definition finish_flags :: "ud_env \<Rightarrow> bool \<Rightarrow> TraceRecordEx \<Rightarrow> TraceRecordEx" where
  "finish_flags U validSeq tr =
     (if has (tx_flags tr) (RECORD_FLAG_TEMPFLAG U) then
        (let tr1 = clear_flags (RECORD_FLAG_TEMPFLAG U) tr
         in if validSeq then or_flags (RECORD_FLAG_JUNK U OR RECORD_FLAG_DELETE U) tr1 else tr1)
      else tr)"

definition finish_rec :: "ud_env \<Rightarrow> bool \<Rightarrow> TraceRecordEx \<Rightarrow> TraceRecordEx" where
  "finish_rec U validSeq tr =
     (let tr1 = (if has (tx_flags tr) (RECORD_FLAG_OPERFLAG U)
                 then clear_flags (RECORD_FLAG_OPERFLAG U) tr else tr)
      in if validSeq \<and> \<not> has (tx_flags tr1) (RECORD_FLAG_DELETE U) then lower_stack U tr1 else tr1)"

function finish_loop ::
  "ud_env \<Rightarrow> int \<Rightarrow> bool \<Rightarrow> nat \<Rightarrow> nat \<Rightarrow> nat list \<Rightarrow> nat list \<Rightarrow> InstSequence \<Rightarrow> fault + InstSequence" where
  "finish_loop U lastReg validSeq a k seen [] seq = Inr seq"
| "finish_loop U lastReg validSeq a k seen (n # ns) seq =
     (case rec_at seq n of
        None \<Rightarrow> Inl Null_deref
      | Some tr \<Rightarrow>
          (let tr1 = finish_flags U validSeq tr
           in if has (tx_flags tr1) (RECORD_FLAG_MOVETOTOP U) then
                (if k = 0 then Inl Diverges
                 else
                   (let tr2 = finish_rec U validSeq
                          (clear_flags (RECORD_FLAG_MOVETOTOP U) (to_register U lastReg tr1));
                        seq' = move_before n a (upd_rec n (\<lambda>_. tr2) seq)
                    in finish_loop U lastReg validSeq a (k - 1) [] (seen @ ns) seq'))
              else finish_loop U lastReg validSeq a k (seen @ [n]) ns
                     (upd_rec n (\<lambda>_. finish_rec U validSeq tr1) seq)))"
  by pat_completeness auto
termination
  by (relation "measures [\<lambda>(U, r, v, a, k, seen, ns, seq). k,
      \<lambda>(U, r, v, a, k, seen, ns, seq). length ns]") auto

declare finish_loop.simps [simp del]

definition marked :: "32 word \<Rightarrow> InstSequence \<Rightarrow> nat list \<Rightarrow> nat" where
  "marked f seq ns =
     length (filter (\<lambda>n. case rec_at seq n of None \<Rightarrow> False | Some tr \<Rightarrow> has (tx_flags tr) f) ns)"

text \<open>
  A push at \<open>a\<close> with the pop at \<open>b\<close>. The pop may stand before the push (see the main loop): then the
  walks run to the end of the list.
\<close>

definition fold_pair ::
  "ud_env \<Rightarrow> int \<Rightarrow> nat \<Rightarrow> nat \<Rightarrow> InstSequence \<Rightarrow> fault + InstSequence" where
  "fold_pair U lastReg a b seq0 =
     (let mark = upd_rec b (or_flags (RECORD_FLAG_TEMPFLAG U)) (upd_rec a (or_flags (RECORD_FLAG_TEMPFLAG U)) seq0);
          window = until_rec (Some b) (drop 1 (from_rec mark a))
      in case fold_loop U lastReg window \<lparr>fs_ts = 0, fs_lv = 0, fs_lruse = UD_NONE U\<rparr> mark of
           Inl f \<Rightarrow> Inl f
         | Inr (st, seq1) \<Rightarrow>
             (let range = until_rec (rec_next seq1 b) (from_rec seq1 a);
                  used = 0 < marked (RECORD_FLAG_OPERFLAG U) seq1 range;
                  validSeq = (if fs_ts st = 3 then used else fs_ts st = 0);
                  seq2 = (if fs_ts st = 3 \<and> used
                          then fold (\<lambda>n. upd_rec n (put_constant U (fs_lv st))) range seq1 else seq1)
              in finish_loop U lastReg validSeq a (marked (RECORD_FLAG_MOVETOTOP U) seq2 range) []
                   range seq2))"

section \<open>The loop over the trace\<close>

text \<open>
  \<open>tr1\<close> is the last push of a register, \<open>tr2\<close> a pop of \<open>lastReg\<close>. Neither \<open>lastReg\<close> nor a pop that is met
  without a push is forgotten.
\<close>

record pp_state =
  pp_tr1 :: "nat option"
  pp_tr2 :: "nat option"
  pp_lastReg :: int

definition forget :: "pp_state \<Rightarrow> pp_state" where
  "forget st = st\<lparr>pp_tr1 := None, pp_tr2 := None\<rparr>"

text \<open>The first part of a turn: \<open>None\<close> is the \<open>continue\<close> after a reset.\<close>

definition pp_scan :: "ud_env \<Rightarrow> nat \<Rightarrow> TraceRecordEx \<Rightarrow> pp_state \<Rightarrow> pp_state option" where
  "pp_scan U n tr st =
     (let ud = decode_rec U tr
      in if ui_mnemonic ud = UD_Ipush then
           (case ui_opr ud 0 of
              Some op \<Rightarrow> if uo_type op = UD_OP_REG U
                         then Some (st\<lparr>pp_tr1 := Some n, pp_lastReg := uo_base op\<rparr>) else None
            | None \<Rightarrow> None)
         else if ui_mnemonic ud = UD_Ipop
             \<and> (case ui_opr ud 0 of None \<Rightarrow> False
                | Some op \<Rightarrow> uo_type op = UD_OP_REG U \<and> uo_base op = pp_lastReg st)
         then Some (st\<lparr>pp_tr2 := Some n\<rparr>)
         else if IsEffectESP U tr then None
         else Some st)"

text \<open>
  The walk follows the links of the list as a pair leaves them. It need not end when a record that was
  marked for moving beforehand is moved back over the walk: the result is an option.
\<close>

partial_function (option) pp_loop ::
  "ud_env \<Rightarrow> nat option \<Rightarrow> pp_state \<Rightarrow> InstSequence \<Rightarrow> (fault + InstSequence) option" where
  "pp_loop U p st seq =
     (case p of
        None \<Rightarrow> Some (Inr seq)
      | Some n \<Rightarrow>
          (case rec_at seq n of
             None \<Rightarrow> Some (Inl Null_deref)
           | Some tr \<Rightarrow>
               if has (tx_flags tr) (RECORD_FLAG_DELETE U) then pp_loop U (rec_next seq n) st seq
               else if ui_len (decode_rec U tr) < 1 then Some (Inr seq)
               else (case pp_scan U n tr st of
                       None \<Rightarrow> pp_loop U (rec_next seq n) (forget st) seq
                     | Some st1 \<Rightarrow>
                         (case pp_tr1 st1 of
                            None \<Rightarrow> pp_loop U (rec_next seq n) st1 seq
                          | Some a \<Rightarrow>
                              (case pp_tr2 st1 of
                                 None \<Rightarrow> pp_loop U (rec_next seq n) st1 seq
                               | Some b \<Rightarrow>
                                   (case fold_pair U (pp_lastReg st1) a b seq of
                                      Inl f \<Rightarrow> Some (Inl f)
                                    | Inr seq' \<Rightarrow>
                                        pp_loop U (rec_next seq' n) (forget st1) seq'))))))"

declare pp_loop.simps [code]

text \<open>The return value is 0 always.\<close>

definition doDeobfuscateTempPushPop :: "ud_env \<Rightarrow> InstSequence \<Rightarrow> (int, InstSequence) outcome" where
  "doDeobfuscateTempPushPop U seq =
     (case pp_loop U (rec_first seq) \<lparr>pp_tr1 = None, pp_tr2 = None, pp_lastReg = UD_NONE U\<rparr> seq of
        None \<Rightarrow> Inl Diverges
      | Some (Inl f) \<Rightarrow> Inl f
      | Some (Inr seq') \<Rightarrow> Inr (0, seq'))"

end
