(* ===== verification/PushPopFacts.thy ===== *)
theory PushPopFacts
  imports PushPop "HOL-Library.Multiset"
begin

text \<open>
  What the push/pop elimination keeps: every record survives with its address, its registers and its memory
  accesses (only flags, code and order change), every loop ends, and the only way to fault is a
  constant shifted out of range.
\<close>

section \<open>What is kept of the trace\<close>

text \<open>
  The rewriting changes flags and code of records and their order: no record is added or lost, and each
  keeps its address, registers and memory accesses.
\<close>

definition frame_rec :: "TraceRecordEx \<Rightarrow> TraceRecordEx" where
  "frame_rec tr = tr\<lparr>tx_flags := 0, tx_ctx1 := (tx_ctx1 tr)\<lparr>tr_szOP := 0, tr_opcode := []\<rparr>\<rparr>"

definition same_records :: "InstSequence \<Rightarrow> InstSequence \<Rightarrow> bool" where
  "same_records s t \<longleftrightarrow> nodes_ok t \<and> mset (ids t) = mset (ids s)
     \<and> (\<forall>n. map_option frame_rec (rec_at t n) = map_option frame_rec (rec_at s n))"

lemma same_records_refl [simp]: "nodes_ok s \<Longrightarrow> same_records s s"
  by (simp add: same_records_def)

lemma same_records_trans: "same_records s t \<Longrightarrow> same_records t u \<Longrightarrow> same_records s u"
  by (simp add: same_records_def)

lemma same_records_set: "same_records s t \<Longrightarrow> set (ids t) = set (ids s)"
  by (metis same_records_def set_mset_mset)

lemma rec_at_upd_rec:
  "rec_at (upd_rec n f seq) m = (if m = n then map_option f (rec_at seq m) else rec_at seq m)"
proof -
  have "map_of (map (\<lambda>e. if fst e = n then (n, f (snd e)) else e) es) m
      = (if m = n then map_option f (map_of es m) else map_of es m)" for es :: "(nat \<times> TraceRecordEx) list"
    by (induction es) auto
  then show ?thesis by (simp add: rec_at_def upd_rec_def)
qed

lemma ids_upd_rec [simp]: "ids (upd_rec n f seq) = ids seq"
  by (simp add: ids_def)

lemma rec_at_ids: "rec_at seq n = None \<longleftrightarrow> n \<notin> set (ids seq)"
  by (simp add: rec_at_def ids_def map_of_eq_None_iff)

lemma same_records_upd:
  assumes "same_records s t" "\<And>tr. rec_at t n = Some tr \<Longrightarrow> frame_rec (f tr) = frame_rec tr"
  shows "same_records s (upd_rec n f t)"
proof -
  have "map_option frame_rec (rec_at (upd_rec n f t) m) = map_option frame_rec (rec_at t m)" for m
    using assms(2) by (cases "rec_at t m") (auto simp: rec_at_upd_rec)
  then show ?thesis using assms(1) by (auto simp: same_records_def)
qed

lemma frame_rec_simps [simp]:
  "frame_rec (or_flags f tr) = frame_rec tr"
  "frame_rec (clear_flags f tr) = frame_rec tr"
  "frame_rec (put_code c tr) = frame_rec tr"
  by (simp_all add: frame_rec_def or_flags_def clear_flags_def put_code_def)

lemma frame_rec_ops [simp]:
  "frame_rec (put_constant U lv tr) = frame_rec tr"
  "frame_rec (lower_stack U tr) = frame_rec tr"
  "frame_rec (to_register U r tr) = frame_rec tr"
  "frame_rec (finish_flags U v tr) = frame_rec tr"
  by (simp_all add: put_constant_def lower_stack_def to_register_def finish_flags_def Let_def)

lemma frame_finish_rec [simp]: "frame_rec (finish_rec U v tr) = frame_rec tr"
  by (simp add: finish_rec_def Let_def)

subsection \<open>Moving a record\<close>

lemma move_before_mset: "mset (is_nodes (move_before n a seq)) = mset (is_nodes seq)"
proof (cases "n = a")
  case False
  have mid: "mset (takeWhile P r @ m @ dropWhile P r) = mset r + mset m"
    for P and r m :: "(nat \<times> TraceRecordEx) list"
    by (metis (no_types, lifting) add.commute add.left_commute mset_append takeWhile_dropWhile_id)
  let ?r = "filter (\<lambda>e. fst e \<noteq> n) (is_nodes seq)" and ?m = "filter (\<lambda>e. fst e = n) (is_nodes seq)"
  have "is_nodes (move_before n a seq)
      = takeWhile (\<lambda>e. fst e \<noteq> a) ?r @ ?m @ dropWhile (\<lambda>e. fst e \<noteq> a) ?r"
    using False by (simp add: move_before_def Let_def)
  then have "mset (is_nodes (move_before n a seq)) = mset ?r + mset ?m" by (simp only: mid)
  also have "\<dots> = mset (is_nodes seq)"
    using multiset_partition [of "mset (is_nodes seq)" "\<lambda>e. fst e = n"] by (simp add: add.commute)
  finally show ?thesis .
qed (simp add: move_before_def)

lemma move_before_frame [simp]: "is_fresh (move_before n a seq) = is_fresh seq"
  by (simp add: move_before_def Let_def)

lemma ids_move_mset: "mset (ids (move_before n a seq)) = mset (ids seq)"
  unfolding ids_def mset_map move_before_mset ..

lemma nodes_ok_move: "nodes_ok seq \<Longrightarrow> nodes_ok (move_before n a seq)"
  using ids_move_mset [of n a seq] unfolding nodes_ok_def ids_def [symmetric]
  by (metis list_all_iff mset_eq_imp_distinct_iff move_before_frame set_mset_mset)

lemma rec_at_move:
  assumes "nodes_ok seq"
  shows "rec_at (move_before n a seq) = rec_at seq"
proof -
  have "set (is_nodes (move_before n a seq)) = set (is_nodes seq)"
    by (metis move_before_mset set_mset_mset)
  then have "map_of (is_nodes (move_before n a seq)) = map_of (is_nodes seq)"
    using assms nodes_ok_move [OF assms, of n a] by (simp add: map_of_inject_set nodes_ok_def)
  then show ?thesis by (simp add: rec_at_def fun_eq_iff)
qed

lemma same_records_move: "same_records s t \<Longrightarrow> same_records s (move_before n a t)"
  by (simp add: same_records_def nodes_ok_move rec_at_move ids_move_mset)

text \<open>What lies behind a record only shrinks when others are moved before it.\<close>

lemma ids_move:
  assumes "n \<noteq> a"
  shows "ids (move_before n a seq) =
    (let rest = filter (\<lambda>i. i \<noteq> n) (ids seq)
     in takeWhile (\<lambda>i. i \<noteq> a) rest @ filter (\<lambda>i. i = n) (ids seq) @ dropWhile (\<lambda>i. i \<noteq> a) rest)"
  using assms
  by (simp add: move_before_def ids_def Let_def takeWhile_map dropWhile_map filter_map comp_def)

lemma move_tail:
  assumes ok: "nodes_ok seq" and ids: "ids seq = X @ n # R" and a: "a \<in> set (X @ [n])" and m: "m \<noteq> n"
  shows "\<exists>X' R'. ids (move_before m a seq) = X' @ n # R' \<and> a \<in> set (X' @ [n]) \<and> length R' \<le> length R"
proof (cases "m = a")
  case True
  then show ?thesis using ids a by (auto simp: move_before_def)
next
  case False
  let ?f = "filter (\<lambda>i. i \<noteq> m)"
  have rest: "?f (ids seq) = ?f X @ n # ?f R" using ids m by simp
  show ?thesis
  proof (cases "a \<in> set X")
    case True
    then obtain P Q where "?f X = P @ a # Q" "a \<notin> set P"
      using False split_list_first [of a "?f X"] by auto
    then have "ids (move_before m a seq) =
        (P @ filter (\<lambda>i. i = m) (ids seq) @ a # Q) @ n # ?f R"
      using rest False by (simp add: ids_move Let_def takeWhile_append dropWhile_append)
    then show ?thesis by (intro exI conjI) (assumption, simp_all)
  next
    case a: False
    then have "a = n" using assms(3) by simp
    then have "ids (move_before m a seq) = (?f X @ filter (\<lambda>i. i = m) (ids seq)) @ n # ?f R"
      using rest a m by (simp add: ids_move Let_def takeWhile_append dropWhile_append)
    then show ?thesis using \<open>a = n\<close> by (intro exI conjI) (assumption, simp_all)
  qed
qed
section \<open>The rewriting ends\<close>

definition is_marked :: "32 word \<Rightarrow> InstSequence \<Rightarrow> nat \<Rightarrow> bool" where
  "is_marked f seq n \<longleftrightarrow> (case rec_at seq n of None \<Rightarrow> False | Some tr \<Rightarrow> has (tx_flags tr) f)"

lemma marked_filter: "marked f seq ns = length (filter (is_marked f seq) ns)"
  by (simp add: marked_def is_marked_def [abs_def])

text \<open>
  The flag of records to be moved is not among those the last loop sets, and the decoder gives a
  two-operand instruction its operands.
\<close>

definition flags_apart :: "ud_env \<Rightarrow> bool" where
  "flags_apart U \<longleftrightarrow>
     \<not> has (RECORD_FLAG_JUNK U OR RECORD_FLAG_DELETE U) (RECORD_FLAG_MOVETOTOP U)
     \<and> \<not> has (RECORD_FLAG_TEMPFLAG U) (RECORD_FLAG_MOVETOTOP U)
     \<and> \<not> has (RECORD_FLAG_OPERFLAG U) (RECORD_FLAG_MOVETOTOP U)"

definition operands_given :: "ud_insn \<Rightarrow> bool" where
  "operands_given ud \<longleftrightarrow>
     (ui_mnemonic ud = UD_Imov \<or> is_binary (ui_mnemonic ud) \<longrightarrow> ui_opr ud 0 \<noteq> None \<and> ui_opr ud 1 \<noteq> None)
     \<and> (is_unary (ui_mnemonic ud) \<longrightarrow> ui_opr ud 0 \<noteq> None)"

definition decoder_ok :: "ud_env \<Rightarrow> bool" where
  "decoder_ok U \<longleftrightarrow> (\<forall>bs pc. operands_given (ud_decode U bs pc))"

lemma has_clear: "has (f AND NOT g) m \<Longrightarrow> has f m"
  by (auto simp: has_def bit_eq_iff bit_and_iff)

lemma has_clear_self [simp]: "\<not> has (f AND NOT m) m"
  by (auto simp: has_def bit_eq_iff bit_and_iff bit_not_iff)

lemma flags_put_code [simp]: "tx_flags (put_code c tr) = tx_flags tr"
  by (simp add: put_code_def)

lemma flags_ops [simp]:
  "tx_flags (put_constant U lv tr) = tx_flags tr"
  "tx_flags (lower_stack U tr) = tx_flags tr"
  "tx_flags (to_register U r tr) = tx_flags tr"
  by (simp_all add: put_constant_def lower_stack_def to_register_def Let_def)

lemma finish_rec_marked: "has (tx_flags (finish_rec U v tr)) m \<Longrightarrow> has (tx_flags tr) m"
  by (auto simp: finish_rec_def Let_def clear_flags_def dest: has_clear split: if_splits)

lemma finish_flags_marked:
  assumes "flags_apart U" "has (tx_flags (finish_flags U v tr)) (RECORD_FLAG_MOVETOTOP U)"
  shows "has (tx_flags tr) (RECORD_FLAG_MOVETOTOP U)"
  using assms by (auto simp: finish_flags_def Let_def clear_flags_def or_flags_def flags_apart_def
      dest: has_clear split: if_splits)

lemma is_marked_upd:
  "is_marked f (upd_rec n g seq) m =
    (if m = n then (case rec_at seq n of None \<Rightarrow> False | Some tr \<Rightarrow> has (tx_flags (g tr)) f)
     else is_marked f seq m)"
  by (auto simp: is_marked_def rec_at_upd_rec split: option.split)

lemma is_marked_move: "nodes_ok seq \<Longrightarrow> is_marked f (move_before n a seq) = is_marked f seq"
  by (simp add: is_marked_def rec_at_move fun_eq_iff)

text \<open>
  The last loop ends, whatever is marked, keeps the records, and leaves none of those it has walked
  marked; what lies behind a record \<open>z\<close> that is not marked only shrinks.
\<close>

definition before_tail :: "nat \<Rightarrow> nat \<Rightarrow> nat \<Rightarrow> InstSequence \<Rightarrow> bool" where
  "before_tail a z k seq \<longleftrightarrow>
     (\<exists>X R. ids seq = X @ z # R \<and> a \<in> set (X @ [z]) \<and> length R \<le> k)"

lemma before_tail_move:
  assumes "before_tail a z k seq" "nodes_ok seq" "m \<noteq> z"
  shows "before_tail a z k (move_before m a seq)"
proof -
  obtain X R where t: "ids seq = X @ z # R" "a \<in> set (X @ [z])" "length R \<le> k"
    using assms(1) by (auto simp: before_tail_def)
  show ?thesis using move_tail [OF assms(2) t(1,2) assms(3)] t(3)
    unfolding before_tail_def by (meson le_trans)
qed

lemma before_tail_upd [simp]: "before_tail a z k (upd_rec n f seq) = before_tail a z k seq"
  by (simp add: before_tail_def)

lemma finish_loop_ends:
  assumes "flags_apart U" "same_records s0 seq" "distinct (seen @ ns)"
    and "set (seen @ ns) \<subseteq> set (ids seq)" "marked (RECORD_FLAG_MOVETOTOP U) seq (seen @ ns) \<le> k"
    and "\<forall>m \<in> set seen. \<not> is_marked (RECORD_FLAG_MOVETOTOP U) seq m" "before_tail a z l seq" "\<not> is_marked (RECORD_FLAG_MOVETOTOP U) seq z"
  shows "\<exists>seq'. finish_loop U lastReg v a k seen ns seq = Inr seq' \<and> same_records s0 seq'
    \<and> before_tail a z l seq'
    \<and> (\<forall>m. is_marked (RECORD_FLAG_MOVETOTOP U) seq' m \<longrightarrow> is_marked (RECORD_FLAG_MOVETOTOP U) seq m \<and> m \<notin> set (seen @ ns))
    \<and> (\<forall>m. m \<notin> set (seen @ ns) \<longrightarrow> rec_at seq' m = rec_at seq m)"
  using assms
proof (induction U lastReg v a k seen ns seq rule: finish_loop.induct)
  case (1 U lastReg v a k seen seq)
  then show ?case by (auto simp: finish_loop.simps(1))
next
  case (2 U lastReg v a k seen n ns seq)
  note prems = "2.prems"
  let ?mt = "RECORD_FLAG_MOVETOTOP U"
  have ok: "nodes_ok seq" using prems(2) by (simp add: same_records_def)
  obtain tr where tr: "rec_at seq n = Some tr"
    using prems(4) rec_at_ids [of seq n] by auto
  have n: "n \<notin> set seen" "n \<notin> set ns" using prems(3) by auto
  let ?tr1 = "finish_flags U v tr"
  have upd: "same_records s0 (upd_rec n (\<lambda>_. t) seq)" if "frame_rec t = frame_rec tr" for t
    using prems(2) tr that by (auto intro!: same_records_upd)
  show ?case
  proof (cases "has (tx_flags ?tr1) ?mt")
    case True
    let ?tr2 = "finish_rec U v (clear_flags ?mt (to_register U lastReg ?tr1))"
    let ?s = "move_before n a (upd_rec n (\<lambda>_. ?tr2) seq)"
    have was: "is_marked ?mt seq n"
      using finish_flags_marked [OF prems(1) True] tr by (simp add: is_marked_def)
    then have nz: "n \<noteq> z" using prems(8) by auto
    have k: "k \<noteq> 0" using was prems(5) by (auto simp: marked_filter)
    have oku: "nodes_ok (upd_rec n (\<lambda>_. ?tr2) seq)" using ok by (rule nodes_ok_upd_rec)
    have un: "\<not> has (tx_flags ?tr2) ?mt"
      by (auto simp: clear_flags_def dest!: finish_rec_marked)
    have marks: "is_marked ?mt ?s m \<longleftrightarrow> m \<noteq> n \<and> is_marked ?mt seq m" for m
      using un tr by (auto simp: is_marked_move [OF oku] is_marked_upd)
    have same: "same_records s0 ?s" by (rule same_records_move [OF upd]) simp
    have set: "set ([] @ seen @ ns) \<subseteq> set (ids ?s)"
      using prems(4) same_records_set [OF same] same_records_set [OF prems(2)] by auto
    have "filter (is_marked ?mt ?s) (seen @ ns) = filter (is_marked ?mt seq) (seen @ ns)"
      by (intro filter_cong refl) (use n in \<open>auto simp: marks\<close>)
    then have cnt: "marked ?mt ?s ([] @ seen @ ns) \<le> k - 1"
      using prems(5) was by (simp add: marked_filter)
    have tail: "before_tail a z l ?s" using prems(7) oku nz by (intro before_tail_move) simp_all
    have d: "distinct ([] @ seen @ ns)" using prems(3) by simp
    have z: "\<not> is_marked ?mt ?s z" using prems(8) by (simp add: marks)
    show ?thesis
      using "2.IH"(1) [OF tr refl True k refl refl prems(1) same d set cnt _ tail z] tr True k n
      by (auto simp: finish_loop.simps(2) Let_def marks rec_at_move [OF oku] rec_at_upd_rec)
  next
    case False
    let ?s = "upd_rec n (\<lambda>_. finish_rec U v ?tr1) seq"
    have un: "\<not> has (tx_flags (finish_rec U v ?tr1)) ?mt"
      using False by (auto dest!: finish_rec_marked)
    have marks: "is_marked ?mt ?s m \<longleftrightarrow> m \<noteq> n \<and> is_marked ?mt seq m" for m
      using un tr by (auto simp: is_marked_upd)
    have same: "same_records s0 ?s" by (rule upd) simp
    have set: "set ((seen @ [n]) @ ns) \<subseteq> set (ids ?s)" using prems(4) by simp
    have d: "distinct ((seen @ [n]) @ ns)" using prems(3) by simp
    have "filter (is_marked ?mt ?s) (seen @ ns) = filter (is_marked ?mt seq) (seen @ ns)"
      by (intro filter_cong refl) (use n in \<open>auto simp: marks\<close>)
    then have cnt: "marked ?mt ?s ((seen @ [n]) @ ns) \<le> k"
      using prems(5) by (auto simp: marked_filter marks split: if_splits)
    have seen: "\<forall>m \<in> set (seen @ [n]). \<not> is_marked ?mt ?s m" using prems(6) by (auto simp: marks)
    have tail: "before_tail a z l ?s" using prems(7) by simp
    have z: "\<not> is_marked ?mt ?s z" using prems(8) by (simp add: marks)
    show ?thesis
      using "2.IH"(2) [OF tr refl False prems(1) same d set cnt seen tail z] tr False n
      by (auto simp: finish_loop.simps(2) Let_def marks rec_at_upd_rec)
  qed
qed

section \<open>One pair\<close>

abbreviation only_shift :: "fault \<Rightarrow> bool" where
  "only_shift f \<equiv> f = Bad_shift"

lemma fold_switch_faults:
  assumes "operands_given ud" "fold_switch U r ud st = Inl f"
  shows "f = Bad_shift"
proof -
  have "fold_binary m sz i lv = Inl f \<Longrightarrow> f = Bad_shift" for m sz i lv f
    by (auto simp: fold_binary_def Let_def split: ud_mnemonic.splits if_splits)
  then have "fold_bin U r m op1 op2 st = Inl f \<Longrightarrow> f = Bad_shift" for m op1 op2
    by (auto simp: fold_bin_def bindF_def split: if_splits sum.splits)
  then show ?thesis
    using assms by (auto simp: operands_given_def fold_switch_def Let_def split: if_splits option.splits)
qed

text \<open>Only single-operand instructions are ever marked for moving.\<close>

definition marks_unary :: "ud_env \<Rightarrow> InstSequence \<Rightarrow> bool" where
  "marks_unary U seq \<longleftrightarrow> (\<forall>m tr. rec_at seq m = Some tr \<and> has (tx_flags tr) (RECORD_FLAG_MOVETOTOP U)
     \<longrightarrow> is_unary (ui_mnemonic (decode_rec U tr)))"

lemma marks_unaryD:
  "marks_unary U seq \<Longrightarrow> rec_at seq m = Some tr \<Longrightarrow> \<not> is_unary (ui_mnemonic (decode_rec U tr))
    \<Longrightarrow> \<not> is_marked (RECORD_FLAG_MOVETOTOP U) seq m"
  by (auto simp: marks_unary_def is_marked_def)

lemma decode_or_flags [simp]: "decode_rec U (or_flags f tr) = decode_rec U tr"
  by (simp add: decode_rec_def or_flags_def)

lemma marks_unary_or:
  assumes "marks_unary U seq" "rec_at seq n = Some tr"
    and "has f (RECORD_FLAG_MOVETOTOP U) \<Longrightarrow> is_unary (ui_mnemonic (decode_rec U tr))"
  shows "marks_unary U (upd_rec n (or_flags f) seq)"
  unfolding marks_unary_def
proof (intro allI impI)
  fix m t assume t: "rec_at (upd_rec n (or_flags f) seq) m = Some t
    \<and> has (tx_flags t) (RECORD_FLAG_MOVETOTOP U)"
  show "is_unary (ui_mnemonic (decode_rec U t))"
  proof (cases "m = n")
    case True
    then have "t = or_flags f tr" using t assms(2) by (simp add: rec_at_upd_rec)
    moreover have "tx_flags (or_flags f tr) = tx_flags tr OR f" by (simp add: or_flags_def)
    ultimately have "has (tx_flags tr) (RECORD_FLAG_MOVETOTOP U) \<or> has f (RECORD_FLAG_MOVETOTOP U)"
      using t by simp
    then show ?thesis using assms \<open>t = or_flags f tr\<close> by (auto simp: marks_unary_def)
  next
    case False
    then show ?thesis using t assms(1) by (auto simp: rec_at_upd_rec marks_unary_def)
  qed
qed

lemma fold_switch_flag:
  assumes "fold_switch U r ud st = Inr (ok, st', flag)"
  shows "flag \<in> {0, RECORD_FLAG_TEMPFLAG U, RECORD_FLAG_OPERFLAG U}"
  using assms
  by (auto simp: fold_switch_def Let_def fold_mov_def fold_un_def fold_bin_def bindF_def
      split: if_splits option.splits sum.splits)

lemma fold_other_flag:
  assumes "flags_apart U" "fold_switch U r ud st = Inr res" "fold_other U r ud res = (st', flag)"
    and "has flag (RECORD_FLAG_MOVETOTOP U)"
  shows "is_unary (ui_mnemonic ud)"
proof -
  obtain ok st0 f0 where res: "res = (ok, st0, f0)" by (cases res)
  have "f0 \<in> {0, RECORD_FLAG_TEMPFLAG U, RECORD_FLAG_OPERFLAG U}"
    using fold_switch_flag assms(2) res by simp
  then show ?thesis
    using assms res by (auto simp: fold_other_def flags_apart_def split: if_splits)
qed

lemma fold_loop_ends:
  assumes "decoder_ok U" "flags_apart U"
    and "same_records s0 seq" "set ns \<subseteq> set (ids seq)" "marks_unary U seq"
  shows "case fold_loop U r ns st seq of
      Inl f \<Rightarrow> f = Bad_shift
    | Inr (st', seq') \<Rightarrow> same_records s0 seq' \<and> ids seq' = ids seq \<and> marks_unary U seq'
        \<and> (\<forall>m. m \<notin> set ns \<longrightarrow> rec_at seq' m = rec_at seq m)"
  using assms(3-)
proof (induction ns arbitrary: st seq)
  case (Cons n ns)
  obtain tr where tr: "rec_at seq n = Some tr" using Cons.prems(2) rec_at_ids [of seq n] by auto
  show ?case
  proof (cases "ui_len (decode_rec U tr) < 1")
    case False
    show ?thesis
    proof (cases "fold_switch U r (decode_rec U tr) st")
      case (Inl f)
      then show ?thesis using tr False fold_switch_faults [OF _ Inl] assms(1)
        by (auto simp: Let_def decoder_ok_def decode_rec_def)
    next
      case (Inr res)
      obtain st' flag where o: "fold_other U r (decode_rec U tr) res = (st', flag)"
        by (cases "fold_other U r (decode_rec U tr) res")
      let ?s = "upd_rec n (or_flags flag) seq"
      have s: "same_records s0 ?s" using Cons.prems(1) by (rule same_records_upd) simp
      have u: "marks_unary U ?s"
        using Cons.prems(3) tr fold_other_flag [OF assms(2) Inr o] by (rule marks_unary_or)
      have "case fold_loop U r ns st' ?s of Inl f \<Rightarrow> f = Bad_shift
        | Inr (st'', seq') \<Rightarrow> same_records s0 seq' \<and> ids seq' = ids ?s \<and> marks_unary U seq'
            \<and> (\<forall>m. m \<notin> set ns \<longrightarrow> rec_at seq' m = rec_at ?s m)"
        using Cons.prems(2) s u by (intro Cons.IH) simp_all
      then show ?thesis
        using tr False Inr o s u
        by (auto simp: Let_def rec_at_upd_rec split: sum.splits)
    qed
  qed (use tr Cons.prems in simp)
qed simp

lemma from_rec_split: "nodes_ok seq \<Longrightarrow> ids seq = X @ n # R \<Longrightarrow> from_rec seq n = n # R"
  by (auto simp: from_rec_def nodes_ok_def ids_def [symmetric] dropWhile_append)

lemma until_rec_set: "set (until_rec b ns) \<subseteq> set ns"
  by (auto simp: until_rec_def dest: set_takeWhileD split: option.splits)

lemma until_rec_distinct: "distinct ns \<Longrightarrow> distinct (until_rec b ns)"
  by (auto simp: until_rec_def split: option.splits)

lemma put_constants_same:
  assumes "same_records s0 seq"
  shows "same_records s0 (fold (\<lambda>n. upd_rec n (put_constant U lv)) ns seq)
    \<and> ids (fold (\<lambda>n. upd_rec n (put_constant U lv)) ns seq) = ids seq
    \<and> is_marked f (fold (\<lambda>n. upd_rec n (put_constant U lv)) ns seq) = is_marked f seq"
  using assms
proof (induction ns arbitrary: seq)
  case (Cons n ns)
  let ?s = "upd_rec n (put_constant U lv) seq"
  have "same_records s0 ?s" using Cons.prems by (rule same_records_upd) simp
  moreover have "is_marked f ?s = is_marked f seq"
    by (auto simp: fun_eq_iff is_marked_upd split: option.split) (auto simp: is_marked_def)
  ultimately show ?case using Cons.IH [of ?s] by simp
qed simp

lemma put_constants_other:
  "n \<notin> set ns \<Longrightarrow> rec_at (fold (\<lambda>n. upd_rec n g) ns seq) n = rec_at seq n"
  by (induction ns arbitrary: seq) (simp_all add: rec_at_upd_rec)

text \<open>
  A pair of which the walk stands at the later one, \<open>z\<close>: what is before the walk stays ahead.
\<close>

lemma fold_pair_ends:
  assumes U: "flags_apart U" "decoder_ok U" and seq: "same_records s0 seq" "marks_unary U seq"
    and a: "rec_at seq a = Some ta" "\<not> is_unary (ui_mnemonic (decode_rec U ta))"
    and b: "rec_at seq b = Some tb" "\<not> is_unary (ui_mnemonic (decode_rec U tb))"
    and z: "z = a \<or> z = b" and tail: "before_tail a z l seq"
  shows "case fold_pair U r a b seq of
      Inl f \<Rightarrow> f = Bad_shift
    | Inr seq' \<Rightarrow> same_records s0 seq' \<and> marks_unary U seq' \<and> before_tail a z l seq'"
proof -
  let ?mt = "RECORD_FLAG_MOVETOTOP U"
  let ?t = "or_flags (RECORD_FLAG_TEMPFLAG U)"
  let ?ma = "upd_rec a ?t seq" and ?m = "upd_rec b ?t (upd_rec a ?t seq)"
  have m: "same_records s0 ?m"
    by (rule same_records_upd [OF same_records_upd [OF seq(1)]]) simp_all
  have nt: "\<not> has (RECORD_FLAG_TEMPFLAG U) ?mt" using U(1) by (simp add: flags_apart_def)
  have ma: "marks_unary U ?ma" using seq(2) a(1) nt by (intro marks_unary_or) auto
  obtain tb' where tb': "rec_at ?ma b = Some tb'" using b(1) by (cases "b = a") (auto simp: rec_at_upd_rec)
  have mm: "marks_unary U ?m" by (rule marks_unary_or [OF ma tb']) (use nt in simp)
  have mz: "\<exists>tz. rec_at ?m z = Some tz \<and> \<not> is_unary (ui_mnemonic (decode_rec U tz))"
    using a b z by (auto simp: rec_at_upd_rec)
  obtain X R where XR: "ids seq = X @ a # R"
    using a(1) rec_at_ids [of seq a] by (metis option.distinct(1) split_list)
  have ok: "nodes_ok ?m" using m by (simp add: same_records_def)
  have from_m: "from_rec ?m a = a # R" using XR ok by (intro from_rec_split) simp_all
  have d: "distinct (X @ a # R)" using ok XR by (simp add: nodes_ok_def ids_def [symmetric])
  let ?w = "until_rec (Some b) (drop 1 (from_rec ?m a))"
  have w: "set ?w \<subseteq> set R - {b}"
    unfolding from_m by (auto simp: until_rec_def dest: set_takeWhileD)
  then have wi: "set ?w \<subseteq> set (ids ?m)" using XR by auto
  note fl = fold_loop_ends [OF U(2,1) m wi mm, of r "\<lparr>fs_ts = 0, fs_lv = 0, fs_lruse = UD_NONE U\<rparr>"]
  show ?thesis
  proof (cases "fold_loop U r ?w \<lparr>fs_ts = 0, fs_lv = 0, fs_lruse = UD_NONE U\<rparr> ?m")
    case (Inl f)
    then show ?thesis using fl by (simp add: fold_pair_def Let_def)
  next
    case (Inr res)
    obtain st s1 where res: "res = (st, s1)" by (cases res)
    have s1: "same_records s0 s1" "ids s1 = ids seq" "marks_unary U s1"
        "\<And>n. n \<notin> set ?w \<Longrightarrow> rec_at s1 n = rec_at ?m n"
      using fl Inr res by auto
    let ?range = "until_rec (rec_next s1 b) (from_rec s1 a)"
    let ?used = "0 < marked (RECORD_FLAG_OPERFLAG U) s1 ?range"
    let ?v = "if fs_ts st = 3 then ?used else fs_ts st = 0"
    let ?s2 = "if fs_ts st = 3 \<and> ?used
      then fold (\<lambda>n. upd_rec n (put_constant U (fs_lv st))) ?range s1 else s1"
    have s2: "same_records s0 ?s2" "ids ?s2 = ids seq" "is_marked ?mt ?s2 = is_marked ?mt s1"
      using put_constants_same [OF s1(1)] s1(1,2) by auto
    have same2: "rec_at ?s2 n = rec_at s1 n" if "n \<notin> set ?range" for n
      using that by (simp add: put_constants_other)
    have ok1: "nodes_ok s1" using s1(1) by (simp add: same_records_def)
    have from1: "from_rec s1 a = a # R" using XR s1(2) ok1 by (intro from_rec_split) simp_all
    have range: "set ?range \<subseteq> set (ids ?s2)" "distinct ?range"
      using until_rec_set [of "rec_next s1 b" "a # R"] until_rec_distinct [of "a # R" "rec_next s1 b"]
        d XR s2(2) unfolding from1 by auto
    have "z \<notin> set ?w" using w d z by auto
    then have "\<not> is_marked ?mt s1 z" using mz s1(4) marks_unaryD [OF s1(3)] by metis
    then have mz2: "\<not> is_marked ?mt ?s2 z" unfolding s2(3) .
    have tail2: "before_tail a z l ?s2" using tail s2(2) by (simp add: before_tail_def)
    have "marked ?mt ?s2 ([] @ ?range) \<le> marked ?mt ?s2 ?range" by simp
    from finish_loop_ends [OF U(1) s2(1) _ _ this _ tail2 mz2, of r ?v] range
    obtain s3 where s3: "finish_loop U r ?v a (marked ?mt ?s2 ?range) [] ?range ?s2 = Inr s3"
        "same_records s0 s3" "before_tail a z l s3"
        "\<And>n. is_marked ?mt s3 n \<Longrightarrow> is_marked ?mt ?s2 n \<and> n \<notin> set ?range"
        "\<And>n. n \<notin> set ?range \<Longrightarrow> rec_at s3 n = rec_at ?s2 n"
      by auto
    have "marks_unary U s3"
      unfolding marks_unary_def
    proof (intro allI impI)
      fix n t assume t: "rec_at s3 n = Some t \<and> has (tx_flags t) ?mt"
      then have "n \<notin> set ?range" using s3(4) [of n] by (simp add: is_marked_def)
      then have "rec_at s1 n = Some t" using s3(5) same2 t by metis
      then show "is_unary (ui_mnemonic (decode_rec U t))" using s1(3) t by (auto simp: marks_unary_def)
    qed
    then show ?thesis using Inr res s3 by (simp add: fold_pair_def Let_def)
  qed
qed

section \<open>The loop over the trace\<close>

text \<open>A remembered push or pop is at or before the walk and is a push or pop.\<close>

definition noted :: "ud_env \<Rightarrow> InstSequence \<Rightarrow> nat set \<Rightarrow> nat option \<Rightarrow> bool" where
  "noted U seq B p \<longleftrightarrow> (\<forall>n. p = Some n \<longrightarrow> n \<in> B \<and>
     (\<exists>tr. rec_at seq n = Some tr \<and> \<not> is_unary (ui_mnemonic (decode_rec U tr))))"

lemma noted_None [simp]: "noted U seq B None"
  by (simp add: noted_def)

lemma noted_mono: "noted U seq B p \<Longrightarrow> B \<subseteq> C \<Longrightarrow> noted U seq C p"
  by (auto simp: noted_def)

lemma pp_scan_noted:
  assumes "pp_scan U n tr st = Some st'" "rec_at seq n = Some tr"
    and "noted U seq B (pp_tr1 st)" "noted U seq B (pp_tr2 st)"
  shows "noted U seq (insert n B) (pp_tr1 st')" "noted U seq (insert n B) (pp_tr2 st')"
    and "pp_tr1 st' = pp_tr1 st \<and> pp_tr2 st' = pp_tr2 st
      \<or> pp_tr1 st' = Some n \<and> pp_tr2 st' = pp_tr2 st \<or> pp_tr1 st' = pp_tr1 st \<and> pp_tr2 st' = Some n"
  using assms by (auto simp: pp_scan_def Let_def noted_def is_unary_def split: if_splits option.splits)

lemma rec_next_split:
  assumes "nodes_ok seq" "ids seq = X @ n # R"
  shows "rec_next seq n = (case R of [] \<Rightarrow> None | m # _ \<Rightarrow> Some m)"
proof -
  have "distinct (X @ n # R)" using assms by (simp add: nodes_ok_def ids_def)
  then have "succ_in (X @ n # R) n = (case R of [] \<Rightarrow> None | m # _ \<Rightarrow> Some m)"
  proof (induction X)
    case Nil
    then show ?case by (cases R) simp_all
  next
    case (Cons x X)
    then show ?case by (cases X) (auto split: list.splits)
  qed
  then show ?thesis using assms(2) by (simp add: rec_next_def ids_def)
qed

text \<open>No pair is open with both its ends behind the walk.\<close>

definition pp_ok :: "ud_env \<Rightarrow> InstSequence \<Rightarrow> nat list \<Rightarrow> pp_state \<Rightarrow> bool" where
  "pp_ok U seq X st \<longleftrightarrow> noted U seq (set X) (pp_tr1 st) \<and> noted U seq (set X) (pp_tr2 st)
     \<and> (pp_tr1 st = None \<or> pp_tr2 st = None)"

lemma pp_loop_ends:
  assumes U: "flags_apart U" "decoder_ok U"
  shows "same_records s0 seq \<Longrightarrow> marks_unary U seq \<Longrightarrow> ids seq = X @ R \<Longrightarrow> pp_ok U seq X st \<Longrightarrow>
    \<exists>m. pp_loop U (case R of [] \<Rightarrow> None | n # _ \<Rightarrow> Some n) st seq = Some m
      \<and> (case m of Inl f \<Rightarrow> f = Bad_shift | Inr seq' \<Rightarrow> same_records s0 seq')"
proof (induction "length R" arbitrary: R X st seq rule: less_induct)
  case less
  note same = less.prems(1) and mu = less.prems(2) and ids = less.prems(3) and st = less.prems(4)
  have ok: "nodes_ok seq" using same by (simp add: same_records_def)
  show ?case
  proof (cases R)
    case Nil
    then show ?thesis using same by (simp add: pp_loop.simps)
  next
    case (Cons n R')
    obtain tr where tr: "rec_at seq n = Some tr"
      using ids Cons rec_at_ids [of seq n] by auto
    have next_n: "rec_next seq n = (case R' of [] \<Rightarrow> None | m # _ \<Rightarrow> Some m)"
      using rec_next_split [OF ok] ids Cons by simp
    have go: "\<exists>m. pp_loop U (rec_next seq n) st' seq = Some m
        \<and> (case m of Inl f \<Rightarrow> f = Bad_shift | Inr seq' \<Rightarrow> same_records s0 seq')"
      if "pp_ok U seq (X @ [n]) st'" for st'
      using less.hyps [of R' seq "X @ [n]" st'] same mu ids that Cons next_n by simp
    have keep: "pp_ok U seq (X @ [n]) st" "pp_ok U seq (X @ [n]) (forget st)"
      using st by (auto simp: pp_ok_def forget_def elim: noted_mono)
    note unroll = pp_loop.simps [of _ "Some n"]
    show ?thesis
    proof (cases "has (tx_flags tr) (RECORD_FLAG_DELETE U) \<or> ui_len (decode_rec U tr) < 1
        \<or> pp_scan U n tr st = None")
      case True
      then show ?thesis using go keep same tr Cons by (auto simp: unroll)
    next
      case False
      then obtain st1 where scan: "pp_scan U n tr st = Some st1" by auto
      note sc = pp_scan_noted [OF scan tr, of "set X"]
      have n1: "noted U seq (set (X @ [n])) (pp_tr1 st1)" "noted U seq (set (X @ [n])) (pp_tr2 st1)"
        using sc st by (simp_all add: pp_ok_def)
      show ?thesis
      proof (cases "pp_tr1 st1 = None \<or> pp_tr2 st1 = None")
        case True
        then have "pp_ok U seq (X @ [n]) st1" using n1 by (simp add: pp_ok_def)
        then show ?thesis using go True False scan tr Cons
          by (cases "pp_tr1 st1") (auto simp: unroll)
      next
        case both: False
        then obtain a b where ab: "pp_tr1 st1 = Some a" "pp_tr2 st1 = Some b" by auto
        then have z: "n = a \<or> n = b" using sc(3) st by (auto simp: pp_ok_def)
        obtain ta tb where t: "rec_at seq a = Some ta" "\<not> is_unary (ui_mnemonic (decode_rec U ta))"
            "rec_at seq b = Some tb" "\<not> is_unary (ui_mnemonic (decode_rec U tb))" "a \<in> set (X @ [n])"
          using n1 ab by (auto simp: noted_def)
        have tail: "before_tail a n (length R') seq"
          using ids Cons t(5) by (auto simp: before_tail_def)
        note fp = fold_pair_ends [OF U same mu t(1-4) z tail, of "pp_lastReg st1"]
        show ?thesis
        proof (cases "fold_pair U (pp_lastReg st1) a b seq")
          case (Inl f)
          then show ?thesis using fp False scan tr ab Cons by (simp add: unroll)
        next
          case (Inr s1)
          then have s1: "same_records s0 s1" "marks_unary U s1" "before_tail a n (length R') s1"
            using fp by simp_all
          then obtain X1 R1 where X1: "ids s1 = X1 @ n # R1" "length R1 \<le> length R'"
            by (auto simp: before_tail_def)
          have "nodes_ok s1" using s1(1) by (simp add: same_records_def)
          then have "rec_next s1 n = (case R1 of [] \<Rightarrow> None | m # _ \<Rightarrow> Some m)"
            using rec_next_split X1(1) by simp
          moreover have "pp_ok U s1 (X1 @ [n]) (forget st1)" by (simp add: pp_ok_def forget_def)
          ultimately show ?thesis
            using less.hyps [of R1 s1 "X1 @ [n]" "forget st1"] s1 X1 Inr False scan tr ab Cons
            by (simp add: unroll)
        qed
      qed
    qed
  qed
qed

lemma doDeobfuscateTempPushPop_keeps:
  assumes "flags_apart U" "decoder_ok U" "nodes_ok seq" "marks_unary U seq"
  shows "keeps (same_records seq) only_shift (doDeobfuscateTempPushPop U seq)"
proof -
  let ?st = "\<lparr>pp_tr1 = None, pp_tr2 = None, pp_lastReg = UD_NONE U\<rparr>"
  have first: "rec_first seq = (case ids seq of [] \<Rightarrow> None | n # _ \<Rightarrow> Some n)"
    by (cases "is_nodes seq") (simp_all add: rec_first_def ids_def)
  have "pp_ok U seq [] ?st" by (simp add: pp_ok_def)
  then obtain m where "pp_loop U (rec_first seq) ?st seq = Some m"
      "case m of Inl f \<Rightarrow> f = Bad_shift | Inr seq' \<Rightarrow> same_records seq seq'"
    using pp_loop_ends [OF assms(1,2), of seq seq "[]" "ids seq" ?st] assms(3,4) first by auto
  then show ?thesis
    by (auto simp: doDeobfuscateTempPushPop_def keeps_def split: sum.splits)
qed

end
