(* ===== verification/TraceFacts.thy ===== *)
theory TraceFacts
  imports TraceCPU
begin

text \<open>
  What the tracing CPU promises: a context saved to a record is the one loaded back, the virtual layer
  answers a read with what was written to it, and a jump that was made up goes where it should.
\<close>

section \<open>Contexts\<close>

text \<open>The part of the state a context holds.\<close>

definition same_context :: "'v xVMDebugCPU \<Rightarrow> 'v xVMDebugCPU \<Rightarrow> bool" where
  "same_context c d \<longleftrightarrow> get_regs c = get_regs d \<and> c_eflags c = c_eflags d"

lemma context_saved_loaded:
  "same_context (loadContextFromRecord (saveContextToRecord c ctx inst) d) c"
  by (cases inst)
    (simp_all add: same_context_def loadContextFromRecord_def saveContextToRecord_def get_regs_def Let_def)

lemma get_regs_load:
  "length (tr_regs ctx) = 8 \<Longrightarrow> get_regs (loadContextFromRecord ctx c) = tr_regs ctx"
  by (rule nth_equalityI)
    (auto simp: get_regs_def loadContextFromRecord_def less_Suc_eq numeral_eq_Suc)

lemma context_loaded_saved:
  assumes "length (tr_regs ctx) = 8"
  shows "tr_regs (saveContextToRecord (loadContextFromRecord ctx c) ctx' inst) = tr_regs ctx
    \<and> tr_eflags (saveContextToRecord (loadContextFromRecord ctx c) ctx' inst) = tr_eflags ctx"
  using get_regs_load [OF assms, of c]
  by (cases inst) (simp_all add: saveContextToRecord_def Let_def loadContextFromRecord_def)

section \<open>The virtual layer\<close>

text \<open>
  What the layer promises: a read of the bytes that were written last yields them, and says so with
  their number, when they do not wrap around the address space.
\<close>

definition layer_law :: "'v cpu_env \<Rightarrow> bool" where
  "layer_law E \<longleftrightarrow> (\<forall>v a data buf. length buf = length data \<and> length data < 2 ^ 32
     \<longrightarrow> vmem_read E (vmem_write E v a data) a buf = (int (length data), data))"

lemma note_access_keeps [simp]:
  "c_state (snd (note_access a len c)) = c_state c"
  "c_dobMode (snd (note_access a len c)) = c_dobMode c"
  "m_vmem (snd (note_access a len c)) = m_vmem c"
  "m_offsetDelta (snd (note_access a len c)) = m_offsetDelta c"
  by (simp_all add: note_access_def Let_def)

lemma layered_note [simp]: "layered (snd (note_access a len c)) = layered c"
  by (simp add: layered_def)

lemma note_access_addr:
  "c_dobMode c = c_dobMode d \<Longrightarrow> m_offsetDelta c = m_offsetDelta d
    \<Longrightarrow> fst (note_access a len c) = fst (note_access a len' d)"
  by (simp add: note_access_def Let_def)

lemma access_write_layered:
  assumes "layered c"
  shows "layered (access_write_physical E a data c)"
    and "c_dobMode (access_write_physical E a data c) = c_dobMode c"
    and "m_offsetDelta (access_write_physical E a data c) = m_offsetDelta c"
    and "m_vmem (access_write_physical E a data c)
      = vmem_write E (m_vmem c) (fst (note_access a (of_nat (length data)) c)) data"
  using assms layered_note [of a "of_nat (length data)" c]
    note_access_keeps [of a "of_nat (length data)" c]
  by (simp_all add: access_write_physical_def Let_def case_prod_beta layered_def)

lemma read_after_write:
  assumes law: "layer_law E" and lay: "layered c" and len: "length buf = length data" "length data < 2 ^ 32"
  shows "fst (access_read_physical E a buf (access_write_physical E a data c)) = data"
proof -
  let ?c = "access_write_physical E a data c"
  note w = access_write_layered [OF lay, of E a data]
  have addr: "fst (note_access a (of_nat (length buf)) ?c)
      = fst (note_access a (of_nat (length data)) c)"
    by (rule note_access_addr [OF w(2,3)])
  have "vmem_read E (m_vmem ?c) (fst (note_access a (of_nat (length buf)) ?c)) buf
      = (int (length data), data)"
    unfolding addr w(4) using law len by (simp add: layer_law_def)
  then show ?thesis using w(1) len
    by (simp add: access_read_physical_def Let_def case_prod_beta layered_read_def)
qed

text \<open>In these modes neither the debuggee's memory nor the base class sees a write.\<close>

lemma access_write_base:
  assumes "layered c"
  shows "access_write_physical (E\<lparr>base_write := f\<rparr>) a data c = access_write_physical E a data c"
  using assms by (simp add: access_write_physical_def Let_def case_prod_beta)

section \<open>Jumps\<close>

text \<open>A made-up jump, decoded, goes to its target.\<close>

definition jmp_target :: "addr \<Rightarrow> byte list \<Rightarrow> addr" where
  "jmp_target a code = a + 5 + le_word (drop 1 code)"

lemma jmp_bytes_target: "jmp_target a (jmp_bytes a target @ rest) = target"
  using le_word_le_bytes [of "target - a - 5" rest]
  by (simp add: jmp_target_def jmp_bytes_def)

text \<open>
  Where a short conditional jump really goes: the displacement is a signed byte. The code reads it
  unsigned, so it is right exactly for jumps forward.
\<close>

definition short_target :: "addr \<Rightarrow> byte \<Rightarrow> addr" where
  "short_target rip d = rip + 2 + scast d"

lemma sint_byte: "sint (d :: byte) = (if uint d < 128 then uint d else uint d - 256)"
proof -
  have "sint d = (uint d + 128) mod 256 - 128"
    by (simp add: sint_uint signed_take_bit_eq_take_bit_shift take_bit_eq_mod)
  moreover have r: "0 \<le> uint d" "uint d < 256" using uint_bounded [of d] by simp_all
  moreover have "(uint d + 128) mod 256 = (if uint d < 128 then uint d + 128 else uint d - 128)"
  proof (cases "uint d < 128")
    case False
    have "uint d + 128 = (uint d - 128) + 256" by simp
    then have "(uint d + 128) mod 256 = (uint d - 128) mod 256" by (metis mod_add_self2)
    then show ?thesis using False r by (simp add: mod_pos_pos_trivial)
  qed (use r in \<open>simp add: mod_pos_pos_trivial\<close>)
  ultimately show ?thesis by simp
qed

lemma scast_ucast_byte: "(scast (d :: byte) :: 32 word) = ucast d \<longleftrightarrow> d < 0x80"
proof -
  have r: "0 \<le> uint d" "uint d < 256" using uint_bounded [of d] by simp_all
  have "(scast d :: 32 word) = ucast d \<longleftrightarrow> (word_of_int (sint d) :: 32 word) = word_of_int (uint d)"
    by (simp only: scast_eq ucast_eq)
  also have "\<dots> \<longleftrightarrow> sint d mod 2 ^ 32 = uint d mod 2 ^ 32"
    unfolding word_of_int_eq_iff take_bit_eq_mod by simp
  also have "\<dots> \<longleftrightarrow> uint d < 128"
  proof (cases "uint d < 128")
    case False
    have "(uint d - 256) mod 2 ^ 32 = ((uint d - 256) + 2 ^ 32) mod 2 ^ 32" by (rule mod_add_self2 [symmetric])
    also have "\<dots> = (uint d - 256) + 2 ^ 32" using r False by (intro mod_pos_pos_trivial) simp_all
    finally show ?thesis using False r by (simp add: sint_byte)
  qed (simp add: sint_byte)
  also have "\<dots> \<longleftrightarrow> d < 0x80" by (simp add: word_less_def)
  finally show ?thesis .
qed

lemma jcc_short_target:
  assumes "0x70 \<le> op" "op \<le> 0x7F"
  shows "jcc_targets (op # d # rest) rip = Some (rip + 2, short_target rip d) \<longleftrightarrow> d < 0x80"
  using assms scast_ucast_byte [of d]
  by (auto simp: jcc_targets_def short_target_def add.assoc)

end
