(* ===== verification/PatternEngine.thy ===== *)
theory PatternEngine
  imports PatternSeq
begin

text \<open>
  The engine around the patterns (\<open>class patternAsm\<close>): the keyed list of compiled patterns, the
  doubly linked list of those still in play, \<open>initForTest\<close>, which builds that list, and
  \<open>testInstruction\<close>, which feeds it one instruction and unlinks the patterns that failed.
  A \<open>patternSequence*\<close> is a position in the list of patterns.
\<close>

section \<open>State\<close>

record patternEngine =
  pe_patterns :: "(int \<times> patternSequence) list"
  pe_seqList :: "nat option"

definition seq_at :: "patternEngine \<Rightarrow> nat \<Rightarrow> patternSequence" where
  "seq_at eng i = snd (pe_patterns eng ! i)"

definition upd_seq ::
  "patternEngine \<Rightarrow> nat \<Rightarrow> (patternSequence \<Rightarrow> patternSequence) \<Rightarrow> patternEngine" where
  "upd_seq eng i f =
     eng\<lparr>pe_patterns := (pe_patterns eng)[i := (fst (pe_patterns eng ! i), f (seq_at eng i))]\<rparr>"

definition clearPatterns :: "patternEngine \<Rightarrow> patternEngine" where
  "clearPatterns eng = eng\<lparr>pe_patterns := [], pe_seqList := None\<rparr>"

definition getPattern :: "patternEngine \<Rightarrow> int \<Rightarrow> patternSequence option" where
  "getPattern eng pid = map_of (pe_patterns eng) pid"

section \<open>Starting a match\<close>

text \<open>
  One turn of the first loop of \<open>initForTest\<close>: a pattern that is switched on and of the wanted mode
  is linked in behind the last one and its run-time part is reset.
\<close>

definition wanted :: "bool \<Rightarrow> patternSequence \<Rightarrow> bool" where
  "wanted breverse seq \<longleftrightarrow> \<not> has (ps_flags seq) PATTERN_SEQ_FLAG_OFF
     \<and> ps_mode seq = (if breverse then mode_reverse else mode_sequence)"

definition start_seq :: "nat option \<Rightarrow> patternSequence \<Rightarrow> patternSequence" where
  "start_seq lastSeq s =
     s\<lparr>ps_prev := lastSeq, ps_next := None,
       ps_crt := (ps_crt s)\<lparr>crt_count := 0, crt_vars := Map.empty, crt_opvars := ps_dyops s,
                            crt_inst := (if ps_insts s = [] then None else Some 0)\<rparr>\<rparr>"

definition selectPattern ::
  "bool \<Rightarrow> nat \<Rightarrow> patternEngine \<times> nat option \<times> int \<Rightarrow> patternEngine \<times> nat option \<times> int" where
  "selectPattern breverse i st =
     (case st of (eng, lastSeq, nc) \<Rightarrow>
        if wanted breverse (seq_at eng i) then
          (let eng1 = (if pe_seqList eng = None then eng\<lparr>pe_seqList := Some i\<rparr> else eng);
               eng2 = (case lastSeq of None \<Rightarrow> eng1
                       | Some l \<Rightarrow> upd_seq eng1 l (\<lambda>s. s\<lparr>ps_next := Some i\<rparr>))
           in (upd_seq eng2 i (start_seq lastSeq), Some i, nc + 1))
        else (eng, lastSeq, nc))"

definition reset_stmt :: "patternInst \<Rightarrow> patternInst" where
  "reset_stmt pi = pi\<lparr>pi_matched_count := 0, pi_userdata := None\<rparr>"

definition reset_counters :: "patternSequence \<Rightarrow> patternSequence" where
  "reset_counters s = s\<lparr>ps_insts := map reset_stmt (ps_insts s)\<rparr>"

text \<open>The second loop follows the links; \<open>None\<close> would be a walk that does not end.\<close>

partial_function (option) resetFrom :: "nat option \<Rightarrow> patternEngine \<Rightarrow> patternEngine option" where
  "resetFrom p eng =
     (case p of None \<Rightarrow> Some eng
      | Some i \<Rightarrow>
          (let eng' = upd_seq eng i reset_counters
           in resetFrom (ps_next (seq_at eng' i)) eng'))"

declare resetFrom.simps [code]

definition initForTest :: "bool \<Rightarrow> patternEngine \<Rightarrow> (int, patternEngine) outcome" where
  "initForTest breverse eng =
     (let (eng1, _, nc) = fold (selectPattern breverse) [0..<length (pe_patterns eng)]
            (eng\<lparr>pe_seqList := None\<rparr>, None, 0)
      in case resetFrom (pe_seqList eng1) eng1 of
           None \<Rightarrow> Inl Diverges
         | Some eng2 \<Rightarrow> Inr (nc, eng2))"

section \<open>Feeding an instruction\<close>

text \<open>
  Taking a failed pattern out of the list; the flag says that the loop is left by \<open>break\<close>, which
  happens when it was the only one.
\<close>

definition set_next :: "nat option \<Rightarrow> patternSequence \<Rightarrow> patternSequence" where
  "set_next n s = s\<lparr>ps_next := n\<rparr>"

definition set_prev :: "nat option \<Rightarrow> patternSequence \<Rightarrow> patternSequence" where
  "set_prev p s = s\<lparr>ps_prev := p\<rparr>"

definition unlink :: "nat \<Rightarrow> patternEngine \<Rightarrow> bool \<times> patternEngine" where
  "unlink i eng =
     (let p = ps_prev (seq_at eng i); n = ps_next (seq_at eng i);
          eng1 = (if pe_seqList eng = Some i then eng\<lparr>pe_seqList := n\<rparr> else eng)
      in if p = None \<and> n = None then (True, eng1\<lparr>pe_seqList := None\<rparr>)
         else (let eng2 = (case p of None \<Rightarrow> eng1 | Some j \<Rightarrow> upd_seq eng1 j (set_next n));
                   eng3 = (case n of None \<Rightarrow> eng2 | Some j \<Rightarrow> upd_seq eng2 j (set_prev p))
               in (False, eng3)))"

text \<open>
  The loop of \<open>testInstruction\<close>: the position of the pattern that matched, if one did.
\<close>

partial_function (option) testWalk ::
  "x86_env \<Rightarrow> x86inst \<Rightarrow> bool \<Rightarrow> bool \<Rightarrow> nat option \<Rightarrow> nat option \<Rightarrow> patternEngine
    \<Rightarrow> (nat option, patternEngine) outcome option" where
  "testWalk E ins esp efl ud p eng =
     (case p of None \<Rightarrow> Some (Inr (None, eng))
      | Some i \<Rightarrow>
          (case testForSequence E (seq_at eng i) ins esp efl ud of
             Inl f \<Rightarrow> Some (Inl f)
           | Inr (state, s) \<Rightarrow>
               if state < 0 then
                 (let (brk, eng1) = unlink i (upd_seq eng i (\<lambda>_. reset_counters s))
                  in if brk then Some (Inr (None, eng1))
                     else testWalk E ins esp efl ud (ps_next (seq_at eng1 i)) eng1)
               else if state = 1 then Some (Inr (Some i, upd_seq eng i (\<lambda>_. s)))
               else (let eng1 = upd_seq eng i (\<lambda>_. s)
                     in testWalk E ins esp efl ud (ps_next (seq_at eng1 i)) eng1)))"

declare testWalk.simps [code]

definition testInstruction ::
  "x86_env \<Rightarrow> patternEngine \<Rightarrow> byte list \<Rightarrow> 32 word \<Rightarrow> bool \<Rightarrow> bool \<Rightarrow> nat option
    \<Rightarrow> (int \<times> nat option, patternEngine) outcome" where
  "testInstruction E eng lpop pc esp efl ud =
     (case testWalk E (disasm E lpop pc) esp efl ud (pe_seqList eng) eng of
        None \<Rightarrow> Inl Diverges
      | Some m \<Rightarrow> bindS m (\<lambda>r eng1.
          case r of Some i \<Rightarrow> Inr ((1, Some i), eng1)
          | None \<Rightarrow> Inr ((if pe_seqList eng1 \<noteq> None then 0 else -1, None), eng1)))"

section \<open>The linked list and the list it stands for\<close>

definition hd_opt :: "'a list \<Rightarrow> 'a option" where
  "hd_opt xs = (case xs of [] \<Rightarrow> None | x # _ \<Rightarrow> Some x)"

definition last_opt :: "'a list \<Rightarrow> 'a option" where
  "last_opt xs = (if xs = [] then None else Some (last xs))"

lemma hd_opt_simps [simp]: "hd_opt [] = None" "hd_opt (x # xs) = Some x"
  by (simp_all add: hd_opt_def)

lemma hd_opt_None_iff [simp]: "hd_opt xs = None \<longleftrightarrow> xs = []"
  by (cases xs) simp_all

lemma last_opt_simps [simp]: "last_opt [] = None" "last_opt (xs @ [x]) = Some x"
  by (simp_all add: last_opt_def)

lemma hd_opt_append: "hd_opt (xs @ ys) = (if xs = [] then hd_opt ys else Some (hd xs))"
  by (cases xs) simp_all

lemma last_opt_append: "last_opt (xs @ ys) = (if ys = [] then last_opt xs else Some (last ys))"
  by (simp add: last_opt_def)

lemma last_opt_Cons: "last_opt (x # xs) = Some (last (x # xs))"
  by (simp add: last_opt_def)

lemma last_opt_None_iff [simp]: "last_opt xs = None \<longleftrightarrow> xs = []"
  by (simp add: last_opt_def)

text \<open>
  \<open>linked eng L\<close>: the list that starts at \<open>m_seqList\<close> holds exactly the positions \<open>L\<close>, each once,
  and every \<open>prev\<close> and \<open>next\<close> is that of its neighbour.
\<close>

definition linked :: "patternEngine \<Rightarrow> nat list \<Rightarrow> bool" where
  "linked eng L \<longleftrightarrow> pe_seqList eng = hd_opt L \<and> distinct L
     \<and> (\<forall>K i M. L = K @ i # M \<longrightarrow>
          i < length (pe_patterns eng)
          \<and> ps_prev (seq_at eng i) = last_opt K \<and> ps_next (seq_at eng i) = hd_opt M)"

lemma seq_at_upd_seq:
  "i < length (pe_patterns eng) \<Longrightarrow>
    seq_at (upd_seq eng i f) j = (if j = i then f (seq_at eng i) else seq_at eng j)"
  by (simp add: seq_at_def upd_seq_def nth_list_update)

lemma upd_seq_simps [simp]:
  "pe_seqList (upd_seq eng i f) = pe_seqList eng"
  "length (pe_patterns (upd_seq eng i f)) = length (pe_patterns eng)"
  by (simp_all add: upd_seq_def)

lemma seq_at_seqList [simp]: "seq_at (eng\<lparr>pe_seqList := p\<rparr>) i = seq_at eng i"
  by (simp add: seq_at_def)


lemma linked_split:
  assumes "linked eng (K @ i # M)"
  shows "i < length (pe_patterns eng)" "ps_prev (seq_at eng i) = last_opt K"
    "ps_next (seq_at eng i) = hd_opt M"
  using assms by (auto simp: linked_def)

lemma linked_head: "linked eng L \<Longrightarrow> pe_seqList eng = hd_opt L"
  by (simp add: linked_def)

lemma linked_bound: "linked eng L \<Longrightarrow> i \<in> set L \<Longrightarrow> i < length (pe_patterns eng)"
  by (metis linked_split(1) split_list)

text \<open>What the members are after an element left.\<close>

lemma seq_at_unlink:
  assumes l: "linked eng (K @ i # M)"
  shows "seq_at (snd (unlink i eng)) j =
    (if last_opt K = Some j then set_next (hd_opt M)
     else if hd_opt M = Some j then set_prev (last_opt K) else id) (seq_at eng j)"
proof -
  note here = linked_split(2,3) [OF l]
  have p: "k < length (pe_patterns eng)" if "last_opt K = Some k" for k
    using that linked_bound [OF l, of k] by (cases K rule: rev_cases) auto
  have n: "k < length (pe_patterns eng)" if "hd_opt M = Some k" for k
    using that linked_bound [OF l, of k] by (cases M) auto
  have "last_opt K = Some k \<Longrightarrow> hd_opt M \<noteq> Some k" for k
    using l by (cases K rule: rev_cases; cases M) (auto simp: linked_def)
  then show ?thesis
    using p n by (cases "last_opt K"; cases "hd_opt M")
      (auto simp: unlink_def Let_def here seq_at_upd_seq seq_at_def [of "_\<lparr>pe_seqList := _\<rparr>"])
qed

lemma unlink_frame:
  "length (pe_patterns (snd (unlink i eng))) = length (pe_patterns eng)"
  by (simp add: unlink_def Let_def split: option.split)

lemma unlink_flag:
  "linked eng (K @ i # M) \<Longrightarrow> fst (unlink i eng) \<longleftrightarrow> K @ M = []"
  by (simp add: unlink_def Let_def linked_split(2,3))

lemma unlink_linked:
  assumes l: "linked eng (K @ i # M)"
  shows "linked (snd (unlink i eng)) (K @ M)"
  unfolding linked_def
proof (intro conjI allI impI)
  have "pe_seqList eng = hd_opt (K @ i # M)" using l by (rule linked_head)
  then show "pe_seqList (snd (unlink i eng)) = hd_opt (K @ M)"
    using l by (cases K) (auto simp: unlink_def Let_def linked_split(2,3) [OF l] linked_def
        split: option.split)
  show "distinct (K @ M)" using l by (auto simp: linked_def)
next
  have d: "distinct (K @ i # M)" using l by (simp add: linked_def)
  fix K' j M'
  assume "K @ M = K' @ j # M'"
  then consider Ks where "K = K' @ j # Ks" "M' = Ks @ M" | Ms where "M = Ms @ j # M'" "K' = K @ Ms"
    by (auto simp: append_eq_append_conv2 append_eq_Cons_conv Cons_eq_append_conv)
  then have "j < length (pe_patterns eng) \<and> ps_prev (seq_at (snd (unlink i eng)) j) = last_opt K'
      \<and> ps_next (seq_at (snd (unlink i eng)) j) = hd_opt M'"
  proof cases
    case 1
    have orig: "linked eng (K' @ j # Ks @ i # M)" using l 1 by simp
    have "hd_opt M \<noteq> Some j" using d 1 by (cases M) auto
    then show ?thesis using 1 d linked_split [OF orig]
      by (cases Ks rule: rev_cases)
        (auto simp: seq_at_unlink [OF l] set_next_def hd_opt_append last_opt_append hd_append)
  next
    case 2
    have orig: "linked eng ((K @ i # Ms) @ j # M')" using l 2 by simp
    have "last_opt K \<noteq> Some j" using d 2 by (cases K rule: rev_cases) auto
    then show ?thesis using 2 d linked_split [OF orig]
      by (cases Ms) (auto simp: seq_at_unlink [OF l] set_prev_def last_opt_append)
  qed
  then show "j < length (pe_patterns (snd (unlink i eng)))"
    "ps_prev (seq_at (snd (unlink i eng)) j) = last_opt K'"
    "ps_next (seq_at (snd (unlink i eng)) j) = hd_opt M'"
    by (simp_all add: unlink_frame)
qed

lemma unlink_next:
  assumes l: "linked eng (K @ i # M)"
  shows "ps_next (seq_at (snd (unlink i eng)) i) = hd_opt M"
proof -
  have "last_opt K \<noteq> Some i" "hd_opt M \<noteq> Some i"
    using l by (cases K rule: rev_cases; cases M; auto simp: linked_def)+
  then show ?thesis using linked_split(3) [OF l] by (simp add: seq_at_unlink [OF l])
qed

text \<open>Writing the content of a member leaves the list as it is.\<close>

lemma linked_upd_seq:
  assumes "linked eng L" "\<And>s. ps_prev (f s) = ps_prev s" "\<And>s. ps_next (f s) = ps_next s"
  shows "linked (upd_seq eng i f) L"
proof (cases "i < length (pe_patterns eng)")
  case True
  then show ?thesis using assms by (auto simp: linked_def seq_at_upd_seq)
next
  case False
  then have "upd_seq eng i f = eng" by (simp add: upd_seq_def list_update_beyond)
  then show ?thesis using assms by simp
qed


section \<open>A step does not look at the links\<close>

definition relink :: "nat option \<Rightarrow> nat option \<Rightarrow> patternSequence \<Rightarrow> patternSequence" where
  "relink p n s = s\<lparr>ps_prev := p, ps_next := n\<rparr>"

definition map_out :: "('s \<Rightarrow> 's) \<Rightarrow> ('a, 's) outcome \<Rightarrow> ('a, 's) outcome" where
  "map_out f m = bindS m (\<lambda>a s. Inr (a, f s))"

lemma map_out_simps [simp]:
  "map_out f (Inl e) = Inl e"
  "map_out f (Inr (a, s)) = Inr (a, f s)"
  by (simp_all add: map_out_def)

lemma map_out_bindS [simp]: "map_out f (bindS m g) = bindS m (\<lambda>a s. map_out f (g a s))"
  by (simp add: map_out_def bindS_assoc)

lemma bindS_map_out [simp]: "bindS (map_out f m) h = bindS m (\<lambda>a s. h a (f s))"
  by (simp add: map_out_def bindS_assoc)

lemma map_out_if [simp]:
  "map_out f (if b then m else m') = (if b then map_out f m else map_out f m')"
  by simp

lemma map_out_option [simp]:
  "map_out f (case x of None \<Rightarrow> m | Some y \<Rightarrow> g y)
    = (case x of None \<Rightarrow> map_out f m | Some y \<Rightarrow> map_out f (g y))"
  by (simp split: option.split)

lemma relink_simps [simp]:
  "ps_insts (relink p n s) = ps_insts s"
  "ps_crt (relink p n s) = ps_crt s"
  "ps_maximumInst (relink p n s) = ps_maximumInst s"
  "next_inst (relink p n s) i = next_inst s i"
  "ps_prev (relink p n s) = p"
  "ps_next (relink p n s) = n"
  "relink p n (relink p' n' s) = relink p n s"
  by (simp_all add: relink_def next_inst_def)

lemma relink_id: "relink (ps_prev s) (ps_next s) s = s"
  by (simp add: relink_def)

lemma relink_crt: "(relink p n s)\<lparr>ps_crt := c\<rparr> = relink p n (s\<lparr>ps_crt := c\<rparr>)"
  by (cases s) (simp add: relink_def)

lemma relink_push:
  "upd_crt (relink p n s) f = relink p n (upd_crt s f)"
  "upd_inst (relink p n s) i g = relink p n (upd_inst s i g)"
  "(relink p n s)\<lparr>ps_crt := c\<rparr> = relink p n (s\<lparr>ps_crt := c\<rparr>)"
  "on_crt (relink p n s) m = map_out (relink p n) (on_crt s m)"
  "reset_counters (relink p n s) = relink p n (reset_counters s)"
  by (simp_all add: relink_crt upd_crt_def on_crt_def map_out_def bindS_assoc)
    (simp_all add: relink_def upd_inst_def reset_counters_def)

lemma relink_isMatchInst:
  "isMatchInst E (relink p n s) i ins esp efl
    = map_out (relink p n) (isMatchInst E s i ins esp efl)"
  unfolding isMatchInst_def Let_def
  by (simp add: relink_push cong: if_cong)

lemma relink_matched_step:
  "matched_step E (relink p n s) i ins esp efl ud
    = map_out (relink p n) (matched_step E s i ins esp efl ud)"
  unfolding matched_step_def Let_def
  by (simp add: relink_push relink_isMatchInst cong: if_cong split: option.split)

lemma relink_testForInstruction:
  "testForInstruction E (relink p n s) i ins esp efl ud
    = map_out (relink p n) (testForInstruction E s i ins esp efl ud)"
  unfolding testForInstruction_def Let_def relink_isMatchInst map_out_bindS bindS_map_out
  by (rule bindS_cong [OF refl])
    (simp add: relink_push relink_isMatchInst relink_matched_step cong: if_cong split: option.split)

lemma relink_testLoop:
  "testLoop E ins esp efl ud psed q (relink p n s)
    = map_out (relink p n) (testLoop E ins esp efl ud psed q s)"
proof (induction E ins esp efl ud psed q s rule: testLoop.induct)
  case (2 E ins esp efl ud psed i s)
  note unroll = testLoop.simps(2) [of E ins esp efl ud psed i s]
    testLoop.simps(2) [of E ins esp efl ud psed i "relink p n s"]
  show ?case
    by (simp add: unroll relink_testForInstruction relink_push Let_def "2.IH"
        cong: if_cong bindS_cong option.case_cong)
qed (simp add: testLoop.simps)

lemma relink_testForSequence:
  "testForSequence E (relink p n s) ins esp efl ud
    = map_out (relink p n) (testForSequence E s ins esp efl ud)"
  by (simp add: testForSequence_def Let_def relink_push relink_testLoop)

text \<open>So a step keeps the links, and its code does not depend on them.\<close>

lemma testForSequence_links:
  assumes "testForSequence E s ins esp efl ud = Inr (st, s')"
  shows "ps_prev s' = ps_prev s" "ps_next s' = ps_next s"
proof -
  have "map_out (relink (ps_prev s) (ps_next s)) (testForSequence E s ins esp efl ud) = Inr (st, s')"
    using relink_testForSequence [of E "ps_prev s" "ps_next s" s ins esp efl ud] assms
    by (simp add: relink_id)
  then have "s' = relink (ps_prev s) (ps_next s) s'" using assms by simp
  then show "ps_prev s' = ps_prev s" "ps_next s' = ps_next s" by (metis relink_simps(5,6))+
qed


section \<open>The interface of the list of patterns in play\<close>

text \<open>
  What \<open>testInstruction\<close> relies on while it walks the list and takes elements out of it: the first
  element, the one after an element, the removal of an element, after which the walk goes on from
  the removed one.
\<close>

locale active_list =
  fixes rep :: "'e \<Rightarrow> nat list \<Rightarrow> bool"
    and head :: "'e \<Rightarrow> nat option"
    and succ :: "'e \<Rightarrow> nat \<Rightarrow> nat option"
    and take_out :: "nat \<Rightarrow> 'e \<Rightarrow> bool \<times> 'e"
  assumes rep_head: "rep e L \<Longrightarrow> head e = hd_opt L"
    and rep_succ: "rep e (K @ i # M) \<Longrightarrow> succ e i = hd_opt M"
    and rep_take_out: "rep e (K @ i # M) \<Longrightarrow> rep (snd (take_out i e)) (K @ M)"
    and take_out_flag: "rep e (K @ i # M) \<Longrightarrow> fst (take_out i e) \<longleftrightarrow> K @ M = []"
    and take_out_succ: "rep e (K @ i # M) \<Longrightarrow> succ (snd (take_out i e)) i = hd_opt M"
begin

lemma take_out_last: "rep e (K @ i # M) \<Longrightarrow> fst (take_out i e) \<Longrightarrow> K = [] \<and> M = []"
  by (simp add: take_out_flag)

lemma take_out_head: "rep e (K @ i # M) \<Longrightarrow> head (snd (take_out i e)) = hd_opt (K @ M)"
  by (rule rep_head [OF rep_take_out])

lemma take_out_empty: "rep e (K @ i # M) \<Longrightarrow> fst (take_out i e) \<longleftrightarrow> head (snd (take_out i e)) = None"
  by (simp add: take_out_head take_out_flag)

text \<open>Taking out all of a run of elements leaves what is around it.\<close>

lemma take_out_all:
  "rep e (K @ L @ M) \<Longrightarrow> rep (fold (\<lambda>i e. snd (take_out i e)) L e) (K @ M)"
proof (induction L arbitrary: e)
  case (Cons i L)
  have "rep (snd (take_out i e)) (K @ L @ M)" using Cons.prems rep_take_out [of e K i "L @ M"] by simp
  from Cons.IH [OF this] show ?case by simp
qed simp

end

interpretation al: active_list linked pe_seqList "\<lambda>eng i. ps_next (seq_at eng i)" unlink
  by unfold_locales
    (auto simp: linked_head linked_split(3) unlink_linked unlink_flag unlink_next)

section \<open>The walk over the list\<close>

text \<open>
  The specification: the list in play and the patterns are plain lists, and a walk tests every
  pattern in turn, drops those that fail, and stops at the first that is complete.
\<close>

fun spec_walk ::
  "x86_env \<Rightarrow> x86inst \<Rightarrow> bool \<Rightarrow> bool \<Rightarrow> nat option \<Rightarrow> nat list \<Rightarrow> patternSequence list
    \<Rightarrow> (nat option \<times> nat list, patternSequence list) outcome" where
  "spec_walk E ins esp efl ud [] c = Inr ((None, []), c)"
| "spec_walk E ins esp efl ud (i # M) c =
     bindS (testForSequence E (c ! i) ins esp efl ud) (\<lambda>st s.
       if st < 0 then spec_walk E ins esp efl ud M (c[i := reset_counters s])
       else if st = 1 then Inr ((Some i, i # M), c[i := s])
       else bindS (spec_walk E ins esp efl ud M (c[i := s])) (\<lambda>r c'.
              Inr ((fst r, i # snd r), c')))"

text \<open>The patterns without their links.\<close>

definition contents :: "patternEngine \<Rightarrow> patternSequence list" where
  "contents eng = map (\<lambda>e. relink None None (snd e)) (pe_patterns eng)"

lemma contents_length [simp]: "length (contents eng) = length (pe_patterns eng)"
  by (simp add: contents_def)

lemma contents_nth: "i < length (pe_patterns eng) \<Longrightarrow> contents eng ! i = relink None None (seq_at eng i)"
  by (simp add: contents_def seq_at_def)

lemma contents_upd_seq:
  "contents (upd_seq eng i f) = (contents eng)[i := relink None None (f (seq_at eng i))]"
  by (simp add: contents_def upd_seq_def map_update)

lemma contents_unlink:
  assumes "linked eng (K @ i # M)"
  shows "contents (snd (unlink i eng)) = contents eng"
proof (rule nth_equalityI)
  fix j assume "j < length (contents (snd (unlink i eng)))"
  then have "j < length (pe_patterns eng)" by (simp add: unlink_frame)
  then show "contents (snd (unlink i eng)) ! j = contents eng ! j"
    by (simp add: contents_nth unlink_frame seq_at_unlink [OF assms] relink_def set_next_def
        set_prev_def)
qed (simp add: unlink_frame)

text \<open>A result of the walk and one of the specification that say the same.\<close>

definition walk_agrees ::
  "nat list \<Rightarrow> (nat option, patternEngine) outcome
    \<Rightarrow> (nat option \<times> nat list, patternSequence list) outcome \<Rightarrow> bool" where
  "walk_agrees K m a =
     (case m of Inl f \<Rightarrow> a = Inl f
      | Inr (r, eng) \<Rightarrow> \<exists>L. a = Inr ((r, L), contents eng) \<and> linked eng (K @ L))"

lemma testForSequence_contents:
  assumes "i < length (pe_patterns eng)"
  shows "testForSequence E (contents eng ! i) ins esp efl ud
    = map_out (relink None None) (testForSequence E (seq_at eng i) ins esp efl ud)"
  by (simp add: contents_nth assms relink_testForSequence)

lemma testWalk_refines:
  assumes "linked eng (K @ M)"
  shows "\<exists>m. testWalk E ins esp efl ud (hd_opt M) eng = Some m
    \<and> walk_agrees K m (spec_walk E ins esp efl ud M (contents eng))"
  using assms
proof (induction M arbitrary: K eng)
  case Nil
  then show ?case by (simp add: testWalk.simps walk_agrees_def)
next
  case (Cons i M)
  have i: "i < length (pe_patterns eng)" using Cons.prems by (rule linked_split(1))
  show ?case
  proof (cases "testForSequence E (seq_at eng i) ins esp efl ud")
    case (Inl f)
    then show ?thesis
      by (simp add: testWalk.simps [of _ _ _ _ _ "Some i"] testForSequence_contents i walk_agrees_def)
  next
    case (Inr r)
    obtain st s where r: "r = (st, s)" by (cases r)
    note links = testForSequence_links [OF Inr [unfolded r]]
    note unroll = testWalk.simps [of _ _ _ _ _ "Some i"]
    define put where "put = (\<lambda>s'. upd_seq eng i (\<lambda>_. s'))"
    have put_linked: "linked (put s') (K @ i # M)"
      if "ps_prev s' = ps_prev s" "ps_next s' = ps_next s" for s'
    proof -
      have "put s' = upd_seq eng i (\<lambda>t. relink (ps_prev t) (ps_next t) s')"
        using that links relink_id [of s'] by (simp add: put_def upd_seq_def)
      then show ?thesis using Cons.prems by (simp add: linked_upd_seq)
    qed
    have put_contents: "contents (put s') = (contents eng)[i := relink None None s']" for s'
      by (simp add: put_def contents_upd_seq)
    consider "st < 0" | "st = 1" | "\<not> st < 0" "st \<noteq> 1" by blast
    then show ?thesis
    proof cases
      case 1
      let ?e = "put (reset_counters s)"
      have l: "linked ?e (K @ i # M)" by (rule put_linked) (simp_all add: reset_counters_def)
      let ?e' = "snd (unlink i ?e)"
      have c: "contents ?e' = (contents eng)[i := relink None None (reset_counters s)]"
        by (simp add: contents_unlink [OF l] put_contents)
      show ?thesis
      proof (cases "fst (unlink i ?e)")
        case True
        then have "K = []" "M = []" using al.take_out_last [OF l] by simp_all
        moreover have "linked ?e' []" using al.rep_take_out [OF l] calculation by simp
        ultimately show ?thesis using 1 True Inr r c
          by (simp add: unroll testForSequence_contents i walk_agrees_def relink_push
              case_prod_beta put_def)
      next
        case False
        then show ?thesis
          using 1 Inr r c Cons.IH [OF al.rep_take_out [OF l]] al.take_out_succ [OF l]
          by (simp add: unroll testForSequence_contents i relink_push put_def case_prod_beta)
      qed
    next
      case 2
      then show ?thesis using Inr r put_linked [of s] put_contents [of s]
        by (simp add: unroll testForSequence_contents i walk_agrees_def put_def)
    next
      case 3
      have l: "linked (put s) ((K @ [i]) @ M)" using put_linked [of s] by simp
      obtain m where m: "testWalk E ins esp efl ud (hd_opt M) (put s) = Some m"
        "walk_agrees (K @ [i]) m (spec_walk E ins esp efl ud M (contents (put s)))"
        using Cons.IH [OF l] by blast
      have "testWalk E ins esp efl ud (Some i) eng = Some m"
        using 3 Inr r m(1) al.rep_succ [OF put_linked [OF refl refl]]
        by (simp add: unroll put_def Let_def)
      moreover have "walk_agrees K m (spec_walk E ins esp efl ud (i # M) (contents eng))"
        using 3 Inr r m(2) put_contents [of s]
        by (auto simp: testForSequence_contents i walk_agrees_def split: sum.splits)
      ultimately show ?thesis by simp
    qed
  qed
qed


section \<open>Starting a match builds the list\<close>

lemma linked_append:
  assumes l: "linked eng L" and i: "i < length (pe_patterns eng)" "i \<notin> set L"
    and f: "ps_prev (f (seq_at eng i)) = last_opt L" "ps_next (f (seq_at eng i)) = None"
  defines "eng1 \<equiv> (if pe_seqList eng = None then eng\<lparr>pe_seqList := Some i\<rparr> else eng)"
  defines "eng2 \<equiv> (case last_opt L of None \<Rightarrow> eng1
                   | Some k \<Rightarrow> upd_seq eng1 k (\<lambda>s. s\<lparr>ps_next := Some i\<rparr>))"
  shows "linked (upd_seq eng2 i f) (L @ [i])"
    and "seq_at (upd_seq eng2 i f) j =
      (if j = i then f (seq_at eng i)
       else if last_opt L = Some j then set_next (Some i) (seq_at eng j) else seq_at eng j)"
proof -
  have head: "pe_seqList eng = hd_opt L" using l by (rule linked_head)
  have last: "k \<in> set L" "k < length (pe_patterns eng)" "k \<noteq> i" if "last_opt L = Some k" for k
    using that linked_bound [OF l, of k] i(2) by (cases L rule: rev_cases; auto)+
  have len: "length (pe_patterns eng2) = length (pe_patterns eng)"
    by (simp add: eng2_def eng1_def split: option.split)
  have at1: "seq_at eng1 k = seq_at eng k" for k by (simp add: eng1_def)
  have at2: "seq_at eng2 k = (if last_opt L = Some k then set_next (Some i) (seq_at eng k)
      else seq_at eng k)" for k
    using last by (auto simp: eng2_def seq_at_upd_seq at1 eng1_def set_next_def split: option.split)
  have ne: "last_opt L \<noteq> Some i" using last(3) by blast
  show at: "seq_at (upd_seq eng2 i f) j = (if j = i then f (seq_at eng i)
      else if last_opt L = Some j then set_next (Some i) (seq_at eng j) else seq_at eng j)" for j
    using ne i(1) by (simp add: seq_at_upd_seq len at2)
  have "pe_seqList (upd_seq eng2 i f) = hd_opt (L @ [i])"
    using head by (cases L) (auto simp: eng2_def eng1_def split: option.split)
  moreover have "distinct (L @ [i])" using l i(2) by (simp add: linked_def)
  moreover have "j < length (pe_patterns eng)
      \<and> ps_prev (seq_at (upd_seq eng2 i f) j) = last_opt K
      \<and> ps_next (seq_at (upd_seq eng2 i f) j) = hd_opt M"
    if split: "L @ [i] = K @ j # M" for K j M
  proof (cases M rule: rev_cases)
    case Nil
    then have "j = i" "K = L" using split by simp_all
    with Nil show ?thesis using i(1) f at [of i] by simp
  next
    case (snoc M' x)
    then have L: "L = K @ j # M'" and x: "x = i" using split by simp_all
    have "linked eng (K @ j # M')" using l L by simp
    note here = linked_split [OF this]
    have d: "distinct L" using l by (simp add: linked_def)
    have "j \<noteq> i" using i(2) L by auto
    with here d show ?thesis
      by (cases M' rule: rev_cases)
        (auto simp: at snoc x L set_next_def hd_opt_append last_opt_append hd_append last_opt_Cons)
  qed
  ultimately show "linked (upd_seq eng2 i f) (L @ [i])" by (simp add: linked_def len)
qed

text \<open>What the first loop has done after the patterns before position \<open>k\<close>.\<close>

definition started :: "nat option \<Rightarrow> patternSequence \<Rightarrow> patternSequence \<Rightarrow> bool" where
  "started p s t \<longleftrightarrow> (\<exists>n. t = set_next n (start_seq p s))"

lemma started_next: "started p s t \<Longrightarrow> started p s (set_next n t)"
  by (auto simp: started_def set_next_def intro!: exI [of _ n])

definition selected :: "bool \<Rightarrow> patternEngine \<Rightarrow> nat \<Rightarrow> nat list" where
  "selected b eng k = filter (\<lambda>i. wanted b (seq_at eng i)) [0..<k]"

lemma selectPattern_loop:
  assumes "k \<le> length (pe_patterns eng0)"
  shows "\<exists>eng. fold (selectPattern b) [0..<k] (eng0\<lparr>pe_seqList := None\<rparr>, None, 0)
      = (eng, last_opt (selected b eng0 k), int (length (selected b eng0 k)))
    \<and> linked eng (selected b eng0 k)
    \<and> length (pe_patterns eng) = length (pe_patterns eng0)
    \<and> (\<forall>i. if i \<in> set (selected b eng0 k) then \<exists>p. started p (seq_at eng0 i) (seq_at eng i)
           else seq_at eng i = seq_at eng0 i)"
  using assms
proof (induction k)
  case 0
  then show ?case by (simp add: selected_def linked_def)
next
  case (Suc k)
  let ?L = "selected b eng0 k"
  obtain eng where IH: "fold (selectPattern b) [0..<k] (eng0\<lparr>pe_seqList := None\<rparr>, None, 0)
      = (eng, last_opt ?L, int (length ?L))" "linked eng ?L"
      "length (pe_patterns eng) = length (pe_patterns eng0)"
      "\<And>i. if i \<in> set ?L then \<exists>p. started p (seq_at eng0 i) (seq_at eng i)
        else seq_at eng i = seq_at eng0 i"
    using Suc by auto
  have k: "k < length (pe_patterns eng)" "k \<notin> set ?L" using Suc.prems IH(3)
    by (simp_all add: selected_def)
  then have at_k: "seq_at eng k = seq_at eng0 k" using IH(4) [of k] by simp
  show ?case
  proof (cases "wanted b (seq_at eng0 k)")
    case False
    then have "selected b eng0 (Suc k) = ?L" by (simp add: selected_def)
    then show ?thesis using IH at_k False
      by (simp add: selectPattern_def [of b k])
  next
    case True
    then have L: "selected b eng0 (Suc k) = ?L @ [k]" by (simp add: selected_def)
    let ?f = "start_seq (last_opt ?L)"
    let ?e1 = "if pe_seqList eng = None then eng\<lparr>pe_seqList := Some k\<rparr> else eng"
    let ?e2 = "case last_opt ?L of None \<Rightarrow> ?e1 | Some j \<Rightarrow> upd_seq ?e1 j (\<lambda>s. s\<lparr>ps_next := Some k\<rparr>)"
    have fs: "ps_prev (?f (seq_at eng k)) = last_opt ?L" "ps_next (?f (seq_at eng k)) = None"
      by (simp_all add: start_seq_def)
    note link = linked_append [where f = ?f, OF IH(2) k fs]
    have "started (last_opt ?L) (seq_at eng0 k) (?f (seq_at eng k))"
      by (auto simp: started_def at_k start_seq_def set_next_def intro: exI [of _ None])
    moreover have "\<exists>p. started p (seq_at eng0 j) (set_next (Some k) (seq_at eng j))"
      if "j \<in> set ?L" for j
      using IH(4) [of j] that by (auto intro: started_next)
    moreover have "last_opt ?L = Some j \<Longrightarrow> j \<in> set ?L" for j
      by (cases ?L rule: rev_cases) auto
    ultimately show ?thesis
      using True IH(1,3) IH(4) link
      by (auto simp: L selectPattern_def [of b k] Let_def at_k split: option.split)
  qed
qed

lemma resetFrom_linked:
  assumes "linked eng (K @ M)"
  shows "resetFrom (hd_opt M) eng = Some (fold (\<lambda>i e. upd_seq e i reset_counters) M eng)"
  using assms
proof (induction M arbitrary: K eng)
  case Nil
  then show ?case by (simp add: resetFrom.simps)
next
  case (Cons i M)
  let ?e = "upd_seq eng i reset_counters"
  have l: "linked ?e (K @ i # M)"
    using Cons.prems by (simp add: linked_upd_seq reset_counters_def)
  then show ?case
    using Cons.IH [of "?e" "K @ [i]"] al.rep_succ [OF l]
    by (simp add: resetFrom.simps [of "Some i"])
qed

lemma fold_reset:
  assumes "distinct M" "\<And>i. i \<in> set M \<Longrightarrow> i < length (pe_patterns eng)"
  shows "seq_at (fold (\<lambda>i e. upd_seq e i reset_counters) M eng) j
      = (if j \<in> set M then reset_counters (seq_at eng j) else seq_at eng j)"
    and "linked eng L \<Longrightarrow> linked (fold (\<lambda>i e. upd_seq e i reset_counters) M eng) L"
  using assms
  by (induction M arbitrary: eng)
    (auto simp: seq_at_upd_seq linked_upd_seq reset_counters_def)

text \<open>A pattern at the start of a match: nothing counted, nothing bound, at its first statement.\<close>

definition fresh :: "patternSequence \<Rightarrow> patternSequence" where
  "fresh s = reset_counters (start_seq None s)"

lemma started_fresh: "started p s t \<Longrightarrow> relink None None (reset_counters t) = fresh s"
  by (auto simp: started_def fresh_def reset_counters_def start_seq_def set_next_def relink_def)

lemma initForTest_list:
  fixes b eng
  defines "L \<equiv> selected b eng (length (pe_patterns eng))"
  shows "\<exists>eng'. initForTest b eng = Inr (int (length L), eng') \<and> linked eng' L
    \<and> length (pe_patterns eng') = length (pe_patterns eng)
    \<and> (\<forall>i. if i \<in> set L then relink None None (seq_at eng' i) = fresh (seq_at eng i)
           else seq_at eng' i = seq_at eng i)"
proof -
  obtain eng1 where loop: "fold (selectPattern b) [0..<length (pe_patterns eng)]
        (eng\<lparr>pe_seqList := None\<rparr>, None, 0) = (eng1, last_opt L, int (length L))"
      "linked eng1 L" "length (pe_patterns eng1) = length (pe_patterns eng)"
      "\<And>i. if i \<in> set L then \<exists>p. started p (seq_at eng i) (seq_at eng1 i)
        else seq_at eng1 i = seq_at eng i"
    using selectPattern_loop [of "length (pe_patterns eng)" eng b] by (auto simp: L_def)
  let ?e = "fold (\<lambda>i e. upd_seq e i reset_counters) L eng1"
  have "resetFrom (pe_seqList eng1) eng1 = Some ?e"
    using resetFrom_linked [of eng1 "[]" L] loop(2) by (simp add: linked_head)
  then have run: "initForTest b eng = Inr (int (length L), ?e)"
    by (simp add: initForTest_def loop(1))
  have L: "distinct L" "\<And>i. i \<in> set L \<Longrightarrow> i < length (pe_patterns eng1)"
    using loop(2) linked_bound by (auto simp: linked_def)
  have len: "length (pe_patterns (fold (\<lambda>i e. upd_seq e i reset_counters) M e))
      = length (pe_patterns e)" for M e
    by (induction M arbitrary: e) simp_all
  have "if i \<in> set L then relink None None (seq_at ?e i) = fresh (seq_at eng i)
      else seq_at ?e i = seq_at eng i" for i
    using loop(4) [of i] by (auto simp: fold_reset(1) [OF L] started_fresh)
  moreover have "linked ?e L" using fold_reset(2) [OF L loop(2)] by simp
  ultimately show ?thesis using run len [of L eng1] loop(3) by auto
qed

section \<open>Safety of the engine\<close>

text \<open>A pattern that compiled: its statements are well formed.\<close>

definition compiled :: "patternSequence \<Rightarrow> bool" where
  "compiled s \<longleftrightarrow> (\<forall>pi \<in> set (ps_insts s). wf_stmt pi)"

definition engine_ok :: "patternEngine \<Rightarrow> bool" where
  "engine_ok eng \<longleftrightarrow> (\<exists>L. linked eng L \<and> (\<forall>i \<in> set L. wf_seq (seq_at eng i)))"

lemma wf_seq_relink [simp]: "wf_seq (relink p n s) = wf_seq s"
  by (auto simp: wf_seq_def wf_pos_def split: option.splits)

lemma wf_stmt_reset [simp]: "wf_stmt (reset_stmt pi) = wf_stmt pi"
  by (simp add: wf_stmt_def reset_stmt_def)

lemma wf_seq_fresh: "compiled s \<Longrightarrow> wf_seq (fresh s)"
  by (auto simp: compiled_def wf_seq_def fresh_def reset_counters_def start_seq_def wf_pos_def
      vars_resolved_def)

lemma initForTest_ok:
  assumes "\<forall>s \<in> snd ` set (pe_patterns eng). compiled s"
  shows "keeps engine_ok (\<lambda>_. False) (initForTest b eng)"
proof -
  let ?L = "selected b eng (length (pe_patterns eng))"
  obtain eng' where run: "initForTest b eng = Inr (int (length ?L), eng')" "linked eng' ?L"
      "\<And>i. i \<in> set ?L \<Longrightarrow> relink None None (seq_at eng' i) = fresh (seq_at eng i)"
    using initForTest_list [of b eng] by metis
  have "wf_seq (seq_at eng' i)" if i: "i \<in> set ?L" for i
  proof -
    have "compiled (seq_at eng i)" using assms i by (auto simp: selected_def seq_at_def)
    then have "wf_seq (relink None None (seq_at eng' i))" using run(3) [OF i] by (simp add: wf_seq_fresh)
    then show ?thesis by simp
  qed
  then show ?thesis using run by (auto simp: engine_ok_def)
qed

text \<open>
  A property that a step keeps, and that does not look at the links, holds of the patterns in play
  after an instruction if it did before.
\<close>

lemma spec_walk_keeps:
  assumes "distinct M" "\<And>i. i \<in> set M \<Longrightarrow> i < length c \<and> J (c ! i)"
    and step: "\<And>s. J s \<Longrightarrow> keeps J F (testForSequence E s ins esp efl ud)"
  shows "case spec_walk E ins esp efl ud M c of
      Inl f \<Rightarrow> F f
    | Inr ((r, L), c') \<Rightarrow> length c' = length c \<and> set L \<subseteq> set M \<and> set_option r \<subseteq> set L
        \<and> (\<forall>j. j \<notin> set M \<longrightarrow> c' ! j = c ! j) \<and> (\<forall>i \<in> set L. J (c' ! i))"
  using assms(1,2)
proof (induction M arbitrary: c)
  case (Cons i M)
  have i: "i < length c" "J (c ! i)" and M: "distinct M" "i \<notin> set M"
    using Cons.prems by auto
  note keep = step [OF i(2)]
  show ?case
  proof (cases "testForSequence E (c ! i) ins esp efl ud")
    case (Inl f)
    with keep show ?thesis by simp
  next
    case (Inr r)
    obtain st s where r: "r = (st, s)" by (cases r)
    have s: "J s" using keep Inr r by simp
    have IH: "case spec_walk E ins esp efl ud M (c[i := t]) of
        Inl f \<Rightarrow> F f
      | Inr ((r, L), c') \<Rightarrow> length c' = length (c[i := t]) \<and> set L \<subseteq> set M \<and> set_option r \<subseteq> set L
          \<and> (\<forall>j. j \<notin> set M \<longrightarrow> c' ! j = c[i := t] ! j) \<and> (\<forall>i \<in> set L. J (c' ! i))" for t
      using Cons.prems M by (intro Cons.IH) (auto simp: nth_list_update)
    have rest: "\<forall>j \<in> set M. J (c ! j)" using Cons.prems(2) by auto
    show ?thesis
      using IH [of s] IH [of "reset_counters s"] Inr r s M i(1) rest
      by (auto simp: bindS_def nth_list_update split: sum.splits prod.splits if_splits)
  qed
qed simp

lemma testInstruction_active:
  assumes L: "linked eng L" "\<forall>i \<in> set L. J (seq_at eng i)"
    and step: "\<And>s. J s \<Longrightarrow> keeps J F (testForSequence E s (disasm E lpop pc) esp efl ud)"
    and links: "\<And>p n s. J (relink p n s) = J s"
  shows "case testInstruction E eng lpop pc esp efl ud of
      Inl f \<Rightarrow> F f
    | Inr ((st, sr), eng') \<Rightarrow> \<exists>L'. linked eng' L' \<and> set L' \<subseteq> set L \<and> set_option sr \<subseteq> set L'
        \<and> (\<forall>i \<in> set L'. J (seq_at eng' i)) \<and> length (pe_patterns eng') = length (pe_patterns eng)"
proof -
  let ?ins = "disasm E lpop pc"
  obtain m where m: "testWalk E ?ins esp efl ud (pe_seqList eng) eng = Some m"
      "walk_agrees [] m (spec_walk E ?ins esp efl ud L (contents eng))"
    using testWalk_refines [of eng "[]" L E ?ins esp efl ud] L(1)
    by (auto simp: linked_head)
  have ok: "i < length (contents eng) \<and> J (contents eng ! i)" if "i \<in> set L" for i
    using that L linked_bound [OF L(1)] by (simp add: contents_nth links)
  have "distinct L" using L(1) by (simp add: linked_def)
  note spec = spec_walk_keeps [of L "contents eng" J F, OF this ok step]
  show ?thesis
  proof (cases m)
    case (Inl f)
    then show ?thesis using m spec by (simp add: walk_agrees_def testInstruction_def)
  next
    case (Inr r)
    then obtain w eng' L' where w: "m = Inr (w, eng')" "linked eng' L'"
        "spec_walk E ?ins esp efl ud L (contents eng) = Inr ((w, L'), contents eng')"
      using m(2) by (cases r) (auto simp: walk_agrees_def)
    have "J (seq_at eng' i)" if "i \<in> set L'" for i
      using spec w that linked_bound [OF w(2) that] by (auto simp: contents_nth links)
    then show ?thesis using w spec m(1)
      by (auto simp: testInstruction_def split: option.split)
  qed
qed

lemma testInstruction_keeps:
  assumes ok: "engine_ok eng" and E: "env_small E" and ins: "small_ins (disasm E lpop pc)"
  shows "keeps engine_ok step_fault (testInstruction E eng lpop pc esp efl ud)"
proof -
  obtain L where L: "linked eng L" "\<forall>i \<in> set L. wf_seq (seq_at eng i)"
    using ok by (auto simp: engine_ok_def)
  have step: "keeps wf_seq step_fault (testForSequence E s (disasm E lpop pc) esp efl ud)"
    if "wf_seq s" for s
    using testForSequence_keeps [OF that E ins] by (rule keeps_weaken) (simp_all add: step_inv_def)
  show ?thesis
    using testInstruction_active [OF L step wf_seq_relink]
    by (auto simp: keeps_def engine_ok_def split: sum.splits)
qed

end
