(* ===== verification/PatternParse.thy ===== *)
theory PatternParse
  imports PatternEngine
begin

text \<open>
  The compiler of the pattern language (\<open>loadPattern\<close> to \<open>parseInst\<close> in \<open>patternAsm.cpp\<close>): a text
  is cut into patterns and lines, and a line is a keyword, an expression, a memory expression, a
  mnemonic condition, or a statement of instruction alternatives with an optional replacement.
  The string class \<open>NStringA\<close>, the expression parser and the assembler's tables are not in the
  repository: parameters, in the record \<open>parse_env\<close>. A pointer into the buffer of a string is an offset.
\<close>

section \<open>The libraries as a parameter\<close>

text \<open>
  \<open>firstword(len, cut, trim, flag)\<close>, \<open>split\<close> and \<open>getword\<close> yield a pointer into the string and
  a length, or null; \<open>trimRight\<close> the shortened length; \<open>nhash\<close> is the hash the keywords are
  switched on. \<open>pos_null\<close> is what \<open>pos\<close> makes of a null pointer, and \<open>stale_buf before after\<close> what
  is read through a pointer into a string that \<open>mid\<close> and \<open>trim\<close> have changed since.
  \<open>parseInteger\<close> yields its count with the value of its reference argument, 0 before the call.
\<close>

type_synonym wordpos = "(nat \<times> nat) option"

record parse_env =
  pv_x86 :: x86_env
  firstword :: "string \<Rightarrow> string \<Rightarrow> string \<Rightarrow> bool \<Rightarrow> wordpos"
  split_word :: "string \<Rightarrow> string \<Rightarrow> string \<Rightarrow> bool \<Rightarrow> wordpos"
  getword :: "string \<Rightarrow> nat \<Rightarrow> string \<Rightarrow> string \<Rightarrow> bool \<Rightarrow> wordpos"
  trim_str :: "string \<Rightarrow> string \<Rightarrow> string"
  trimRight :: "string \<Rightarrow> nat \<Rightarrow> string \<Rightarrow> nat"
  pos_null :: "string \<Rightarrow> nat"
  stale_buf :: "string \<Rightarrow> string \<Rightarrow> string"
  push_line :: "string \<Rightarrow> string list"
  nhash :: "string \<Rightarrow> int"
  mnemonics :: "string \<Rightarrow> int option"
  to_upper :: "string \<Rightarrow> string"
  parseInteger :: "string \<Rightarrow> int \<times> 64 word"
  nparseExpress :: "string \<Rightarrow> nexpr_expr option"
  get_regbyname :: "string \<Rightarrow> int"
  segment_reg :: "string \<Rightarrow> int"
  inst_init :: x86inst
  checkPrefix :: "string \<Rightarrow> int option"
  set_inst_prefix :: "x86inst \<Rightarrow> int \<Rightarrow> x86inst"
  parse_op_text :: "x86inst \<Rightarrow> nat \<Rightarrow> string \<Rightarrow> int \<times> x86inst"
  \<comment> \<open>what the constructors leave in \<open>varid\<close>, \<open>matched_count\<close>, \<open>id\<close>\<close>
  garbage :: int

definition blanks :: string where "blanks = [CHR 0x0D, CHR 0x0A, CHR 0x20, CHR 0x09]"
definition tab :: string where "tab = [CHR 0x09]"

text \<open>The word at a position, the rest of the buffer from it, and the position after it.\<close>

definition word_of :: "string \<Rightarrow> nat \<times> nat \<Rightarrow> string" where
  "word_of line w = take (snd w) (drop (fst w) line)"

definition word_end :: "parse_env \<Rightarrow> string \<Rightarrow> wordpos \<Rightarrow> nat" where
  "word_end P line w = (case w of None \<Rightarrow> pos_null P line | Some (off, len) \<Rightarrow> off + len)"

definition found :: "wordpos \<Rightarrow> bool" where
  "found w \<longleftrightarrow> (case w of None \<Rightarrow> False | Some (off, len) \<Rightarrow> 0 < len)"

definition trim :: "parse_env \<Rightarrow> string \<Rightarrow> string" where
  "trim P line = trim_str P line blanks"

definition is_kw :: "parse_env \<Rightarrow> string \<Rightarrow> string \<Rightarrow> bool" where
  "is_kw P w k \<longleftrightarrow> nhash P w = nhash P k"

definition to_int32 :: "64 word \<Rightarrow> int" where
  "to_int32 v = sint (ucast v :: 32 word)"

section \<open>Loops over a line\<close>

text \<open>
  Every loop of the parser takes a word off the line and goes on with the shorter line. A turn that
  takes nothing off would find the same word again, for ever: the fault \<open>Diverges\<close>.
  \<open>attrLoop\<close> is the loop over the attributes in braces; \<open>f\<close> gets the buffer from behind the brace and
  the length of the word without it.
\<close>

function attrLoop ::
  "parse_env \<Rightarrow> (string \<Rightarrow> nat \<Rightarrow> 'a \<Rightarrow> 'a) \<Rightarrow> wordpos \<Rightarrow> string \<Rightarrow> 'a \<Rightarrow> fault + (string \<times> 'a)" where
  "attrLoop P f w line a =
     (case w of
        None \<Rightarrow> Inr (line, a)
      | Some (off, len) \<Rightarrow>
          if 0 < len \<and> off < length line \<and> line ! off = CHR ''{'' then
            (let a' = f (drop (off + 1) line) (len - 1) a;
                 line' = trim P (drop 1 (drop (off + len) line))
             in if length line' < length line
                then attrLoop P f (firstword P line' ''}'' (tab @ '' }'') True) line' a'
                else Inl Diverges)
          else Inr (line, a))"
  by pat_completeness auto
termination by (relation "measure (\<lambda>(P, f, w, line, a). length line)") auto

declare attrLoop.simps [simp del]

section \<open>Memory operands\<close>

definition mem_attr :: "string \<Rightarrow> nat \<Rightarrow> pasm_operand \<Rightarrow> pasm_operand" where
  "mem_attr lp len op =
     (if 4 \<le> len \<and> strnicmp_eq lp ''size'' 4 then
        (let vid = atoi (drop 4 lp)
         in if vid \<noteq> 0 then op\<lparr>pa_size := varid pattern_op_size vid\<rparr> else op)
      else op)"

text \<open>
  Between the brackets. The registers seen so far are \<open>rgstk\<close> (an array of four: a fifth is a
  write past its end); one followed by a star becomes the index, with the number behind it as scale.
\<close>

definition member_reg :: "parse_env \<Rightarrow> string \<Rightarrow> nat \<Rightarrow> string \<Rightarrow> int" where
  "member_reg P lp len word =
     (let treg = get_regbyname P word
      in if treg = R_NONE (pv_x86 P) \<and> 3 < len \<and> strnicmp_eq lp ''reg'' 3 then
           (let vid = atoi (drop 3 lp) in if vid \<noteq> 0 then varid pattern_op_reg vid else treg)
         else treg)"

definition member_imm :: "parse_env \<Rightarrow> string \<Rightarrow> nat \<Rightarrow> string \<Rightarrow> pasm_operand \<Rightarrow> pasm_operand" where
  "member_imm P lp len word op =
     (if get_regbyname P word = R_NONE (pv_x86 P) \<and> 3 < len
         \<and> \<not> strnicmp_eq lp ''reg'' 3 \<and> strnicmp_eq lp ''imm'' 3 then
        (let vid = atoi (drop 3 lp)
         in if vid \<noteq> 0 then op\<lparr>pa_dispvar := varid pattern_op_imm vid\<rparr> else op)
      else op)"

definition push_type :: "x86_env \<Rightarrow> pasm_operand \<Rightarrow> pasm_operand" where
  "push_type E op =
     (let t = (if pa_type op = O_SMEM E then O_MEM E else pa_type op)
      in op\<lparr>pa_type := (if t \<noteq> O_MEM E then O_SMEM E else t)\<rparr>)"

text \<open>One turn: the operand, the stack of registers, and the position the line is cut at.\<close>

definition member_turn ::
  "parse_env \<Rightarrow> string \<Rightarrow> nat \<times> nat \<Rightarrow> pasm_operand \<Rightarrow> int list
    \<Rightarrow> fault + (pasm_operand \<times> int list \<times> nat)" where
  "member_turn P line w op rgstk =
     (let E = pv_x86 P; off = fst w; len = snd w; lp = drop off line; word = word_of line w;
          op1 = member_imm P lp len word op;
          treg = member_reg P lp len word
      in if treg \<noteq> R_NONE E then
           (if 4 \<le> length rgstk then Inl Array_overflow
            else
              (let op2 = push_type E op1;
                   ltm = trimRight P lp len (''+][: '' @ tab)
               in if 0 < ltm \<and> off + ltm < length line \<and> line ! (off + ltm) = CHR ''*'' then
                    (let op3 = op2\<lparr>pa_type := O_MEM E, pa_index := treg\<rparr>
                     in case getword P (drop (off + len) line) (length line - len) [] (''* '' @ tab) False of
                          None \<Rightarrow> Inr (op3, rgstk, off + len)
                        | Some (o2, l2) \<Rightarrow>
                            if 0 < l2 then
                              (let (n, vsc) = parseInteger P (word_of (drop (off + len) line) (o2, l2))
                               in if 0 < n
                                  then Inr (op3\<lparr>pa_scale := to_int32 vsc\<rparr>, rgstk, off + len + o2 + nat n)
                                  else Inr (op3\<lparr>pa_scale := 1\<rparr>, rgstk, off + len))
                            else Inr (op3, rgstk, off + len))
                  else Inr (op2, rgstk @ [treg], off + len)))
         else
           (let (n, vsc) = parseInteger P word
            in Inr (if 0 < n then op1\<lparr>pa_imm := vsc\<rparr> else op1, rgstk, off + len)))"

function memberLoop ::
  "parse_env \<Rightarrow> string \<Rightarrow> pasm_operand \<Rightarrow> int list \<Rightarrow> fault + (string \<times> wordpos \<times> pasm_operand \<times> int list)" where
  "memberLoop P line op rgstk =
     (let w = firstword P line ''+]*'' (''+]*[: '' @ tab) False
      in case w of
           None \<Rightarrow> Inr (line, w, op, rgstk)
         | Some ol \<Rightarrow>
             if 0 < snd ol then
               (case member_turn P line ol op rgstk of
                  Inl f \<Rightarrow> Inl f
                | Inr (op', rgstk', k) \<Rightarrow>
                    (let line' = trim P (drop k line)
                     in if length line' < length line then memberLoop P line' op' rgstk'
                        else Inl Diverges))
             else Inr (line, w, op, rgstk))"
  by pat_completeness auto
termination by (relation "measure (\<lambda>(P, line, op, rgstk). length line)") auto

declare memberLoop.simps [simp del]

text \<open>Size and segment words before the bracket.\<close>

definition size_word :: "parse_env \<Rightarrow> string \<Rightarrow> pasm_operand \<Rightarrow> pasm_operand option" where
  "size_word P word op =
     (if is_kw P word ''qword'' then Some (op\<lparr>pa_size := 64\<rparr>)
      else if is_kw P word ''dword'' then Some (op\<lparr>pa_size := 32\<rparr>)
      else if is_kw P word ''word'' then Some (op\<lparr>pa_size := 16\<rparr>)
      else if is_kw P word ''byte'' then Some (op\<lparr>pa_size := 8\<rparr>)
      else if is_kw P word ''ptr'' then Some op
      else if is_kw P word ''cs'' then Some (op\<lparr>pa_seg := segment_reg P ''cs''\<rparr>)
      else if is_kw P word ''ds'' then Some (op\<lparr>pa_seg := segment_reg P ''ds''\<rparr>)
      else if is_kw P word ''es'' then Some (op\<lparr>pa_seg := segment_reg P ''es''\<rparr>)
      else if is_kw P word ''fs'' then Some (op\<lparr>pa_seg := segment_reg P ''fs''\<rparr>)
      else if is_kw P word ''gs'' then Some (op\<lparr>pa_seg := segment_reg P ''gs''\<rparr>)
      else if is_kw P word ''ss'' then Some (op\<lparr>pa_seg := segment_reg P ''ss''\<rparr>)
      else None)"

function operandLoop ::
  "parse_env \<Rightarrow> string \<Rightarrow> pasm_operand \<Rightarrow> fault + (int \<times> pasm_operand)" where
  "operandLoop P line op =
     (case firstword P line (tab @ '' :['') (tab @ '' :'') False of
        None \<Rightarrow> Inr (0, op)
      | Some (off, len) \<Rightarrow>
          if 0 < len \<and> pa_type op = O_NONE (pv_x86 P) then
            (let len' = trimRight P (drop off line) len ''['';
                 word = word_of line (off, len')
             in case size_word P word op of
                  Some op' \<Rightarrow>
                    (let line' = trim P (drop (off + len') line)
                     in if length line' < length line then operandLoop P line' op' else Inl Diverges)
                | None \<Rightarrow>
                    if off < length line \<and> line ! off = CHR ''['' then
                      (case memberLoop P line (op\<lparr>pa_type := O_DISP (pv_x86 P)\<rparr>) [] of
                         Inl f \<Rightarrow> Inl f
                       | Inr (line1, w, op1, rgstk) \<Rightarrow>
                           (let op2 = (if rgstk \<noteq> [] then op1\<lparr>pa_base := last rgstk\<rparr> else op1);
                                line2 = trim P (drop (word_end P line1 w) line1)
                            in if length line2 < length line then operandLoop P line2 op2
                               else if pa_type op2 \<noteq> O_NONE (pv_x86 P) then Inr (0, op2)
                               else Inl Diverges))
                    else Inr (-1, op))
          else Inr (0, op))"
  by pat_completeness auto
termination by (relation "measure (\<lambda>(P, line, op). length line)") auto

declare operandLoop.simps [simp del]

definition parseMemoryOperand ::
  "parse_env \<Rightarrow> pasm_operand \<Rightarrow> string \<Rightarrow> fault + (int \<times> pasm_operand)" where
  "parseMemoryOperand P op line =
     bindF (attrLoop P mem_attr (firstword P line ''}'' (tab @ '' }'') True) line op) (\<lambda>r.
       operandLoop P (fst r) (snd r))"

section \<open>Expressions and conditions\<close>

text \<open>
  \<open>imm<n> = expression\<close>, \<open>mem<n> = operand\<close>, \<open>mnem<n> = mnemonic | ...\<close>: the number of the variable
  is read from the word before the equals sign, which is then dropped. The result is the return
  code with the statement; a null expression is the code -2.
\<close>

definition after_equals :: "parse_env \<Rightarrow> string \<Rightarrow> wordpos \<Rightarrow> string" where
  "after_equals P line w = trim P (drop 1 (trim P (drop (word_end P line w) line)))"

definition starts_with :: "string \<Rightarrow> wordpos \<Rightarrow> nat \<Rightarrow> string \<Rightarrow> bool" where
  "starts_with line w minlen k \<longleftrightarrow>
     (case w of None \<Rightarrow> False
      | Some (off, len) \<Rightarrow> minlen \<le> len \<and> strnicmp_eq (drop off line) k (length k))"

definition number_after :: "string \<Rightarrow> wordpos \<Rightarrow> nat \<Rightarrow> int" where
  "number_after line w n = (case w of None \<Rightarrow> 0 | Some (off, len) \<Rightarrow> atoi (drop (off + n) line))"

definition parseExpress :: "parse_env \<Rightarrow> patternInst \<Rightarrow> string \<Rightarrow> int \<times> patternInst" where
  "parseExpress P inst line =
     (let w = firstword P line ''='' (tab @ '' ='') False;
          vid = (if starts_with line w 3 ''imm'' then number_after line w 3 else 0)
      in if vid = 0 then (-1, inst)
         else (let e = nparseExpress P (after_equals P line w);
                   inst' = inst\<lparr>pi_varid := vid, pi_expr := e\<rparr>
               in if e = None then (-2, inst') else (0, inst')))"

definition parseMemoryExpress :: "parse_env \<Rightarrow> patternInst \<Rightarrow> string \<Rightarrow> fault + (int \<times> patternInst)" where
  "parseMemoryExpress P inst line =
     (let w = firstword P line ''='' (tab @ '' ='') False;
          vid = (if starts_with line w 3 ''mem'' then number_after line w 3 else 0)
      in if vid = 0 then Inr (-1, inst)
         else bindF (parseMemoryOperand P
                (case pi_memexpr inst of None \<Rightarrow> new_pasm_operand (pv_x86 P) | Some m \<Rightarrow> m)
                (trim P (after_equals P line w)))
              (\<lambda>r. Inr (fst r, inst\<lparr>pi_varid := vid, pi_memexpr := Some (snd r)\<rparr>)))"

text \<open>The loop over the mnemonics; unknown ones are skipped. It does not trim the line.\<close>

function mnemLoop :: "parse_env \<Rightarrow> string \<Rightarrow> int list \<Rightarrow> fault + int list" where
  "mnemLoop P line ops =
     (case firstword P line ''|'' (tab @ '' |='') False of
        None \<Rightarrow> Inr ops
      | Some w \<Rightarrow>
          if 0 < snd w then
            (let line' = drop (fst w + snd w) line;
                 ops' = (case mnemonics P (to_upper P (word_of line w)) of
                           None \<Rightarrow> ops | Some mne \<Rightarrow> ops @ [mne])
             in if length line' < length line then mnemLoop P line' ops' else Inl Diverges)
          else Inr ops)"
  by pat_completeness auto
termination by (relation "measure (\<lambda>(P, line, ops). length line)") auto

declare mnemLoop.simps [simp del]

definition parseControlExpress :: "parse_env \<Rightarrow> patternInst \<Rightarrow> string \<Rightarrow> fault + (int \<times> patternInst)" where
  "parseControlExpress P inst line =
     (let w = firstword P line ''='' (tab @ '' ='') False;
          vid = (if starts_with line w 4 ''mnem'' then number_after line w 4 else 0)
      in if vid = 0 then Inr (-1, inst)
         else
           (let off = (case w of None \<Rightarrow> 0 | Some ol \<Rightarrow> fst ol);
                len = (case w of None \<Rightarrow> 0 | Some ol \<Rightarrow> snd ol);
                inst1 = (if getword P (drop off line) len ''!'' (tab @ '' '') True \<noteq> None
                         then inst\<lparr>pi_flags := pi_flags inst OR PATTERN_FLAG_NOT\<rparr> else inst)
            in bindF (mnemLoop P (trim P (after_equals P line w)) (pi_mnemops inst)) (\<lambda>ops.
                 Inr (0, inst1\<lparr>pi_varid := vid, pi_mnemops := ops\<rparr>))))"

section \<open>Options of a statement\<close>

text \<open>
  The loop over the comma-separated words of one option. In the \<open>repeat\<close> branch the second number is
  looked for before the first is cut off, so the search finds the first again; it is then read after the
  cut, through the old pointer. The cut after the switch uses the end the last word had, as in the source.
\<close>

definition repeat_branch ::
  "parse_env \<Rightarrow> string \<Rightarrow> wordpos \<Rightarrow> patternInst \<Rightarrow> string \<times> wordpos \<times> patternInst" where
  "repeat_branch P na word2 inst =
     (let na1 = trim P (drop (word_end P na word2) na);
          w1 = split_word P na1 '','' ('',{'' @ tab @ '' }'') False
      in if found w1 then
           (let v1 = to_int32 (snd (parseInteger P (word_of na1 (the w1))));
                w2 = split_word P na1 '','' ('',{'' @ tab @ '' }'') False;
                na2 = trim P (drop (word_end P na1 w2) na1)
            in if found w2
               then (let v2 = to_int32 (snd (parseInteger P (word_of (stale_buf P na1 na2) (the w2))))
                     in (na2, w2, inst\<lparr>pi_minc := v1, pi_maxc := v2\<rparr>))
               else (na2, w2, inst\<lparr>pi_minc := v1, pi_maxc := v1\<rparr>))
         else (na1, w1, inst))"

function optionWords :: "parse_env \<Rightarrow> string \<Rightarrow> patternInst \<Rightarrow> fault + patternInst" where
  "optionWords P na inst =
     (let word2 = split_word P na '','' ('',{'' @ tab @ '' }'') False
      in if found word2 then
           (let (na1, w, inst1) =
              (if is_kw P (word_of na (the word2)) ''repeat'' then repeat_branch P na word2 inst
               else (na, word2, inst));
                na2 = trim P (drop (word_end P na1 w) na1)
            in if length na2 < length na then optionWords P na2 inst1 else Inl Diverges)
         else Inr inst)"
  by pat_completeness auto
termination by (relation "measure (\<lambda>(P, na, inst). length na)") auto

declare optionWords.simps [simp del]

definition option_word :: "parse_env \<Rightarrow> string \<Rightarrow> patternInst \<Rightarrow> fault + patternInst" where
  "option_word P word inst =
     (if is_kw P word ''*'' then Inr (inst\<lparr>pi_minc := 0, pi_maxc := 0xFFFFFF\<rparr>)
      else if is_kw P word ''?'' then Inr (inst\<lparr>pi_minc := 1, pi_maxc := 1\<rparr>)
      else if is_kw P word ''+'' then Inr (inst\<lparr>pi_minc := 1, pi_maxc := 0xFFFFFF\<rparr>)
      else if is_kw P word ''-'' then Inr (inst\<lparr>pi_flags := PATTERN_FLAG_LESSMATCH\<rparr>)
      else if is_kw P word ''stack''
      then Inr (inst\<lparr>pi_flags := pi_flags inst OR PATTERN_FLAG_NOESPCHANGE\<rparr>)
      else if is_kw P word ''eflags''
      then Inr (inst\<lparr>pi_flags := pi_flags inst OR PATTERN_FLAG_NOEFLAGSCHG\<rparr>)
      else optionWords P word inst)"

function parseInstOption :: "parse_env \<Rightarrow> string \<Rightarrow> patternInst \<Rightarrow> fault + patternInst" where
  "parseInstOption P line inst =
     (let w = split_word P line ''}'' (''{'' @ tab @ '' }'') False
      in if found w then
           (case option_word P (word_of line (the w)) inst of
              Inl f \<Rightarrow> Inl f
            | Inr inst' \<Rightarrow>
                (let line' = trim P (drop (word_end P line w) line)
                 in if length line' < length line then parseInstOption P line' inst' else Inl Diverges))
         else Inr inst)"
  by pat_completeness auto
termination by (relation "measure (\<lambda>(P, line, inst). length line)") auto

declare parseInstOption.simps [simp del]

section \<open>One instruction\<close>

definition inst_attr :: "string \<Rightarrow> nat \<Rightarrow> pattern_inst_body \<Rightarrow> pattern_inst_body" where
  "inst_attr lp len ib =
     (let flag = (\<lambda>m. ib\<lparr>ib_cflags := ib_cflags ib OR m\<rparr>)
      in if 4 \<le> len \<and> strnicmp_eq lp ''size'' 4 then ib\<lparr>ib_szid := atoi (drop 4 lp)\<rparr>
         else if 4 \<le> len \<and> strnicmp_eq lp ''mnem'' 4 then ib\<lparr>ib_mnemonicid := atoi (drop 4 lp)\<rparr>
         else if 6 \<le> len \<and> strnicmp_eq lp ''strict'' 6 then flag PATTERN_CFLAG_STRICT
         else if len = 1 \<and> take 1 lp = ''!'' then flag PATTERN_CFLAG_NOT
         else if len = 1 \<and> take 1 lp = ''8'' then flag PATTERN_CFLAG_8BIT
         else if len = 2 \<and> take 2 lp = ''16'' then flag PATTERN_CFLAG_16BIT
         else if len = 2 \<and> take 2 lp = ''32'' then flag PATTERN_CFLAG_32BIT
         else if len = 2 \<and> take 2 lp = ''64'' then flag PATTERN_CFLAG_64BIT
         else ib)"

definition op_attr :: "string \<Rightarrow> nat \<Rightarrow> pattern_op \<Rightarrow> pattern_op" where
  "op_attr lp len pop =
     (let flag = (\<lambda>m. pop\<lparr>po_cflags := po_cflags pop OR m\<rparr>)
      in if strnicmp_eq lp ''size'' 4 then pop\<lparr>po_szid := atoi (drop 4 lp)\<rparr>
         else if len = 1 \<and> take 1 lp = ''!'' then flag PATTERN_CFLAG_NOT
         else if len = 1 \<and> take 1 lp = ''*'' then flag PATTERN_CFLAG_INALLOP
         else if len = 1 \<and> take 1 lp = ''r'' then flag PATTERN_CFLAG_REF
         else if len = 1 \<and> take 1 lp = ''8'' then flag PATTERN_CFLAG_8BIT
         else if len = 2 \<and> take 2 lp = ''16'' then flag PATTERN_CFLAG_16BIT
         else if len = 2 \<and> take 2 lp = ''32'' then flag PATTERN_CFLAG_32BIT
         else if len = 2 \<and> take 2 lp = ''64'' then flag PATTERN_CFLAG_64BIT
         else if len = 2 \<and> strnicmp_eq lp ''!r'' 2 then flag PATTERN_CFLAG_NOREF
         else pop)"

text \<open>
  What an operand is: a variable (by its prefix, whatever follows it), an operand the assembler can
  read, or else a memory expression, which is given the next dynamic number. The flag says that the
  memory expression did not parse either.
\<close>

definition op_word ::
  "parse_env \<Rightarrow> patternSequence \<Rightarrow> x86inst \<Rightarrow> nat \<Rightarrow> string \<Rightarrow> string \<Rightarrow> pattern_op
    \<Rightarrow> fault + (bool \<times> pattern_op \<times> x86inst \<times> patternSequence)" where
  "op_word P seq ins ridx lp word pop =
     (if strnicmp_eq lp ''op'' 2
      then Inr (True, pop\<lparr>po_type := pattern_op_any, po_id := atoi (drop 2 lp)\<rparr>, ins, seq)
      else if strnicmp_eq lp ''reg'' 3
      then Inr (True, pop\<lparr>po_type := pattern_op_reg, po_id := atoi (drop 3 lp)\<rparr>, ins, seq)
      else if strnicmp_eq lp ''imm'' 3
      then Inr (True, pop\<lparr>po_type := pattern_op_imm, po_id := atoi (drop 3 lp)\<rparr>, ins, seq)
      else if strnicmp_eq lp ''mem'' 3
      then Inr (True, pop\<lparr>po_type := pattern_op_mem, po_id := atoi (drop 3 lp)\<rparr>, ins, seq)
      else
        (let (st, ins') = parse_op_text P ins ridx word
         in if st < 0 then
              (let dyid = int (ps_ndyops seq)
               in bindF (parseMemoryOperand P (new_pasm_operand (pv_x86 P)) word) (\<lambda>r.
                    Inr (0 \<le> fst r, pop\<lparr>po_type := pattern_op_memexpr, po_id := dyid\<rparr>, ins',
                      seq\<lparr>ps_dyops := (ps_dyops seq)(dyid \<mapsto> snd r),
                          ps_ndyops := ps_ndyops seq + 1\<rparr>)))
            else Inr (True, pop\<lparr>po_type := pattern_op_explicit\<rparr>, ins', seq)))"

text \<open>
  A turn of the loop over the operands: the attributes, the operand, and the line after it. The flag
  is false when the operand did not parse.
\<close>

definition operand_turn ::
  "parse_env \<Rightarrow> string \<Rightarrow> nat \<Rightarrow> pattern_inst_body \<Rightarrow> patternSequence
    \<Rightarrow> fault + (bool \<times> string \<times> pattern_inst_body \<times> patternSequence)" where
  "operand_turn P line ridx ib seq =
     (let pop0 = (ib_ops ib ridx)\<lparr>po_szid := 0, po_cflags := PATTERN_CFLAG_NONE\<rparr>
      in bindF (attrLoop P op_attr (firstword P line ''}'' ('','' @ tab @ '' }'') True) line pop0)
        (\<lambda>(line1, pop1).
          (let w = firstword P line1 '','' ('', '' @ tab) False
           in bindF (if found w
                     then op_word P seq (ib_ins ib) ridx (drop (fst (the w)) line1)
                            (word_of line1 (the w)) pop1
                     else Inr (True, pop1, ib_ins ib, seq)) (\<lambda>(good, pop2, ins', seq').
                Inr (good, trim P (drop (word_end P line1 w) line1),
                     ib\<lparr>ib_ops := (ib_ops ib)(ridx := pop2), ib_ins := ins'\<rparr>, seq')))))"

text \<open>
  The loop over the operands. The array of operands is not checked: one operand too many is a write
  past its end.
\<close>

function operandsLoop ::
  "parse_env \<Rightarrow> string \<Rightarrow> nat \<Rightarrow> pattern_inst_body \<Rightarrow> patternSequence
    \<Rightarrow> fault + (int \<times> pattern_inst_body \<times> patternSequence)" where
  "operandsLoop P line ridx ib seq =
     (if found (firstword P line '','' ('', '' @ tab) False) then
        (if OPERANDS_NO (pv_x86 P) \<le> ridx then Inl Array_overflow
         else
           (case operand_turn P line ridx ib seq of
              Inl f \<Rightarrow> Inl f
            | Inr (good, line2, ib', seq') \<Rightarrow>
                if \<not> good then Inr (-3, ib', seq')
                else if length line2 < length line
                then operandsLoop P line2 (ridx + 1) ib' seq'
                else Inl Diverges))
      else Inr (0, ib, seq))"
  by pat_completeness auto
termination by (relation "measure (\<lambda>(P, line, ridx, ib, seq). length line)") auto

declare operandsLoop.simps [simp del]

text \<open>The prefixes in front of the instruction.\<close>

function prefixLoop :: "parse_env \<Rightarrow> string \<Rightarrow> x86inst \<Rightarrow> fault + (string \<times> x86inst)" where
  "prefixLoop P line ins =
     (let w = firstword P line (tab @ '' '') (tab @ '' '') False
      in if found w then
           (case checkPrefix P (word_of line (the w)) of
              None \<Rightarrow> Inr (line, ins)
            | Some prefix \<Rightarrow>
                (let line' = trim P (drop (word_end P line w) line)
                 in if length line' < length line
                    then prefixLoop P line' (set_inst_prefix P ins prefix)
                    else Inl Diverges))
         else Inr (line, ins))"
  by pat_completeness auto
termination by (relation "measure (\<lambda>(P, line, ins). length line)") auto

declare prefixLoop.simps [simp del]

text \<open>
  \<open>parseInst\<close>. The word \<open>any\<close> is compared on the length of the word found, so a prefix of it
  passes as well.
\<close>

definition parseInst ::
  "parse_env \<Rightarrow> patternSequence \<Rightarrow> pattern_inst_body \<Rightarrow> string
    \<Rightarrow> fault + (int \<times> pattern_inst_body \<times> patternSequence)" where
  "parseInst P seq ib line0 =
     bindF (prefixLoop P (trim P line0) (inst_init P)) (\<lambda>(line1, ins1).
     bindF (attrLoop P inst_attr (firstword P line1 ''}'' (tab @ '' }'') True) line1
              (ib\<lparr>ib_ins := ins1, ib_szid := 0, ib_mnemonicid := 0\<rparr>)) (\<lambda>(line2, ib2).
       (let w = firstword P line2 (tab @ '' '') (tab @ '' '') False
        in if \<not> found w then Inr (-1, ib2, seq)
           else
             (let (off, len) = the w; word = word_of line2 (off, len);
                  mne = (if strnicmp_eq (drop off line2) ''any'' len
                         then Some (I_UNDEFINED (pv_x86 P))
                         else mnemonics P (to_upper P word))
              in case mne of
                   None \<Rightarrow> Inr (-2, ib2, seq)
                 | Some m \<Rightarrow>
                     operandsLoop P (trim P (drop (off + len) line2)) 0
                       (ib2\<lparr>ib_ins := set_inst_mnemonic (pv_x86 P) (ib_ins ib2) m\<rparr>) seq))))"

section \<open>One line\<close>

text \<open>
  The alternatives of a statement, separated by bars: the first that does not parse drops the
  statement (\<open>None\<close>). The replacement: one that does not parse is left out.
\<close>

function alternativesLoop ::
  "parse_env \<Rightarrow> string \<Rightarrow> pattern_inst_body list \<Rightarrow> patternSequence
    \<Rightarrow> fault + (pattern_inst_body list option \<times> patternSequence)" where
  "alternativesLoop P line ibs seq =
     (let w = split_word P line ''||'' (''|'' @ tab @ '' '') False
      in if found w then
           (case parseInst P seq (new_pattern_inst_body (inst_init P)) (word_of line (the w)) of
              Inl f \<Rightarrow> Inl f
            | Inr (st, ib, seq') \<Rightarrow>
                if st < 0 then Inr (None, seq')
                else
                  (let line' = trim P (drop (word_end P line w) line)
                   in if length line' < length line
                      then alternativesLoop P line' (ibs @ [ib]) seq' else Inl Diverges))
         else Inr (Some ibs, seq))"
  by pat_completeness auto
termination by (relation "measure (\<lambda>(P, line, ibs, seq). length line)") auto

declare alternativesLoop.simps [simp del]

function replacementsLoop ::
  "parse_env \<Rightarrow> string \<Rightarrow> pattern_inst_body list \<Rightarrow> patternSequence
    \<Rightarrow> fault + (pattern_inst_body list \<times> patternSequence)" where
  "replacementsLoop P line ibs seq =
     (let w = split_word P line ''||'' (''|'' @ tab @ '' '') False
      in if found w then
           (case parseInst P seq (new_pattern_inst_body (inst_init P)) (word_of line (the w)) of
              Inl f \<Rightarrow> Inl f
            | Inr (st, ib, seq') \<Rightarrow>
                (let line' = trim P (drop (word_end P line w) line)
                 in if length line' < length line
                    then replacementsLoop P line' (if st < 0 then ibs else ibs @ [ib]) seq'
                    else Inl Diverges))
         else Inr (ibs, seq))"
  by pat_completeness auto
termination by (relation "measure (\<lambda>(P, line, ibs, seq). length line)") auto

declare replacementsLoop.simps [simp del]

definition add_stmt :: "patternInst \<Rightarrow> patternSequence \<Rightarrow> patternSequence" where
  "add_stmt pi seq = seq\<lparr>ps_insts := ps_insts seq @ [pi]\<rparr>"

text \<open>
  A statement of instructions: its options before a double colon, its alternatives, its
  replacement.
\<close>

definition parseStatement ::
  "parse_env \<Rightarrow> patternSequence \<Rightarrow> string \<Rightarrow> string \<Rightarrow> fault + patternSequence" where
  "parseStatement P seq line replace =
     (let pi0 = (new_patternInst (garbage P) (garbage P))\<lparr>pi_type := pattern_inst_instruction\<rparr>;
          w = split_word P line ''::'' (tab @ '' '') True
      in bindF (if found w then
                  (let (off, len) = the w
                   in bindF (parseInstOption P (word_of line (off, len - 1)) pi0)
                        (\<lambda>pi. Inr (pi, trim P (drop (off + (len - 1) + 2) line))))
                else Inr (pi0, line)) (\<lambda>(pi1, line1).
         bindF (alternativesLoop P line1 [] seq) (\<lambda>(alts, seq1).
           case alts of
             None \<Rightarrow> Inr seq1
           | Some ibs \<Rightarrow>
               if replace \<noteq> [] then
                 bindF (replacementsLoop P replace [] seq1) (\<lambda>(rps, seq2).
                   Inr (add_stmt (pi1\<lparr>pi_insts := ibs, pi_rps := rps\<rparr>) seq2))
               else Inr (add_stmt (pi1\<lparr>pi_insts := ibs\<rparr>) seq1))))"

text \<open>The arrow that separates a statement from its replacement, at the first place it stands.\<close>

definition arrow_at :: "string \<Rightarrow> nat \<Rightarrow> bool" where
  "arrow_at line i \<longleftrightarrow> take 2 (drop i line) = ''->''"

definition split_arrow :: "parse_env \<Rightarrow> string \<Rightarrow> string \<times> string" where
  "split_arrow P line =
     (case filter (arrow_at line) [0..<length line - 1] of
        [] \<Rightarrow> (line, [])
      | i # _ \<Rightarrow> (take i line, if length line - i - 2 = 0 then [] else trim P (drop (i + 2) line)))"

definition stricmp_eq :: "string \<Rightarrow> string \<Rightarrow> bool" where
  "stricmp_eq a b \<longleftrightarrow> map lower_code a = map lower_code b"

text \<open>The keywords that set a property of the whole pattern; \<open>None\<close>: the word is none of them.\<close>

definition parseKeyword ::
  "parse_env \<Rightarrow> patternSequence \<Rightarrow> string \<Rightarrow> nat \<times> nat \<Rightarrow> patternSequence option" where
  "parseKeyword P seq line w =
     (let word = word_of line w; rest = drop (fst w + snd w) line;
          w2 = firstword P rest (tab @ '' '') (tab @ '' '') False;
          num = (case w2 of None \<Rightarrow> (0, 0) | Some ol \<Rightarrow> parseInteger P (word_of rest ol))
      in if is_kw P word ''.mode'' then
           Some (seq\<lparr>ps_mode :=
             (case w2 of
                None \<Rightarrow> mode_sequence
              | Some ol \<Rightarrow> if stricmp_eq (drop (fst ol) rest) ''reserve'' then mode_reverse
                           else mode_sequence)\<rparr>)
         else if is_kw P word ''.max'' then
           Some (if fst num \<noteq> 0 then seq\<lparr>ps_maximumInst := to_int32 (snd num)\<rparr> else seq)
         else if is_kw P word ''.uuid'' then
           Some (if fst num \<noteq> 0 then seq\<lparr>ps_uuid := to_int32 (snd num)\<rparr> else seq)
         else if is_kw P word ''.off'' then
           Some (seq\<lparr>ps_flags := ps_flags seq OR PATTERN_SEQ_FLAG_OFF\<rparr>)
         else if is_kw P word ''.on'' then
           Some (seq\<lparr>ps_flags := ps_flags seq AND NOT PATTERN_SEQ_FLAG_OFF\<rparr>)
         else if is_kw P word ''.comment'' then Some (seq\<lparr>ps_comment := trim P rest\<rparr>)
         else if is_kw P word ''.pattern'' then Some (seq\<lparr>ps_pattern := trim P rest\<rparr>)
         else None)"

text \<open>
  \<open>parseLine\<close>: a line whose first word before an equals sign is a variable makes a statement of its
  own, which is erased again when it does not parse; the others are keywords and instructions. The
  return code is not used by the caller.
\<close>

definition parseAssign :: "parse_env \<Rightarrow> string \<Rightarrow> (fault + (int \<times> patternInst)) option" where
  "parseAssign P line =
     (let w = firstword P line ''='' (tab @ '' ='') False;
          new = (\<lambda>t. (new_patternInst (garbage P) (garbage P))\<lparr>pi_type := t\<rparr>)
      in if starts_with line w 4 ''imm'' then Some (Inr (parseExpress P (new pattern_inst_express) line))
         else if starts_with line w 3 ''mem'' then Some (parseMemoryExpress P (new pattern_inst_memexpr) line)
         else if starts_with line w 4 ''mnem'' then Some (parseControlExpress P (new pattern_inst_control) line)
         else None)"

definition parseLine :: "parse_env \<Rightarrow> patternSequence \<Rightarrow> string \<Rightarrow> fault + patternSequence" where
  "parseLine P seq lpline =
     (if lpline = [] then Inr seq
      else
        (let (line, replace) = split_arrow P lpline
         in case parseAssign P line of
              Some r \<Rightarrow> bindF r (\<lambda>r. Inr (if fst r < 0 then seq else add_stmt (snd r) seq))
            | None \<Rightarrow>
                (let w1 = firstword P line (tab @ '' '') (tab @ '' '') False
                 in if \<not> found w1 then Inr seq
                    else case parseKeyword P seq line (the w1) of
                        Some seq' \<Rightarrow> Inr seq'
                      | None \<Rightarrow> parseStatement P seq line replace)))"

section \<open>A whole text\<close>

definition is_dashes :: "string \<Rightarrow> bool" where
  "is_dashes line \<longleftrightarrow> take 5 line = ''-----''"

definition strip_comment :: "string \<Rightarrow> string" where
  "strip_comment line =
     (case filter (\<lambda>i. take 2 (drop i line) = ''//'') [0..<length line - 1] of
        [] \<Rightarrow> line | i # _ \<Rightarrow> take i line)"

fun compile_lines :: "parse_env \<Rightarrow> string list \<Rightarrow> patternSequence \<Rightarrow> fault + patternSequence" where
  "compile_lines P [] seq = Inr seq"
| "compile_lines P (l # ls) seq =
     (if l \<noteq> [] \<and> \<not> is_dashes l
      then bindF (parseLine P seq (strip_comment l)) (compile_lines P ls)
      else compile_lines P ls seq)"

text \<open>The lines of a text: what stands between newlines, the last without one.\<close>

fun split_lines :: "string \<Rightarrow> string list" where
  "split_lines [] = [[]]"
| "split_lines (c # cs) =
     (if c = CHR 0x0A then [] # split_lines cs
      else (case split_lines cs of [] \<Rightarrow> [[c]] | l # ls \<Rightarrow> (c # l) # ls))"

definition compile :: "parse_env \<Rightarrow> patternSequence \<Rightarrow> string \<Rightarrow> fault + patternSequence" where
  "compile P seq lpsrc = compile_lines P (concat (map (push_line P) (split_lines lpsrc))) seq"

text \<open>A pattern without statements is removed again.\<close>

definition parsePattern :: "parse_env \<Rightarrow> patternEngine \<Rightarrow> string \<Rightarrow> fault + patternEngine" where
  "parsePattern P eng lpsrc =
     (let pid = int (length (pe_patterns eng))
      in bindF (compile P ((new_patternSequence (garbage P) None)\<lparr>ps_id := pid\<rparr>) lpsrc) (\<lambda>pattern.
           Inr (if ps_insts pattern = [] then eng
                else eng\<lparr>pe_patterns := pe_patterns eng @ [(pid, pattern)]\<rparr>)))"

text \<open>
  \<open>loadPattern\<close>: the text is cut at the ends of lines of dashes. The loop state is the start of the
  pattern, the start of the line, and the number of patterns so far.
\<close>

fun cut_loop ::
  "parse_env \<Rightarrow> string \<Rightarrow> nat list \<Rightarrow> nat \<Rightarrow> nat \<Rightarrow> int \<Rightarrow> patternEngine
    \<Rightarrow> fault + (nat \<times> int \<times> patternEngine)" where
  "cut_loop P src [] pos lns npa eng = Inr (pos, npa, eng)"
| "cut_loop P src (i # is) pos lns npa eng =
     (if src ! i = CHR 0x0A then
        (if 5 \<le> i - lns \<and> is_dashes (drop lns src)
         then bindF (parsePattern P eng (take (i - pos) (drop pos src)))
                (cut_loop P src is i (i + 1) (npa + 1))
         else cut_loop P src is pos (i + 1) npa eng)
      else cut_loop P src is pos lns npa eng)"

definition loadPattern :: "parse_env \<Rightarrow> patternEngine \<Rightarrow> string \<Rightarrow> fault + (int \<times> patternEngine)" where
  "loadPattern P eng src =
     bindF (cut_loop P src [0..<length src] 0 0 0 eng) (\<lambda>(pos, npa, eng1).
       bindF (parsePattern P eng1 (drop pos src)) (\<lambda>eng2. Inr (npa + 1, eng2)))"

definition loadPatternFromFile :: "parse_env \<Rightarrow> patternEngine \<Rightarrow> string \<Rightarrow> fault + (int \<times> patternEngine)" where
  "loadPatternFromFile P eng content =
     (if content = [] then Inr (0, eng) else loadPattern P eng content)"

section \<open>Parsing ends\<close>

text \<open>
  What the string class promises: a word lies within the string, trimming and shortening do not
  lengthen, and no keyword of a memory operand hashes as the empty word.
\<close>

definition words_ok :: "parse_env \<Rightarrow> bool" where
  "words_ok P \<longleftrightarrow>
     (\<forall>line cs ts f off len. firstword P line cs ts f = Some (off, len) \<longrightarrow> off + len \<le> length line)
     \<and> (\<forall>line cs ts f off len. split_word P line cs ts f = Some (off, len) \<longrightarrow> off + len \<le> length line)
     \<and> (\<forall>s cs. length (trim_str P s cs) \<le> length s)
     \<and> (\<forall>op. size_word P [] op = None)
     \<and> O_NONE (pv_x86 P) \<notin> {O_DISP (pv_x86 P), O_SMEM (pv_x86 P), O_MEM (pv_x86 P)}"

lemma words_okD:
  assumes "words_ok P"
  shows "firstword P line cs ts f = Some (off, len) \<Longrightarrow> off + len \<le> length line"
    and "split_word P line cs ts f = Some (off, len) \<Longrightarrow> off + len \<le> length line"
    and "length (trim P line) \<le> length line"
    and "size_word P [] op = None"
  using assms unfolding words_ok_def trim_def by blast+

definition ends :: "fault + 'a \<Rightarrow> bool" where
  "ends r \<longleftrightarrow> r \<noteq> Inl Diverges"

lemma ends_simps [simp]:
  "ends (Inr a)" "ends (Inl f) \<longleftrightarrow> f \<noteq> Diverges"
  by (simp_all add: ends_def)

lemma ends_bindF: "ends r \<Longrightarrow> (\<And>a. r = Inr a \<Longrightarrow> ends (f a)) \<Longrightarrow> ends (bindF r f)"
  by (auto simp: ends_def bindF_def split: sum.splits)

text \<open>Cutting a nonempty word off a line shortens it.\<close>

lemma trim_drop_le: "words_ok P \<Longrightarrow> length (trim P (drop k line)) \<le> length line"
  using words_okD(3) [of P "drop k line"] by simp

lemma trim_drop_shorter:
  "words_ok P \<Longrightarrow> 0 < k \<Longrightarrow> line \<noteq> [] \<Longrightarrow> length (trim P (drop k line)) < length line"
  using words_okD(3) [of P "drop k line"] by (cases line) (auto simp: Suc_diff_le)

lemma found_Some: "found w \<longleftrightarrow> (\<exists>off len. w = Some (off, len) \<and> 0 < len)"
  by (auto simp: found_def split: option.splits)

lemma cut_shorter:
  assumes "words_ok P" "found w"
    and "w = firstword P line cs ts f \<or> w = split_word P line cs ts f"
  shows "length (trim P (drop (word_end P line w) line)) < length line"
proof -
  obtain off len where w: "w = Some (off, len)" "0 < len" using assms(2) by (auto simp: found_Some)
  have "off + len \<le> length line" using assms(1,3) w words_okD(1,2) by metis
  then show ?thesis using w assms(1) by (auto simp: word_end_def intro!: trim_drop_shorter)
qed

lemma attrLoop_ends: "words_ok P \<Longrightarrow> ends (attrLoop P f w line a)"
proof (induction "length line" arbitrary: w line a rule: less_induct)
  case less
  have "length (trim P (drop (Suc k) line)) < length line" if "off < length line" for k off
    using that less.prems by (intro trim_drop_shorter) auto
  then show ?case
    using less.hyps less.prems
    by (auto simp: attrLoop.simps [of P f w line a] Let_def split: option.split)
qed

lemma attrLoop_line:
  "attrLoop P f w line a = Inr (line', a') \<Longrightarrow> line' = line \<or> length line' < length line"
proof (induction "length line" arbitrary: w line a rule: less_induct)
  case less
  show ?case
    using less.hyps less.prems
    by (fastforce simp: attrLoop.simps [of P f w line a] Let_def split: option.splits if_splits)
qed

lemma mnemLoop_ends: "words_ok P \<Longrightarrow> ends (mnemLoop P line ops)"
proof (induction "length line" arbitrary: line ops rule: less_induct)
  case less
  have "length (drop k line) < length line"
    if "firstword P line ''|'' (tab @ '' |='') False = Some (off, len)" "0 < len" "k = off + len" for off len k
    using words_okD(1) [OF less.prems that(1)] that(2,3) by simp
  then show ?case
    using less.hyps less.prems
    by (auto simp: mnemLoop.simps [of P line ops] Let_def split: option.split)
qed

lemma repeat_branch_shorter:
  assumes "words_ok P" "found w" "w = split_word P na cs ts f"
  shows "length (fst (repeat_branch P na w inst)) < length na"
  using cut_shorter [of P w na cs ts f] trim_drop_le [OF assms(1)] assms
  by (auto simp: repeat_branch_def Let_def intro: le_less_trans)

lemma optionWords_ends: "words_ok P \<Longrightarrow> ends (optionWords P na inst)"
proof (induction "length na" arbitrary: na inst rule: less_induct)
  case less
  let ?w = "split_word P na '','' ('',{'' @ tab @ '' }'') False"
  have "length (trim P (drop k (fst (repeat_branch P na ?w inst)))) < length na" if "found ?w" for k
    using repeat_branch_shorter [OF less.prems that refl] trim_drop_le [OF less.prems] le_less_trans
    by blast
  then show ?case
    using less.hyps less.prems cut_shorter [OF less.prems _ disjI2 [OF refl], of na]
    by (auto simp: optionWords.simps [of P na inst] Let_def case_prod_beta)
qed

lemma option_word_ends: "words_ok P \<Longrightarrow> ends (option_word P w inst)"
  by (simp add: option_word_def optionWords_ends)

lemma parseInstOption_ends: "words_ok P \<Longrightarrow> ends (parseInstOption P line inst)"
proof (induction "length line" arbitrary: line inst rule: less_induct)
  case less
  show ?case
    using less.hyps less.prems cut_shorter [OF less.prems _ disjI2 [OF refl], of line]
      option_word_ends [OF less.prems]
    by (auto simp: parseInstOption.simps [of P line inst] Let_def ends_def split: sum.split)
qed

lemma prefixLoop_ends: "words_ok P \<Longrightarrow> ends (prefixLoop P line ins)"
proof (induction "length line" arbitrary: line ins rule: less_induct)
  case less
  show ?case
    using less.hyps less.prems cut_shorter [OF less.prems _ disjI1 [OF refl], of line]
    by (auto simp: prefixLoop.simps [of P line ins] Let_def split: option.split)
qed

text \<open>A turn between the brackets takes at least the word off, and the operand stays a memory operand.\<close>

definition mem_kind :: "x86_env \<Rightarrow> pasm_operand \<Rightarrow> bool" where
  "mem_kind E op \<longleftrightarrow> pa_type op \<in> {O_DISP E, O_SMEM E, O_MEM E}"

lemma member_turn_cut:
  assumes "member_turn P line (off, len) op rgstk = Inr (op', rgstk', k)"
  shows "off + len \<le> k" and "mem_kind (pv_x86 P) op \<Longrightarrow> mem_kind (pv_x86 P) op'"
  using assms
  by (auto simp: member_turn_def Let_def mem_kind_def push_type_def member_imm_def
      split: if_splits option.splits prod.splits)

lemma member_turn_fault: "member_turn P line w op rgstk = Inl f \<Longrightarrow> f = Array_overflow"
  by (auto simp: member_turn_def Let_def split: if_splits option.splits prod.splits)

lemma memberLoop_ends:
  "words_ok P \<Longrightarrow> mem_kind (pv_x86 P) op \<Longrightarrow>
    (case memberLoop P line op rgstk of
       Inl f \<Rightarrow> f \<noteq> Diverges
     | Inr (line', w, op', rgstk') \<Rightarrow> length line' \<le> length line \<and> mem_kind (pv_x86 P) op')"
proof (induction "length line" arbitrary: line op rgstk rule: less_induct)
  case less
  let ?w = "firstword P line ''+]*'' (''+]*[: '' @ tab) False"
  show ?case
  proof (cases "found ?w")
    case False
    then show ?thesis using less.prems
      by (auto simp: memberLoop.simps [of P line op] Let_def found_def split: option.split)
  next
    case True
    then obtain off len where w: "?w = Some (off, len)" "0 < len" by (auto simp: found_Some)
    have bound: "off + len \<le> length line" using words_okD(1) [OF less.prems(1) w(1)] .
    show ?thesis
    proof (cases "member_turn P line (off, len) op rgstk")
      case (Inl f)
      then show ?thesis using w member_turn_fault [OF Inl]
        by (simp add: memberLoop.simps [of P line op] Let_def)
    next
      case (Inr r)
      obtain op' rg k where r: "r = (op', rg, k)" by (cases r)
      note turn = member_turn_cut [OF Inr [unfolded r]]
      have short: "length (trim P (drop k line)) < length line"
        using turn(1) w(2) bound less.prems(1) by (intro trim_drop_shorter) auto
      then show ?thesis
        using less.hyps [OF short less.prems(1) turn(2) [OF less.prems(2)], of rg] w Inr r
        by (auto simp: memberLoop.simps [of P line op] Let_def split: sum.splits)
    qed
  qed
qed

lemma operandLoop_ends: "words_ok P \<Longrightarrow> ends (operandLoop P line op)"
proof (induction "length line" arbitrary: line op rule: less_induct)
  case less
  let ?E = "pv_x86 P"
  let ?w = "firstword P line (tab @ '' :['') (tab @ '' :'') False"
  show ?case
  proof (cases "found ?w \<and> pa_type op = O_NONE ?E")
    case False
    then show ?thesis
      by (auto simp: operandLoop.simps [of P line op] found_def split: option.split)
  next
    case True
    then obtain off len where w: "?w = Some (off, len)" "0 < len" by (auto simp: found_Some)
    have "off + len \<le> length line" using words_okD(1) [OF less.prems w(1)] .
    then have ne: "line \<noteq> []" using w(2) by auto
    let ?len = "trimRight P (drop off line) len ''[''"
    show ?thesis
    proof (cases "size_word P (word_of line (off, ?len)) op")
      case (Some op')
      then have "0 < ?len"
        using words_okD(4) [OF less.prems, of op] by (cases "?len") (auto simp: word_of_def)
      then have short: "length (trim P (drop (off + ?len) line)) < length line"
        using ne less.prems by (intro trim_drop_shorter) auto
      then show ?thesis using less.hyps [OF short less.prems] w Some True
        by (simp add: operandLoop.simps [of P line op] Let_def)
    next
      case None
      have "mem_kind ?E (op\<lparr>pa_type := O_DISP ?E\<rparr>)" by (simp add: mem_kind_def)
      note inner = memberLoop_ends [OF less.prems this, of line "[]"]
      have kind: "mem_kind ?E o' \<Longrightarrow> pa_type o' \<noteq> O_NONE ?E" for o'
        using less.prems by (auto simp: mem_kind_def words_ok_def)
      show ?thesis
        using inner kind less.hyps [OF _ less.prems] w None True
        by (auto simp: operandLoop.simps [of P line op] Let_def mem_kind_def split: sum.splits)
    qed
  qed
qed

lemma parseMemoryOperand_ends: "words_ok P \<Longrightarrow> ends (parseMemoryOperand P op line)"
  by (auto simp: parseMemoryOperand_def intro!: ends_bindF attrLoop_ends operandLoop_ends)

lemma op_word_ends: "words_ok P \<Longrightarrow> ends (op_word P seq ins ridx lp word pop)"
  by (auto simp: op_word_def Let_def intro!: ends_bindF parseMemoryOperand_ends split: prod.split)

lemma operand_turn_ends: "words_ok P \<Longrightarrow> ends (operand_turn P line ridx ib seq)"
  by (auto simp: operand_turn_def Let_def op_word_ends intro!: ends_bindF attrLoop_ends
      split: prod.split)

lemma operand_turn_shorter:
  assumes P: "words_ok P" and w: "found (firstword P line '','' ('', '' @ tab) False)"
    and turn: "operand_turn P line ridx ib seq = Inr (good, line2, ib', seq')"
  shows "length line2 < length line"
proof -
  let ?w = "\<lambda>l. firstword P l '','' ('', '' @ tab) False"
  obtain line1 pop1 where a: "attrLoop P op_attr (firstword P line ''}'' ('','' @ tab @ '' }'') True) line
        ((ib_ops ib ridx)\<lparr>po_szid := 0, po_cflags := PATTERN_CFLAG_NONE\<rparr>) = Inr (line1, pop1)"
      and l2: "line2 = trim P (drop (word_end P line1 (?w line1)) line1)"
    using turn by (auto simp: operand_turn_def Let_def bindF_Inr_eq split: prod.splits)
  show ?thesis
  proof (cases "line1 = line")
    case True
    then show ?thesis using cut_shorter [OF P w disjI1 [OF refl]] l2 by simp
  next
    case False
    then show ?thesis using attrLoop_line [OF a] trim_drop_le [OF P] le_less_trans l2 by blast
  qed
qed

lemma operandsLoop_ends: "words_ok P \<Longrightarrow> ends (operandsLoop P line ridx ib seq)"
proof (induction "length line" arbitrary: line ridx ib seq rule: less_induct)
  case less
  show ?case
    using less operand_turn_ends [OF less.prems, of line ridx ib seq]
      operand_turn_shorter [OF less.prems, of line ridx ib seq]
    by (cases "operand_turn P line ridx ib seq")
      (auto simp: operandsLoop.simps [of P line ridx])
qed

lemma parseInst_ends: "words_ok P \<Longrightarrow> ends (parseInst P seq ib line)"
  by (auto simp: parseInst_def Let_def case_prod_beta split: option.split
      intro!: ends_bindF prefixLoop_ends attrLoop_ends operandsLoop_ends)

lemma alternativesLoop_ends: "words_ok P \<Longrightarrow> ends (alternativesLoop P line ibs seq)"
proof (induction "length line" arbitrary: line ibs seq rule: less_induct)
  case less
  show ?case
    using less.hyps less.prems cut_shorter [OF less.prems _ disjI2 [OF refl], of line]
      parseInst_ends [OF less.prems]
    by (auto simp: alternativesLoop.simps [of P line ibs] Let_def ends_def split: sum.split)
qed

lemma replacementsLoop_ends: "words_ok P \<Longrightarrow> ends (replacementsLoop P line ibs seq)"
proof (induction "length line" arbitrary: line ibs seq rule: less_induct)
  case less
  show ?case
    using less.hyps less.prems cut_shorter [OF less.prems _ disjI2 [OF refl], of line]
      parseInst_ends [OF less.prems]
    by (auto simp: replacementsLoop.simps [of P line ibs] Let_def ends_def split: sum.split)
qed

lemma parseStatement_ends: "words_ok P \<Longrightarrow> ends (parseStatement P seq line replace)"
  by (auto simp: parseStatement_def Let_def case_prod_beta split: option.split
      intro!: ends_bindF parseInstOption_ends alternativesLoop_ends replacementsLoop_ends)

lemma parseAssign_ends: "words_ok P \<Longrightarrow> parseAssign P line = Some r \<Longrightarrow> ends r"
  by (auto simp: parseAssign_def parseMemoryExpress_def parseControlExpress_def Let_def
      split: if_splits intro!: ends_bindF parseMemoryOperand_ends mnemLoop_ends)

lemma parseLine_ends:
  assumes "words_ok P"
  shows "ends (parseLine P seq line)"
  using parseStatement_ends [OF assms] parseAssign_ends [OF assms]
  by (auto simp: parseLine_def Let_def case_prod_beta split: option.split intro!: ends_bindF)

lemma compile_ends: "words_ok P \<Longrightarrow> ends (compile P seq src)"
proof -
  assume P: "words_ok P"
  have "ends (compile_lines P ls seq)" for ls
    by (induction ls arbitrary: seq) (auto intro!: ends_bindF parseLine_ends [OF P])
  then show ?thesis by (simp add: compile_def)
qed

lemma parsePattern_ends: "words_ok P \<Longrightarrow> ends (parsePattern P eng src)"
  by (auto simp: parsePattern_def Let_def intro!: ends_bindF compile_ends)

lemma cut_loop_ends: "words_ok P \<Longrightarrow> ends (cut_loop P src is pos lns npa eng)"
  by (induction P src "is" pos lns npa eng rule: cut_loop.induct)
    (auto intro!: ends_bindF parsePattern_ends)

lemma loadPattern_ends: "words_ok P \<Longrightarrow> ends (loadPattern P eng src)"
  by (auto simp: loadPattern_def case_prod_beta intro!: ends_bindF cut_loop_ends parsePattern_ends)

section \<open>What is compiled is well formed\<close>

text \<open>Parsing an instruction adds dynamic operands to the pattern and nothing else.\<close>

definition same_body :: "patternSequence \<Rightarrow> patternSequence \<Rightarrow> bool" where
  "same_body s t \<longleftrightarrow> ps_insts t = ps_insts s \<and> ps_id t = ps_id s"

lemma same_body_refl [simp]: "same_body s s"
  by (simp add: same_body_def)

lemma same_body_trans: "same_body s t \<Longrightarrow> same_body t u \<Longrightarrow> same_body s u"
  by (simp add: same_body_def)

lemma op_word_body: "op_word P seq ins k lp word pop = Inr (g, p, i, seq') \<Longrightarrow> same_body seq seq'"
  by (auto simp: op_word_def Let_def bindF_Inr_eq same_body_def split: if_splits prod.splits)

lemma operand_turn_body:
  "operand_turn P line k ib seq = Inr (g, l, ib', seq') \<Longrightarrow> same_body seq seq'"
  by (auto simp: operand_turn_def Let_def bindF_Inr_eq dest: op_word_body split: if_splits prod.splits)

lemma operandsLoop_body:
  "operandsLoop P line k ib seq = Inr (st, ib', seq') \<Longrightarrow> same_body seq seq'"
proof (induction "length line" arbitrary: line k ib seq rule: less_induct)
  case less
  then show ?case
    by (cases "operand_turn P line k ib seq")
      (auto simp: operandsLoop.simps [of P line k] split: if_splits dest!: operand_turn_body
        intro: same_body_trans)
qed

lemma parseInst_body: "parseInst P seq ib line = Inr (st, ib', seq') \<Longrightarrow> same_body seq seq'"
  by (auto simp: parseInst_def Let_def bindF_Inr_eq dest: operandsLoop_body
      split: if_splits prod.splits option.splits)

lemma alternativesLoop_body:
  "alternativesLoop P line ibs seq = Inr (r, seq') \<Longrightarrow> same_body seq seq'"
proof (induction "length line" arbitrary: line ibs seq rule: less_induct)
  case less
  then show ?case
    by (auto simp: alternativesLoop.simps [of P line ibs] Let_def dest!: parseInst_body
        split: if_splits sum.splits prod.splits intro: same_body_trans)
qed

lemma replacementsLoop_body:
  "replacementsLoop P line ibs seq = Inr (r, seq') \<Longrightarrow> same_body seq seq'"
proof (induction "length line" arbitrary: line ibs seq rule: less_induct)
  case less
  then show ?case
    by (auto simp: replacementsLoop.simps [of P line ibs] Let_def dest!: parseInst_body
        split: if_splits sum.splits prod.splits intro: same_body_trans)
qed

text \<open>A line keeps the number of the pattern and adds well-formed statements only.\<close>

definition good_line :: "patternSequence \<Rightarrow> patternSequence \<Rightarrow> bool" where
  "good_line s t \<longleftrightarrow> ps_id t = ps_id s \<and> (compiled s \<longrightarrow> compiled t)"

lemma good_line_body: "same_body s t \<Longrightarrow> good_line s t"
  by (simp add: good_line_def same_body_def compiled_def)

lemma good_line_add: "same_body s t \<Longrightarrow> wf_stmt pi \<Longrightarrow> good_line s (add_stmt pi t)"
  by (auto simp: good_line_def same_body_def compiled_def add_stmt_def)

lemma optionWords_kind: "optionWords P na inst = Inr inst' \<Longrightarrow> pi_type inst' = pi_type inst"
proof (induction "length na" arbitrary: na inst rule: less_induct)
  case less
  then show ?case
    by (fastforce simp: optionWords.simps [of P na inst] Let_def repeat_branch_def
        split: if_splits prod.splits)
qed

lemma option_word_kind: "option_word P w inst = Inr inst' \<Longrightarrow> pi_type inst' = pi_type inst"
  by (auto simp: option_word_def dest: optionWords_kind split: if_splits)

lemma parseInstOption_kind: "parseInstOption P line inst = Inr inst' \<Longrightarrow> pi_type inst' = pi_type inst"
proof (induction "length line" arbitrary: line inst rule: less_induct)
  case less
  then show ?case
    by (fastforce simp: parseInstOption.simps [of P line inst] Let_def dest: option_word_kind
        split: if_splits sum.splits)
qed

lemma parseStatement_good: "parseStatement P seq line replace = Inr seq' \<Longrightarrow> good_line seq seq'"
  by (auto simp: parseStatement_def Let_def bindF_Inr_eq wf_stmt_def
      split: if_splits prod.splits option.splits
      dest!: alternativesLoop_body replacementsLoop_body parseInstOption_kind
      intro!: good_line_add intro: good_line_body same_body_trans)

lemma parseKeyword_good: "parseKeyword P seq line w = Some seq' \<Longrightarrow> good_line seq seq'"
  by (auto simp: parseKeyword_def Let_def good_line_def compiled_def split: if_splits)

lemma parseExpress_wf:
  "pi_type inst = pattern_inst_express \<Longrightarrow> \<not> fst (parseExpress P inst l) < 0
    \<Longrightarrow> wf_stmt (snd (parseExpress P inst l))"
  by (auto simp: parseExpress_def Let_def wf_stmt_def split: if_splits)

lemma parseMemoryExpress_wf:
  "parseMemoryExpress P inst l = Inr r \<Longrightarrow> pi_type inst = pattern_inst_memexpr \<Longrightarrow> \<not> fst r < 0
    \<Longrightarrow> wf_stmt (snd r)"
  by (auto simp: parseMemoryExpress_def Let_def bindF_Inr_eq wf_stmt_def split: if_splits)

lemma parseControlExpress_wf:
  "parseControlExpress P inst l = Inr r \<Longrightarrow> pi_type inst = pattern_inst_control \<Longrightarrow> wf_stmt (snd r)"
  by (auto simp: parseControlExpress_def Let_def bindF_Inr_eq wf_stmt_def split: if_splits)

lemma good_line_keep:
  "(\<not> fst r < 0 \<Longrightarrow> wf_stmt (snd r)) \<Longrightarrow> good_line s (if fst r < 0 then s else add_stmt (snd r) s)"
  by (simp add: good_line_add good_line_body)

lemma parseAssign_wf:
  assumes "parseAssign P line = Some (Inr (st, pi))" "\<not> st < 0"
  shows "wf_stmt pi"
proof -
  let ?new = "\<lambda>t. (new_patternInst (garbage P) (garbage P))\<lparr>pi_type := t\<rparr>"
  consider "(st, pi) = parseExpress P (?new pattern_inst_express) line"
    | "parseMemoryExpress P (?new pattern_inst_memexpr) line = Inr (st, pi)"
    | "parseControlExpress P (?new pattern_inst_control) line = Inr (st, pi)"
    using assms(1) by (auto simp: parseAssign_def Let_def split: if_splits)
  then show ?thesis
  proof cases
    case 1
    then show ?thesis
      using assms(2) parseExpress_wf [of "?new pattern_inst_express" P line]
      by (metis fst_conv patternInst.select_convs(1) patternInst.surjective patternInst.update_convs(1)
          snd_conv)
  next
    case 2
    then show ?thesis using assms(2) parseMemoryExpress_wf [OF 2] by simp
  next
    case 3
    then show ?thesis using parseControlExpress_wf [OF 3] by simp
  qed
qed

lemma parseLine_good: "parseLine P seq lpline = Inr seq' \<Longrightarrow> good_line seq seq'"
  by (auto simp: parseLine_def Let_def bindF_Inr_eq case_prod_beta
      split: if_split_asm option.split_asm
      dest: parseKeyword_good parseStatement_good parseAssign_wf
      intro: good_line_body good_line_add [OF same_body_refl])

lemma compile_good:
  assumes "compile P seq src = Inr seq'"
  shows "good_line seq seq'"
proof -
  have "compile_lines P ls seq = Inr seq' \<Longrightarrow> good_line seq seq'" for ls
  proof (induction ls arbitrary: seq)
    case (Cons l ls)
    then show ?case
      by (auto simp: bindF_Inr_eq good_line_def split: if_splits dest!: parseLine_good)
  qed (simp add: good_line_body)
  then show ?thesis using assms by (simp add: compile_def)
qed

text \<open>
  The patterns of an engine that was filled by loading: numbered from 0 in order, each under its
  own number, each with well-formed statements.
\<close>

definition loaded :: "patternEngine \<Rightarrow> bool" where
  "loaded eng \<longleftrightarrow> map fst (pe_patterns eng) = map int [0..<length (pe_patterns eng)]
     \<and> (\<forall>e \<in> set (pe_patterns eng). ps_id (snd e) = fst e \<and> compiled (snd e))"

lemma parsePattern_loaded:
  assumes "loaded eng" "parsePattern P eng src = Inr eng'"
  shows "loaded eng'"
proof -
  let ?new = "(new_patternSequence (garbage P) None)\<lparr>ps_id := int (length (pe_patterns eng))\<rparr>"
  have "compiled ?new" by (simp add: compiled_def new_patternSequence_def)
  then have "ps_id q = int (length (pe_patterns eng)) \<and> compiled q" if "compile P ?new src = Inr q" for q
    using compile_good [OF that] by (simp add: good_line_def)
  then show ?thesis using assms
    by (auto simp: parsePattern_def Let_def bindF_Inr_eq loaded_def split: if_splits)
qed

lemma cut_loop_loaded:
  "cut_loop P src is pos lns npa eng = Inr (p, n, eng') \<Longrightarrow> loaded eng \<Longrightarrow> loaded eng'"
proof (induction "is" arbitrary: pos lns npa eng)
  case (Cons i "is")
  show ?case
  proof (cases "src ! i = CHR 0x0A \<and> 5 \<le> i - lns \<and> is_dashes (drop lns src)")
    case True
    then obtain e where "parsePattern P eng (take (i - pos) (drop pos src)) = Inr e"
        "cut_loop P src is i (i + 1) (npa + 1) e = Inr (p, n, eng')"
      using Cons.prems(1) by (auto simp: bindF_Inr_eq)
    then show ?thesis using Cons.IH parsePattern_loaded [OF Cons.prems(2)] by blast
  next
    case False
    then obtain l where "cut_loop P src is pos l npa eng = Inr (p, n, eng')"
      using Cons.prems(1) by (auto split: if_splits)
    then show ?thesis using Cons.IH Cons.prems(2) by blast
  qed
qed simp

lemma loadPattern_loaded:
  "loadPattern P eng src = Inr (n, eng') \<Longrightarrow> loaded eng \<Longrightarrow> loaded eng'"
  by (auto simp: loadPattern_def bindF_Inr_eq intro: parsePattern_loaded cut_loop_loaded)

lemma loaded_empty [simp]: "loaded (clearPatterns eng)"
  by (simp add: loaded_def clearPatterns_def)

lemma loaded_compiled: "loaded eng \<Longrightarrow> \<forall>s \<in> snd ` set (pe_patterns eng). compiled s"
  by (auto simp: loaded_def)

text \<open>\<open>getPattern\<close> finds the pattern at its position.\<close>

lemma getPattern_loaded:
  assumes "loaded eng" "i < length (pe_patterns eng)"
  shows "getPattern eng (int i) = Some (seq_at eng i)" "ps_id (seq_at eng i) = int i"
proof -
  have key: "fst (pe_patterns eng ! j) = int j" if "j < length (pe_patterns eng)" for j
    using arg_cong [where f = "\<lambda>xs. xs ! j", OF conjunct1 [OF assms(1) [unfolded loaded_def]]] that
    by simp
  have d: "distinct (map fst (pe_patterns eng))"
    using assms(1) by (simp add: loaded_def distinct_map)
  have mem: "pe_patterns eng ! i \<in> set (pe_patterns eng)" using assms(2) by simp
  then show "getPattern eng (int i) = Some (seq_at eng i)"
    using map_of_is_SomeI [OF d, of "int i"] key [OF assms(2)]
    by (metis getPattern_def prod.collapse seq_at_def)
  show "ps_id (seq_at eng i) = int i"
    using assms(1) mem key [OF assms(2)] by (auto simp: loaded_def seq_at_def)
qed

text \<open>Loading only appends.\<close>

lemma parsePattern_appends:
  "parsePattern P eng src = Inr eng' \<Longrightarrow>
    \<exists>ps. pe_patterns eng' = pe_patterns eng @ ps \<and> length ps \<le> 1 \<and> pe_seqList eng' = pe_seqList eng"
  by (auto simp: parsePattern_def Let_def bindF_Inr_eq split: if_splits)

lemma cut_loop_appends:
  "cut_loop P src is pos lns npa eng = Inr (p, n, eng') \<Longrightarrow>
    \<exists>ps. pe_patterns eng' = pe_patterns eng @ ps \<and> int (length ps) \<le> n - npa \<and> pe_seqList eng' = pe_seqList eng"
proof (induction "is" arbitrary: pos lns npa eng)
  case (Cons i "is")
  show ?case
  proof (cases "src ! i = CHR 0x0A \<and> 5 \<le> i - lns \<and> is_dashes (drop lns src)")
    case True
    then obtain e where e: "parsePattern P eng (take (i - pos) (drop pos src)) = Inr e"
        "cut_loop P src is i (i + 1) (npa + 1) e = Inr (p, n, eng')"
      using Cons.prems by (auto simp: bindF_Inr_eq)
    show ?thesis using parsePattern_appends [OF e(1)] Cons.IH [OF e(2)] by auto
  next
    case False
    then obtain l where "cut_loop P src is pos l npa eng = Inr (p, n, eng')"
      using Cons.prems by (auto split: if_splits)
    then show ?thesis by (rule Cons.IH)
  qed
qed simp

lemma loadPattern_appends:
  assumes "loadPattern P eng src = Inr (n, eng')"
  shows "\<exists>ps. pe_patterns eng' = pe_patterns eng @ ps \<and> int (length ps) \<le> n \<and> pe_seqList eng' = pe_seqList eng"
proof -
  obtain p m e where m: "cut_loop P src [0..<length src] 0 0 0 eng = Inr (p, m, e)"
      "parsePattern P e (drop p src) = Inr eng'" "n = m + 1"
    using assms by (auto simp: loadPattern_def bindF_Inr_eq)
  show ?thesis using cut_loop_appends [OF m(1)] parsePattern_appends [OF m(2)] m(3) by auto
qed

end
