(* ===== verification/MatcherFacts.thy ===== *)
theory MatcherFacts
  imports PatternSeq
begin

text \<open>
  What the matcher does to its variables and counters: a variable bound by a match holds the operand it was
  matched with, a failed look-ahead is rolled back, and a statement is not left before its lower bound.
\<close>

section \<open>Binding\<close>

lemma add_var_bound:
  "add_var crt k v = Inr (u, crt') \<Longrightarrow> crt_vars crt' = (crt_vars crt)(k \<mapsto> v)"
  by (auto simp: add_var_def note_var_def set_var_def split: if_splits)

lemma checkAndSaveVar_reg_binds:
  assumes "checkAndSaveVar_reg E crt pop iop = Inr (st, crt')" "0 \<le> st" "\<not> ref_or_noref pop"
  shows "\<exists>v. crt_vars crt' (varid (po_type pop) (po_id pop)) = Some v
    \<and> pa_base v = xo_index iop \<and> pa_size v = xo_size iop"
  using assms
  by (auto simp: checkAndSaveVar_reg_def Let_def ref_or_noref_def bindS_Inr_eq
      split: option.splits if_splits dest!: add_var_bound)

lemma checkAndSaveVar_imm_binds:
  assumes "checkAndSaveVar_imm E crt pop ins iop = Inr (st, crt')" "0 \<le> st" "\<not> ref_or_noref pop"
  shows "\<exists>v. crt_vars crt' (varid (po_type pop) (po_id pop)) = Some v
    \<and> pa_imm v = xi_imm ins \<and> pa_size v = xo_size iop"
  using assms
  by (auto simp: checkAndSaveVar_imm_def Let_def ref_or_noref_def bindS_Inr_eq
      split: option.splits if_splits dest!: add_var_bound)

section \<open>The shape of a match\<close>

text \<open>
  A match of a statement ends with the table the alternatives left behind, and counts the statement if one of
  them matched.
\<close>

definition counted :: "patternInst \<Rightarrow> patternInst" where
  "counted pi = pi\<lparr>pi_matched_count := pi_matched_count pi + 1\<rparr>"

lemma isMatchInst_shape:
  fixes s i
  defines "c0 \<equiv> (ps_crt s)\<lparr>crt_nvars := []\<rparr>"
  assumes run: "isMatchInst E s i ins esp efl = Inr (st, s')"
  shows "\<exists>crt'. (crt' = c0 \<or> (\<exists>r. loopS (matchAlternative E ins) (pi_insts (ps_insts s ! i)) c0 = Inr (r, crt')))
    \<and> s' = (if 0 \<le> st then upd_inst (s\<lparr>ps_crt := crt'\<rparr>) i counted else s\<lparr>ps_crt := crt'\<rparr>)"
proof -
  let ?pi = "ps_insts s ! i"
  let ?guard = "(has (pi_flags ?pi) PATTERN_FLAG_NOESPCHANGE \<and> esp)
    \<or> (has (pi_flags ?pi) PATTERN_FLAG_NOEFLAGSCHG \<and> efl)
    \<or> (has (pi_flags ?pi) PATTERN_CFLAG_16BIT \<and> xi_size ins \<noteq> 0)
    \<or> (has (pi_flags ?pi) PATTERN_CFLAG_32BIT \<and> xi_size ins \<noteq> 1)
    \<or> (has (pi_flags ?pi) PATTERN_CFLAG_64BIT \<and> xi_size ins \<noteq> 2)"
  have seq: "upd_crt s (\<lambda>crt. crt\<lparr>crt_nvars := []\<rparr>) = s\<lparr>ps_crt := c0\<rparr>" by (simp add: upd_crt_def c0_def)
  show ?thesis
  proof (cases ?guard)
    case True
    then have "st < 0 \<and> s' = s\<lparr>ps_crt := c0\<rparr>"
      using run unfolding isMatchInst_def Let_def seq by (simp split: if_split_asm)
    then show ?thesis by auto
  next
    case False
    then have body: "bindS (on_crt (s\<lparr>ps_crt := c0\<rparr>) (loopS (matchAlternative E ins) (pi_insts ?pi) c0))
        (\<lambda>r seq'. if r = Some True then Inr (1, upd_inst seq' i counted) else Inr (-1, seq')) = Inr (st, s')"
    proof -
      have "\<not> (has (pi_flags ?pi) PATTERN_FLAG_NOESPCHANGE \<and> esp)"
          "\<not> (has (pi_flags ?pi) PATTERN_FLAG_NOEFLAGSCHG \<and> efl)"
          "\<not> (has (pi_flags ?pi) PATTERN_CFLAG_16BIT \<and> xi_size ins \<noteq> 0)"
          "\<not> (has (pi_flags ?pi) PATTERN_CFLAG_32BIT \<and> xi_size ins \<noteq> 1)"
          "\<not> (has (pi_flags ?pi) PATTERN_CFLAG_64BIT \<and> xi_size ins \<noteq> 2)"
        using False by blast+
      then show ?thesis
        using run unfolding isMatchInst_def Let_def seq counted_def [abs_def]
        by (simp del: de_Morgan_conj)
    qed
    obtain r crt' where l: "loopS (matchAlternative E ins) (pi_insts ?pi) c0 = Inr (r, crt')"
      using body by (cases "loopS (matchAlternative E ins) (pi_insts ?pi) c0") (auto simp: on_crt_def)
    then have "(if r = Some True then Inr (1, upd_inst (s\<lparr>ps_crt := crt'\<rparr>) i counted)
        else Inr (-1, s\<lparr>ps_crt := crt'\<rparr>)) = (Inr (st, s') :: (int, patternSequence) outcome)"
      using body by (simp add: on_crt_def)
    then show ?thesis using l by (intro exI [of _ crt']) (simp split: if_split_asm)
  qed
qed

section \<open>Rolling back\<close>

definition plain_stmt :: "patternInst \<Rightarrow> bool" where
  "plain_stmt pi \<longleftrightarrow> (\<forall>ib \<in> set (pi_insts pi). \<forall>i. po_type (ib_ops ib i) \<noteq> pattern_op_memexpr)"

lemma fold_remove: "fold (\<lambda>k m. m(k := None)) ks m = m |` (- set ks)"
  by (induction ks arbitrary: m) (auto simp: restrict_map_def fun_eq_iff)

lemma remove_noted: "noted_new vars0 crt \<Longrightarrow> crt_vars (remove_new_vars crt) = vars0"
  by (simp add: remove_new_vars_def fold_remove noted_new_def)

lemma isMatchInst_notes:
  assumes "isMatchInst E s j ins esp efl = Inr (st, s1)" "plain_stmt (ps_insts s ! j)"
  shows "noted_new (crt_vars (ps_crt s)) (ps_crt s1)"
proof -
  let ?c = "(ps_crt s)\<lparr>crt_nvars := []\<rparr>" and ?v = "crt_vars (ps_crt s)"
  have "crt_vars (ps_crt s) |` UNIV = crt_vars (ps_crt s)" by (simp add: restrict_map_def fun_eq_iff)
  then have start: "noted_new ?v ?c" by (simp add: noted_new_def)
  have ops: "save_ok (noted_new ?v) E (ib_ops ib i) ins"
    if "ib \<in> set (pi_insts (ps_insts s ! j))" for ib i
    using assms(2) that by (simp add: plain_stmt_def)
  have after: "keeps (noted_new ?v) (\<lambda>_. True)
      (loopS (matchAlternative E ins) (pi_insts (ps_insts s ! j)) ?c)"
    by (rule noting.frame_alternatives [OF start ops])
  obtain crt' where crt': "crt' = ?c \<or> (\<exists>r. loopS (matchAlternative E ins) (pi_insts (ps_insts s ! j)) ?c = Inr (r, crt'))"
      "ps_crt s1 = crt'"
    using isMatchInst_shape [OF assms(1)] by (auto simp: upd_inst_def split: if_splits)
  then show ?thesis using start keeps_InrD [OF after] by auto
qed

lemma matched_step_rollback:
  assumes "has (pi_flags (ps_insts s ! i)) PATTERN_FLAG_LESSMATCH"
    and "pi_matched_count (ps_insts s ! i) \<noteq> pi_maxc (ps_insts s ! i)"
    and "next_inst s i = Some j" "plain_stmt (ps_insts s ! j)"
    and "isMatchInst E s j ins esp efl = Inr (st, s1)" "st < 0"
  shows "\<exists>s'. matched_step E s i ins esp efl ud = Inr ((), s')
    \<and> crt_vars (ps_crt s') = crt_vars (ps_crt s) \<and> crt_inst (ps_crt s') = crt_inst (ps_crt s1)"
proof -
  have "crt_vars (remove_new_vars (ps_crt s1)) = crt_vars (ps_crt s)"
    by (rule remove_noted [OF isMatchInst_notes [OF assms(5,4)]])
  then show ?thesis
    using assms by (simp add: matched_step_def upd_crt_def) (simp add: remove_new_vars_def)
qed

text \<open>
  The base register of a memory expression is bound without a note, so no rollback takes it out again.
\<close>

lemma saveMemoryExprVar_unnoted:
  assumes "crt_opvars crt (po_id pop) = Some op" "op_varid_base \<le> pa_base op"
    and "pa_dispvar op < op_varid_base" "pa_size op < op_varid_base" "pa_index op < op_varid_base"
    and "crt_vars crt (pa_base op) = None" "vars_resolved crt" "env_small E" "po_szid pop = 0"
    and "small_operand iop" "xi_base ins < op_varid_base"
  shows "\<exists>crt'. saveMemoryExprVar E crt pop ins iop = Inr (0, crt')
    \<and> crt_vars crt' (pa_base op) \<noteq> None \<and> crt_nvars crt' = crt_nvars crt"
proof -
  let ?v = "(new_pasm_operand E)\<lparr>pa_type := O_REG E,
    pa_base := (if xo_type iop = O_MEM E then xi_base ins else xo_index iop)\<rparr>"
  let ?c = "set_var crt (pa_base op) ?v"
  have "resolved ?v"
    using assms(8,10,11) by (simp add: resolved_def new_pasm_operand_def env_small_def small_operand_def
        op_varid_base_def)
  then have "vars_resolved ?c" using assms(7) by blast
  then have "resolveVar ?c op0 pop = Inr (resolve1 ?c pop op0)" for op0
    using assms(9) by (intro resolveVar_resolve1) simp_all
  then show ?thesis
    using assms(1-6)
    by (simp add: saveMemoryExprVar_def Let_def save_noted_def save_unnoted_def)
      (simp add: set_var_def)
qed

section \<open>Repetition\<close>

lemma isMatchInst_position:
  assumes "isMatchInst E s i ins esp efl = Inr (st, s')"
  shows "crt_inst (ps_crt s') = crt_inst (ps_crt s)"
  using isMatchInst_shape [OF assms] by (auto simp: upd_inst_def dest: alternatives_position)

text \<open>How the counters move: the statement's own by one with a match, no other one.\<close>

lemma isMatchInst_stmts:
  assumes "isMatchInst E s i ins esp efl = Inr (st, s')"
  shows "ps_insts s' = (if 0 \<le> st then (ps_insts s)[i := counted (ps_insts s ! i)] else ps_insts s)"
  using isMatchInst_shape [OF assms] by (auto simp: upd_inst_def)

lemma testForInstruction_minc:
  assumes run: "testForInstruction E s i ins esp efl ud = Inr (st, s')" and ok: "0 \<le> st"
    and i: "i < length (ps_insts s)" and at: "crt_inst (ps_crt s) = Some i"
    and m: "isMatchInst E s i ins esp efl = Inr (st1, s1)"
    and less: "pi_matched_count (ps_insts s1 ! i) < pi_minc (ps_insts s ! i)"
  shows "crt_inst (ps_crt s') = Some i \<and> 0 \<le> st1
    \<and> pi_matched_count (ps_insts s' ! i) = pi_matched_count (ps_insts s ! i) + 1"
proof -
  have pos: "crt_inst (ps_crt s1) = Some i" using isMatchInst_position [OF m] at by simp
  have cnt: "ps_insts s1 = (if 0 \<le> st1 then (ps_insts s)[i := counted (ps_insts s ! i)] else ps_insts s)"
    by (rule isMatchInst_stmts [OF m])
  then have minc: "pi_minc (ps_insts s1 ! i) = pi_minc (ps_insts s ! i)"
    and len: "i < length (ps_insts s1)" using i by (simp_all add: counted_def)
  have yes: "0 \<le> st1"
  proof (rule ccontr)
    assume "\<not> 0 \<le> st1"
    then show False using run m less minc ok by (simp add: testForInstruction_def)
  qed
  then have "s' = upd_inst s1 i (\<lambda>p. p\<lparr>pi_userdata := ud\<rparr>)"
    using run m less minc len by (simp add: testForInstruction_def upd_inst_def)
  then show ?thesis using pos cnt yes len i by (simp add: upd_inst_def counted_def)
qed

end
