(* ===== verification/Deobfuscate.thy ===== *)
theory Deobfuscate
  imports PatternEngine PatternReplace TraceCPU "HOL-Library.Sublist"
begin

text \<open>
  Running the patterns over a trace (\<open>xVMDebugCPU::doDeObfuscatePattern\<close> and
  \<open>matchCodeDNA\<close>, in \<open>xvmdebugcpu.cpp\<close>): at every record a match is started; when a pattern is
  complete its replacement instructions are inserted after the records they replace, which are
  flagged and erased at the end.
\<close>

section \<open>Walking a trace\<close>

text \<open>
  The order of a walk: forward, or backward when the patterns are matched in reverse.
\<close>

definition ids_of :: "bool \<Rightarrow> InstSequence \<Rightarrow> nat list" where
  "ids_of reserve seq =
     (if reserve then rev (map fst (is_nodes seq)) else map fst (is_nodes seq))"

definition step_rec :: "bool \<Rightarrow> InstSequence \<Rightarrow> nat \<Rightarrow> nat option" where
  "step_rec reserve seq n = (if reserve then rec_prev seq n else rec_next seq n)"

definition start_rec :: "bool \<Rightarrow> InstSequence \<Rightarrow> nat option" where
  "start_rec reserve seq = (if reserve then rec_last seq else rec_first seq)"

definition isEspChanged :: "TraceRecordEx \<Rightarrow> bool" where
  "isEspChanged tr \<longleftrightarrow> tr_regs (tx_ctx1 tr) ! 4 \<noteq> tr_regs (tx_ctx2 tr) ! 4"

definition isEflagsChanged :: "TraceRecordEx \<Rightarrow> bool" where
  "isEflagsChanged tr \<longleftrightarrow> tr_eflags (tx_ctx1 tr) \<noteq> tr_eflags (tx_ctx2 tr)"

definition opcode_of :: "TraceRecordEx \<Rightarrow> byte list" where
  "opcode_of tr = take (nat (tr_szOP (tx_ctx1 tr))) (tr_opcode (tx_ctx1 tr))"

text \<open>
  The inner loop, along the records from the start of the match (the trace does not change in it):
  the record that completed a pattern, with the pattern; \<open>None\<close> when no pattern is left or the
  trace ends.
\<close>

fun matchRun ::
  "x86_env \<Rightarrow> InstSequence \<Rightarrow> nat list \<Rightarrow> patternEngine
    \<Rightarrow> ((nat \<times> nat) option, patternEngine) outcome" where
  "matchRun E seq [] eng = Inr (None, eng)"
| "matchRun E seq (n # ns) eng =
     (case rec_at seq n of
        None \<Rightarrow> Inl Null_deref
      | Some tr \<Rightarrow>
          bindS (testInstruction E eng (opcode_of tr) (tr_rip (tx_ctx1 tr)) (isEspChanged tr)
                   (isEflagsChanged tr) (Some n)) (\<lambda>r eng'.
            if fst r < 0 then Inr (None, eng')
            else case snd r of
                Some i \<Rightarrow> if fst r = 1 then Inr (Some (n, i), eng') else matchRun E seq ns eng'
              | None \<Rightarrow> matchRun E seq ns eng'))"

section \<open>Replacing\<close>

text \<open>
  The state of a replacement: the engine, the trace, the record after which the next instruction is
  inserted (\<open>trprev\<close>), and whether anything was replaced (\<open>lessone\<close>).
\<close>

type_synonym rep_state = "patternEngine \<times> InstSequence \<times> nat \<times> bool"

definition new_record :: "TraceRecordEx \<Rightarrow> byte list \<Rightarrow> TraceRecordEx" where
  "new_record tr bytes =
     tr\<lparr>tx_ctx1 := (tx_ctx1 tr)\<lparr>tr_opcode := bytes @ drop (length bytes) (tr_opcode (tx_ctx1 tr)),
                               tr_szOP := int (length bytes)\<rparr>\<rparr>"

definition replaceOne ::
  "x86_env \<Rightarrow> nat \<Rightarrow> nat \<Rightarrow> pattern_inst_body \<Rightarrow> rep_state \<Rightarrow> (unit option, rep_state) outcome" where
  "replaceOne E i trp rpi st =
     (case st of (eng, seq, trprev, lessone) \<Rightarrow>
        if xi_opcode (ib_ins rpi) = I_NOP E then Inr (None, (eng, seq, trprev, True))
        else case rec_at seq trp of
            None \<Rightarrow> Inl Null_deref
          | Some tr \<Rightarrow>
              bindS (genReplaceOpcode E (seq_at eng i) rpi (tr_szOP (tx_ctx1 tr))) (\<lambda>r s.
                let eng' = upd_seq eng i (\<lambda>_. s)
                in case r of
                     Inr bytes \<Rightarrow>
                       if 0 < length bytes
                       then (let (n, seq') = add_after trprev (new_record tr bytes) seq
                             in Inr (None, (eng', seq', n, True)))
                       else Inr (None, (eng', seq, trprev, lessone))
                   | Inl code \<Rightarrow> Inr (None, (eng', seq, trprev, lessone))))"

definition replaceStmt ::
  "x86_env \<Rightarrow> 32 word \<Rightarrow> nat \<Rightarrow> patternInst \<Rightarrow> patternEngine \<times> InstSequence
    \<Rightarrow> (unit option, patternEngine \<times> InstSequence) outcome" where
  "replaceStmt E del i pi st =
     (case pi_userdata pi of
        None \<Rightarrow> Inr (None, st)
      | Some trp \<Rightarrow>
          bindS (loopS (replaceOne E i trp) (pi_rps pi) (fst st, snd st, trp, False)) (\<lambda>_ st'.
            case st' of (eng, seq, trprev, lessone) \<Rightarrow>
              Inr (None, (eng,
                if lessone then upd_rec trp (\<lambda>tr. tr\<lparr>tx_flags := tx_flags tr OR del\<rparr>) seq else seq))))"

definition replaceAll ::
  "x86_env \<Rightarrow> 32 word \<Rightarrow> nat \<Rightarrow> patternEngine \<times> InstSequence
    \<Rightarrow> (unit option, patternEngine \<times> InstSequence) outcome" where
  "replaceAll E del i st = loopS (replaceStmt E del i) (ps_insts (seq_at (fst st) i)) st"

section \<open>The loop over the trace\<close>

text \<open>
  After a match the loop variable is moved to the record after the last matched one and then, by the
  loop itself, once more; at the end of the trace that is \<open>next(0)\<close>, whose effect the
  container library decides (\<open>nxt0\<close>). The flag of the result tells the end of the loop from the early
  \<open>return 0\<close>.
\<close>

partial_function (option) deobLoop ::
  "x86_env \<Rightarrow> 32 word \<Rightarrow> fault + nat option \<Rightarrow> bool \<Rightarrow> nat option \<Rightarrow> patternEngine \<Rightarrow> InstSequence
    \<Rightarrow> (bool, patternEngine \<times> InstSequence) outcome option" where
  "deobLoop E del nxt0 reserve tr eng seq =
     (case tr of
        None \<Rightarrow> Some (Inr (True, (eng, seq)))
      | Some n \<Rightarrow>
          (case initForTest reserve eng of
             Inl f \<Rightarrow> Some (Inl f)
           | Inr (nseq, eng1) \<Rightarrow>
               if nseq < 1 then Some (Inr (False, (eng1, seq)))
               else (case matchRun E seq (dropWhile (\<lambda>m. m \<noteq> n) (ids_of reserve seq)) eng1 of
                       Inl f \<Rightarrow> Some (Inl f)
                     | Inr (None, eng2) \<Rightarrow>
                         deobLoop E del nxt0 reserve (step_rec reserve seq n) eng2 seq
                     | Inr (Some (m, i), eng2) \<Rightarrow>
                         (case replaceAll E del i (eng2, seq) of
                            Inl f \<Rightarrow> Some (Inl f)
                          | Inr (_, (eng3, seq3)) \<Rightarrow>
                              (case step_rec reserve seq m of
                                 None \<Rightarrow>
                                   (case nxt0 of Inl f \<Rightarrow> Some (Inl f)
                                    | Inr t \<Rightarrow> deobLoop E del nxt0 reserve t eng3 seq3)
                               | Some k \<Rightarrow>
                                   deobLoop E del nxt0 reserve (step_rec reserve seq3 k) eng3 seq3)))))"

declare deobLoop.simps [code]

definition doDeObfuscatePattern ::
  "x86_env \<Rightarrow> 32 word \<Rightarrow> fault + nat option \<Rightarrow> patternEngine \<Rightarrow> InstSequence \<Rightarrow> bool
    \<Rightarrow> (int, patternEngine \<times> InstSequence) outcome" where
  "doDeObfuscatePattern E del nxt0 pasm seq reserve =
     (case deobLoop E del nxt0 reserve (start_rec reserve seq) pasm seq of
        None \<Rightarrow> Inl Diverges
      | Some m \<Rightarrow> bindS m (\<lambda>done st.
          if done then (let (nc, seq') = deleteFlagedInSeq del (snd st) in Inr (nc, (fst st, seq')))
          else Inr (0, st)))"

definition matchCodeDNA ::
  "x86_env \<Rightarrow> patternEngine \<Rightarrow> InstSequence \<Rightarrow> bool \<Rightarrow> (int, patternEngine) outcome" where
  "matchCodeDNA E pasm seq reserve =
     bindS (initForTest reserve pasm) (\<lambda>nseq eng.
       if nseq < 1 then Inr (-2, eng)
       else bindS (matchRun E seq (ids_of reserve seq) eng) (\<lambda>r eng'.
         case r of Some (n, i) \<Rightarrow> Inr (ps_id (seq_at eng' i), eng') | None \<Rightarrow> Inr (-1, eng')))"

section \<open>What happens to the records\<close>

text \<open>
  The records a trace had before number \<open>b\<close> was handed out, without the flag \<open>del\<close>: replacing
  neither moves, changes nor removes them, it inserts records with newer numbers and sets the flag.
\<close>

definition unflag :: "32 word \<Rightarrow> TraceRecordEx \<Rightarrow> TraceRecordEx" where
  "unflag del tr = tr\<lparr>tx_flags := tx_flags tr AND NOT del\<rparr>"

definition originals :: "32 word \<Rightarrow> nat \<Rightarrow> InstSequence \<Rightarrow> (nat \<times> TraceRecordEx) list" where
  "originals del b seq =
     map (\<lambda>e. (fst e, unflag del (snd e))) (filter (\<lambda>e. fst e < b) (is_nodes seq))"

definition grown_from :: "32 word \<Rightarrow> InstSequence \<Rightarrow> InstSequence \<Rightarrow> bool" where
  "grown_from del seq0 seq \<longleftrightarrow> nodes_ok seq \<and> is_fresh seq0 \<le> is_fresh seq
     \<and> originals del (is_fresh seq0) seq = originals del (is_fresh seq0) seq0"

lemma grown_from_refl: "nodes_ok seq \<Longrightarrow> grown_from del seq seq"
  by (simp add: grown_from_def)

lemma grown_add_after:
  assumes "grown_from del seq0 seq"
  shows "grown_from del seq0 (snd (add_after n tr seq))"
proof -
  obtain xs ys where s: "is_nodes seq = xs @ ys"
      "\<And>tr. is_nodes (snd (add_after n tr seq)) = xs @ (is_fresh seq, tr) # ys"
    using nodes_split [where n = n and seq = seq] by blast
  have "is_fresh (snd (add_after n tr seq)) = is_fresh seq + 1"
    by (simp add: add_after_def Let_def)
  then show ?thesis using assms s
    by (auto simp: grown_from_def originals_def)
qed

lemma unflag_flag [simp]: "unflag del (tr\<lparr>tx_flags := tx_flags tr OR del\<rparr>) = unflag del tr"
  by (simp add: unflag_def bit.conj_disj_distrib2)

lemma grown_flag:
  assumes "grown_from del seq0 seq"
  shows "grown_from del seq0 (upd_rec n (\<lambda>tr. tr\<lparr>tx_flags := tx_flags tr OR del\<rparr>) seq)"
proof -
  have "originals del b (upd_rec n (\<lambda>tr. tr\<lparr>tx_flags := tx_flags tr OR del\<rparr>) seq) = originals del b seq"
    for b
    by (simp add: originals_def upd_rec_def filter_map comp_def)
      (auto intro!: arg_cong2 [of _ _ _ _ map] filter_cong simp: map_eq_conv split: if_splits)
  then show ?thesis using assms by (auto simp: grown_from_def)
qed

section \<open>A replacement does not touch what is still to be walked\<close>

lemma ids_of_distinct: "nodes_ok seq \<Longrightarrow> distinct (ids_of reserve seq)"
  by (simp add: ids_of_def nodes_ok_def)

lemma ids_of_upd_rec [simp]: "ids_of reserve (upd_rec n f seq) = ids_of reserve seq"
  by (simp add: ids_of_def)

lemma succ_in_split:
  "distinct (xs @ n # ys) \<Longrightarrow> succ_in (xs @ n # ys) n = hd_opt ys"
proof (induction xs)
  case Nil
  then show ?case by (cases ys) simp_all
next
  case (Cons x xs)
  then show ?case by (cases xs) auto
qed

lemma step_rec_ids: "step_rec reserve seq n = succ_in (ids_of reserve seq) n"
  by (simp add: step_rec_def rec_prev_def rec_next_def ids_of_def)

lemma start_rec_ids: "start_rec reserve seq = hd_opt (ids_of reserve seq)"
proof (cases reserve)
  case True
  then show ?thesis
    by (cases "rev (is_nodes seq)") (simp_all add: start_rec_def rec_last_def ids_of_def rev_map)
next
  case False
  then show ?thesis
    by (cases "is_nodes seq") (simp_all add: start_rec_def rec_first_def ids_of_def)
qed

text \<open>
  \<open>ahead reserve seq U Q\<close>: the walk has the records \<open>Q\<close> before it and the records \<open>U\<close> behind it.
\<close>

definition ahead :: "bool \<Rightarrow> InstSequence \<Rightarrow> nat set \<Rightarrow> nat list \<Rightarrow> bool" where
  "ahead reserve seq U Q \<longleftrightarrow> nodes_ok seq \<and> (\<exists>X. ids_of reserve seq = X @ Q \<and> U \<subseteq> set X)"

lemma takeWhile_ids:
  assumes "map fst es = X @ n # Y" "n \<notin> set X"
  shows "map fst (takeWhile (\<lambda>e. fst e \<noteq> n) es) = X"
    and "map fst (take 1 (dropWhile (\<lambda>e. fst e \<noteq> n) es)) = [n]"
    and "map fst (drop 1 (dropWhile (\<lambda>e. fst e \<noteq> n) es)) = Y"
  using assms by (induction es arbitrary: X) (auto simp: Cons_eq_append_conv)

lemma ids_add_after:
  assumes "nodes_ok seq" "map fst (is_nodes seq) = X @ n # Y"
  shows "map fst (is_nodes (snd (add_after n tr seq))) = X @ n # is_fresh seq # Y"
proof -
  have "n \<notin> set X" using assms by (simp add: nodes_ok_def)
  note t = takeWhile_ids [OF assms(2) this]
  show ?thesis using t by (simp add: add_after_def Let_def)
qed

lemma ahead_add_after:
  assumes "ahead reserve seq U Q" "n \<in> U"
  shows "ahead reserve (snd (add_after n tr seq)) (insert (fst (add_after n tr seq)) U) Q"
proof -
  obtain X where X: "ids_of reserve seq = X @ Q" "U \<subseteq> set X" and ok: "nodes_ok seq"
    using assms(1) by (auto simp: ahead_def)
  obtain X1 X2 where n: "X = X1 @ n # X2" using X(2) assms(2) by (meson in_mono split_list)
  have "\<exists>X'. ids_of reserve (snd (add_after n tr seq)) = X' @ Q \<and> insert (is_fresh seq) U \<subseteq> set X'"
  proof (cases reserve)
    case False
    then have "map fst (is_nodes seq) = X1 @ n # (X2 @ Q)" using X n by (simp add: ids_of_def)
    from ids_add_after [OF ok this, of tr] show ?thesis
      using False X(2) n by (auto simp: ids_of_def intro!: exI [of _ "X1 @ n # is_fresh seq # X2"])
  next
    case True
    then have "rev (map fst (is_nodes seq)) = X1 @ n # X2 @ Q" using X n by (simp add: ids_of_def)
    then have "map fst (is_nodes seq) = (rev Q @ rev X2) @ n # rev X1"
      by (metis append.assoc append_Cons append_Nil rev.simps(2) rev_append rev_swap)
    from ids_add_after [OF ok this, of tr] show ?thesis
      using True X(2) n by (auto simp: ids_of_def intro!: exI [of _ "X1 @ is_fresh seq # n # X2"])
  qed
  moreover have "fst (add_after n tr seq) = is_fresh seq" by (simp add: add_after_def Let_def)
  ultimately show ?thesis using ok by (auto simp: ahead_def)
qed

lemma ahead_flag: "ahead reserve seq U Q \<Longrightarrow> ahead reserve (upd_rec n f seq) U Q"
  by (auto simp: ahead_def)

text \<open>What a replacement keeps of the trace, and of the pattern that matched.\<close>

definition rep_inv ::
  "32 word \<Rightarrow> InstSequence \<Rightarrow> bool \<Rightarrow> nat set \<Rightarrow> nat list \<Rightarrow> InstSequence \<Rightarrow> bool" where
  "rep_inv del seq0 reserve U Q seq \<longleftrightarrow> grown_from del seq0 seq \<and> ahead reserve seq U Q"

lemma rep_inv_flag:
  "rep_inv del seq0 reserve U Q seq
    \<Longrightarrow> rep_inv del seq0 reserve U Q (upd_rec n (\<lambda>tr. tr\<lparr>tx_flags := tx_flags tr OR del\<rparr>) seq)"
  by (simp add: rep_inv_def grown_flag ahead_flag)

lemma ahead_mono: "ahead reserve seq U Q \<Longrightarrow> V \<subseteq> U \<Longrightarrow> ahead reserve seq V Q"
  by (auto simp: ahead_def)

lemma replaceOne_keeps:
  assumes inv: "rep_inv del seq0 reserve (insert trprev U) Q seq"
  shows "keeps (\<lambda>(eng', seq', trprev', lessone'). rep_inv del seq0 reserve (insert trprev' U) Q seq')
    (\<lambda>_. True) (replaceOne E i trp rpi (eng, seq, trprev, lessone))"
proof -
  have "rep_inv del seq0 reserve (insert (fst (add_after trprev tr seq)) U) Q
      (snd (add_after trprev tr seq))" for tr
    using inv grown_add_after ahead_add_after [of reserve seq "insert trprev U" Q trprev tr]
    by (auto simp: rep_inv_def elim: ahead_mono)
  then show ?thesis using inv
    by (auto simp: replaceOne_def Let_def case_prod_beta split: option.split sum.split
        intro!: keeps_bindS [of "\<lambda>_. True" _ "genReplaceOpcode _ _ _ _"])
      (simp add: keeps_def split: sum.split)
qed

lemma replaceStmt_keeps:
  assumes inv: "rep_inv del seq0 reserve U Q (snd st)" and data: "set_option (pi_userdata pi) \<subseteq> U"
  shows "keeps (\<lambda>st'. rep_inv del seq0 reserve U Q (snd st')) (\<lambda>_. True) (replaceStmt E del i pi st)"
proof (cases "pi_userdata pi")
  case None
  then show ?thesis using inv by (simp add: replaceStmt_def)
next
  case (Some trp)
  then have "insert trp U = U" using data by auto
  then have start: "rep_inv del seq0 reserve (insert trp U) Q (snd st)" using inv by simp
  have "keeps (\<lambda>(eng', seq', trprev', lessone'). rep_inv del seq0 reserve (insert trprev' U) Q seq')
      (\<lambda>_. True) (loopS (replaceOne E i trp) (pi_rps pi) (fst st, snd st, trp, False))"
    by (rule keeps_loopS) (use start in \<open>auto intro: replaceOne_keeps\<close>)
  moreover have "rep_inv del seq0 reserve U Q seq" if "rep_inv del seq0 reserve (insert n U) Q seq" for n seq
    using that by (auto simp: rep_inv_def elim: ahead_mono)
  ultimately show ?thesis using Some
    by (auto simp: replaceStmt_def rep_inv_flag intro!: keeps_bindS)
qed

lemma replaceAll_keeps:
  assumes "rep_inv del seq0 reserve U Q (snd st)" "data_in U (seq_at (fst st) i)"
  shows "keeps (\<lambda>st'. rep_inv del seq0 reserve U Q (snd st')) (\<lambda>_. True) (replaceAll E del i st)"
  unfolding replaceAll_def
  by (rule keeps_loopS) (use assms in \<open>auto simp: data_in_def intro!: replaceStmt_keeps\<close>)

section \<open>The loop ends\<close>

lemma data_in_relink [simp]: "data_in U (relink p n s) = data_in U s"
  by (simp add: data_in_def)

lemma data_in_mono: "data_in U s \<Longrightarrow> U \<subseteq> V \<Longrightarrow> data_in V s"
  by (auto simp: data_in_def)

lemma data_in_fresh [simp]: "data_in U (fresh s)"
  by (auto simp: data_in_def fresh_def reset_counters_def reset_stmt_def)

text \<open>
  The patterns in play note nothing but records the match has gone through.
\<close>

lemma matchRun_data:
  assumes "linked eng L" "\<forall>i \<in> set L. data_in U (seq_at eng i)"
    and "matchRun E seq ns eng = Inr (Some (m, i), eng')"
  shows "\<exists>P Q. ns = P @ m # Q \<and> data_in (U \<union> set (P @ [m])) (seq_at eng' i)"
  using assms
proof (induction ns arbitrary: U eng L)
  case (Cons n ns)
  obtain tr where tr: "rec_at seq n = Some tr"
    using Cons.prems(3) by (cases "rec_at seq n") simp_all
  let ?t = "testInstruction E eng (opcode_of tr) (tr_rip (tx_ctx1 tr)) (isEspChanged tr)
    (isEflagsChanged tr) (Some n)"
  obtain st sr eng1 where t: "?t = Inr ((st, sr), eng1)"
    using Cons.prems(3) tr by (cases ?t) auto
  let ?U = "U \<union> set_option (Some n)"
  have start: "\<forall>i \<in> set L. data_in ?U (seq_at eng i)"
    using Cons.prems(2) by (blast intro: data_in_mono)
  obtain L1 where L1: "linked eng1 L1" "\<forall>i \<in> set L1. data_in ?U (seq_at eng1 i)"
      "set_option sr \<subseteq> set L1"
    using testInstruction_active [where J = "data_in ?U", OF Cons.prems(1) start
        data.J_testForSequence data_in_relink, of E "opcode_of tr" "tr_rip (tx_ctx1 tr)"
        "isEspChanged tr" "isEflagsChanged tr"] t by auto
  show ?case
  proof (cases "sr = Some i \<and> st = 1 \<and> m = n \<and> eng' = eng1")
    case True
    then show ?thesis using L1(2,3)
      by (intro exI [of _ "[]"] exI [of _ ns]) auto
  next
    case False
    then have "matchRun E seq ns eng1 = Inr (Some (m, i), eng')"
      using Cons.prems(3) tr t by (auto split: if_splits option.splits)
    from Cons.IH [OF L1(1,2) this] obtain P Q where
      "ns = P @ m # Q" "data_in (?U \<union> set (P @ [m])) (seq_at eng' i)" by blast
    then show ?thesis by (intro exI [of _ "n # P"] exI [of _ Q]) (auto elim: data_in_mono)
  qed
qed simp

lemma keeps_grownI:
  "grown_from del seq0 seq
    \<Longrightarrow> keeps (\<lambda>st. grown_from del seq0 (snd st)) F (Inr (a, (eng, seq)))"
  by simp

lemma deobLoop_returns:
  assumes "grown_from del seq0 seq" "ids_of reserve seq = X @ R"
    and nxt: "nxt0 = Inr None \<or> (\<exists>f. nxt0 = Inl f)"
  shows "\<exists>m. deobLoop E del nxt0 reserve (hd_opt R) eng seq = Some m
    \<and> keeps (\<lambda>st. grown_from del seq0 (snd st)) (\<lambda>_. True) m"
  using assms(1,2)
proof (induction "length R" arbitrary: R X eng seq rule: less_induct)
  case less
  show ?case
  proof (cases R)
    case Nil
    then show ?thesis using less.prems(1) by (simp add: deobLoop.simps)
  next
    case (Cons n R')
    note unroll = deobLoop.simps [of _ _ _ _ "Some n"]
    have ok: "nodes_ok seq" using less.prems(1) by (simp add: grown_from_def)
    have d: "distinct (X @ n # R')" using ids_of_distinct [OF ok, of reserve] less.prems(2) Cons by simp
    then have walk: "dropWhile (\<lambda>m. m \<noteq> n) (ids_of reserve seq) = n # R'"
      using less.prems(2) Cons by (simp add: dropWhile_append3 dropWhile_append)
    obtain nc eng1 L where start: "initForTest reserve eng = Inr (nc, eng1)" "linked eng1 L"
        "\<forall>i \<in> set L. data_in {} (seq_at eng1 i)"
    proof -
      let ?L = "selected reserve eng (length (pe_patterns eng))"
      obtain eng1 where e: "initForTest reserve eng = Inr (int (length ?L), eng1)" "linked eng1 ?L"
          "\<forall>i \<in> set ?L. relink None None (seq_at eng1 i) = fresh (seq_at eng i)"
        using initForTest_list [of reserve eng] by metis
      have "\<forall>i \<in> set ?L. data_in {} (seq_at eng1 i)"
        using e(3) by (metis data_in_fresh data_in_relink)
      with e(1,2) show thesis by (rule that)
    qed
    show ?thesis
    proof (cases "nc < 1")
      case True
      then show ?thesis using Cons start(1) less.prems(1) by (simp add: unroll)
    next
      case False
      note here = unroll start(1) walk False Cons
      show ?thesis
      proof (cases "matchRun E seq (n # R') eng1")
        case (Inl f)
        then show ?thesis using here by simp
      next
        case (Inr r)
        obtain hit eng2 where r: "r = (hit, eng2)" by (cases r)
        show ?thesis
        proof (cases hit)
          case None
          have "step_rec reserve seq n = hd_opt R'"
            using succ_in_split [OF d] less.prems(2) Cons by (simp add: step_rec_ids)
          moreover have "ids_of reserve seq = (X @ [n]) @ R'" using less.prems(2) Cons by simp
          ultimately show ?thesis
            using less.hyps [of R' seq "X @ [n]" eng2] Inr r None less.prems(1) here by simp
        next
          case (Some mi)
          obtain m i where mi: "mi = (m, i)" by (cases mi)
          obtain P Q where PQ: "n # R' = P @ m # Q" "data_in (set (P @ [m])) (seq_at eng2 i)"
            using matchRun_data [OF start(2,3)] Inr r Some mi by fastforce
          have ids: "ids_of reserve seq = (X @ P) @ m # Q" using less.prems(2) Cons PQ(1) by simp
          have dm: "distinct ((X @ P) @ m # Q)" using ids_of_distinct [OF ok, of reserve] ids by simp
          have after: "step_rec reserve seq m = hd_opt Q"
            using succ_in_split [OF dm] ids by (simp add: step_rec_ids)
          have "ahead reserve seq (set (P @ [m])) Q"
            using ok ids by (auto simp: ahead_def)
          then have "rep_inv del seq0 reserve (set (P @ [m])) Q seq"
            using less.prems(1) by (simp add: rep_inv_def)
          then have keep: "keeps (\<lambda>st'. rep_inv del seq0 reserve (set (P @ [m])) Q (snd st'))
              (\<lambda>_. True) (replaceAll E del i (eng2, seq))"
            using PQ(2) by (intro replaceAll_keeps) simp_all
          show ?thesis
          proof (cases "replaceAll E del i (eng2, seq)")
            case (Inl f)
            then show ?thesis using Inr r Some mi here by simp
          next
            fix r3 assume r3: "replaceAll E del i (eng2, seq) = Inr r3"
            obtain u eng3 seq3 where r3': "r3 = (u, (eng3, seq3))" by (cases r3) auto
            have inv: "grown_from del seq0 seq3" "ahead reserve seq3 (set (P @ [m])) Q"
              using keep r3 r3' by (simp_all add: rep_inv_def)
            then obtain X3 where X3: "ids_of reserve seq3 = X3 @ Q" by (auto simp: ahead_def)
            show ?thesis
            proof (cases Q)
              case Nil
              then show ?thesis
                using nxt Inr r Some mi here after r3 r3' inv(1)
                by (auto simp: deobLoop.simps [of _ _ _ _ None])
            next
              fix k Q' assume Q: "Q = k # Q'"
              have ok3: "nodes_ok seq3" using inv(1) by (simp add: grown_from_def)
              have "distinct (X3 @ k # Q')" using ids_of_distinct [OF ok3, of reserve] X3 Q by simp
              then have "step_rec reserve seq3 k = hd_opt Q'"
                using succ_in_split [of X3 k Q'] X3 Q by (simp add: step_rec_ids)
              moreover have "length Q' < length R"
                using arg_cong [OF PQ(1), of length] Q Cons by simp
              ultimately show ?thesis
                using less.hyps [of Q' seq3 "X3 @ [k]" eng3] Inr r Some mi here after r3 r3' inv(1) X3 Q
                by simp
            qed
          qed
        qed
      qed
    qed
  qed
qed

lemma originals_deleted:
  "subseq (originals del b (snd (deleteFlagedInSeq del seq))) (originals del b seq)"
  by (simp add: originals_def deleteFlagedInSeq_filter subseq_map subseq_filter
      filter_filter conj_commute flip: filter_filter)

lemma doDeObfuscatePattern_ends:
  assumes ok: "nodes_ok seq" and nxt: "nxt0 = Inr None \<or> (\<exists>f. nxt0 = Inl f)"
  shows "deobLoop E del nxt0 reserve (start_rec reserve seq) pasm seq \<noteq> None"
    and "keeps (\<lambda>(eng, seq'). nodes_ok seq'
        \<and> subseq (originals del (is_fresh seq) seq') (originals del (is_fresh seq) seq))
      (\<lambda>_. True) (doDeObfuscatePattern E del nxt0 pasm seq reserve)"
proof -
  obtain m where m: "deobLoop E del nxt0 reserve (start_rec reserve seq) pasm seq = Some m"
      "keeps (\<lambda>st. grown_from del seq (snd st)) (\<lambda>_. True) m"
    using deobLoop_returns [OF grown_from_refl [OF ok], of reserve "[]" "ids_of reserve seq" nxt0] nxt
    by (fastforce simp: start_rec_ids)
  show "deobLoop E del nxt0 reserve (start_rec reserve seq) pasm seq \<noteq> None" by (simp add: m(1))
  have fin: "nodes_ok (snd (deleteFlagedInSeq del t)) \<and>
      subseq (originals del (is_fresh seq) (snd (deleteFlagedInSeq del t))) (originals del (is_fresh seq) seq)"
    if "grown_from del seq t" for t
    using that originals_deleted [of del "is_fresh seq" t]
    by (simp add: grown_from_def nodes_ok_delete)
  show "keeps (\<lambda>(eng, seq'). nodes_ok seq'
        \<and> subseq (originals del (is_fresh seq) seq') (originals del (is_fresh seq) seq))
      (\<lambda>_. True) (doDeObfuscatePattern E del nxt0 pasm seq reserve)"
    using fin by (auto simp: doDeObfuscatePattern_def m(1) case_prod_beta grown_from_def
        intro!: keeps_bindS [OF m(2)])
qed

end
