(* ===== verification/EngineRun.thy ===== *)
theory EngineRun
  imports PatternParse MatcherFacts Deobfuscate
begin

text \<open>
  The engine in use: runs that start with \<open>initForTest\<close> and feed one instruction after the other, and the
  search for a code fingerprint, \<open>matchCodeDNA\<close>, which is such a run along a trace.
\<close>

section \<open>Runs\<close>

inductive engine_run :: "x86_env \<Rightarrow> bool \<Rightarrow> patternEngine \<Rightarrow> patternEngine \<Rightarrow> bool"
  for E :: x86_env and b :: bool and eng0 :: patternEngine where
  start: "initForTest b eng0 = Inr (n, eng) \<Longrightarrow> engine_run E b eng0 eng"
| feed: "engine_run E b eng0 eng \<Longrightarrow> testInstruction E eng lpop pc esp efl ud = Inr (r, eng')
    \<Longrightarrow> engine_run E b eng0 eng'"

inductive_cases engine_run_elim: "engine_run E b eng0 eng"

text \<open>The decoder yields register numbers and sizes below the variable ids.\<close>

definition decoder_small :: "x86_env \<Rightarrow> bool" where
  "decoder_small E \<longleftrightarrow> env_small E \<and> (\<forall>lpop pc. small_ins (disasm E lpop pc))"

lemma engine_run_ok:
  assumes "engine_run E b eng0 eng" "decoder_small E" "\<forall>s \<in> snd ` set (pe_patterns eng0). compiled s"
  shows "engine_ok eng"
  using assms
proof (induction rule: engine_run.induct)
  case (start n eng)
  then show ?case using initForTest_ok [of eng0 b] by simp
next
  case (feed eng lpop pc esp efl ud r eng')
  then have "keeps engine_ok step_fault (testInstruction E eng lpop pc esp efl ud)"
    by (intro testInstruction_keeps) (simp_all add: decoder_small_def)
  with feed.hyps(2) show ?case by simp
qed

text \<open>Only patterns that were selected are ever in play.\<close>

definition chosen :: "bool \<Rightarrow> patternEngine \<Rightarrow> nat list" where
  "chosen b eng = selected b eng (length (pe_patterns eng))"

lemma engine_run_in_play:
  "engine_run E b eng0 eng \<Longrightarrow> \<exists>L. linked eng L \<and> set L \<subseteq> set (chosen b eng0)
    \<and> length (pe_patterns eng) = length (pe_patterns eng0)"
proof (induction rule: engine_run.induct)
  case (start n eng)
  then show ?case using initForTest_list [of b eng0] by (auto simp: chosen_def)
next
  case (feed eng lpop pc esp efl ud r eng')
  then obtain L where L: "linked eng L" "set L \<subseteq> set (chosen b eng0)"
      "length (pe_patterns eng) = length (pe_patterns eng0)"
    by blast
  have "keeps (\<lambda>_. True) (\<lambda>_. True) (testForSequence E s (disasm E lpop pc) esp efl ud)" for s
    by (simp add: keeps_def split: sum.split)
  from testInstruction_active [where J = "\<lambda>_. True", OF L(1) _ this] feed.hyps(2)
  show ?case using L by (cases r) (auto dest: subset_trans)
qed

text \<open>A pattern at the start of a match, field by field.\<close>

lemma identity_relink: "identity (relink p n s) = identity s"
  by (simp add: identity_def relink_def)

lemma fresh_start:
  assumes "relink None None t = fresh s"
  shows "identity t = identity s
    \<and> list_all (\<lambda>pi. pi_matched_count pi = 0 \<and> pi_userdata pi = None) (ps_insts t)
    \<and> crt_inst (ps_crt t) = (if ps_insts s = [] then None else Some 0)
    \<and> crt_count (ps_crt t) = 0 \<and> crt_vars (ps_crt t) = Map.empty \<and> crt_opvars (ps_crt t) = ps_dyops s"
proof -
  have "identity t = identity (fresh s)" using identity_relink [of None None t] assms by simp
  also have "\<dots> = identity s"
    by (simp add: identity_def fresh_def reset_counters_def start_seq_def reset_stmt_def frozen_def comp_def)
  finally have "identity t = identity s" .
  moreover have "ps_insts t = ps_insts (fresh s)" "ps_crt t = ps_crt (fresh s)"
    using assms relink_simps(1,2) by metis+
  ultimately show ?thesis
    by (simp add: fresh_def reset_counters_def start_seq_def reset_stmt_def list.pred_map list_all_iff)
qed

section \<open>Along a trace\<close>

lemma matchRun_keeps:
  assumes "linked eng L" "\<forall>i \<in> set L. J (seq_at eng i)" "\<forall>n \<in> set ns. rec_at seq n \<noteq> None"
    and step: "\<And>s lpop pc esp efl ud.
      J s \<Longrightarrow> keeps J F (testForSequence E s (disasm E lpop pc) esp efl ud)"
    and links: "\<And>p n s. J (relink p n s) = J s"
  shows "case matchRun E seq ns eng of
      Inl f \<Rightarrow> F f
    | Inr (r, eng') \<Rightarrow> \<exists>L'. linked eng' L' \<and> set L' \<subseteq> set L \<and> (\<forall>i \<in> set L'. J (seq_at eng' i))
        \<and> length (pe_patterns eng') = length (pe_patterns eng)
        \<and> (\<forall>m i. r = Some (m, i) \<longrightarrow> m \<in> set ns \<and> i \<in> set L')"
  using assms(1-3)
proof (induction ns arbitrary: eng L)
  case (Cons n ns)
  obtain tr where tr: "rec_at seq n = Some tr" using Cons.prems(3) by auto
  let ?t = "testInstruction E eng (opcode_of tr) (tr_rip (tx_ctx1 tr)) (isEspChanged tr)
    (isEflagsChanged tr) (Some n)"
  note t = testInstruction_active [OF Cons.prems(1,2) step links, of "opcode_of tr"
      "tr_rip (tx_ctx1 tr)" "isEspChanged tr" "isEflagsChanged tr" "Some n"]
  show ?case
  proof (cases ?t)
    case (Inl f)
    then show ?thesis using t tr by simp
  next
    case (Inr res)
    obtain st sr eng1 where res: "res = ((st, sr), eng1)" by (metis prod.collapse)
    obtain L1 where L1: "linked eng1 L1" "set L1 \<subseteq> set L" "set_option sr \<subseteq> set L1"
        "\<forall>i \<in> set L1. J (seq_at eng1 i)" "length (pe_patterns eng1) = length (pe_patterns eng)"
      using t Inr res by auto
    have IH: "case matchRun E seq ns eng1 of Inl f \<Rightarrow> F f
      | Inr (r, eng') \<Rightarrow> \<exists>L'. linked eng' L' \<and> set L' \<subseteq> set L1 \<and> (\<forall>i \<in> set L'. J (seq_at eng' i))
          \<and> length (pe_patterns eng') = length (pe_patterns eng1)
          \<and> (\<forall>m i. r = Some (m, i) \<longrightarrow> m \<in> set ns \<and> i \<in> set L')"
      using Cons.IH [OF L1(1,4)] Cons.prems(3) by simp
    have widen: "case matchRun E seq ns eng1 of Inl f \<Rightarrow> F f
      | Inr (r, eng') \<Rightarrow> \<exists>L'. linked eng' L' \<and> set L' \<subseteq> set L \<and> (\<forall>i \<in> set L'. J (seq_at eng' i))
          \<and> length (pe_patterns eng') = length (pe_patterns eng)
          \<and> (\<forall>m i. r = Some (m, i) \<longrightarrow> m \<in> set (n # ns) \<and> i \<in> set L')"
      using IH L1(2,5) by (auto split: sum.splits dest: subset_trans)
    show ?thesis
    proof (cases "st < 0 \<or> (st = 1 \<and> sr \<noteq> None)")
      case True
      then show ?thesis using tr Inr res L1 by (auto intro!: exI [of _ L1])
    next
      case False
      then have "matchRun E seq (n # ns) eng = matchRun E seq ns eng1"
        using tr Inr res by (auto split: option.split)
      then show ?thesis using widen by simp
    qed
  qed
qed auto

definition good_ids :: "patternEngine \<Rightarrow> bool \<Rightarrow> patternSequence \<Rightarrow> bool" where
  "good_ids eng b s \<longleftrightarrow> wf_seq s \<and> (\<exists>i \<in> set (chosen b eng). ps_id s = ps_id (seq_at eng i))"

lemma good_ids_step:
  assumes "decoder_small E" "good_ids eng b s"
  shows "keeps (good_ids eng b) step_fault (testForSequence E s (disasm E lpop pc) esp efl ud)"
proof -
  have "keeps (step_inv s) step_fault (testForSequence E s (disasm E lpop pc) esp efl ud)"
    using assms by (intro testForSequence_keeps) (simp_all add: decoder_small_def good_ids_def)
  moreover have "keeps (\<lambda>t. identity t = identity s) (\<lambda>_. True)
      (testForSequence E s (disasm E lpop pc) esp efl ud)"
    by (rule ident.J_testForSequence) simp
  ultimately show ?thesis using assms(2)
    by (auto simp: keeps_def good_ids_def step_inv_def identity_def split: sum.splits)
qed

lemma good_ids_relink [simp]: "good_ids eng b (relink p n s) = good_ids eng b s"
  by (simp add: good_ids_def relink_def wf_seq_def wf_pos_def split: option.split)

lemma ids_of_rec_at: "n \<in> set (ids_of reserve seq) \<Longrightarrow> rec_at seq n \<noteq> None"
  by (auto simp: ids_of_def rec_at_def map_of_eq_None_iff split: if_splits)

lemma matchCodeDNA_result:
  assumes E: "decoder_small E" and comp: "\<forall>s \<in> snd ` set (pe_patterns eng). compiled s"
  shows "case matchCodeDNA E eng seq reserve of
      Inl f \<Rightarrow> step_fault f
    | Inr (v, eng') \<Rightarrow> v = -1 \<or> (v = -2 \<and> chosen reserve eng = [])
        \<or> (\<exists>i \<in> set (chosen reserve eng). v = ps_id (seq_at eng i))"
proof -
  obtain eng1 where init: "initForTest reserve eng = Inr (int (length (chosen reserve eng)), eng1)"
      "linked eng1 (chosen reserve eng)"
      "\<forall>i \<in> set (chosen reserve eng). relink None None (seq_at eng1 i) = fresh (seq_at eng i)"
    using initForTest_list [of reserve eng] unfolding chosen_def by metis
  have J: "\<forall>i \<in> set (chosen reserve eng). good_ids eng reserve (seq_at eng1 i)"
  proof
    fix i assume i: "i \<in> set (chosen reserve eng)"
    then have "compiled (seq_at eng i)" using comp by (auto simp: chosen_def selected_def seq_at_def)
    then have "good_ids eng reserve (fresh (seq_at eng i))"
      using i wf_seq_fresh by (auto simp: good_ids_def fresh_def reset_counters_def start_seq_def)
    then show "good_ids eng reserve (seq_at eng1 i)"
      using init(3) i good_ids_relink by metis
  qed
  have recs: "\<forall>n \<in> set (ids_of reserve seq). rec_at seq n \<noteq> None"
    using ids_of_rec_at by blast
  note run = matchRun_keeps [OF init(2) J recs good_ids_step [OF E] good_ids_relink]
  show ?thesis
  proof (cases "matchRun E seq (ids_of reserve seq) eng1")
    case (Inl f)
    then show ?thesis using run init(1) by (simp add: matchCodeDNA_def)
  next
    case (Inr res)
    then show ?thesis using run init(1)
      by (cases res; cases "fst res") (auto simp: matchCodeDNA_def good_ids_def)
  qed
qed

end
