(* ===== verification/Samples.thy ===== *)
theory Samples
  imports Config PatternReplace PushPopFacts TraceFacts EngineRun
begin

text \<open>
  Concrete instances of the parameters, small but whole: an assembler with the instructions \<open>push\<close>, \<open>pop\<close>,
  \<open>mov\<close> and \<open>nop\<close>, a string class, a packet buffer that is the list of the calls that filled it, and an
  emulator without memory of its own. The properties with hypotheses are applied to them.
\<close>

section \<open>An assembler\<close>

definition mini_inst :: "int \<Rightarrow> int \<Rightarrow> x86inst" where
  "mini_inst op r =
     \<lparr>xi_opcode = op, xi_size = 1, xi_flags = 0, xi_base = -1, xi_scale = 0, xi_disp = 0, xi_imm = 0,
      xi_ops = (\<lambda>i. if i = 0 \<and> 0 \<le> r then \<lparr>xo_type = 1, xo_index = r, xo_size = 32\<rparr>
                    else \<lparr>xo_type = 0, xo_index = -1, xo_size = 0\<rparr>)\<rparr>"

text \<open>\<open>0x50 + r\<close> is a push of register \<open>r\<close>, \<open>0x58 + r\<close> a pop, every other byte an instruction of its own.\<close>

definition mini_disasm :: "byte list \<Rightarrow> x86inst" where
  "mini_disasm bs =
     (let b = (case bs of [] \<Rightarrow> 0x90 | b # _ \<Rightarrow> uint b)
      in if 0x50 \<le> b \<and> b < 0x58 then mini_inst 0x50 (b - 0x50)
         else if 0x58 \<le> b \<and> b < 0x60 then mini_inst 0x58 (b - 0x58)
         else mini_inst b (-1))"

definition mini_asm :: "x86inst \<Rightarrow> int + byte list" where
  "mini_asm ins = Inr [word_of_int (if xo_type (xi_ops ins 0) = 1 then xi_opcode ins + xo_index (xi_ops ins 0)
     else xi_opcode ins)]"

definition mini_x86 :: x86_env where
  "mini_x86 =
     \<lparr>OPERANDS_NO = 3, O_NONE = 0, O_REG = 1, O_IMM = 2, O_IMM1 = 3, O_IMM2 = 4, O_PC = 5, O_PTR = 6,
      O_MEM = 7, O_SMEM = 8, O_DISP = 9, R_NONE = -1, I_UNDEFINED = -1, I_NOP = 0x90,
      get_relate_reg = (\<lambda>r b. r),
      is_same_operand = (\<lambda>a i b j. xo_type (xi_ops a i) = xo_type (xi_ops b j)
        \<and> xo_index (xi_ops a i) = xo_index (xi_ops b j) \<and> xo_size (xi_ops a i) = xo_size (xi_ops b j)),
      flags_opsize_bits = (\<lambda>f. 32), flag_set_opsize = (\<lambda>f k. f),
      set_op = (\<lambda>ins i t imm sz b x s. ins\<lparr>xi_imm := imm, xi_ops := (xi_ops ins)(i :=
        \<lparr>xo_type = t, xo_index = b, xo_size = sz\<rparr>)\<rparr>),
      set_inst_mnemonic = (\<lambda>ins m. ins\<lparr>xi_opcode := m\<rparr>),
      inst_to_bc = (\<lambda>ins sz. mini_asm ins), disasm = (\<lambda>bs pc. mini_disasm bs)\<rparr>"

section \<open>A string class\<close>

definition mini_word :: "string \<Rightarrow> string \<Rightarrow> string \<Rightarrow> bool \<Rightarrow> wordpos" where
  "mini_word line cs ts inc =
     (let off = length (takeWhile (\<lambda>c. c \<in> set ts) line);
          rest = drop off line;
          n = length (takeWhile (\<lambda>c. c \<notin> set cs) rest);
          len = (if inc then (if n < length rest then n + 1 else 0) else n)
      in if len = 0 then None else Some (off, len))"

fun find_sub :: "string \<Rightarrow> string \<Rightarrow> nat" where
  "find_sub sub [] = 0"
| "find_sub sub (c # cs) = (if take (length sub) (c # cs) = sub then 0 else Suc (find_sub sub cs))"

definition mini_split :: "string \<Rightarrow> string \<Rightarrow> string \<Rightarrow> bool \<Rightarrow> wordpos" where
  "mini_split line cs ts inc =
     (let off = length (takeWhile (\<lambda>c. c \<in> set ts) line);
          rest = drop off line;
          n = find_sub cs rest;
          len = (if inc then (if n < length rest then n + 1 else 0) else n)
      in if len = 0 then None else Some (off, len))"

definition mini_trim :: "string \<Rightarrow> string \<Rightarrow> string" where
  "mini_trim s ts = rev (dropWhile (\<lambda>c. c \<in> set ts) (rev (dropWhile (\<lambda>c. c \<in> set ts) s)))"

definition mini_hash :: "string \<Rightarrow> int" where
  "mini_hash s = foldr (\<lambda>c h. 256 * h + int (lower_code c)) s 0"

definition mini_reg :: "string \<Rightarrow> int" where
  "mini_reg s = (if s = ''eax'' then 0 else if s = ''ecx'' then 1 else if s = ''esp'' then 4 else -1)"

definition mini_parse :: parse_env where
  "mini_parse =
     \<lparr>pv_x86 = mini_x86, firstword = mini_word, split_word = mini_split, getword = (\<lambda>s n c t f. mini_word (take n s) c t f),
      trim_str = mini_trim, trimRight = (\<lambda>s n ts. length (dropWhile (\<lambda>c. c \<in> set ts) (rev (take n s)))),
      pos_null = length, stale_buf = (\<lambda>a b. b), push_line = (\<lambda>l. [mini_trim l blanks]), nhash = mini_hash,
      mnemonics = (\<lambda>s. if s = ''push'' then Some 0x50 else if s = ''pop'' then Some 0x58
        else if s = ''nop'' then Some 0x90 else None),
      to_upper = id, parseInteger = (\<lambda>s. (int (length s), word_of_int (atoi s))),
      nparseExpress = (\<lambda>s. if s = [] then None else Some (nexpr_value_imm False False (word_of_int (atoi s)))),
      get_regbyname = mini_reg, segment_reg = (\<lambda>s. 0), inst_init = mini_inst (-1) (-1),
      checkPrefix = (\<lambda>s. None), set_inst_prefix = (\<lambda>i p. i),
      parse_op_text = (\<lambda>ins i w. if mini_reg w < 0 then (-1, ins)
        else (0, ins\<lparr>xi_ops := (xi_ops ins)(i := \<lparr>xo_type = 1, xo_index = mini_reg w, xo_size = 32\<rparr>)\<rparr>)),
      garbage = 0\<rparr>"

definition mini_text :: string where
  "mini_text = ''.comment a pair'' @ [CHR 0x0A] @ ''push reg1 -> nop'' @ [CHR 0x0A] @ ''pop reg1 -> nop // drop''"

definition mini_empty :: patternEngine where
  "mini_empty = \<lparr>pe_patterns = [], pe_seqList = None\<rparr>"

section \<open>Traces\<close>

definition mini_rec :: "addr \<Rightarrow> byte \<Rightarrow> 32 word \<Rightarrow> 32 word \<Rightarrow> TraceRecordEx" where
  "mini_rec a b esp1 esp2 =
     (let r = (\<lambda>p e. \<lparr>tr_unqueID = 0, tr_rip = p, tr_nip = p + 1, tr_szOP = 1, tr_eflags = 0x202,
                      tr_regs = [0, 0, 0, 0, e, 0, 0, 0], tr_opcode = [b]\<rparr>)
      in \<lparr>tx_flags = 0, tx_ctx1 = r a esp1, tx_ctx2 = r (a + 1) esp2, tx_mraddr = 0, tx_mrsize = 0,
          tx_mrvalue = 0, tx_mwaddr = 0, tx_mwsize = 0, tx_mwvalue = 0\<rparr>)"

definition mini_trace :: InstSequence where
  "mini_trace = \<lparr>is_nodes =
     [(0, mini_rec 0x401000 0x50 0x1000 0xFFC), (1, mini_rec 0x401001 0x58 0xFFC 0x1000),
      (2, mini_rec 0x401002 0xC3 0x1000 0x1004)], is_fresh = 3\<rparr>"

text \<open>The engine with the pattern of \<open>mini_text\<close>.\<close>

definition mini_body :: "int \<Rightarrow> pattern_inst_body" where
  "mini_body op = (new_pattern_inst_body (mini_inst op (-1)))\<lparr>ib_ops := (\<lambda>i. if i = 0 \<and> op \<noteq> 0x90
     then new_pattern_op\<lparr>po_type := pattern_op_reg, po_id := 1\<rparr> else new_pattern_op)\<rparr>"

definition mini_stmt :: "int \<Rightarrow> patternInst" where
  "mini_stmt op = (new_patternInst 0 0)\<lparr>pi_type := pattern_inst_instruction, pi_insts := [mini_body op],
     pi_rps := [mini_body 0x90]\<rparr>"

definition mini_pattern :: patternSequence where
  "mini_pattern = (new_patternSequence 0 None)\<lparr>ps_insts := [mini_stmt 0x50, mini_stmt 0x58]\<rparr>"

definition mini_engine :: patternEngine where
  "mini_engine = \<lparr>pe_patterns = [(0, mini_pattern)], pe_seqList = None\<rparr>"

section \<open>What the samples satisfy\<close>

lemma mini_words_ok: "words_ok mini_parse"
proof -
  have tw: "length (takeWhile p xs) \<le> length xs" for p and xs :: string by (rule length_takeWhile_le)
  have fs: "find_sub s xs \<le> length xs" for s xs by (induction xs) auto
  have w: "mini_word line c ts f = Some (off, len) \<Longrightarrow> off + len \<le> length line" for line c ts f off len
    using tw [of "\<lambda>x. x \<in> set ts" line]
      tw [of "\<lambda>x. x \<notin> set c" "drop (length (takeWhile (\<lambda>x. x \<in> set ts) line)) line"]
    by (auto simp: mini_word_def Let_def split: if_splits)
  have s: "mini_split line c ts f = Some (off, len) \<Longrightarrow> off + len \<le> length line" for line c ts f off len
    using tw [of "\<lambda>x. x \<in> set ts" line]
      fs [of c "drop (length (takeWhile (\<lambda>x. x \<in> set ts) line)) line"]
    by (auto simp: mini_split_def Let_def split: if_splits)
  have t: "length (mini_trim x cs) \<le> length x" for x cs
    using length_dropWhile_le [of "\<lambda>c. c \<in> set cs"] unfolding mini_trim_def length_rev
    by (metis (no_types, lifting) le_trans length_rev)
  have z: "size_word mini_parse [] op = None" for op
    by (simp add: size_word_def is_kw_def mini_parse_def mini_hash_def lower_code_def code_of_def Let_def)
  show ?thesis unfolding words_ok_def using w s t z by (simp add: mini_parse_def mini_x86_def)
qed

lemma mini_decoder_small: "decoder_small mini_x86"
proof -
  have b: "uint (w :: byte) < 256" for w using uint_bounded [of w] by simp
  have "small_ins (mini_disasm bs)" for bs
    using b [of "hd bs"]
    by (cases bs) (auto simp: mini_disasm_def mini_inst_def small_ins_def small_operand_def op_varid_base_def Let_def)
  then show ?thesis by (simp add: decoder_small_def env_small_def mini_x86_def op_varid_base_def)
qed

lemma mini_linked: "linked mini_engine []"
  by (simp add: linked_def mini_engine_def)

lemma mini_loaded: "loaded mini_engine"
  by (simp add: loaded_def mini_engine_def mini_pattern_def compiled_def wf_stmt_def mini_stmt_def new_patternInst_def
      new_patternSequence_def)

definition mini_load :: "int \<times> patternEngine" where
  "mini_load = projr (loadPattern mini_parse mini_empty mini_text)"

lemma mini_load:
  "loadPattern mini_parse (clearPatterns mini_empty) mini_text = Inr mini_load"
  "fst mini_load = 1" "map (\<lambda>p. length (ps_insts (snd p))) (pe_patterns (snd mini_load)) = [2]"
proof -
  have "case loadPattern mini_parse mini_empty mini_text of Inl f \<Rightarrow> False
    | Inr r \<Rightarrow> fst r = 1 \<and> map (\<lambda>p. length (ps_insts (snd p))) (pe_patterns (snd r)) = [2]"
    by code_simp
  then show "loadPattern mini_parse (clearPatterns mini_empty) mini_text = Inr mini_load"
    "fst mini_load = 1" "map (\<lambda>p. length (ps_insts (snd p))) (pe_patterns (snd mini_load)) = [2]"
    by (auto simp: mini_load_def clearPatterns_def mini_empty_def split: sum.splits)
qed

definition mini_started :: patternEngine where
  "mini_started = snd (projr (initForTest False mini_engine))"

lemma mini_started_linked: "linked mini_started [0]"
proof -
  have "selected False mini_engine (length (pe_patterns mini_engine)) = [0]" by code_simp
  then obtain n e where "initForTest False mini_engine = Inr (n, e)" "linked e [0]"
    using initForTest_list [of False mini_engine] by auto
  then show ?thesis by (simp add: mini_started_def)
qed

definition mini_crt :: seqRuntime where
  "mini_crt = new_seqRuntime\<lparr>crt_vars :=
     [varid pattern_op_imm 1 \<mapsto> (new_pasm_operand mini_x86)\<lparr>pa_type := 2, pa_imm := 5, pa_size := 32\<rparr>,
      varid pattern_op_reg 1 \<mapsto> (new_pasm_operand mini_x86)\<lparr>pa_type := 1, pa_base := 3, pa_size := 32\<rparr>],
     crt_inst := Some 0\<rparr>"

lemma mini_crt_resolved: "vars_resolved mini_crt"
  by (simp add: vars_resolved_def mini_crt_def resolved_def new_pasm_operand_def mini_x86_def op_varid_base_def
      new_seqRuntime_def)

lemma mini_fresh: "wf_seq (fresh mini_pattern)"
  by (rule wf_seq_fresh) (simp add: compiled_def mini_pattern_def mini_stmt_def wf_stmt_def new_patternInst_def
      new_patternSequence_def)

lemma mini_ins_small: "env_small mini_x86" "small_ins (mini_disasm bs)"
  using mini_decoder_small by (auto simp: decoder_small_def mini_x86_def)

abbreviation mini_pop :: "pattern_op_type \<Rightarrow> int \<Rightarrow> pattern_op" where
  "mini_pop t n \<equiv> new_pattern_op\<lparr>po_type := t, po_id := n\<rparr>"

abbreviation mini_opr :: "int \<Rightarrow> x86operand" where
  "mini_opr r \<equiv> \<lparr>xo_type = 1, xo_index = r, xo_size = 32\<rparr>"

section \<open>An emulator over plain memory\<close>

definition mini_write :: "(addr \<Rightarrow> byte) \<Rightarrow> addr \<Rightarrow> byte list \<Rightarrow> addr \<Rightarrow> byte" where
  "mini_write v a data = (\<lambda>x. if unat (x - a) < length data then data ! unat (x - a) else v x)"

definition mini_env :: "(addr \<Rightarrow> byte) cpu_env" where
  "mini_env =
     \<lparr>vmem_init = (\<lambda>x. 0),
      vmem_read = (\<lambda>v a buf. (int (length buf), map (\<lambda>i. v (a + of_nat i)) [0..<length buf])),
      vmem_write = mini_write, host_read = (\<lambda>a buf. (0, buf)), find_memory = (\<lambda>a. None),
      find_module = (\<lambda>a. None), branch_trace = (\<lambda>c a. []), fetchDecode = (\<lambda>bs. None),
      base_write = (\<lambda>a d c. c), base_read = (\<lambda>a d c. (d, c)), base_before = (\<lambda>i c. (VCPU_LOOPRET_NORMAL, c)),
      base_after = (\<lambda>i c. (VCPU_LOOPRET_NORMAL, c)), base_step = (\<lambda>a d c. c), base_initDeobfuscate = (\<lambda>c. c),
      no_access = \<lparr>ma_flags = 0, ma_addr = 0, ma_size = 0, ma_value = 0\<rparr>,
      RECORD_FLAG_MEMREAD = 1, RECORD_FLAG_MEMWRITE = 2, RECORD_FLAG_SPREAD = 4, RECORD_FLAG_SPWRITE = 8,
      RECORD_FLAG_MULTIB = 16, DEOBFUSCATE_REGS = [0, 1, 2, 3, 4, 5, 6, 7], DEOBFUSCATE_ESP = 0x1000\<rparr>"

definition mini_cpu :: "(addr \<Rightarrow> byte) xVMDebugCPU" where
  "mini_cpu =
     \<lparr>c_state = vmexec_emu_r3_deobfuscate, c_dobMode = vmexec_dob_trace, c_EAX = 1, c_ECX = 2, c_EDX = 3,
      c_EBX = 4, c_ESP = 0x1000, c_EBP = 6, c_ESI = 7, c_EDI = 8, c_RIP = 0x401000, c_eflags = 0x202,
      c_prev_rip = 0x401000, c_prev_rsp = 0, c_lastRead = no_access mini_env,
      c_lastWrite = \<lparr>ma_flags = 2, ma_addr = 0x2000, ma_size = 4, ma_value = 0\<rparr>, m_vmem = (\<lambda>x. 0),
      m_tempop = replicate 16 0, m_uqid = 0, m_seq1 = mini_trace, m_lastTr = mini_rec 0x401000 0x90 0 0,
      m_multiBrunch = False, m_vcpus = False, m_lastmem = 0, m_szlstmem = 0, m_traceaddr = 0,
      m_lastAccessAddr = 0, m_lastAccessSize = 0, m_offsetDelta = 0\<rparr>"

lemma mini_layer: "layer_law mini_env"
proof -
  have d: "unat (of_nat i :: addr) = i" if "i < n" "n < 2 ^ 32" for i n :: nat
    using that by (simp add: unat_of_nat)
  have "map (\<lambda>i. mini_write v a data (a + of_nat i)) [0..<length data] = data"
    if "length data < 2 ^ 32" for v a and data :: "byte list"
    using that by (intro nth_equalityI) (auto simp: mini_write_def d)
  then show ?thesis by (simp add: layer_law_def mini_env_def)
qed

text \<open>A lazy statement before one that does not match a push.\<close>

definition mini_lazy :: patternSequence where
  "mini_lazy = (fresh mini_pattern)\<lparr>ps_insts :=
     [(mini_stmt 0x50)\<lparr>pi_flags := PATTERN_FLAG_LESSMATCH, pi_minc := 2, pi_maxc := 4\<rparr>, mini_stmt 0x58]\<rparr>"

section \<open>Replacing\<close>

definition mini_bound :: patternSequence where
  "mini_bound = mini_pattern\<lparr>ps_crt := mini_crt\<rparr>"

abbreviation mini_template :: "pattern_op \<Rightarrow> pattern_inst_body" where
  "mini_template op \<equiv> (new_pattern_inst_body (mini_inst 0x50 0))\<lparr>ib_ops := (\<lambda>i. if i = 0 then op else new_pattern_op)\<rparr>"

section \<open>Settings\<close>

definition mini_packet :: "put_call list packet_ops" where
  "mini_packet =
     \<lparr>pk_empty = [], pk_putInt = (\<lambda>p k v. p @ [PutInt k v]), pk_putInt64 = (\<lambda>p k v. p @ [PutInt64 k v]),
      pk_putString = (\<lambda>p k s. p @ [PutString k s]), pk_putWString = (\<lambda>p k s. p @ [PutWString k s]),
      pk_getInt = (\<lambda>p k d. case calls_of k p of PutInt j v # _ \<Rightarrow> v | _ \<Rightarrow> d),
      pk_getLongLong = (\<lambda>p k d. case calls_of k p of PutInt64 j v # _ \<Rightarrow> v | _ \<Rightarrow> d),
      pk_getString = (\<lambda>p k d. case calls_of k p of PutString j s # _ \<Rightarrow> s | _ \<Rightarrow> d),
      pk_getWString = (\<lambda>p k d. case calls_of k p of PutWString j s # _ \<Rightarrow> s | _ \<Rightarrow> d),
      pk_fields = (\<lambda>p k. concat (map (\<lambda>c. case c of PutWString j s \<Rightarrow> [s] | _ \<Rightarrow> []) (calls_of k p))),
      pk_data = (\<lambda>p. []), pk_parse = (\<lambda>b. [])\<rparr>"

lemma mini_packet_laws: "packet_laws mini_packet"
proof -
  have "put mini_packet c p = p @ [c]" for c p by (cases c) (simp_all add: mini_packet_def)
  then have "fold (put mini_packet) cs p = p @ cs" for cs p by (induction cs arbitrary: p) simp_all
  then have log: "fold (put mini_packet) cs (pk_empty mini_packet) = cs" for cs
    by (simp add: mini_packet_def)
  have "concat (map (\<lambda>c. case c of PutWString j s \<Rightarrow> [s] | _ \<Rightarrow> []) (map (PutWString k) ss)) = ss" for k ss
    by (induction ss) simp_all
  then show ?thesis unfolding packet_laws_def Let_def log by (auto simp: mini_packet_def)
qed

definition mini_config :: xvmdbg_config where
  "mini_config = loadxvmcfg mini_packet [] (undefined\<lparr>recentPASM := replicate 5 []\<rparr>)"

section \<open>Constant folding\<close>

section \<open>Temporary pushes and pops\<close>

definition mini_uop :: "int \<Rightarrow> int \<Rightarrow> 64 word \<Rightarrow> ud_operand" where
  "mini_uop t r v = \<lparr>uo_type = t, uo_base = r, uo_index = 0, uo_scale = 0, uo_offset = 0, uo_size = 32,
     uo_lval = v\<rparr>"

text \<open>
  Registers are numbered from 1 in the order of their encoding. \<open>0x50 + r\<close> and \<open>0x58 + r\<close> push and pop,
  \<open>0x40 + r\<close> increments, \<open>0xB8 + r\<close> loads the next byte, \<open>0x8B\<close> copies one register to another,
  the rest has no operands.
\<close>

definition mini_decode :: "byte list \<Rightarrow> ud_insn" where
  "mini_decode bs =
     (let b = uint (hd (bs @ [0x90])); v = hd (drop 1 bs @ [0]);
          one = (\<lambda>m r. \<lparr>ui_len = 1, ui_mnemonic = m, ui_opr = [0 \<mapsto> mini_uop 1 r 0], ui_opr_mode = 32\<rparr>);
          two = (\<lambda>m r o2. \<lparr>ui_len = 2, ui_mnemonic = m, ui_opr = [0 \<mapsto> mini_uop 1 r 0, 1 \<mapsto> o2], ui_opr_mode = 32\<rparr>)
      in if 0x40 \<le> b \<and> b < 0x48 then one UD_Iinc (b - 0x3F)
         else if 0x50 \<le> b \<and> b < 0x58 then one UD_Ipush (b - 0x4F)
         else if 0x58 \<le> b \<and> b < 0x60 then one UD_Ipop (b - 0x57)
         else if 0xB8 \<le> b \<and> b < 0xC0 then two UD_Imov (b - 0xB7) (mini_uop 2 0 (ucast v))
         else if b = 0x8B then two UD_Imov (uint v div 8 + 1) (mini_uop 1 (uint v mod 8 + 1) 0)
         else \<lparr>ui_len = 1, ui_mnemonic = UD_Iother b, ui_opr = Map.empty, ui_opr_mode = 32\<rparr>)"

definition mini_encode :: "ud_insn \<Rightarrow> int \<times> byte list" where
  "mini_encode ud =
     (case (ui_opr ud 0, ui_opr ud 1) of
        (Some o1, Some o2) \<Rightarrow> (2, [word_of_int (0xB7 + uo_base o1), ucast (uo_lval o2)])
      | (Some o1, None) \<Rightarrow> (1, [word_of_int (0x3F + uo_base o1)])
      | _ \<Rightarrow> (1, [0x90]))"

text \<open>
  Operand types: 1 a register, 2 a constant, 4 memory; register 5 is the stack pointer.
\<close>

definition mini_same :: "ud_operand option \<Rightarrow> ud_operand option \<Rightarrow> bool" where
  "mini_same p q =
     (case (p, q) of
        (Some a, Some b) \<Rightarrow> uo_type a = uo_type b \<and> (if uo_type a = 2 then uo_lval a = uo_lval b
          else uo_base a = uo_base b \<and> uo_size a = uo_size b \<and> (uo_type a = 4 \<longrightarrow> uo_lval a = uo_lval b))
      | _ \<Rightarrow> False)"

definition mini_is_reg :: "ud_operand option \<Rightarrow> int \<Rightarrow> bool \<Rightarrow> bool" where
  "mini_is_reg p r any = (case p of Some a \<Rightarrow> uo_type a = 1 \<and> uo_base a = r | None \<Rightarrow> False)"

definition mini_is_imm :: "ud_operand option \<Rightarrow> bool" where
  "mini_is_imm p = (case p of Some a \<Rightarrow> uo_type a = 2 | None \<Rightarrow> False)"

definition mini_esp_mem :: "ud_operand option \<Rightarrow> int \<Rightarrow> bool \<Rightarrow> bool" where
  "mini_esp_mem p d any =
     (case p of Some a \<Rightarrow> uo_type a = 4 \<and> uo_base a = 5 \<and> (any \<or> sint (uo_lval a) = d) | None \<Rightarrow> False)"

definition mini_no_esp :: "ud_operand option \<Rightarrow> bool" where
  "mini_no_esp p = (case p of Some a \<Rightarrow> uo_type a = 2 \<or> uo_base a \<noteq> 5 | None \<Rightarrow> False)"

definition mini_ud :: ud_env where
  "mini_ud =
     \<lparr>ud_decode = (\<lambda>bs a. mini_decode bs), esp_after = (\<lambda>tr. Some (tr_regs (tx_ctx2 tr) ! 4)), UD_NONE = 0,
      UD_OP_REG = 1, UD_OP_IMM = 2, UD_OP_CONST = 3, UD_OP_MEM = 4, UD_R_RSP = 5,
      udex_get_rel_reg = (\<lambda>r b. r), udex_isref_reg = (\<lambda>op r. if uo_base op = r then r else 0),
      udex_get_opimm = uo_lval, IsEspMemOperand = mini_esp_mem,
      udex_set_op = (\<lambda>ud i t v sz r. ud\<lparr>ui_opr := (ui_opr ud)(i \<mapsto> mini_uop t r v)\<rparr>),
      set_op_size = 32, set_op_base = 0, udex_to_bc = mini_encode, UD_R_ESP = 5, ud_set_pc = (\<lambda>ud a. ud),
      udex_init = (\<lambda>m a. \<lparr>ui_len = 0, ui_mnemonic = m, ui_opr = Map.empty, ui_opr_mode = 32\<rparr>),
      IsSameOperand = mini_same, IsRegister = mini_is_reg, IsNoneEspRelateOP = mini_no_esp, IsImmOperand = mini_is_imm,
      udex_get_sizeimm = (\<lambda>v sz. take_bit (nat sz) v), imm_shl = (\<lambda>v i. push_bit (unat i) v),
      imm_shr = (\<lambda>v i. drop_bit (unat i) v), RECORD_FLAG_DELETE = 1, RECORD_FLAG_JUNK = 2, RECORD_FLAG_TEMPFLAG = 4,
      RECORD_FLAG_OPERFLAG = 8, RECORD_FLAG_MOVETOTOP = 16\<rparr>"

definition mini_records :: "(byte list \<times> int) list \<Rightarrow> InstSequence" where
  "mini_records xs =
     \<lparr>is_nodes = map (\<lambda>(n, (code, d)). (n, (mini_rec (0x401000 + of_nat n) 0 0x1000 (0x1000 + word_of_int d))
        \<lparr>tx_ctx1 := (tx_ctx1 (mini_rec (0x401000 + of_nat n) 0 0x1000 0))\<lparr>tr_opcode := code, tr_szOP := int (length code)\<rparr>\<rparr>))
        (zip [0..<length xs] xs), is_fresh = length xs\<rparr>"

definition shown :: "InstSequence \<Rightarrow> (nat \<times> 32 word \<times> byte list) list" where
  "shown seq = map (\<lambda>(n, tr). (n, tx_flags tr, tr_opcode (tx_ctx1 tr))) (is_nodes seq)"

lemma mini_ud_ok: "flags_apart mini_ud" "decoder_ok mini_ud"
proof -
  show "flags_apart mini_ud" by (simp add: flags_apart_def mini_ud_def has_def)
  have "operands_given (mini_decode bs)" for bs
    by (simp add: mini_decode_def operands_given_def Let_def is_unary_def is_binary_def)
  then show "decoder_ok mini_ud" by (simp add: decoder_ok_def mini_ud_def)
qed

definition mini_pair :: InstSequence where
  "mini_pair = mini_records [([0x50], -4), ([0xB8, 5], 0), ([0x40], 0), ([0x8B, 8], 0), ([0x58], 4)]"

end
