(* ===== verification/PeepRules.thy ===== *)
theory PeepRules
  imports PushPop
begin

text \<open>
  The peephole rules of \<open>xVMDebugFrame::doDeobfuscateNormal\<close> (\<open>xvmdebugframe.cpp\<close>): a window of
  decoded instructions is compared with the junk sequences obfuscators emit; a rule that applies flags
  records or gives them other code. A rule here is a function from the window to what the code does
  with it, a list of actions; nothing is written while a rule is chosen.
\<close>

section \<open>Windows\<close>

text \<open>The records in a row that could be decoded, up to six, with their instructions.\<close>

type_synonym window = "(nat \<times> TraceRecordEx \<times> ud_insn) list"

definition insn :: "window \<Rightarrow> nat \<Rightarrow> ud_insn" where
  "insn ws k = snd (snd (ws ! k))"

definition rip_of :: "window \<Rightarrow> nat \<Rightarrow> addr" where
  "rip_of ws k = tr_rip (tx_ctx1 (fst (snd (ws ! k))))"

definition mn :: "window \<Rightarrow> nat \<Rightarrow> ud_mnemonic" where
  "mn ws k = ui_mnemonic (insn ws k)"

text \<open>
  \<open>ud_insn_opr\<close>. Some operands are fetched before it is known that the window reaches so far; they are not
  used then.
\<close>

definition opr :: "window \<Rightarrow> nat \<Rightarrow> nat \<Rightarrow> ud_operand option" where
  "opr ws k i = (if k < length ws then ui_opr (insn ws k) i else None)"

section \<open>Conditions\<close>

text \<open>
  A condition that reads an operand through a null pointer is a fault; \<open>all_of\<close> and \<open>any_of\<close> are
  \<open>&&\<close> and \<open>||\<close>, which look no further than they must.
\<close>

type_synonym cond = "fault + bool"

fun all_of :: "cond list \<Rightarrow> cond" where
  "all_of [] = Inr True"
| "all_of (Inl f # cs) = Inl f"
| "all_of (Inr b # cs) = (if b then all_of cs else Inr False)"

fun any_of :: "cond list \<Rightarrow> cond" where
  "any_of [] = Inr False"
| "any_of (Inl f # cs) = Inl f"
| "any_of (Inr b # cs) = (if b then Inr True else any_of cs)"

definition deref :: "ud_operand option \<Rightarrow> (ud_operand \<Rightarrow> fault + 'a) \<Rightarrow> fault + 'a" where
  "deref p f = (case p of None \<Rightarrow> Inl Null_deref | Some op \<Rightarrow> f op)"

definition op_is :: "ud_operand option \<Rightarrow> (ud_operand \<Rightarrow> bool) \<Rightarrow> cond" where
  "op_is p P = deref p (\<lambda>op. Inr (P op))"

section \<open>Actions\<close>

text \<open>
  What is done with the record at a place of the window: flag it as junk, give it the code of an
  instruction, give it the code of another record, or write a five-byte jump.
\<close>

datatype action = Drop nat | Emit nat ud_insn | CopyCode nat nat | Jump nat "32 word"

text \<open>The operands of a new instruction: copied through a pointer, or set by \<open>udex_set_op\<close>.\<close>

datatype opsrc = Copy "ud_operand option" | New int "64 word" int int

fun set_ops :: "ud_env \<Rightarrow> nat \<Rightarrow> opsrc list \<Rightarrow> ud_insn \<Rightarrow> fault + ud_insn" where
  "set_ops U i [] ud = Inr ud"
| "set_ops U i (Copy p # ss) ud =
     deref p (\<lambda>op. set_ops U (i + 1) ss (ud\<lparr>ui_opr := (ui_opr ud)(i := Some op)\<rparr>))"
| "set_ops U i (New t v sz r # ss) ud = set_ops U (i + 1) ss (udex_set_op U ud i t v sz r)"

definition emit :: "ud_env \<Rightarrow> window \<Rightarrow> nat \<Rightarrow> ud_mnemonic \<Rightarrow> opsrc list \<Rightarrow> fault + action" where
  "emit U ws k m ss =
     bindF (set_ops U 0 ss (udex_init U m (rip_of ws k))) (\<lambda>ud. Inr (Emit k ud))"

text \<open>A copy of an instruction of the window with another first operand.\<close>

definition emit_as :: "ud_env \<Rightarrow> nat \<Rightarrow> ud_insn \<Rightarrow> ud_operand option \<Rightarrow> fault + action" where
  "emit_as U k ud p = bindF (set_ops U 0 [Copy p] ud) (\<lambda>ud'. Inr (Emit k ud'))"

definition drop_at :: "nat \<Rightarrow> fault + action" where
  "drop_at k = Inr (Drop k)"

fun collect :: "(fault + action) list \<Rightarrow> fault + action list" where
  "collect [] = Inr []"
| "collect (a # as) = bindF a (\<lambda>x. bindF (collect as) (\<lambda>xs. Inr (x # xs)))"

text \<open>
  The outcome of a rule: whether \<open>state\<close> was set, and the actions. Some rules act and leave \<open>state\<close> 0.
\<close>

type_synonym verdict = "fault + (bool \<times> action list)"

definition hit :: "(fault + action) list \<Rightarrow> verdict" where
  "hit as = bindF (collect as) (\<lambda>xs. Inr (True, xs))"

definition act_only :: "(fault + action) list \<Rightarrow> verdict" where
  "act_only as = bindF (collect as) (\<lambda>xs. Inr (False, xs))"

definition pass :: verdict where
  "pass = Inr (False, [])"

text \<open>An \<open>if\<close> ... \<open>else if\<close> chain; and a rule that is tried when \<open>state\<close> is still 0.\<close>

fun first_of :: "(cond \<times> verdict) list \<Rightarrow> verdict" where
  "first_of [] = pass"
| "first_of ((c, v) # rs) = bindF c (\<lambda>b. if b then v else first_of rs)"

declare first_of.simps [simp del] all_of.simps [simp del] any_of.simps [simp del]

definition or_else :: "verdict \<Rightarrow> verdict \<Rightarrow> verdict" where
  "or_else v w = bindF v (\<lambda>(h, as). if h then Inr (h, as)
     else bindF w (\<lambda>(h', as'). Inr (h', as @ as')))"

definition swap_if :: "bool \<Rightarrow> 'a \<times> 'a \<Rightarrow> 'a \<times> 'a" where
  "swap_if b p = (if b then (snd p, fst p) else p)"

section \<open>Operands by the names the code gives them\<close>

abbreviation "op01 ws \<equiv> opr ws 0 0"
abbreviation "op02 ws \<equiv> opr ws 0 1"
abbreviation "op11 ws \<equiv> opr ws 1 0"
abbreviation "op12 ws \<equiv> opr ws 1 1"
abbreviation "op21 ws \<equiv> opr ws 2 0"
abbreviation "op22 ws \<equiv> opr ws 2 1"
abbreviation "op31 ws \<equiv> opr ws 3 0"
abbreviation "op32 ws \<equiv> opr ws 3 1"
abbreviation "op41 ws \<equiv> opr ws 4 0"
abbreviation "op42 ws \<equiv> opr ws 4 1"

abbreviation "esp_mem U p \<equiv> IsEspMemOperand U p 0 False"
abbreviation "is_sp U p \<equiv> IsRegister U p (UD_R_RSP U) True"
abbreviation "is_type p t \<equiv> op_is p (\<lambda>op. uo_type op = t)"
abbreviation "imm_of U p f \<equiv> deref p (\<lambda>op. f (udex_get_opimm U op))"
abbreviation "new_imm U v \<equiv> New (UD_OP_IMM U) v (set_op_size U) (set_op_base U)"
abbreviation "new_imm_sz U v sz \<equiv> New (UD_OP_IMM U) v sz (set_op_base U)"

definition not_on_sp :: "ud_env \<Rightarrow> ud_operand option \<Rightarrow> cond" where
  "not_on_sp U p = all_of
     [op_is p (\<lambda>op. udex_get_rel_reg U (uo_base op) 64 \<noteq> UD_R_RSP U),
      op_is p (\<lambda>op. udex_get_rel_reg U (uo_index op) 64 \<noteq> UD_R_RSP U)]"

section \<open>Pairs that cancel\<close>

definition bswap_rule :: "ud_env \<Rightarrow> window \<Rightarrow> verdict" where
  "bswap_rule U ws =
     (if mn ws 1 = UD_Ibswap \<and> IsSameOperand U (op01 ws) (op11 ws)
      then hit [drop_at 0, drop_at 1] else pass)"

definition neg_rule :: "ud_env \<Rightarrow> window \<Rightarrow> verdict" where
  "neg_rule U ws =
     (if mn ws 1 = UD_Ineg \<and> IsSameOperand U (op01 ws) (op11 ws)
      then hit [drop_at 0, drop_at 1] else pass)"

definition not_rule :: "ud_env \<Rightarrow> window \<Rightarrow> verdict" where
  "not_rule U ws =
     (if mn ws 1 = UD_Inot \<and> IsSameOperand U (op01 ws) (op11 ws)
      then hit [drop_at 0, drop_at 1] else pass)"

section \<open>Exchanges\<close>

text \<open>
  The branches swap the operand pointers in place; what \<open>op01\<close> and \<open>op02\<close> are afterwards is part of the
  result, because the rules after the switch read them.
\<close>

definition xchg_two :: "ud_env \<Rightarrow> window \<Rightarrow> (ud_operand option \<times> ud_operand option) \<times> bool" where
  "xchg_two U ws =
     (let same = IsSameOperand U;
          o1 = (op11 ws, op12 ws);
          meet = same (op01 ws) (op11 ws) \<or> same (op01 ws) (op12 ws);
          o1' = swap_if (meet \<and> same (op01 ws) (op12 ws)) o1
      in (o1', meet \<and> same (op02 ws) (snd o1')))"

definition xchg_three ::
  "ud_env \<Rightarrow> window \<Rightarrow> ud_operand option \<times> ud_operand option
    \<Rightarrow> (ud_operand option \<times> ud_operand option) \<times> verdict" where
  "xchg_three U ws o1 =
     (let same = IsSameOperand U; o0 = (op01 ws, op02 ws); o2 = (op21 ws, op22 ws)
      in if 3 \<le> length ws \<and> mn ws 2 = UD_Ixchg
            \<and> (same (fst o0) (fst o2) \<or> same (fst o0) (snd o2) \<or> same (snd o0) (fst o2) \<or> same (snd o0) (snd o2))
         then (let o0' = swap_if (same (snd o0) (fst o2) \<or> same (snd o0) (snd o2)) o0;
                   o2' = swap_if (same (fst o0') (snd o2)) o2;
                   o1' = swap_if (same (snd o2') (snd o1)) o1
               in (o0', if (same (snd o2') (fst o1) \<or> same (snd o2') (snd o1)) \<and> same (snd o1') (snd o0')
                        then hit [drop_at 1, drop_at 2,
                               emit U ws 0 UD_Ixchg [Copy (fst o1'), Copy (snd o1')]]
                        else pass))
         else (o0, pass))"

definition xchg_around ::
  "ud_env \<Rightarrow> window \<Rightarrow> (ud_operand option \<times> ud_operand option) \<times> verdict" where
  "xchg_around U ws =
     (let same = IsSameOperand U; o0 = (op01 ws, op02 ws); o2 = (op21 ws, op22 ws);
          o2' = swap_if (same (fst o0) (snd o2)) o2
      in if 3 \<le> length ws \<and> mn ws 2 = UD_Ixchg \<and> (same (fst o0) (fst o2) \<or> same (fst o0) (snd o2))
            \<and> same (snd o0) (snd o2') \<and> (same (op11 ws) (fst o0) \<or> same (op11 ws) (snd o0))
         then (let o0' = swap_if (same (op11 ws) (fst o0)) o0
               in (o0', if mn ws 1 \<in> {UD_Inot, UD_Idec, UD_Iinc, UD_Ineg, UD_Ibswap}
                        then hit [emit_as U 0 (ud_set_pc U (insn ws 1) (rip_of ws 0)) (fst o0'),
                               drop_at 1, drop_at 2]
                        else pass))
         else (o0, pass))"

definition xchg_rule ::
  "ud_env \<Rightarrow> window \<Rightarrow> (ud_operand option \<times> ud_operand option) \<times> verdict" where
  "xchg_rule U ws =
     (if IsSameOperand U (op01 ws) (op02 ws) then ((op01 ws, op02 ws), act_only [drop_at 0])
      else if mn ws 1 = UD_Ixchg then
        (let (o1, found) = xchg_two U ws
         in if found then ((op01 ws, op02 ws), hit [drop_at 0, drop_at 1]) else xchg_three U ws o1)
      else xchg_around U ws)"

section \<open>Rules that begin with a push\<close>

subsection \<open>push, mov\<close>

text \<open>The saved register gets the stack pointer: it is the stack pointer that is changed.\<close>

definition push_mov_esp :: "ud_env \<Rightarrow> window \<Rightarrow> verdict" where
  "push_mov_esp U ws =
     deref (op01 ws) (\<lambda>o01. deref (op11 ws) (\<lambda>o11.
       let resp = udex_get_rel_reg U (UD_R_RSP U) (uo_size o01)
       in first_of
         [(all_of [Inr (mn ws 2 = UD_Ixchg), Inr (esp_mem U (op21 ws)),
                   Inr (IsSameOperand U (op01 ws) (op22 ws))],
           hit [emit U ws 0 UD_Ipush [New (UD_OP_REG U) 0 0 resp],
                emit U ws 1 UD_Isub [New (UD_OP_MEM U) 0 (uo_size o11) resp, new_imm_sz U 4 (uo_size o11)],
                drop_at 2]),
          (all_of [Inr (5 \<le> length ws), Inr (mn ws 2 = UD_Iadd),
                   Inr (IsSameOperand U (op01 ws) (op21 ws)), is_type (op22 ws) (UD_OP_IMM U),
                   Inr (mn ws 3 = UD_Ixchg), Inr (esp_mem U (op31 ws)),
                   Inr (IsSameOperand U (op01 ws) (op32 ws))],
           if (mn ws 4 = UD_Ipop \<and> IsRegister U (op41 ws) resp False)
              \<or> (mn ws 4 = UD_Imov \<and> IsRegister U (op41 ws) resp False \<and> esp_mem U (op42 ws))
           then deref (op22 ws) (\<lambda>o22.
             hit [emit U ws 0 UD_Iadd [New (UD_OP_REG U) 0 0 resp,
                    new_imm_sz U (scast (ucast (uo_lval o22) - 4 :: 32 word)) (uo_size o11)],
                  drop_at 1, drop_at 2, drop_at 3, drop_at 4])
           else pass)]))"

definition push_mov_three :: "ud_env \<Rightarrow> window \<Rightarrow> verdict" where
  "push_mov_three U ws =
     (let same = IsSameOperand U; none = IsNoneEspRelateOP U
      in first_of
        [(all_of [is_type (op11 ws) (UD_OP_REG U), Inr (same (op01 ws) (op11 ws)),
                  is_type (op12 ws) (UD_OP_REG U),
                  op_is (op12 ws) (\<lambda>op. udex_get_rel_reg U (uo_base op) 64 = UD_R_RSP U)],
          push_mov_esp U ws),
         (all_of [is_type (op11 ws) (UD_OP_REG U), Inr (same (op01 ws) (op11 ws)),
                  Inr (IsEspMemOperand U (op12 ws) 4 False)],
          deref (op01 ws) (\<lambda>o01. first_of
            [(all_of [Inr (mn ws 2 = UD_Ipop), Inr (esp_mem U (op21 ws)),
                      op_is (op21 ws) (\<lambda>op. uo_size op = uo_size o01)],
              hit [emit U ws 0 UD_Ixchg [New (UD_OP_MEM U) 0 0 (UD_R_ESP U),
                     New (UD_OP_REG U) 0 0 (uo_base o01)],
                   drop_at 1, drop_at 2])])),
         (all_of [Inr (esp_mem U (op01 ws)), Inr (esp_mem U (op12 ws)), Inr (mn ws 2 = UD_Iadd),
                  Inr (is_sp U (op21 ws)), is_type (op22 ws) (UD_OP_IMM U),
                  op_is (op22 ws) (\<lambda>op. uo_lval op = 8)],
          hit [emit U ws 0 UD_Ipop [Copy (op11 ws)], drop_at 1, drop_at 2]),
         (all_of [Inr (none (op01 ws)), Inr (none (op11 ws)), Inr (same (op01 ws) (op11 ws)),
                  Inr (none (op12 ws)), Inr (mn ws 2 = UD_Ipop), Inr (same (op12 ws) (op21 ws))],
          hit [emit U ws 0 UD_Ixchg [Copy (op01 ws), Copy (op21 ws)], drop_at 1, drop_at 2])])"

text \<open>A memory operand that is the register \<open>op01\<close> alone.\<close>

definition at_reg :: "ud_env \<Rightarrow> ud_operand option \<Rightarrow> ud_operand option \<Rightarrow> cond" where
  "at_reg U p o01 = all_of
     [Inr (p \<noteq> None), is_type p (UD_OP_MEM U),
      op_is p (\<lambda>op. uo_index op = 0 \<and> uo_scale op = 0 \<and> uo_offset op = 0),
      deref p (\<lambda>op. op_is o01 (\<lambda>op1. uo_base op = uo_base op1)), is_type o01 (UD_OP_REG U)]"

definition push_mov_four :: "ud_env \<Rightarrow> window \<Rightarrow> verdict" where
  "push_mov_four U ws =
     (let same = IsSameOperand U; none = IsNoneEspRelateOP U
      in if 4 \<le> length ws \<and> mn ws 2 = UD_Imov \<and> mn ws 3 = UD_Ipop
            \<and> list_all none [op01 ws, op11 ws, op12 ws, op21 ws, op22 ws, op31 ws]
            \<and> same (op01 ws) (op11 ws) \<and> same (op01 ws) (op31 ws)
         then first_of
           [(Inr (same (op01 ws) (op22 ws)),
             hit [emit U ws 0 UD_Imov [Copy (op21 ws), Copy (op12 ws)],
                  drop_at 1, drop_at 2, drop_at 3]),
            (at_reg U (op21 ws) (op01 ws),
             deref (op12 ws) (\<lambda>o12.
               hit [emit U ws 0 UD_Imov [New (UD_OP_MEM U) 0 0 (uo_base o12), Copy (op22 ws)],
                    drop_at 1, drop_at 2, drop_at 3])),
            (at_reg U (op22 ws) (op01 ws),
             deref (op12 ws) (\<lambda>o12.
               hit [emit U ws 0 UD_Imov [Copy (op21 ws), New (UD_OP_MEM U) 0 0 (uo_base o12)],
                    drop_at 1, drop_at 2, drop_at 3]))]
         else pass)"

definition push_mov_five :: "ud_env \<Rightarrow> window \<Rightarrow> verdict" where
  "push_mov_five U ws =
     (let same = IsSameOperand U;
          negate = hit [emit U ws 0 UD_Ineg [Copy (op22 ws)],
                        drop_at 1, drop_at 2, drop_at 3, drop_at 4]
      in if 5 \<le> length ws then first_of
           [(all_of [Inr (mn ws 2 = UD_Isub), Inr (mn ws 4 = UD_Ipop),
                     is_type (op12 ws) (UD_OP_IMM U), op_is (op12 ws) (\<lambda>op. uo_lval op = 0),
                     Inr (same (op01 ws) (op11 ws)), Inr (same (op01 ws) (op21 ws)),
                     Inr (same (op01 ws) (op41 ws))],
             if mn ws 3 = UD_Ixchg then
               (if same (op21 ws) (op31 ws) \<or> same (op21 ws) (op32 ws) then
                  (let o3 = swap_if (same (op21 ws) (op32 ws)) (op31 ws, op32 ws)
                   in if same (op22 ws) (snd o3) then negate else pass)
                else pass)
             else if mn ws 3 = UD_Imov then
               (if same (op21 ws) (op32 ws) \<and> same (op22 ws) (op31 ws) then negate else pass)
             else pass)]
         else pass)"

text \<open>
  The displacement of \<open>op11\<close> is not compared with 0 in the second condition. When the value stored is the
  stack pointer, the push stores what it was before: the difference is subtracted afterwards.
\<close>

definition store_top :: "ud_env \<Rightarrow> window \<Rightarrow> verdict" where
  "store_top U ws =
     deref (op11 ws) (\<lambda>o11.
       hit [emit U ws 0 UD_Ipush [Copy (op12 ws)],
            if is_sp U (op12 ws)
            then emit U ws 1 UD_Isub [New (UD_OP_MEM U) 0 (uo_size o11) (UD_R_RSP U),
                   new_imm_sz U 4 (uo_size o11)]
            else drop_at 1])"

definition push_mov_rule :: "ud_env \<Rightarrow> window \<Rightarrow> verdict" where
  "push_mov_rule U ws = first_of
     [(all_of [deref (op01 ws) (\<lambda>o01. Inr (IsRegister U (op01 ws)
                 (udex_get_rel_reg U (UD_R_RSP U) (uo_size o01)) False)),
               Inr (IsSameOperand U (op01 ws) (op11 ws)), Inr (esp_mem U (op12 ws))],
       hit [drop_at 0, drop_at 1]),
      (op_is (op11 ws) (\<lambda>op. uo_type op = UD_OP_MEM U \<and> ui_opr_mode (insn ws 1) = uo_size op
          \<and> uo_base op = UD_R_ESP U \<and> uo_index op = UD_NONE U \<and> uo_scale op = 0),
       store_top U ws),
      (Inr (3 \<le> length ws),
       or_else (push_mov_three U ws) (or_else (push_mov_four U ws) (push_mov_five U ws)))]"

subsection \<open>push and pop, add, lea, sub, ret\<close>

definition push_pop_rule :: "ud_env \<Rightarrow> window \<Rightarrow> verdict" where
  "push_pop_rule U ws =
     first_of
       [(all_of [is_type (op01 ws) (UD_OP_MEM U), is_type (op11 ws) (UD_OP_MEM U)], pass),
        (Inr (IsSameOperand U (op01 ws) (op11 ws)), hit [drop_at 0, drop_at 1]),
        (Inr True, hit [emit U ws 0 UD_Imov [Copy (op11 ws), Copy (op01 ws)], drop_at 1])]"

definition push_add_rule :: "ud_env \<Rightarrow> window \<Rightarrow> verdict" where
  "push_add_rule U ws =
     (if length ws < 3 then pass
      else deref (op01 ws) (\<lambda>o01. first_of
        [(Inr (IsRegister U (op01 ws) (udex_get_rel_reg U (UD_R_RSP U) (uo_size o01)) False),
          first_of
            [(Inr (IsEspMemOperand U (op11 ws) 4 False \<and> mn ws 2 = UD_Ipop \<and> esp_mem U (op21 ws)),
              hit [emit U ws 0 UD_Imov [New (UD_OP_MEM U) 0 (uo_size o01) (UD_R_RSP U),
                     New (UD_OP_REG U) 0 (uo_size o01) (UD_R_RSP U)],
                   drop_at 1, drop_at 2]),
             (all_of [Inr (esp_mem U (op11 ws)), is_type (op12 ws) (UD_OP_IMM U),
                      Inr (mn ws 2 = UD_Ipop), is_type (op21 ws) (UD_OP_REG U)],
              deref (op12 ws) (\<lambda>o12.
                hit [emit U ws 0 UD_Ilea [Copy (op21 ws),
                       New (UD_OP_MEM U) (uo_lval o12) (uo_size o01) (UD_R_RSP U)],
                     drop_at 1, drop_at 2]))]),
         (Inr (op11 ws \<noteq> None \<and> op12 ws \<noteq> None \<and> opr ws 1 2 = None \<and> esp_mem U (op11 ws)
             \<and> mn ws 2 = UD_Ipop),
          hit [emit U ws 0 UD_Imov [Copy (op21 ws), Copy (op01 ws)],
               emit_as U 1 (insn ws 1) (op21 ws), drop_at 2])]))"

definition push_lea_rule :: "ud_env \<Rightarrow> window \<Rightarrow> verdict" where
  "push_lea_rule U ws =
     (if length ws < 3 then pass
      else first_of
        [(all_of [is_type (op01 ws) (UD_OP_REG U), Inr (IsSameOperand U (op01 ws) (op11 ws)),
                  Inr (mn ws 2 = UD_Ixchg), Inr (esp_mem U (op21 ws)),
                  Inr (IsSameOperand U (op01 ws) (op22 ws))],
          deref (op01 ws) (\<lambda>o01. first_of
            [(Inr (IsEspMemOperand U (op12 ws) 4 False),
              hit [emit U ws 0 UD_Ipush [New (UD_OP_REG U) 0 (uo_size o01) (UD_R_RSP U)],
                   drop_at 1, drop_at 2]),
             (Inr (4 \<le> length ws \<and> IsEspMemOperand U (op12 ws) 0 True \<and> mn ws 3 = UD_Imov
                 \<and> IsRegister U (op31 ws) (UD_R_ESP U) False \<and> esp_mem U (op32 ws)),
              deref (op12 ws) (\<lambda>o12.
                hit [emit U ws 0 UD_Ilea [New (UD_OP_REG U) 0 (uo_size o01) (UD_R_RSP U),
                       New (UD_OP_MEM U) (uo_lval o12 - 4) (uo_size o01) (UD_R_RSP U)],
                     drop_at 1, drop_at 2, drop_at 3]))]))])"

definition push_sub_rule :: "ud_env \<Rightarrow> window \<Rightarrow> verdict" where
  "push_sub_rule U ws =
     (if length ws < 3 then pass
      else first_of
        [(all_of [is_type (op01 ws) (UD_OP_IMM U), op_is (op01 ws) (\<lambda>op. uo_lval op = 0),
                  Inr (esp_mem U (op11 ws)), Inr (mn ws 2 = UD_Ipop),
                  Inr (IsSameOperand U (op12 ws) (op21 ws))],
          hit [emit U ws 0 UD_Ineg [Copy (op12 ws)], drop_at 1, drop_at 2]),
         (all_of [Inr (is_sp U (op01 ws)), Inr (esp_mem U (op11 ws)), is_type (op12 ws) (UD_OP_IMM U)],
          if (mn ws 2 = UD_Imov \<and> is_sp U (op21 ws) \<and> esp_mem U (op22 ws))
             \<or> (mn ws 2 = UD_Ipop \<and> is_sp U (op21 ws))
          then deref (op12 ws) (\<lambda>o12.
            act_only [emit U ws 0 UD_Isub [New (UD_OP_REG U) 0 0 (UD_R_RSP U),
                        new_imm_sz U (udex_get_opimm U o12) (uo_size o12)],
                      drop_at 1, drop_at 2])
          else pass)])"

definition push_ret_rule :: "ud_env \<Rightarrow> window \<Rightarrow> verdict" where
  "push_ret_rule U ws = first_of
     [(all_of [is_type (op01 ws) (UD_OP_IMM U), Inr (op11 ws = None),
               Inr (ui_opr_mode (insn ws 1) = ui_opr_mode (insn ws 0))],
       imm_of U (op01 ws) (\<lambda>v. hit [Inr (Jump 0 (ucast v - rip_of ws 0 - 5)), drop_at 1]))]"

subsection \<open>push and whatever follows\<close>

text \<open>An instruction on the word above the pushed one is done before the push.\<close>

definition push_over_rule :: "ud_env \<Rightarrow> window \<Rightarrow> verdict" where
  "push_over_rule U ws = first_of
     [(all_of [Inr (op11 ws \<noteq> None), Inr (op12 ws \<noteq> None), Inr (IsEspMemOperand U (op11 ws) 4 False),
               not_on_sp U (op12 ws)],
       hit [Inr (CopyCode 1 0),
            emit_as U 0 (insn ws 1) (map_option (\<lambda>op. op\<lparr>uo_lval := 0\<rparr>) (op11 ws))])]"

definition push_use_pop_same :: "ud_env \<Rightarrow> window \<Rightarrow> verdict" where
  "push_use_pop_same U ws =
     (let m = mn ws 1
      in if \<not> IsSameOperand U (op01 ws) (op21 ws) then pass
         else first_of
           [(Inr (op11 ws \<noteq> None \<and> op12 ws \<noteq> None \<and> opr ws 1 2 = None),
             first_of
               [(Inr (esp_mem U (op11 ws)),
                 hit [emit U ws 0 m [Copy (op01 ws), Copy (op12 ws)], drop_at 1, drop_at 2]),
                (Inr (esp_mem U (op12 ws)),
                 hit [emit U ws 0 m [Copy (op11 ws), Copy (op01 ws)], drop_at 1, drop_at 2])]),
            (Inr (op11 ws \<noteq> None \<and> op12 ws = None),
             first_of
               [(Inr (esp_mem U (op11 ws)),
                 hit [emit U ws 0 m [Copy (op01 ws)], drop_at 1, drop_at 2])])])"

definition push_use_pop_other :: "ud_env \<Rightarrow> window \<Rightarrow> verdict" where
  "push_use_pop_other U ws = first_of
     [(all_of [Inr (op11 ws \<noteq> None), Inr (op12 ws \<noteq> None), Inr (esp_mem U (op11 ws)),
               not_on_sp U (op12 ws), Inr (\<not> IsEffectESP U (fst (snd (ws ! 1))))],
       hit [emit U ws 0 UD_Imov [Copy (op21 ws), Copy (op01 ws)],
            emit U ws 1 (mn ws 1) [Copy (op21 ws), Copy (op12 ws)], drop_at 2])]"

definition push_use_pop_rule :: "ud_env \<Rightarrow> window \<Rightarrow> verdict" where
  "push_use_pop_rule U ws =
     (if 3 \<le> length ws \<and> mn ws 2 = UD_Ipop
      then or_else (push_use_pop_same U ws) (push_use_pop_other U ws) else pass)"

definition push_rule :: "ud_env \<Rightarrow> window \<Rightarrow> verdict" where
  "push_rule U ws =
     or_else
       (case mn ws 1 of
          UD_Imov \<Rightarrow> push_mov_rule U ws
        | UD_Ipop \<Rightarrow> push_pop_rule U ws
        | UD_Iadd \<Rightarrow> push_add_rule U ws
        | UD_Ilea \<Rightarrow> push_lea_rule U ws
        | UD_Isub \<Rightarrow> push_sub_rule U ws
        | UD_Iret \<Rightarrow> push_ret_rule U ws
        | _ \<Rightarrow> pass)
       (or_else (push_over_rule U ws) (push_use_pop_rule U ws))"

section \<open>Rules that begin with add or sub\<close>

text \<open>The second rule of \<open>add\<close> leaves \<open>state\<close> 0.\<close>

definition add_rule :: "ud_env \<Rightarrow> window \<Rightarrow> verdict" where
  "add_rule U ws =
     (let same = IsSameOperand U
      in first_of
        [(all_of [is_type (op02 ws) (UD_OP_IMM U), op_is (op02 ws) (\<lambda>op. uo_lval op = 0)],
          hit [drop_at 0]),
         (all_of [Inr (is_sp U (op01 ws)), is_type (op02 ws) (UD_OP_IMM U),
                  op_is (op02 ws) (\<lambda>op. udex_get_opimm U op = 4), Inr (mn ws 1 = UD_Imov),
                  Inr (ui_opr_mode (insn ws 0) = ui_opr_mode (insn ws 1)),
                  Inr (IsEspMemOperand U (op12 ws) (- 4) False)],
          act_only [emit U ws 0 UD_Ipop [Copy (op11 ws)], drop_at 1]),
         (Inr (3 \<le> length ws),
          if op11 ws \<noteq> None \<and> op12 ws \<noteq> None \<and> op21 ws \<noteq> None \<and> op22 ws \<noteq> None
             \<and> same (op01 ws) (op11 ws) \<and> same (op01 ws) (op21 ws) \<and> mn ws 2 = UD_Isub
             \<and> same (op02 ws) (op22 ws) \<and> mn ws 1 \<in> {UD_Isub, UD_Iadd}
          then hit [drop_at 0, drop_at 2] else pass)])"

text \<open>
  Of the constant only the low 16 bits are compared with 4, and as in \<open>push_mov_rule\<close> the displacement
  is not looked at.
\<close>

definition sub_mov_rule :: "ud_env \<Rightarrow> window \<Rightarrow> verdict" where
  "sub_mov_rule U ws = first_of
     [(all_of [is_type (op01 ws) (UD_OP_REG U), op_is (op01 ws) (\<lambda>op. uo_base op = UD_R_ESP U),
               any_of [is_type (op02 ws) (UD_OP_CONST U), is_type (op02 ws) (UD_OP_IMM U)],
               op_is (op02 ws) (\<lambda>op. (ucast (uo_lval op) :: 16 word) = 4),
               is_type (op11 ws) (UD_OP_MEM U),
               op_is (op11 ws) (\<lambda>op. uo_base op = UD_R_ESP U \<and> uo_index op = 0 \<and> uo_scale op = 0)],
       deref (op11 ws) (\<lambda>o11.
         hit [emit U ws 0 UD_Ipush [Copy (op12 ws)],
              if is_sp U (op12 ws)
              then emit U ws 1 UD_Isub [New (UD_OP_MEM U) 0 (uo_size o11) (UD_R_RSP U),
                     new_imm_sz U 4 (uo_size o11)]
              else drop_at 1]))]"

definition sub_rule :: "ud_env \<Rightarrow> window \<Rightarrow> verdict" where
  "sub_rule U ws =
     (let same = IsSameOperand U
      in first_of
        [(all_of [is_type (op02 ws) (UD_OP_IMM U), op_is (op02 ws) (\<lambda>op. uo_lval op = 0)],
          hit [drop_at 0]),
         (Inr True,
          or_else (if mn ws 1 = UD_Imov then sub_mov_rule U ws else pass)
            (if 3 \<le> length ws \<and> op11 ws \<noteq> None \<and> op21 ws \<noteq> None \<and> op22 ws \<noteq> None
                \<and> same (op01 ws) (op11 ws) \<and> same (op01 ws) (op21 ws) \<and> mn ws 2 = UD_Iadd
                \<and> same (op02 ws) (op22 ws) \<and> mn ws 1 \<in> {UD_Isub, UD_Iadd}
             then hit [drop_at 0, drop_at 2] else pass))])"

section \<open>Rules that begin with mov\<close>

definition mov_add_rule :: "ud_env \<Rightarrow> window \<Rightarrow> verdict" where
  "mov_add_rule U ws =
     (let same = IsSameOperand U; imm = IsImmOperand U
      in first_of
        [(Inr (same (op01 ws) (op11 ws) \<and> imm (op02 ws) \<and> imm (op12 ws)),
          imm_of U (op02 ws) (\<lambda>v. imm_of U (op12 ws) (\<lambda>i.
            hit [emit U ws 0 UD_Imov [Copy (op01 ws), new_imm U (v + i)], drop_at 1]))),
         (all_of [op_is (op02 ws) (\<lambda>op. uo_type op = UD_OP_MEM U \<and> uo_base op = UD_R_ESP U
                    \<and> uo_index op = 0 \<and> uo_scale op = 0 \<and> uo_lval op = 0),
                  op_is (op11 ws) (\<lambda>op. uo_type op = UD_OP_REG U \<and> uo_base op = UD_R_ESP U),
                  op_is (op12 ws) (\<lambda>op. uo_type op = UD_OP_IMM U \<and> uo_lval op = 4)],
          hit [emit U ws 0 UD_Ipop [Copy (op01 ws)], drop_at 1]),
         (all_of [Inr (imm (op02 ws)), imm_of U (op02 ws) (\<lambda>v. Inr (v = 0)),
                  Inr (same (op01 ws) (op11 ws))],
          hit [emit U ws 0 UD_Imov [Copy (op01 ws), Copy (op12 ws)], drop_at 1])])"

definition mov_mov_rule :: "ud_env \<Rightarrow> window \<Rightarrow> verdict" where
  "mov_mov_rule U ws = (if IsSameOperand U (op01 ws) (op11 ws) then hit [drop_at 0] else pass)"

definition mov_xor_rule :: "ud_env \<Rightarrow> window \<Rightarrow> verdict" where
  "mov_xor_rule U ws = first_of
     [(Inr (IsSameOperand U (op01 ws) (op11 ws) \<and> IsImmOperand U (op02 ws) \<and> IsImmOperand U (op12 ws)),
       imm_of U (op02 ws) (\<lambda>v. imm_of U (op12 ws) (\<lambda>i.
         hit [emit U ws 0 UD_Imov [Copy (op01 ws), new_imm U (v XOR i)], drop_at 1])))]"

definition mov_sub_rule :: "ud_env \<Rightarrow> window \<Rightarrow> verdict" where
  "mov_sub_rule U ws = first_of
     [(Inr (IsSameOperand U (op01 ws) (op11 ws) \<and> IsImmOperand U (op02 ws) \<and> IsImmOperand U (op12 ws)),
       imm_of U (op02 ws) (\<lambda>v. imm_of U (op12 ws) (\<lambda>i.
         hit [emit U ws 0 UD_Imov [Copy (op01 ws), new_imm U (v - i)], drop_at 1])))]"

definition mov_and_rule :: "ud_env \<Rightarrow> window \<Rightarrow> verdict" where
  "mov_and_rule U ws = first_of
     [(Inr (IsSameOperand U (op01 ws) (op11 ws) \<and> IsImmOperand U (op02 ws) \<and> IsImmOperand U (op12 ws)),
       imm_of U (op02 ws) (\<lambda>v. imm_of U (op12 ws) (\<lambda>i.
         hit [emit U ws 0 UD_Imov [Copy (op01 ws), new_imm U (v AND i)], drop_at 1])))]"

definition mov_or_rule :: "ud_env \<Rightarrow> window \<Rightarrow> verdict" where
  "mov_or_rule U ws = first_of
     [(Inr (IsSameOperand U (op01 ws) (op11 ws) \<and> IsImmOperand U (op02 ws) \<and> IsImmOperand U (op12 ws)),
       imm_of U (op02 ws) (\<lambda>v. imm_of U (op12 ws) (\<lambda>i.
         hit [emit U ws 0 UD_Imov [Copy (op01 ws), new_imm U (v OR i)], drop_at 1])))]"

definition mov_inc_rule :: "ud_env \<Rightarrow> window \<Rightarrow> verdict" where
  "mov_inc_rule U ws = first_of
     [(Inr (IsSameOperand U (op01 ws) (op11 ws) \<and> IsImmOperand U (op02 ws)),
       imm_of U (op02 ws) (\<lambda>v.
         hit [emit U ws 0 UD_Imov [Copy (op01 ws), new_imm U (v + 1)], drop_at 1]))]"

definition mov_dec_rule :: "ud_env \<Rightarrow> window \<Rightarrow> verdict" where
  "mov_dec_rule U ws = first_of
     [(Inr (IsSameOperand U (op01 ws) (op11 ws) \<and> IsImmOperand U (op02 ws)),
       imm_of U (op02 ws) (\<lambda>v.
         hit [emit U ws 0 UD_Imov [Copy (op01 ws), new_imm U (v - 1)], drop_at 1]))]"

definition mov_not_rule :: "ud_env \<Rightarrow> window \<Rightarrow> verdict" where
  "mov_not_rule U ws = first_of
     [(Inr (IsSameOperand U (op01 ws) (op11 ws) \<and> IsImmOperand U (op02 ws)),
       imm_of U (op02 ws) (\<lambda>v.
         hit [emit U ws 0 UD_Imov [Copy (op01 ws), new_imm U (NOT v)], drop_at 1]))]"

definition mov_neg_rule :: "ud_env \<Rightarrow> window \<Rightarrow> verdict" where
  "mov_neg_rule U ws = first_of
     [(Inr (IsSameOperand U (op01 ws) (op11 ws) \<and> IsImmOperand U (op02 ws)),
       imm_of U (op02 ws) (\<lambda>v.
         hit [emit U ws 0 UD_Imov [Copy (op01 ws), new_imm U (- v)], drop_at 1]))]"

definition mov_shl_rule :: "ud_env \<Rightarrow> window \<Rightarrow> verdict" where
  "mov_shl_rule U ws = first_of
     [(Inr (IsSameOperand U (op01 ws) (op11 ws) \<and> IsImmOperand U (op02 ws) \<and> IsImmOperand U (op12 ws)),
       imm_of U (op02 ws) (\<lambda>v. imm_of U (op12 ws) (\<lambda>i.
         hit [emit U ws 0 UD_Imov [Copy (op01 ws), new_imm U (imm_shl U v i)], drop_at 1])))]"

definition mov_shr_rule :: "ud_env \<Rightarrow> window \<Rightarrow> verdict" where
  "mov_shr_rule U ws = first_of
     [(Inr (IsSameOperand U (op01 ws) (op11 ws) \<and> IsImmOperand U (op02 ws) \<and> IsImmOperand U (op12 ws)),
       imm_of U (op02 ws) (\<lambda>v. imm_of U (op12 ws) (\<lambda>i.
         hit [emit U ws 0 UD_Imov [Copy (op01 ws), new_imm U (imm_shr U v i)], drop_at 1])))]"

text \<open>The constant is added and taken off again around another instruction.\<close>

definition mov_three_rule :: "ud_env \<Rightarrow> window \<Rightarrow> verdict" where
  "mov_three_rule U ws =
     (let same = IsSameOperand U; imm = IsImmOperand U;
          zeroed = (if mn ws 1 \<in> {UD_Isub, UD_Iadd} \<and> \<not> same (op01 ws) (op12 ws)
                    then hit [emit U ws 0 UD_Imov [Copy (op01 ws), new_imm U 0], drop_at 2] else pass)
      in if length ws < 3 then pass
         else first_of
           [(Inr (mn ws 2 = UD_Isub \<and> imm (op02 ws) \<and> same (op02 ws) (op22 ws)
                \<and> same (op01 ws) (op21 ws)), zeroed),
            (Inr (mn ws 2 = UD_Iadd \<and> imm (op02 ws) \<and> imm (op22 ws) \<and> same (op01 ws) (op21 ws)),
             deref (op02 ws) (\<lambda>o02. deref (op22 ws) (\<lambda>o22.
               if udex_get_sizeimm U (udex_get_opimm U o02 + udex_get_opimm U o22) (uo_size o02) = 0
               then zeroed else pass)))])"

definition mov_rule :: "ud_env \<Rightarrow> window \<Rightarrow> verdict" where
  "mov_rule U ws =
     or_else
       (case mn ws 1 of
          UD_Iadd \<Rightarrow> mov_add_rule U ws
        | UD_Imov \<Rightarrow> mov_mov_rule U ws
        | UD_Ixor \<Rightarrow> mov_xor_rule U ws
        | UD_Isub \<Rightarrow> mov_sub_rule U ws
        | UD_Iand \<Rightarrow> mov_and_rule U ws
        | UD_Ior \<Rightarrow> mov_or_rule U ws
        | UD_Iinc \<Rightarrow> mov_inc_rule U ws
        | UD_Idec \<Rightarrow> mov_dec_rule U ws
        | UD_Inot \<Rightarrow> mov_not_rule U ws
        | UD_Ineg \<Rightarrow> mov_neg_rule U ws
        | UD_Ishl \<Rightarrow> mov_shl_rule U ws
        | UD_Ishr \<Rightarrow> mov_shr_rule U ws
        | _ \<Rightarrow> pass)
       (mov_three_rule U ws)"

section \<open>Rules that begin with xor or lea\<close>

definition xor_rule :: "ud_env \<Rightarrow> window \<Rightarrow> verdict" where
  "xor_rule U ws =
     (let same = IsSameOperand U
      in if mn ws 1 = UD_Ixor then first_of
           [(Inr (same (op01 ws) (op11 ws) \<and> same (op02 ws) (op12 ws)), hit [drop_at 0, drop_at 1]),
            (Inr (3 \<le> length ws \<and> mn ws 2 = UD_Ixor),
             if same (op01 ws) (op12 ws) \<and> same (op01 ws) (op21 ws) \<and> same (op02 ws) (op11 ws)
                \<and> same (op02 ws) (op22 ws)
             then hit [emit U ws 0 UD_Ixchg [Copy (op01 ws), Copy (op02 ws)], drop_at 1, drop_at 2]
             else pass)]
         else pass)"

text \<open>\<open>lea\<close> followed by a change of the same register by a constant.\<close>

definition lea_disp_rule :: "ud_env \<Rightarrow> window \<Rightarrow> verdict" where
  "lea_disp_rule U ws =
     (let moved = (\<lambda>f. deref (op02 ws) (\<lambda>o02.
            hit [emit U ws 0 UD_Ilea [Copy (op01 ws),
                   New (UD_OP_MEM U) (f (uo_lval o02)) 0 (uo_base o02)],
                 drop_at 1]))
      in case mn ws 1 of
           UD_Isub \<Rightarrow> first_of [(is_type (op12 ws) (UD_OP_IMM U),
                        imm_of U (op12 ws) (\<lambda>lva. moved (\<lambda>ulv. ulv - lva)))]
         | UD_Iadd \<Rightarrow> first_of [(is_type (op12 ws) (UD_OP_IMM U),
                        imm_of U (op12 ws) (\<lambda>lva. moved (\<lambda>ulv. ulv + lva)))]
         | UD_Iinc \<Rightarrow> moved (\<lambda>ulv. ulv + 1)
         | UD_Idec \<Rightarrow> moved (\<lambda>ulv. ulv - 1)
         | _ \<Rightarrow> pass)"

text \<open>\<open>lea esp, [esp + lv]\<close> is an addition or a subtraction.\<close>

definition lea_sp_rule :: "ud_env \<Rightarrow> window \<Rightarrow> verdict" where
  "lea_sp_rule U ws =
     deref (op01 ws) (\<lambda>o01. deref (op02 ws) (\<lambda>o02.
       let lv = udex_get_opimm U o02;
           to = (\<lambda>m v. hit [emit U ws 0 m [New (UD_OP_REG U) 0 0 (uo_base o01), new_imm_sz U v (uo_size o02)]])
       in if lv = 0 then hit [drop_at 0]
          else if 0 <s lv then to UD_Iadd lv
          else to UD_Isub (- lv)))"

definition lea_rule :: "ud_env \<Rightarrow> window \<Rightarrow> verdict" where
  "lea_rule U ws =
     (let same = IsSameOperand U
      in first_of
        [(Inr (mn ws 1 = UD_Ijmp \<and> is_sp U (op01 ws) \<and> IsEspMemOperand U (op02 ws) 4 False
             \<and> IsEspMemOperand U (op11 ws) (- 4) False),
          hit [emit U ws 0 UD_Iret [], drop_at 1]),
         (Inr (mn ws 1 = UD_Ilea \<and> same (op01 ws) (op11 ws)), hit [drop_at 0]),
         (all_of [op_is (op02 ws) (\<lambda>op. uo_index op = UD_NONE U \<and> uo_scale op = 0),
                  Inr (op11 ws \<noteq> None), Inr (same (op01 ws) (op11 ws))],
          lea_disp_rule U ws),
         (all_of [Inr (is_sp U (op01 ws)),
                  op_is (op02 ws) (\<lambda>op. uo_type op = UD_OP_MEM U \<and> uo_scale op = 0 \<and> uo_index op = UD_NONE U),
                  deref (op02 ws) (\<lambda>o02. op_is (op01 ws) (\<lambda>op. uo_base o02 = uo_base op))],
          lea_sp_rule U ws)])"

section \<open>Rules tried when nothing else applied\<close>

text \<open>Two changes of the same place by constants are one change by their sum.\<close>

definition delta_of :: "ud_mnemonic \<Rightarrow> ud_mnemonic \<Rightarrow> 64 word \<Rightarrow> 64 word \<Rightarrow> 64 word" where
  "delta_of m0 m1 a b =
     (if m0 = UD_Isub then (if m1 = UD_Isub then - (a + b) else b - a)
      else (if m1 = UD_Isub then a - b else b + a))"

definition merge_rule :: "ud_env \<Rightarrow> window \<Rightarrow> verdict" where
  "merge_rule U ws =
     (if mn ws 0 \<in> {UD_Isub, UD_Iadd} \<and> mn ws 1 \<in> {UD_Isub, UD_Iadd}
         \<and> IsSameOperand U (op01 ws) (op11 ws)
      then first_of
        [(all_of [any_of [is_type (op02 ws) (UD_OP_IMM U), is_type (op02 ws) (UD_OP_CONST U)],
                  deref (op02 ws) (\<lambda>o02. op_is (op12 ws) (\<lambda>op. uo_type o02 = uo_type op))],
          deref (op01 ws) (\<lambda>o01. deref (op02 ws) (\<lambda>o02. deref (op12 ws) (\<lambda>o12.
            let delta = delta_of (mn ws 0) (mn ws 1) (uo_lval o02) (uo_lval o12);
                to = (\<lambda>m v. hit [emit U ws 0 m [Copy (op01 ws), new_imm_sz U v (uo_size o01)], drop_at 1])
            in if delta = 0 then hit [drop_at 0, drop_at 1]
               else if 0 <s delta then to UD_Iadd delta
               else to UD_Isub (- delta)))))]
      else pass)"

text \<open>
  What is written to the top of the stack is overwritten by the next instruction. The operands are
  the ones the exchange rules may have swapped.
\<close>

definition overwrite_rule ::
  "ud_env \<Rightarrow> window \<Rightarrow> ud_operand option \<times> ud_operand option \<Rightarrow> verdict" where
  "overwrite_rule U ws o0 = first_of
     [(all_of [Inr (fst o0 \<noteq> None), Inr (snd o0 \<noteq> None), Inr (mn ws 1 = UD_Imov),
               Inr (esp_mem U (fst o0)), Inr (esp_mem U (op11 ws)),
               deref (fst o0) (\<lambda>o01. op_is (op11 ws) (\<lambda>op. uo_size o01 = uo_size op)),
               Inr (\<not> IsEffectESP U (fst (snd (ws ! 0))))],
       hit [drop_at 0])]"

section \<open>The switch over the first instruction\<close>

definition first_switch ::
  "ud_env \<Rightarrow> window \<Rightarrow> (ud_operand option \<times> ud_operand option) \<times> verdict" where
  "first_switch U ws =
     (let as_is = (\<lambda>v. ((op01 ws, op02 ws), v))
      in case mn ws 0 of
           UD_Ibswap \<Rightarrow> as_is (bswap_rule U ws)
         | UD_Irdtsc \<Rightarrow> as_is (hit [drop_at 0])
         | UD_Ixchg \<Rightarrow> xchg_rule U ws
         | UD_Ineg \<Rightarrow> as_is (neg_rule U ws)
         | UD_Inot \<Rightarrow> as_is (not_rule U ws)
         | UD_Ipush \<Rightarrow> as_is (push_rule U ws)
         | UD_Iadd \<Rightarrow> as_is (add_rule U ws)
         | UD_Isub \<Rightarrow> as_is (sub_rule U ws)
         | UD_Imov \<Rightarrow> as_is (mov_rule U ws)
         | UD_Ixor \<Rightarrow> as_is (xor_rule U ws)
         | UD_Ilea \<Rightarrow> as_is (lea_rule U ws)
         | _ \<Rightarrow> as_is pass)"

definition peep :: "ud_env \<Rightarrow> window \<Rightarrow> verdict" where
  "peep U ws =
     (let (o0, v) = first_switch U ws
      in or_else v (or_else (merge_rule U ws) (overwrite_rule U ws o0)))"

end
