(* ===== verification/Peephole.thy ===== *)
theory Peephole
  imports PeepRules PushPopFacts
begin

text \<open>
  Peephole simplification of a trace (\<open>xVMDebugFrame::doDeobfuscateNormal\<close>, \<open>xvmdebugframe.cpp\<close>):
  the loop over the records that applies the rules of \<open>PeepRules\<close>, and what it keeps of the trace.
\<close>

section \<open>Reading a window\<close>

text \<open>
  Up to six records from here, until one cannot be decoded. A record that is flagged already makes the
  loop go on with the next one: \<open>None\<close>.
\<close>

definition MAX_N_INST :: nat where
  "MAX_N_INST = 6"

fun read_window :: "ud_env \<Rightarrow> 32 word \<Rightarrow> InstSequence \<Rightarrow> nat list \<Rightarrow> window option" where
  "read_window U mark seq [] = Some []"
| "read_window U mark seq (n # ns) =
     (case rec_at seq n of
        None \<Rightarrow> Some []
      | Some tr \<Rightarrow>
          if has (tx_flags tr) mark then None
          else if ui_len (decode_rec U tr) < 1 then Some []
          else map_option ((#) (n, tr, decode_rec U tr)) (read_window U mark seq ns))"

section \<open>Doing what a rule says\<close>

definition place :: "window \<Rightarrow> nat \<Rightarrow> nat" where
  "place ws k = fst (ws ! k)"

fun do_action :: "ud_env \<Rightarrow> 32 word \<Rightarrow> window \<Rightarrow> action \<Rightarrow> InstSequence \<Rightarrow> InstSequence" where
  "do_action U mark ws (Drop k) seq = upd_rec (place ws k) (or_flags mark) seq"
| "do_action U mark ws (Emit k ud) seq = upd_rec (place ws k) (put_code (udex_to_bc U ud)) seq"
| "do_action U mark ws (CopyCode k j) seq =
     (case rec_at seq (place ws j) of
        None \<Rightarrow> seq
      | Some tr \<Rightarrow> upd_rec (place ws k)
          (put_code (tr_szOP (tx_ctx1 tr), take (nat (tr_szOP (tx_ctx1 tr))) (tr_opcode (tx_ctx1 tr)))) seq)"
| "do_action U mark ws (Jump k v) seq = upd_rec (place ws k) (put_code (5, 0xE9 # le_bytes v)) seq"

definition do_actions :: "ud_env \<Rightarrow> 32 word \<Rightarrow> window \<Rightarrow> action list \<Rightarrow> InstSequence \<Rightarrow> InstSequence" where
  "do_actions U mark ws as seq = fold (do_action U mark ws) as seq"

section \<open>The loop\<close>

fun normal_loop ::
  "ud_env \<Rightarrow> 32 word \<Rightarrow> nat list \<Rightarrow> int \<Rightarrow> InstSequence \<Rightarrow> (int, InstSequence) outcome" where
  "normal_loop U mark [] nrc seq = Inr (nrc, seq)"
| "normal_loop U mark (n # ns) nrc seq =
     (case read_window U mark seq (take MAX_N_INST (n # ns)) of
        None \<Rightarrow> normal_loop U mark ns nrc seq
      | Some ws \<Rightarrow>
          if length ws < 2 then normal_loop U mark ns nrc seq
          else (case peep U ws of
                  Inl f \<Rightarrow> Inl f
                | Inr (h, as) \<Rightarrow>
                    normal_loop U mark ns (if h then nrc + 1 else nrc) (do_actions U mark ws as seq)))"

definition doDeobfuscateNormal :: "ud_env \<Rightarrow> InstSequence \<Rightarrow> bool \<Rightarrow> (int, InstSequence) outcome" where
  "doDeobfuscateNormal U seq flagonly =
     normal_loop U (if flagonly then RECORD_FLAG_JUNK U else RECORD_FLAG_DELETE U) (ids seq) 0 seq"

section \<open>The commands\<close>

text \<open>
  Both passes over the trace of the window, each followed by erasing what was flagged, until neither
  counts anything. The second pass returns 0 always. The loop has no bound: the result is an option.
\<close>

definition dobCurrentSequenceNormal :: "ud_env \<Rightarrow> bool \<Rightarrow> InstSequence \<Rightarrow> (int, InstSequence) outcome" where
  "dobCurrentSequenceNormal U markonly seq =
     bindS (doDeobfuscateNormal U seq markonly) (\<lambda>nr seq1.
       Inr (nr, snd (deleteFlagedInSeq (RECORD_FLAG_DELETE U) seq1)))"

definition dobCurrentSequencePushPop :: "ud_env \<Rightarrow> InstSequence \<Rightarrow> (int, InstSequence) outcome" where
  "dobCurrentSequencePushPop U seq =
     bindS (doDeobfuscateTempPushPop U seq) (\<lambda>nr seq1.
       Inr (nr, snd (deleteFlagedInSeq (RECORD_FLAG_DELETE U) seq1)))"

definition dob_once :: "ud_env \<Rightarrow> InstSequence \<Rightarrow> (int, InstSequence) outcome" where
  "dob_once U seq =
     bindS (dobCurrentSequenceNormal U False seq) (\<lambda>n1 seq1.
       bindS (dobCurrentSequencePushPop U seq1) (\<lambda>n2 seq2. Inr (n1 + n2, seq2)))"

partial_function (option) dob_loop ::
  "ud_env \<Rightarrow> int \<Rightarrow> InstSequence \<Rightarrow> (int, InstSequence) outcome option" where
  "dob_loop U nr seq =
     (case dob_once U seq of
        Inl f \<Rightarrow> Some (Inl f)
      | Inr (nonce, seq') \<Rightarrow>
          if nonce < 1 then Some (Inr (nr, seq')) else dob_loop U (nr + nonce) seq')"

declare dob_loop.simps [code]

definition dobCurrentSequenceAll :: "ud_env \<Rightarrow> InstSequence \<Rightarrow> (int, InstSequence) outcome" where
  "dobCurrentSequenceAll U seq =
     (case dob_loop U 0 seq of None \<Rightarrow> Inl Diverges | Some r \<Rightarrow> r)"

end
