(* ===== verification/PeepFrame.thy ===== *)
theory PeepFrame
  imports Peephole
begin

text \<open>
  What the peephole pass may touch: only code and flags of the records of the window at hand, never a
  record that is flagged already; and the only fault is a missing operand.
\<close>

section \<open>Rules act inside their window\<close>

primrec act_within :: "nat \<Rightarrow> action \<Rightarrow> bool" where
  "act_within n (Drop k) \<longleftrightarrow> k < n"
| "act_within n (Emit k ud) \<longleftrightarrow> k < n"
| "act_within n (CopyCode k j) \<longleftrightarrow> k < n \<and> j < n"
| "act_within n (Jump k v) \<longleftrightarrow> k < n"

definition only_null :: "(fault + 'a) \<Rightarrow> ('a \<Rightarrow> bool) \<Rightarrow> bool" where
  "only_null m P = (case m of Inl f \<Rightarrow> f = Null_deref | Inr x \<Rightarrow> P x)"

abbreviation within :: "nat \<Rightarrow> verdict \<Rightarrow> bool" where
  "within n v \<equiv> only_null v (\<lambda>r. list_all (act_within n) (snd r))"

lemma only_null_simps [simp]:
  "only_null (Inl f) P \<longleftrightarrow> f = Null_deref"
  "only_null (Inr x) P \<longleftrightarrow> P x"
  by (simp_all add: only_null_def)

lemma only_null_mono: "only_null m P \<Longrightarrow> (\<And>x. m = Inr x \<Longrightarrow> P x \<Longrightarrow> Q x) \<Longrightarrow> only_null m Q"
  by (cases m) simp_all

lemma only_null_bindF:
  "only_null m P \<Longrightarrow> (\<And>x. m = Inr x \<Longrightarrow> P x \<Longrightarrow> only_null (f x) Q) \<Longrightarrow> only_null (bindF m f) Q"
  by (cases m) simp_all

lemma only_null_deref [simp]:
  "only_null (deref p f) P \<longleftrightarrow> (\<forall>op. p = Some op \<longrightarrow> only_null (f op) P)"
  by (cases p) (simp_all add: deref_def)

lemma only_null_op_is [simp]: "only_null (op_is p Q) (\<lambda>_. True)"
  by (simp add: op_is_def)

lemma only_null_all_of:
  "list_all (\<lambda>c. only_null c (\<lambda>_. True)) cs \<Longrightarrow> only_null (all_of cs) (\<lambda>_. True)"
  by (induction cs rule: all_of.induct) (auto simp: all_of.simps)

lemma only_null_any_of:
  "list_all (\<lambda>c. only_null c (\<lambda>_. True)) cs \<Longrightarrow> only_null (any_of cs) (\<lambda>_. True)"
  by (induction cs rule: any_of.induct) (auto simp: any_of.simps)

lemma all_of_True [simp]: "all_of cs = Inr True \<longleftrightarrow> list_all (\<lambda>c. c = Inr True) cs"
  by (induction cs rule: all_of.induct) (auto simp: all_of.simps)

lemma within_first_of_Nil [simp]: "within n (first_of [])"
  by (simp add: pass_def first_of.simps)

lemma within_first_of:
  "only_null c (\<lambda>_. True) \<Longrightarrow> (c = Inr True \<Longrightarrow> within n v) \<Longrightarrow> within n (first_of rs)
    \<Longrightarrow> within n (first_of ((c, v) # rs))"
  by (simp_all add: pass_def first_of.simps) (cases c; auto)

lemma within_or_else: "within n v \<Longrightarrow> within n w \<Longrightarrow> within n (or_else v w)"
  unfolding or_else_def by (auto intro!: only_null_bindF)

lemma within_collect:
  "list_all (\<lambda>a. only_null a (act_within n)) as \<Longrightarrow> only_null (collect as) (list_all (act_within n))"
  by (induction as) (auto intro!: only_null_bindF)

lemma within_hit: "list_all (\<lambda>a. only_null a (act_within n)) as \<Longrightarrow> within n (hit as)"
  unfolding hit_def by (rule only_null_bindF [OF within_collect]) simp_all

lemma within_act_only: "list_all (\<lambda>a. only_null a (act_within n)) as \<Longrightarrow> within n (act_only as)"
  unfolding act_only_def by (rule only_null_bindF [OF within_collect]) simp_all

lemma within_pass [simp]: "within n pass"
  by (simp add: pass_def)

lemma set_ops_null: "only_null (set_ops U i ss ud) (\<lambda>_. True)"
  by (induction U i ss ud rule: set_ops.induct) auto

lemma within_emit [simp]:
  "k < n \<Longrightarrow> only_null (emit U ws k m ss) (act_within n)"
  "k < n \<Longrightarrow> only_null (emit_as U k ud p) (act_within n)"
  "k < n \<Longrightarrow> only_null (drop_at k) (act_within n)"
  unfolding emit_def emit_as_def
  by (rule only_null_bindF [OF set_ops_null]; simp)+ (simp add: drop_at_def)

lemma op_is_True: "op_is p P = Inr True \<longleftrightarrow> (\<exists>op. p = Some op \<and> P op)"
  by (cases p) (simp_all add: op_is_def deref_def)

lemmas within_rules = only_null_all_of only_null_any_of within_first_of within_or_else within_hit
  within_act_only

lemma in_two: "2 \<le> length xs \<Longrightarrow> xs \<noteq> [] \<and> Suc 0 < length xs"
  by auto

lemma push_mov_within:
  assumes "2 \<le> length ws"
  shows "within (length ws) (push_mov_rule U ws)"
proof -
  note n = in_two [OF assms]
  have three: "3 \<le> length ws \<Longrightarrow> within (length ws) (push_mov_three U ws)"
    unfolding push_mov_three_def push_mov_esp_def Let_def at_reg_def using n
    by (auto intro!: within_rules)
  have four: "within (length ws) (push_mov_four U ws)"
    using n unfolding push_mov_four_def Let_def at_reg_def by (auto intro!: within_rules)
  have five: "within (length ws) (push_mov_five U ws)"
    using n unfolding push_mov_five_def Let_def by (auto intro!: within_rules)
  show ?thesis using n three four five
    unfolding push_mov_rule_def store_top_def Let_def by (auto intro!: within_rules)
qed

lemma push_within:
  assumes "2 \<le> length ws"
  shows "within (length ws) (push_rule U ws)"
proof -
  note n = in_two [OF assms]
  have "within (length ws) (push_pop_rule U ws)" "within (length ws) (push_add_rule U ws)"
    "within (length ws) (push_lea_rule U ws)" "within (length ws) (push_sub_rule U ws)"
    "within (length ws) (push_ret_rule U ws)" "within (length ws) (push_over_rule U ws)"
    "within (length ws) (push_use_pop_rule U ws)"
    using n
    by (auto simp: push_pop_rule_def push_add_rule_def push_lea_rule_def push_sub_rule_def
        push_ret_rule_def push_over_rule_def push_use_pop_rule_def push_use_pop_same_def
        push_use_pop_other_def not_on_sp_def Let_def intro!: within_rules)
  then show ?thesis using push_mov_within [OF assms, of U]
    unfolding push_rule_def by (auto intro!: within_or_else split: ud_mnemonic.split)
qed

lemma mov_within:
  assumes "2 \<le> length ws"
  shows "within (length ws) (mov_rule U ws)"
proof -
  note n = in_two [OF assms]
  have "within (length ws) (mov_add_rule U ws)" "within (length ws) (mov_mov_rule U ws)"
    using n by (auto simp: mov_add_rule_def mov_mov_rule_def Let_def intro!: within_rules)
  moreover have "within (length ws) (mov_xor_rule U ws)" "within (length ws) (mov_sub_rule U ws)"
    "within (length ws) (mov_and_rule U ws)" "within (length ws) (mov_or_rule U ws)"
    "within (length ws) (mov_inc_rule U ws)" "within (length ws) (mov_dec_rule U ws)"
    "within (length ws) (mov_not_rule U ws)" "within (length ws) (mov_neg_rule U ws)"
    "within (length ws) (mov_shl_rule U ws)" "within (length ws) (mov_shr_rule U ws)"
    unfolding mov_xor_rule_def mov_sub_rule_def mov_and_rule_def mov_or_rule_def mov_inc_rule_def
      mov_dec_rule_def mov_not_rule_def mov_neg_rule_def mov_shl_rule_def mov_shr_rule_def
    using n by (auto intro!: within_rules)
  moreover have "within (length ws) (mov_three_rule U ws)"
    using n by (auto simp: mov_three_rule_def Let_def intro!: within_rules)
  ultimately show ?thesis
    unfolding mov_rule_def by (auto intro!: within_or_else split: ud_mnemonic.split)
qed

lemma pairs_within:
  assumes "2 \<le> length ws"
  shows "within (length ws) (bswap_rule U ws)" "within (length ws) (neg_rule U ws)"
    "within (length ws) (not_rule U ws)"
  using in_two [OF assms]
  by (auto simp: bswap_rule_def neg_rule_def not_rule_def intro!: within_rules)

lemma xchg_within:
  assumes "2 \<le> length ws"
  shows "within (length ws) (snd (xchg_rule U ws))"
proof -
  note n = in_two [OF assms]
  have "within (length ws) (snd (xchg_three U ws o1))" for o1
    using n by (auto simp: xchg_three_def Let_def intro!: within_rules)
  moreover have "within (length ws) (snd (xchg_around U ws))"
    using n by (auto simp: xchg_around_def Let_def intro!: within_rules)
  ultimately show ?thesis using n
    by (auto simp: xchg_rule_def Let_def case_prod_beta intro!: within_rules)
qed

lemma arith_within:
  assumes "2 \<le> length ws"
  shows "within (length ws) (add_rule U ws)" "within (length ws) (sub_rule U ws)"
    "within (length ws) (xor_rule U ws)"
  using in_two [OF assms]
  by (auto simp: add_rule_def sub_rule_def sub_mov_rule_def xor_rule_def Let_def intro!: within_rules)

lemma lea_within:
  assumes "2 \<le> length ws"
  shows "within (length ws) (lea_rule U ws)"
proof -
  note n = in_two [OF assms]
  have "within (length ws) (lea_disp_rule U ws)" "within (length ws) (lea_sp_rule U ws)"
    using n by (auto simp: lea_disp_rule_def lea_sp_rule_def Let_def intro!: within_rules
        split: ud_mnemonic.split)
  then show ?thesis using n by (auto simp: lea_rule_def Let_def intro!: within_rules)
qed

lemma last_within:
  assumes "2 \<le> length ws"
  shows "within (length ws) (merge_rule U ws)" "within (length ws) (overwrite_rule U ws o0)"
  using in_two [OF assms]
  by (auto simp: merge_rule_def overwrite_rule_def Let_def intro!: within_rules)

lemma peep_within:
  assumes "2 \<le> length ws"
  shows "within (length ws) (peep U ws)"
proof -
  have "within (length ws) (snd (first_switch U ws))"
    using in_two [OF assms] push_within [OF assms, of U] mov_within [OF assms, of U] pairs_within [OF assms, of U]
      xchg_within [OF assms, of U] arith_within [OF assms, of U] lea_within [OF assms, of U]
    by (auto simp: first_switch_def Let_def intro!: within_hit split: ud_mnemonic.split)
  then show ?thesis
    unfolding peep_def case_prod_beta Let_def by (intro within_or_else last_within [OF assms])
qed

section \<open>What a pass keeps of the trace\<close>

text \<open>
  The same records in the same order, each with its address, registers and memory accesses; those that
  were flagged are as they were; the others may have the flag set, and no other flag changed.
\<close>

definition peep_kept :: "32 word \<Rightarrow> InstSequence \<Rightarrow> InstSequence \<Rightarrow> bool" where
  "peep_kept mark s t \<longleftrightarrow> ids t = ids s \<and> same_records s t
     \<and> (\<forall>n tr. rec_at s n = Some tr \<longrightarrow> has (tx_flags tr) mark \<longrightarrow> rec_at t n = Some tr)
     \<and> (\<forall>n tr tr'. rec_at s n = Some tr \<longrightarrow> rec_at t n = Some tr' \<longrightarrow>
          tx_flags tr' \<in> {tx_flags tr, tx_flags tr OR mark})"

lemma peep_kept_refl: "nodes_ok s \<Longrightarrow> peep_kept mark s s"
  by (simp add: peep_kept_def)

text \<open>A record that may be written.\<close>

definition is_open :: "32 word \<Rightarrow> InstSequence \<Rightarrow> nat \<Rightarrow> bool" where
  "is_open mark s n \<longleftrightarrow> (\<forall>tr. rec_at s n = Some tr \<longrightarrow> \<not> has (tx_flags tr) mark)"

lemma peep_kept_open:
  "peep_kept mark s t \<Longrightarrow> is_open mark t n \<Longrightarrow> is_open mark s n"
  unfolding peep_kept_def is_open_def by blast

lemma peep_kept_upd:
  assumes k: "peep_kept mark s t" and o: "is_open mark s n"
    and f: "\<And>tr. frame_rec (f tr) = frame_rec tr"
      "\<And>tr. tx_flags (f tr) \<in> {tx_flags tr, tx_flags tr OR mark}"
  shows "peep_kept mark s (upd_rec n f t)"
proof -
  have "tx_flags tr' \<in> {tx_flags tr, tx_flags tr OR mark}"
    if at: "rec_at s m = Some tr" "rec_at (upd_rec n f t) m = Some tr'" for m tr tr'
  proof (cases "m = n")
    case True
    then obtain tr1 where "rec_at t n = Some tr1" "tr' = f tr1"
      using at(2) by (auto simp: rec_at_upd_rec)
    then have "tx_flags tr1 \<in> {tx_flags tr, tx_flags tr OR mark}"
      using k at(1) True by (simp add: peep_kept_def)
    then show ?thesis using f(2) [of tr1] \<open>tr' = f tr1\<close> by (auto simp: or.assoc)
  next
    case False
    then show ?thesis using k at unfolding peep_kept_def by (simp add: rec_at_upd_rec)
  qed
  moreover have "rec_at (upd_rec n f t) m = Some tr" if "rec_at s m = Some tr" "has (tx_flags tr) mark" for m tr
  proof -
    have "m \<noteq> n" using that o by (auto simp: is_open_def)
    then show ?thesis using k that unfolding peep_kept_def by (simp add: rec_at_upd_rec)
  qed
  moreover have "same_records s (upd_rec n f t)"
    using k f(1) by (simp add: peep_kept_def same_records_upd)
  moreover have "ids (upd_rec n f t) = ids s" using k by (simp add: peep_kept_def)
  ultimately show ?thesis unfolding peep_kept_def by blast
qed

lemma flags_or_flags [simp]: "tx_flags (or_flags m tr) = tx_flags tr OR m"
  by (simp add: or_flags_def)

lemma do_action_kept:
  assumes "peep_kept mark s t" "\<And>k. k < length ws \<Longrightarrow> is_open mark s (place ws k)"
    "act_within (length ws) a"
  shows "peep_kept mark s (do_action U mark ws a t)"
  using assms by (cases a) (auto intro!: peep_kept_upd split: option.split)

lemma do_actions_kept:
  assumes "peep_kept mark s t" "\<And>k. k < length ws \<Longrightarrow> is_open mark s (place ws k)"
    "list_all (act_within (length ws)) as"
  shows "peep_kept mark s (do_actions U mark ws as t)"
  using assms(1,3) unfolding do_actions_def
  by (induction as arbitrary: t) (auto intro: do_action_kept assms(2))

lemma read_window_open:
  "read_window U mark seq ns = Some ws \<Longrightarrow> k < length ws
    \<Longrightarrow> rec_at seq (place ws k) = Some (fst (snd (ws ! k))) \<and> is_open mark seq (place ws k)"
proof (induction ns arbitrary: ws k)
  case (Cons n ns)
  then show ?case
    by (cases k) (auto simp: place_def is_open_def split: option.splits if_splits)
qed simp

lemma normal_loop_kept:
  assumes "peep_kept mark s t"
  shows "only_null (normal_loop U mark ns nrc t)
    (\<lambda>(nrc', t'). peep_kept mark s t' \<and> nrc \<le> nrc' \<and> nrc' \<le> nrc + int (length ns))"
  using assms
proof (induction ns arbitrary: nrc t)
  case Nil
  then show ?case by simp
next
  case (Cons n ns)
  have skip: "only_null (normal_loop U mark ns nrc t)
      (\<lambda>(nrc', t'). peep_kept mark s t' \<and> nrc \<le> nrc' \<and> nrc' \<le> nrc + int (length (n # ns)))"
    by (rule only_null_mono [OF Cons.IH [OF Cons.prems]]) auto
  show ?case
  proof (cases "read_window U mark t (take MAX_N_INST (n # ns))")
    case None
    then show ?thesis using skip by simp
  next
    case (Some ws)
    show ?thesis
    proof (cases "length ws < 2")
      case True
      then show ?thesis using skip Some by simp
    next
      case False
      then have w: "within (length ws) (peep U ws)" by (intro peep_within) simp
      have o: "is_open mark s (place ws k)" if "k < length ws" for k
        using read_window_open [OF Some that] peep_kept_open [OF Cons.prems] by simp
      show ?thesis
      proof (cases "peep U ws")
        case (Inl f)
        then show ?thesis using w Some False by simp
      next
        case (Inr r)
        obtain h as where r: "r = (h, as)" by (cases r)
        have "peep_kept mark s (do_actions U mark ws as t)"
          using do_actions_kept [OF Cons.prems o] w Inr r by simp
        from only_null_mono [OF Cons.IH [OF this, of "if h then nrc + 1 else nrc"]]
        show ?thesis using Some False Inr r by (auto split: if_splits)
      qed
    qed
  qed
qed

lemma doDeobfuscateNormal_kept:
  assumes "nodes_ok seq"
  shows "only_null (doDeobfuscateNormal U seq flagonly)
    (\<lambda>(nrc, seq'). peep_kept (if flagonly then RECORD_FLAG_JUNK U else RECORD_FLAG_DELETE U) seq seq'
       \<and> 0 \<le> nrc \<and> nrc \<le> int (length (ids seq)))"
  using normal_loop_kept [OF peep_kept_refl [OF assms], of U _ "ids seq" 0]
  unfolding doDeobfuscateNormal_def by simp

end
