(* ===== verification/PeepSound.thy ===== *)
theory PeepSound
  imports PeepFrame
begin

text \<open>
  The peephole pass against a reference semantics: on code that only computes in the 32-bit registers,
  the rules leave what the registers end up with unchanged.
\<close>

section \<open>A register machine\<close>

text \<open>
  Instructions on registers, with the values they compute in 32 bits; flags are not modelled, the rules
  ignore them.
\<close>

datatype src = Reg int | Imm "32 word"

datatype rinsn =
    Op1 ud_mnemonic int
  | Op2 ud_mnemonic int src
  | Xchg int int
  | Lea int int "32 word"

type_synonym regs = "int \<Rightarrow> 32 word"

primrec src_val :: "src \<Rightarrow> regs \<Rightarrow> 32 word" where
  "src_val (Reg r) s = s r"
| "src_val (Imm v) s = v"

definition un_val :: "ud_mnemonic \<Rightarrow> 32 word \<Rightarrow> 32 word" where
  "un_val m v = (if m = UD_Ibswap then xvm_bswap32 v else reg_unary m v)"

definition bin_val :: "ud_mnemonic \<Rightarrow> 32 word \<Rightarrow> 32 word \<Rightarrow> 32 word" where
  "bin_val m a b = (if m = UD_Imov then b else reg_binary m 0 b a)"

lemma val_simps [simp]:
  "un_val UD_Ibswap v = xvm_bswap32 v" "un_val UD_Inot v = NOT v" "un_val UD_Ineg v = - v"
  "un_val UD_Idec v = v - 1" "un_val UD_Iinc v = v + 1"
  "bin_val UD_Imov a b = b" "bin_val UD_Isub a b = a - b" "bin_val UD_Iadd a b = a + b"
  "bin_val UD_Ixor a b = a XOR b" "bin_val UD_Iand a b = a AND b" "bin_val UD_Ior a b = a OR b"
  by (simp_all add: un_val_def bin_val_def reg_unary_def reg_binary_def)

lemma ucast_bits:
  "(ucast (x XOR y :: 64 word) :: 32 word) = ucast x XOR ucast y"
  "(ucast (x AND y :: 64 word) :: 32 word) = ucast x AND ucast y"
  "(ucast (x OR y :: 64 word) :: 32 word) = ucast x OR ucast y"
  by (auto intro!: bit_eqI simp: bit_ucast_iff bit_xor_iff bit_and_iff bit_or_iff)

lemmas ucast_32 = ucast_arith [where 'w = 32, simplified] ucast_bits

primrec exec1 :: "rinsn \<Rightarrow> regs \<Rightarrow> regs" where
  "exec1 (Op1 m r) s = s(r := un_val m (s r))"
| "exec1 (Op2 m r x) s = s(r := bin_val m (s r) (src_val x s))"
| "exec1 (Xchg a b) s = s(a := s b, b := s a)"
| "exec1 (Lea r b d) s = s(r := s b + d)"

definition run :: "rinsn list \<Rightarrow> regs \<Rightarrow> regs" where
  "run xs s = fold exec1 xs s"

text \<open>An instruction that reads its own destination through its other operand.\<close>

primrec self_src :: "rinsn \<Rightarrow> bool" where
  "self_src (Op1 m r) \<longleftrightarrow> False"
| "self_src (Op2 m r x) \<longleftrightarrow> x = Reg r"
| "self_src (Xchg a b) \<longleftrightarrow> a = b"
| "self_src (Lea r b d) \<longleftrightarrow> b = r"

section \<open>Decoded instructions as register instructions\<close>

text \<open>The eight 32-bit registers are numbered in a row, \<open>esp\<close> the fifth.\<close>

definition reg32 :: "ud_env \<Rightarrow> ud_operand \<Rightarrow> int option" where
  "reg32 U op =
     (if uo_type op = UD_OP_REG U \<and> uo_size op = 32
         \<and> UD_R_ESP U - 4 \<le> uo_base op \<and> uo_base op < UD_R_ESP U + 4
      then Some (uo_base op) else None)"

definition src32 :: "ud_env \<Rightarrow> ud_operand \<Rightarrow> src option" where
  "src32 U op =
     (if uo_type op = UD_OP_IMM U then Some (Imm (ucast (uo_lval op)))
      else map_option Reg (reg32 U op))"

definition mem32 :: "ud_env \<Rightarrow> ud_operand \<Rightarrow> (int \<times> 32 word) option" where
  "mem32 U op =
     (if uo_type op = UD_OP_MEM U \<and> uo_index op = UD_NONE U \<and> uo_scale op = 0
         \<and> UD_R_ESP U - 4 \<le> uo_base op \<and> uo_base op < UD_R_ESP U + 4
      then Some (uo_base op, ucast (uo_lval op)) else None)"

definition is_bin :: "ud_mnemonic \<Rightarrow> bool" where
  "is_bin m \<longleftrightarrow> m \<in> {UD_Imov, UD_Isub, UD_Iadd, UD_Ixor, UD_Iand, UD_Ior}"

definition rinsn_of :: "ud_env \<Rightarrow> ud_insn \<Rightarrow> rinsn option" where
  "rinsn_of U ud =
     (let m = ui_mnemonic ud; o0 = ui_opr ud 0; o1 = ui_opr ud 1
      in Option.bind (Option.bind o0 (reg32 U)) (\<lambda>r.
           if is_unary m then Some (Op1 m r)
           else if is_bin m then map_option (Op2 m r) (Option.bind o1 (src32 U))
           else if m = UD_Ixchg then map_option (Xchg r) (Option.bind o1 (reg32 U))
           else if m = UD_Ilea then map_option (\<lambda>(b, d). Lea r b d) (Option.bind o1 (mem32 U))
           else None))"

section \<open>What is relied on of the operand library\<close>

text \<open>
  Operands are the same when they name the same register or have the same constant; a constant is
  delivered sign-extended; a memory operand is neither register nor constant; \<open>udex_init\<close>,
  \<open>udex_set_op\<close> and \<open>ud_set_pc\<close> set what their names say and nothing else; what is encoded is
  decoded as the same instruction; and the constant of a decoded 32-bit \<open>mov\<close> is 32 bits wide.
\<close>

definition operands_ok :: "ud_env \<Rightarrow> bool" where
  "operands_ok U \<longleftrightarrow>
     distinct [UD_OP_REG U, UD_OP_IMM U, UD_OP_MEM U, UD_OP_CONST U]
     \<and> (\<forall>p q. IsSameOperand U (Some p) (Some q) \<longrightarrow> uo_type p = uo_type q
          \<and> (uo_type p = UD_OP_REG U \<longrightarrow> uo_base p = uo_base q)
          \<and> (uo_type p = UD_OP_IMM U \<longrightarrow> (ucast (uo_lval p) :: 32 word) = ucast (uo_lval q)))
     \<and> (\<forall>p q. uo_type p = UD_OP_REG U \<longrightarrow> uo_type q = UD_OP_REG U \<longrightarrow> uo_base p = uo_base q
          \<longrightarrow> uo_size p = uo_size q \<longrightarrow> IsSameOperand U (Some p) (Some q))
     \<and> (\<forall>p. IsImmOperand U (Some p) \<longleftrightarrow> uo_type p = UD_OP_IMM U)
     \<and> (\<forall>p. uo_type p = UD_OP_IMM U \<longrightarrow> (ucast (udex_get_opimm U p) :: 32 word) = ucast (uo_lval p))
     \<and> (\<forall>p d b. IsEspMemOperand U (Some p) d b \<longrightarrow> uo_type p = UD_OP_MEM U)
     \<and> (\<forall>v. udex_get_sizeimm U v 32 = take_bit 32 v)"

definition builder_ok :: "ud_env \<Rightarrow> bool" where
  "builder_ok U \<longleftrightarrow>
     (\<forall>m a. ui_mnemonic (udex_init U m a) = m)
     \<and> (\<forall>ud a. ui_mnemonic (ud_set_pc U ud a) = ui_mnemonic ud \<and> ui_opr (ud_set_pc U ud a) = ui_opr ud)
     \<and> (\<forall>ud i t v sz r. ui_mnemonic (udex_set_op U ud i t v sz r) = ui_mnemonic ud
          \<and> (\<exists>q. ui_opr (udex_set_op U ud i t v sz r) = (ui_opr ud)(i := Some q) \<and> uo_type q = t
               \<and> (t = UD_OP_IMM U \<or> t = UD_OP_MEM U \<longrightarrow> (ucast (uo_lval q) :: 32 word) = ucast v)
               \<and> (t = UD_OP_MEM U \<longrightarrow> uo_base q = r \<and> uo_index q = UD_NONE U \<and> uo_scale q = 0)))"

definition roundtrip_ok :: "ud_env \<Rightarrow> bool" where
  "roundtrip_ok U \<longleftrightarrow>
     (\<forall>ud x a. rinsn_of U ud = Some x \<longrightarrow>
        (let (n, bs) = udex_to_bc U ud; ud' = ud_decode U bs a
         in n = int (length bs) \<and> 1 \<le> ui_len ud' \<and> rinsn_of U ud' = Some x))
     \<and> (\<forall>bs a r v. rinsn_of U (ud_decode U bs a) = Some (Op2 UD_Imov r (Imm v)) \<longrightarrow>
          (\<forall>op. ui_opr (ud_decode U bs a) 1 = Some op \<longrightarrow> uo_size op = 32))"

text \<open>\<open>p\<close> is the register \<open>r\<close>, has the value of \<open>x\<close>, is the address \<open>b + d\<close>.\<close>

definition is_reg :: "ud_env \<Rightarrow> ud_operand option \<Rightarrow> int \<Rightarrow> bool" where
  "is_reg U p r \<longleftrightarrow> Option.bind p (reg32 U) = Some r"

definition is_src :: "ud_env \<Rightarrow> ud_operand option \<Rightarrow> src \<Rightarrow> bool" where
  "is_src U p x \<longleftrightarrow> Option.bind p (src32 U) = Some x"

definition is_mem :: "ud_env \<Rightarrow> ud_operand option \<Rightarrow> int \<Rightarrow> 32 word \<Rightarrow> bool" where
  "is_mem U p b d \<longleftrightarrow> Option.bind p (mem32 U) = Some (b, d)"

lemma rinsn_of_Op1:
  "rinsn_of U ud = Some (Op1 m r) \<longleftrightarrow> ui_mnemonic ud = m \<and> is_unary m \<and> is_reg U (ui_opr ud 0) r"
  by (auto simp: rinsn_of_def is_reg_def Let_def bind_eq_Some_conv is_bin_def is_unary_def
      split: if_splits prod.splits)

lemma rinsn_of_Op2:
  "rinsn_of U ud = Some (Op2 m r x) \<longleftrightarrow>
     ui_mnemonic ud = m \<and> is_bin m \<and> is_reg U (ui_opr ud 0) r \<and> is_src U (ui_opr ud 1) x"
  by (auto simp: rinsn_of_def is_reg_def is_src_def Let_def bind_eq_Some_conv is_bin_def is_unary_def
      split: if_splits prod.splits)

lemma rinsn_of_Xchg:
  "rinsn_of U ud = Some (Xchg a b) \<longleftrightarrow>
     ui_mnemonic ud = UD_Ixchg \<and> is_reg U (ui_opr ud 0) a \<and> is_reg U (ui_opr ud 1) b"
  by (auto simp: rinsn_of_def is_reg_def Let_def bind_eq_Some_conv is_bin_def is_unary_def
      split: if_splits prod.splits)

lemma rinsn_of_Lea:
  "rinsn_of U ud = Some (Lea r b d) \<longleftrightarrow>
     ui_mnemonic ud = UD_Ilea \<and> is_reg U (ui_opr ud 0) r \<and> is_mem U (ui_opr ud 1) b d"
  by (auto simp: rinsn_of_def is_reg_def is_mem_def Let_def bind_eq_Some_conv is_bin_def is_unary_def
      split: if_splits prod.splits)

lemmas rinsn_of_simps = rinsn_of_Op1 rinsn_of_Op2 rinsn_of_Xchg rinsn_of_Lea

section \<open>The library's predicates on such operands\<close>

lemma is_reg_iff: "is_reg U p r \<longleftrightarrow> (\<exists>op. p = Some op \<and> reg32 U op = Some r)"
  by (simp add: is_reg_def bind_eq_Some_conv)

lemma is_src_iff: "is_src U p x \<longleftrightarrow> (\<exists>op. p = Some op \<and> src32 U op = Some x)"
  by (simp add: is_src_def bind_eq_Some_conv)

lemma is_mem_iff: "is_mem U p b d \<longleftrightarrow> (\<exists>op. p = Some op \<and> mem32 U op = Some (b, d))"
  by (simp add: is_mem_def bind_eq_Some_conv)

lemmas is_iff = is_reg_iff is_src_iff is_mem_iff

lemma op_types:
  "operands_ok U \<Longrightarrow> UD_OP_REG U \<noteq> UD_OP_IMM U \<and> UD_OP_REG U \<noteq> UD_OP_MEM U \<and> UD_OP_IMM U \<noteq> UD_OP_MEM U
    \<and> UD_OP_REG U \<noteq> UD_OP_CONST U"
  by (simp add: operands_ok_def)

lemma same_views:
  assumes "operands_ok U" "IsSameOperand U (Some p) (Some q)"
  shows "uo_type p = uo_type q"
    and "uo_type p = UD_OP_REG U \<Longrightarrow> uo_base p = uo_base q"
    and "uo_type p = UD_OP_IMM U \<Longrightarrow> (ucast (uo_lval p) :: 32 word) = ucast (uo_lval q)"
  using assms unfolding operands_ok_def by blast+

lemma same_if_reg:
  "operands_ok U \<Longrightarrow> uo_type p = UD_OP_REG U \<Longrightarrow> uo_type q = UD_OP_REG U \<Longrightarrow> uo_base p = uo_base q
    \<Longrightarrow> uo_size p = uo_size q \<Longrightarrow> IsSameOperand U (Some p) (Some q)"
  unfolding operands_ok_def by blast

lemma library_preds:
  assumes "operands_ok U"
  shows "IsImmOperand U (Some p) \<longleftrightarrow> uo_type p = UD_OP_IMM U"
    and "uo_type p = UD_OP_IMM U \<Longrightarrow> (ucast (udex_get_opimm U p) :: 32 word) = ucast (uo_lval p)"
    and "IsEspMemOperand U (Some p) d b \<Longrightarrow> uo_type p = UD_OP_MEM U"
    and "udex_get_sizeimm U v 32 = take_bit 32 v"
  using assms unfolding operands_ok_def by blast+

lemma reg32_types:
  "reg32 U op = Some r \<Longrightarrow> uo_type op = UD_OP_REG U \<and> uo_size op = 32 \<and> uo_base op = r"
  by (auto simp: reg32_def split: if_splits)

lemma src32_cases:
  "src32 U op = Some x \<Longrightarrow>
     uo_type op = UD_OP_IMM U \<and> x = Imm (ucast (uo_lval op)) \<or> (\<exists>r. reg32 U op = Some r \<and> x = Reg r)"
  by (auto simp: src32_def split: if_splits)

lemma src32_Reg: "operands_ok U \<Longrightarrow> reg32 U op = Some r \<Longrightarrow> src32 U op = Some (Reg r)"
  using reg32_types [of U op r] op_types [of U] by (simp add: src32_def)

lemma same_regs:
  assumes "operands_ok U" "is_reg U p r" "is_reg U q t"
  shows "IsSameOperand U p q \<longleftrightarrow> r = t"
proof -
  obtain a b where "p = Some a" "reg32 U a = Some r" "q = Some b" "reg32 U b = Some t"
    using assms by (auto simp: is_iff)
  then show ?thesis
    using same_views [OF assms(1), of a b] same_if_reg [OF assms(1), of a b] reg32_types by metis
qed

lemma same_srcs:
  assumes "operands_ok U" "is_src U p x" "is_src U q y" "IsSameOperand U p q"
  shows "x = y"
proof -
  obtain a b where ab: "p = Some a" "src32 U a = Some x" "q = Some b" "src32 U b = Some y"
    using assms by (auto simp: is_iff)
  note v = same_views [OF assms(1), of a b, OF assms(4) [unfolded ab(1,3)]]
  from src32_cases [OF ab(2)] src32_cases [OF ab(4)] v show ?thesis
    using reg32_types op_types [OF assms(1)] by metis
qed

lemma is_reg_src: "operands_ok U \<Longrightarrow> is_reg U p r \<Longrightarrow> is_src U p (Reg r)"
  by (auto simp: is_iff src32_Reg)

lemma is_src_Reg: "operands_ok U \<Longrightarrow> is_src U p (Reg r) \<longleftrightarrow> is_reg U p r"
  using src32_cases src32_Reg by (fastforce simp: is_iff)

lemma same_reg_src:
  "operands_ok U \<Longrightarrow> is_reg U p r \<Longrightarrow> is_src U q x \<Longrightarrow> IsSameOperand U p q \<longleftrightarrow> x = Reg r"
  by (metis is_reg_src is_src_Reg same_regs same_srcs)

lemma imm_value:
  assumes "operands_ok U" "is_src U p (Imm v)"
  shows "\<exists>op. p = Some op \<and> uo_type op = UD_OP_IMM U \<and> ucast (udex_get_opimm U op) = v
    \<and> ucast (uo_lval op) = v"
  using assms(2) src32_cases library_preds(2) [OF assms(1)] by (force simp: is_iff)

lemma imm_pred: "operands_ok U \<Longrightarrow> is_src U p x \<Longrightarrow> IsImmOperand U p \<longleftrightarrow> (\<exists>v. x = Imm v)"
  using src32_cases reg32_types op_types [of U] by (fastforce simp: is_iff library_preds(1))

lemma type_imm: "operands_ok U \<Longrightarrow> is_src U p x \<Longrightarrow> is_type p (UD_OP_IMM U) = Inr (\<exists>v. x = Imm v)"
  using src32_cases reg32_types op_types [of U] by (fastforce simp: is_iff op_is_def deref_def)

lemma not_esp_mem:
  "operands_ok U \<Longrightarrow> is_src U p x \<Longrightarrow> \<not> IsEspMemOperand U p d b"
  "operands_ok U \<Longrightarrow> is_reg U p r \<Longrightarrow> \<not> IsEspMemOperand U p d b"
  using src32_cases reg32_types library_preds(3) [of U] op_types [of U] by (fastforce simp: is_iff)+

section \<open>What is emitted\<close>

lemma builderD:
  assumes "builder_ok U"
  shows "ui_mnemonic (udex_init U m a) = m"
    and "ui_mnemonic (ud_set_pc U ud a) = ui_mnemonic ud" "ui_opr (ud_set_pc U ud a) = ui_opr ud"
    and "ui_mnemonic (udex_set_op U ud i t v sz r) = ui_mnemonic ud"
    and "\<exists>q. ui_opr (udex_set_op U ud i t v sz r) = (ui_opr ud)(i := Some q) \<and> uo_type q = t
           \<and> (t = UD_OP_IMM U \<or> t = UD_OP_MEM U \<longrightarrow> (ucast (uo_lval q) :: 32 word) = ucast v)
           \<and> (t = UD_OP_MEM U \<longrightarrow> uo_base q = r \<and> uo_index q = UD_NONE U \<and> uo_scale q = 0)"
  using assms unfolding builder_ok_def by blast+


lemma emit_two:
  assumes "builder_ok U" "is_reg U p r"
  shows "is_bin m \<Longrightarrow> is_src U q x \<Longrightarrow>
      \<exists>ud. emit U ws k m [Copy p, Copy q] = Inr (Emit k ud) \<and> rinsn_of U ud = Some (Op2 m r x)"
    and "is_reg U q t \<Longrightarrow>
      \<exists>ud. emit U ws k UD_Ixchg [Copy p, Copy q] = Inr (Emit k ud) \<and> rinsn_of U ud = Some (Xchg r t)"
    and "is_unary (ui_mnemonic u) \<Longrightarrow>
      \<exists>ud. emit_as U k (ud_set_pc U u a) p = Inr (Emit k ud)
        \<and> rinsn_of U ud = Some (Op1 (ui_mnemonic u) r)"
  using assms(2)
  by (auto simp: emit_def emit_as_def deref_def is_iff rinsn_of_simps builderD [OF assms(1)])

lemma emit_imm:
  assumes "builder_ok U" "is_reg U p r" "is_bin m"
  shows "\<exists>ud. emit U ws k m [Copy p, New (UD_OP_IMM U) v sz b] = Inr (Emit k ud)
        \<and> rinsn_of U ud = Some (Op2 m r (Imm (ucast v)))"
proof -
  obtain op where p: "p = Some op" "reg32 U op = Some r" using assms(2) by (auto simp: is_iff)
  let ?ud = "(udex_init U m (rip_of ws k))\<lparr>ui_opr := (ui_opr (udex_init U m (rip_of ws k)))(0 := Some op)\<rparr>"
  from builderD(5) [OF assms(1), of ?ud 1 "UD_OP_IMM U" v sz b]
  show ?thesis using p assms(3)
    by (auto simp: emit_def deref_def rinsn_of_Op2 is_iff src32_def builderD(1,4) [OF assms(1)])
qed

lemma emit_lea:
  assumes "operands_ok U" "builder_ok U" "is_reg U p r" "is_mem U q b d"
  shows "\<exists>ud. emit U ws k UD_Ilea [Copy p, New (UD_OP_MEM U) v sz b] = Inr (Emit k ud)
        \<and> rinsn_of U ud = Some (Lea r b (ucast v))"
proof -
  obtain op where p: "p = Some op" "reg32 U op = Some r" using assms(3) by (auto simp: is_iff)
  have b: "UD_R_ESP U - 4 \<le> b \<and> b < UD_R_ESP U + 4"
    using assms(4) by (auto simp: is_iff mem32_def split: if_splits)
  let ?ud = "(udex_init U UD_Ilea (rip_of ws k))
    \<lparr>ui_opr := (ui_opr (udex_init U UD_Ilea (rip_of ws k)))(0 := Some op)\<rparr>"
  from builderD(5) [OF assms(2), of ?ud 1 "UD_OP_MEM U" v sz b]
  show ?thesis using p b
    by (auto simp: emit_def deref_def rinsn_of_Lea is_iff mem32_def builderD(1,4) [OF assms(2)])
qed

end
