(* ===== verification/PeepWindow.thy ===== *)
theory PeepWindow
  imports PeepSound
begin

text \<open>
  Every rule of the peephole pass on a window of register instructions: it passes, or what it does to the window
  leaves the effect on the registers unchanged and takes at least one instruction away.
\<close>

section \<open>Windows as lists of register instructions\<close>

primrec mn_of :: "rinsn \<Rightarrow> ud_mnemonic" where
  "mn_of (Op1 m r) = m"
| "mn_of (Op2 m r x) = m"
| "mn_of (Xchg a b) = UD_Ixchg"
| "mn_of (Lea r b d) = UD_Ilea"

primrec dst :: "rinsn \<Rightarrow> int" where
  "dst (Op1 m r) = r"
| "dst (Op2 m r x) = r"
| "dst (Xchg a b) = a"
| "dst (Lea r b d) = r"

definition wf_insn :: "rinsn \<Rightarrow> bool" where
  "wf_insn x \<longleftrightarrow> (case x of Op1 m r \<Rightarrow> is_unary m | Op2 m r y \<Rightarrow> is_bin m | _ \<Rightarrow> True)"

text \<open>
  The window \<open>ws\<close> holds the instructions \<open>xs\<close>, none of which reads its own destination as a source.
\<close>

definition views :: "ud_env \<Rightarrow> window \<Rightarrow> rinsn list \<Rightarrow> bool" where
  "views U ws xs \<longleftrightarrow> length ws = length xs
     \<and> (\<forall>k < length xs. rinsn_of U (insn ws k) = Some (xs ! k) \<and> \<not> self_src (xs ! k)
          \<and> (\<forall>r v op. xs ! k = Op2 UD_Imov r (Imm v) \<longrightarrow> opr ws k 1 = Some op \<longrightarrow> uo_size op = 32))"

lemma rinsn_of_mn: "rinsn_of U ud = Some x \<Longrightarrow> ui_mnemonic ud = mn_of x \<and> wf_insn x \<and> is_reg U (ui_opr ud 0) (dst x)"
  by (cases x) (simp_all add: rinsn_of_simps wf_insn_def)

text \<open>The second operand is the one the instruction has.\<close>

definition second_ok :: "ud_env \<Rightarrow> ud_operand option \<Rightarrow> rinsn \<Rightarrow> bool" where
  "second_ok U p x \<longleftrightarrow> (case x of Op1 m r \<Rightarrow> True | Op2 m r y \<Rightarrow> is_src U p y
     | Xchg a b \<Rightarrow> is_reg U p b | Lea r b d \<Rightarrow> is_mem U p b d)"

lemma rinsn_of_second: "rinsn_of U ud = Some x \<Longrightarrow> second_ok U (ui_opr ud 1) x"
  by (cases x) (simp_all add: rinsn_of_simps second_ok_def)

lemma viewsD:
  assumes "views U ws xs" "k < length xs"
  shows "mn ws k = mn_of (xs ! k)" "wf_insn (xs ! k)" "is_reg U (opr ws k 0) (dst (xs ! k))"
    and "\<not> self_src (xs ! k)" "second_ok U (opr ws k 1) (xs ! k)"
    and "xs ! k = Op2 UD_Imov r (Imm v) \<Longrightarrow> opr ws k 1 = Some op \<Longrightarrow> uo_size op = 32"
proof -
  have r: "rinsn_of U (insn ws k) = Some (xs ! k)" and l: "k < length ws"
    using assms by (simp_all add: views_def)
  show "mn ws k = mn_of (xs ! k)" "wf_insn (xs ! k)" "is_reg U (opr ws k 0) (dst (xs ! k))"
    "second_ok U (opr ws k 1) (xs ! k)"
    using rinsn_of_mn [OF r] rinsn_of_second [OF r] l by (simp_all add: mn_def opr_def)
  show "\<not> self_src (xs ! k)"
    and "xs ! k = Op2 UD_Imov r (Imm v) \<Longrightarrow> opr ws k 1 = Some op \<Longrightarrow> uo_size op = 32"
    using assms unfolding views_def by blast+
qed

text \<open>The facts about the first instructions, as the rules need them.\<close>

lemma window:
  assumes "views U ws (x0 # x1 # r)"
  shows "mn ws 0 = mn_of x0" "mn ws (Suc 0) = mn_of x1" "wf_insn x0" "wf_insn x1"
    "is_reg U (opr ws 0 0) (dst x0)" "is_reg U (opr ws (Suc 0) 0) (dst x1)"
    "second_ok U (opr ws 0 (Suc 0)) x0" "second_ok U (opr ws (Suc 0) (Suc 0)) x1"
    "\<not> self_src x0" "\<not> self_src x1"
  using viewsD [OF assms, of 0] viewsD [OF assms, of 1] by simp_all

lemma window3:
  assumes "views U ws (x0 # x1 # x2 # r)"
  shows "mn ws 2 = mn_of x2" "wf_insn x2" "is_reg U (opr ws 2 0) (dst x2)"
    "second_ok U (opr ws 2 (Suc 0)) x2" "\<not> self_src x2"
  using viewsD [OF assms, of 2] by simp_all

text \<open>A third instruction is there when the window is long enough.\<close>

lemma third:
  assumes "views U ws (x0 # x1 # r)" "3 \<le> length ws"
  obtains x2 r' where "r = x2 # r'"
  using assms by (cases r) (auto simp: views_def)

section \<open>What actions do to the instructions\<close>

text \<open>An instruction with the flag that it is dropped.\<close>

type_synonym slot = "bool \<times> rinsn"

primrec edit1 :: "ud_env \<Rightarrow> action \<Rightarrow> slot list \<Rightarrow> slot list" where
  "edit1 U (Drop k) ys = ys[k := (True, snd (ys ! k))]"
| "edit1 U (Emit k ud) ys = ys[k := (fst (ys ! k), the (rinsn_of U ud))]"
| "edit1 U (CopyCode k j) ys = ys"
| "edit1 U (Jump k v) ys = ys"

definition edit :: "ud_env \<Rightarrow> action list \<Rightarrow> slot list \<Rightarrow> slot list" where
  "edit U as ys = fold (edit1 U) as ys"

definition kept :: "slot list \<Rightarrow> rinsn list" where
  "kept ys = map snd (filter (\<lambda>y. \<not> fst y) ys)"

primrec plain_act :: "ud_env \<Rightarrow> action \<Rightarrow> bool" where
  "plain_act U (Drop k) \<longleftrightarrow> True"
| "plain_act U (Emit k ud) \<longleftrightarrow> (\<exists>y. rinsn_of U ud = Some y \<and> \<not> self_src y)"
| "plain_act U (CopyCode k j) \<longleftrightarrow> False"
| "plain_act U (Jump k v) \<longleftrightarrow> False"

primrec is_drop :: "action \<Rightarrow> bool" where
  "is_drop (Drop k) \<longleftrightarrow> True"
| "is_drop (Emit k ud) \<longleftrightarrow> False"
| "is_drop (CopyCode k j) \<longleftrightarrow> False"
| "is_drop (Jump k v) \<longleftrightarrow> False"

definition sound :: "ud_env \<Rightarrow> rinsn list \<Rightarrow> verdict \<Rightarrow> bool" where
  "sound U xs v \<longleftrightarrow> v = pass \<or> (\<exists>as. v = Inr (True, as) \<and> list_all (plain_act U) as \<and> list_ex is_drop as
     \<and> (\<forall>s. run (kept (edit U as (map (Pair False) xs))) s = run xs s))"

lemma sound_pass [simp]: "sound U xs pass"
  by (simp add: sound_def)

lemma sound_first_of_Nil [simp]: "sound U xs (first_of [])"
  by (simp add: first_of.simps)

lemma sound_first_of:
  assumes "c = Inr b" "b \<Longrightarrow> sound U xs v" "\<not> b \<Longrightarrow> sound U xs (first_of rs)"
  shows "sound U xs (first_of ((c, v) # rs))"
  using assms by (simp add: first_of.simps)

lemma sound_or_else: "sound U xs v \<Longrightarrow> sound U xs w \<Longrightarrow> sound U xs (or_else v w)"
  by (auto simp: sound_def or_else_def pass_def)

lemma snd_Pair [simp]: "snd \<circ> Pair b = id"
  by (simp add: fun_eq_iff)

lemmas edit_simps = sound_def edit_def kept_def run_def hit_def drop_at_def

lemma sound_hits:
  "(\<And>s. exec1 x1 (exec1 x0 s) = s) \<Longrightarrow> sound U (x0 # x1 # r) (hit [drop_at 0, drop_at (Suc 0)])"
  "(\<And>s. exec1 x1 (exec1 x0 s) = exec1 x1 s) \<Longrightarrow> sound U (x0 # x1 # r) (hit [drop_at 0])"
  "(\<And>s. exec1 x2 (exec1 x1 (exec1 x0 s)) = exec1 x1 s)
    \<Longrightarrow> sound U (x0 # x1 # x2 # r) (hit [drop_at 0, drop_at 2])"
  by (simp_all add: edit_simps numeral_2_eq_2)

lemma sound_emits:
  assumes "\<exists>ud. e = Inr (Emit 0 ud) \<and> rinsn_of U ud = Some y" "\<not> self_src y"
  shows "(\<And>s. exec1 x1 (exec1 x0 s) = exec1 y s) \<Longrightarrow> sound U (x0 # x1 # r) (hit [e, drop_at (Suc 0)])"
    and "(\<And>s. exec1 x2 (exec1 x1 (exec1 x0 s)) = exec1 y s)
      \<Longrightarrow> sound U (x0 # x1 # x2 # r) (hit [e, drop_at (Suc 0), drop_at 2])"
    and "(\<And>s. exec1 x2 (exec1 x1 (exec1 x0 s)) = exec1 y s)
      \<Longrightarrow> sound U (x0 # x1 # x2 # r) (hit [drop_at (Suc 0), drop_at 2, e])"
    and "(\<And>s. exec1 x2 (exec1 x1 (exec1 x0 s)) = exec1 x1 (exec1 y s))
      \<Longrightarrow> sound U (x0 # x1 # x2 # r) (hit [e, drop_at 2])"
  using assms by (auto simp: edit_simps numeral_2_eq_2)

section \<open>The rules, one by one\<close>

lemmas wf_simps = wf_insn_def second_ok_def is_unary_def is_bin_def

lemma neg_sound:
  assumes "operands_ok U" "views U ws (x0 # x1 # r)" "mn ws 0 = UD_Ineg"
  shows "sound U (x0 # x1 # r) (neg_rule U ws)"
  using window [OF assms(2)] assms(3) same_regs [OF assms(1)]
  by (cases x0; cases x1) (auto simp: neg_rule_def wf_simps intro!: sound_hits(1))

lemma not_sound:
  assumes "operands_ok U" "views U ws (x0 # x1 # r)" "mn ws 0 = UD_Inot"
  shows "sound U (x0 # x1 # r) (not_rule U ws)"
  using window [OF assms(2)] assms(3) same_regs [OF assms(1)]
  by (cases x0; cases x1) (auto simp: not_rule_def wf_simps intro!: sound_hits(1))

lemma bswap_bswap [simp]: "xvm_bswap32 (xvm_bswap32 w) = w"
  by (rule le_word_bytes_inject) (simp add: le_bytes_bswap32)

lemma bswap_sound:
  assumes "operands_ok U" "views U ws (x0 # x1 # r)" "mn ws 0 = UD_Ibswap"
  shows "sound U (x0 # x1 # r) (bswap_rule U ws)"
  using window [OF assms(2)] assms(3) same_regs [OF assms(1)]
  by (cases x0; cases x1) (auto simp: bswap_rule_def wf_simps intro!: sound_hits(1))

lemma xchg_commute: "exec1 (Xchg a b) = exec1 (Xchg b a)"
  by (auto simp: fun_eq_iff)

lemma xchg_either:
  assumes "(c = a \<and> d = b) \<or> (c = b \<and> d = a)"
  shows "exec1 (Xchg a b) s = exec1 (Xchg c d) s"
  using assms by (elim disjE conjE) (simp_all only: xchg_commute [of a b])

lemma xchg_triangle:
  "distinct [a, b, f] \<Longrightarrow> exec1 (Xchg a f) (exec1 (Xchg f b) (exec1 (Xchg a b) s)) = exec1 (Xchg f b) s"
  by (auto simp: fun_eq_iff)

text \<open>A pair of operand pointers that are the registers \<open>a\<close> and \<open>b\<close>.\<close>

definition regs2 :: "ud_env \<Rightarrow> ud_operand option \<times> ud_operand option \<Rightarrow> int \<Rightarrow> int \<Rightarrow> bool" where
  "regs2 U p a b \<longleftrightarrow> is_reg U (fst p) a \<and> is_reg U (snd p) b"

lemma regs2_swap:
  "regs2 U p a b \<Longrightarrow> regs2 U (swap_if c p) (if c then b else a) (if c then a else b)"
  by (simp add: regs2_def swap_if_def)

lemma same_regs2:
  assumes "operands_ok U" "regs2 U p a b" "regs2 U q c d"
  shows "IsSameOperand U (fst p) (fst q) \<longleftrightarrow> a = c" "IsSameOperand U (fst p) (snd q) \<longleftrightarrow> a = d"
    "IsSameOperand U (snd p) (fst q) \<longleftrightarrow> b = c" "IsSameOperand U (snd p) (snd q) \<longleftrightarrow> b = d"
  using assms(2,3) same_regs [OF assms(1)] unfolding regs2_def by blast+

lemma xchg_three_sound:
  assumes ok: "operands_ok U" "builder_ok U" and v: "views U ws (Xchg a b # Xchg c d # r)"
    and o1: "regs2 U o1 c' d'" "(c', d') = (c, d) \<or> (c', d') = (d, c)"
  shows "sound U (Xchg a b # Xchg c d # r) (snd (xchg_three U ws o1))"
proof (cases "3 \<le> length ws \<and> mn ws 2 = UD_Ixchg")
  case True
  then obtain x2 r' where r: "r = x2 # r'" using third [OF v] by blast
  note w3 = window3 [OF v [unfolded r]]
  obtain e f where x2: "x2 = Xchg e f" using w3 True by (cases x2) (auto simp: wf_simps)
  let ?o0 = "(opr ws 0 0, opr ws 0 1)" and ?o2 = "(opr ws 2 0, opr ws 2 1)"
  have o0: "regs2 U ?o0 a b" and o2: "regs2 U ?o2 e f" and ne: "a \<noteq> b" "c \<noteq> d" "e \<noteq> f"
    using window [OF v] w3 x2 by (simp_all add: regs2_def second_ok_def)
  define s0 where "s0 \<longleftrightarrow> b = e \<or> b = f"
  define a0 b0 where "a0 = (if s0 then b else a)" and "b0 = (if s0 then a else b)"
  have o0': "regs2 U (swap_if s0 ?o0) a0 b0" unfolding a0_def b0_def by (rule regs2_swap [OF o0])
  define e0 f0 where "e0 = (if a0 = f then f else e)" and "f0 = (if a0 = f then e else f)"
  have o2': "regs2 U (swap_if (a0 = f) ?o2) e0 f0" unfolding e0_def f0_def by (rule regs2_swap [OF o2])
  define c0 d0 where "c0 = (if f0 = d' then d' else c')" and "d0 = (if f0 = d' then c' else d')"
  have o1': "regs2 U (swap_if (f0 = d') o1) c0 d0" unfolding c0_def d0_def by (rule regs2_swap [OF o1(1)])
  have three: "snd (xchg_three U ws o1) =
      (if (a = e \<or> a = f \<or> b = e \<or> b = f) \<and> (f0 = c' \<or> f0 = d') \<and> d0 = b0
       then hit [drop_at 1, drop_at 2, emit U ws 0 UD_Ixchg
              [Copy (fst (swap_if (f0 = d') o1)), Copy (snd (swap_if (f0 = d') o1))]]
       else pass)"
    using True same_regs2 [OF ok(1) o0 o2] same_regs2 [OF ok(1) o0' o2] same_regs2 [OF ok(1) o2' o1(1)]
      same_regs2 [OF ok(1) o1' o0']
    by (simp add: xchg_three_def Let_def s0_def [symmetric])
  show ?thesis
  proof (cases "(a = e \<or> a = f \<or> b = e \<or> b = f) \<and> (f0 = c' \<or> f0 = d') \<and> d0 = b0")
    case hit: True
    have "a0 = e \<or> a0 = f" using hit by (auto simp: a0_def s0_def)
    then have e0: "e0 = a0" by (auto simp: e0_def)
    have c0: "c0 = f0" "d0 = b0" using hit by (auto simp: c0_def)
    have "c0 \<noteq> d0" using o1(2) ne(2) by (auto simp: c0_def d0_def)
    moreover have "a0 \<noteq> b0" "e0 \<noteq> f0" using ne by (simp_all add: a0_def b0_def e0_def f0_def)
    ultimately have dist: "distinct [a0, b0, f0]" using e0 c0 by simp
    have "exec1 (Xchg a b) s = exec1 (Xchg a0 b0) s" for s
      by (rule xchg_either) (simp add: a0_def b0_def)
    moreover have "exec1 (Xchg c d) s = exec1 (Xchg f0 b0) s" for s
      using o1(2) unfolding c0 [symmetric] by (intro xchg_either) (auto simp: c0_def d0_def)
    moreover have "exec1 (Xchg e f) s = exec1 (Xchg a0 f0) s" for s
      unfolding e0 [symmetric] by (rule xchg_either) (simp add: e0_def f0_def)
    ultimately have eq: "exec1 (Xchg e f) (exec1 (Xchg c d) (exec1 (Xchg a b) s)) = exec1 (Xchg c0 d0) s" for s
      by (simp only: xchg_triangle [OF dist] c0)
    show ?thesis unfolding three using hit r x2 o1' c0 dist eq
      by (auto simp: regs2_def intro!: sound_emits(3) emit_two(2) [OF ok(2)])
  qed (auto simp: three)
qed (auto simp: xchg_three_def Let_def)

lemma xchg_around_sound:
  assumes ok: "operands_ok U" "builder_ok U" and v: "views U ws (Xchg a b # x1 # r)"
  shows "sound U (Xchg a b # x1 # r) (snd (xchg_around U ws))"
proof (cases "3 \<le> length ws \<and> mn ws 2 = UD_Ixchg \<and> mn ws 1 \<in> {UD_Inot, UD_Idec, UD_Iinc, UD_Ineg, UD_Ibswap}")
  case True
  then obtain x2 r' where r: "r = x2 # r'" using third [OF v] by blast
  note w3 = window3 [OF v [unfolded r]] and w = window [OF v]
  obtain e f where x2: "x2 = Xchg e f" using w3 True by (cases x2) (auto simp: wf_simps)
  obtain m t where x1: "x1 = Op1 m t" using w True by (cases x1) (auto simp: wf_simps)
  let ?o0 = "(opr ws 0 0, opr ws 0 1)" and ?o2 = "(opr ws 2 0, opr ws 2 1)" and ?o1 = "(opr ws 1 0, opr ws 1 0)"
  have o0: "regs2 U ?o0 a b" and o2: "regs2 U ?o2 e f" and o1: "regs2 U ?o1 t t" and ne: "a \<noteq> b"
    using w w3 x2 x1 by (simp_all add: regs2_def second_ok_def)
  define e0 f0 where "e0 = (if a = f then f else e)" and "f0 = (if a = f then e else f)"
  have o2': "regs2 U (swap_if (a = f) ?o2) e0 f0" unfolding e0_def f0_def by (rule regs2_swap [OF o2])
  define a0 b0 where "a0 = (if t = a then b else a)" and "b0 = (if t = a then a else b)"
  have o0': "regs2 U (swap_if (t = a) ?o0) a0 b0" unfolding a0_def b0_def by (rule regs2_swap [OF o0])
  let ?c = "(a = e \<or> a = f) \<and> b = f0 \<and> (t = a \<or> t = b)"
  have around: "snd (xchg_around U ws) =
      (if ?c then hit [emit_as U 0 (ud_set_pc U (insn ws 1) (rip_of ws 0)) (fst (swap_if (t = a) ?o0)),
           drop_at 1, drop_at 2] else pass)"
    using True same_regs2 [OF ok(1) o0 o2] same_regs2 [OF ok(1) o0 o2'] same_regs2 [OF ok(1) o1 o0]
    by (auto simp: xchg_around_def Let_def)
  have u: "ui_mnemonic (insn ws 1) = m" "is_unary m" using w x1 by (auto simp: mn_def wf_insn_def)
  show ?thesis
  proof (cases ?c)
    case hit: True
    have "exec1 (Xchg e f) s = exec1 (Xchg a b) s" for s
      using hit by (intro xchg_either) (auto simp: f0_def split: if_splits)
    moreover have "exec1 (Xchg a b) (exec1 (Op1 m t) (exec1 (Xchg a b) s)) = exec1 (Op1 m a0) s" for s
      using hit ne by (auto simp: a0_def fun_eq_iff)
    ultimately have eq: "exec1 (Xchg e f) (exec1 (Op1 m t) (exec1 (Xchg a b) s)) = exec1 (Op1 m a0) s" for s
      by (simp only:)
    have "\<exists>ud. emit_as U 0 (ud_set_pc U (insn ws 1) (rip_of ws 0)) (fst (swap_if (t = a) ?o0)) = Inr (Emit 0 ud)
        \<and> rinsn_of U ud = Some (Op1 m a0)"
      using emit_two(3) [OF ok(2), of "fst (swap_if (t = a) ?o0)" a0 "insn ws 1"] o0' u by (simp add: regs2_def)
    from sound_emits(2) [OF this, of "Xchg e f" x1 "Xchg a b"] show ?thesis
      unfolding around r x2 using hit eq x1 by simp
  next
    case False
    then show ?thesis by (simp only: around if_False sound_pass)
  qed
next
  case False
  then show ?thesis by (auto simp: xchg_around_def Let_def)
qed

lemma xchg_sound:
  assumes ok: "operands_ok U" "builder_ok U" and v: "views U ws (x0 # x1 # r)" "mn ws 0 = UD_Ixchg"
  shows "sound U (x0 # x1 # r) (snd (xchg_rule U ws))"
proof -
  note w = window [OF v(1)]
  obtain a b where x0: "x0 = Xchg a b" using w v(2) by (cases x0) (auto simp: wf_simps)
  let ?o0 = "(opr ws 0 0, opr ws 0 1)" and ?o1 = "(opr ws 1 0, opr ws 1 1)"
  have o0: "regs2 U ?o0 a b" and ne: "a \<noteq> b" using w x0 by (simp_all add: regs2_def second_ok_def)
  have differ: "\<not> IsSameOperand U (op01 ws) (op02 ws)"
    using o0 ne same_regs [OF ok(1)] unfolding regs2_def fst_conv snd_conv by blast
  show ?thesis
  proof (cases "mn ws 1 = UD_Ixchg")
    case True
    obtain c d where x1: "x1 = Xchg c d" using w True by (cases x1) (auto simp: wf_simps)
    have o1: "regs2 U ?o1 c d" using w x1 by (simp add: regs2_def second_ok_def)
    define s1 where "s1 \<longleftrightarrow> a = d"
    define c' d' where "c' = (if s1 then d else c)" and "d' = (if s1 then c else d)"
    have o1': "regs2 U (swap_if s1 ?o1) c' d'" unfolding c'_def d'_def by (rule regs2_swap [OF o1])
    have two: "xchg_two U ws = (swap_if s1 ?o1, (a = c \<or> a = d) \<and> b = d')"
      using same_regs2 [OF ok(1) o0 o1] same_regs2 [OF ok(1) o0 o1']
      by (auto simp: xchg_two_def Let_def s1_def)
    have rule: "snd (xchg_rule U ws) =
        (if (a = c \<or> a = d) \<and> b = d' then hit [drop_at 0, drop_at 1] else snd (xchg_three U ws (swap_if s1 ?o1)))"
      using differ True two by (simp add: xchg_rule_def)
    have "exec1 (Xchg c d) (exec1 (Xchg a b) s) = s" if "(a = c \<or> a = d) \<and> b = d'" for s
      using that by (auto simp: d'_def s1_def fun_eq_iff split: if_splits)
    then have "(a = c \<or> a = d) \<and> b = d' \<Longrightarrow> sound U (x0 # x1 # r) (hit [drop_at 0, drop_at 1])"
      unfolding x0 x1 One_nat_def by (intro sound_hits(1)) blast
    moreover have "sound U (x0 # x1 # r) (snd (xchg_three U ws (swap_if s1 ?o1)))"
      using v(1) unfolding x0 x1
      by (rule xchg_three_sound [OF ok _ o1']) (auto simp: c'_def d'_def)
    ultimately show ?thesis unfolding rule by simp
  next
    case False
    then have "snd (xchg_rule U ws) = snd (xchg_around U ws)" using differ by (simp add: xchg_rule_def)
    then show ?thesis using xchg_around_sound [OF ok v(1) [unfolded x0]] x0 by simp
  qed
qed

end
