(* ===== verification/PeepArith.thy ===== *)
theory PeepArith
  imports PeepWindow
begin

text \<open>
  The soundness of the peephole rules for \<open>xor\<close>, \<open>add\<close> and \<open>sub\<close>, and of folding a constant into \<open>mov\<close> through
  one-operand instructions.
\<close>

section \<open>Conditions that cannot fault\<close>

definition defined :: "cond \<Rightarrow> bool" where
  "defined c \<longleftrightarrow> (\<exists>b. c = Inr b)"

lemma defined_Inr [simp]: "defined (Inr b)"
  by (simp add: defined_def)

lemma defined_all_of: "list_all defined cs \<Longrightarrow> defined (all_of cs)"
  by (induction cs rule: all_of.induct) (auto simp: all_of.simps defined_def)

lemma defined_any_of: "list_all defined cs \<Longrightarrow> defined (any_of cs)"
  by (induction cs rule: any_of.induct) (auto simp: any_of.simps defined_def)

lemma deref_Some [simp]: "deref (Some op) f = f op"
  by (simp add: deref_def)

lemma op_is_Some [simp]: "op_is (Some op) P = Inr (P op)"
  by (simp add: op_is_def)

lemma sound_if:
  "defined c \<Longrightarrow> (c = Inr True \<Longrightarrow> sound U xs v) \<Longrightarrow> sound U xs (first_of rs)
    \<Longrightarrow> sound U xs (first_of ((c, v) # rs))"
  unfolding defined_def by (auto intro: sound_first_of)

lemma is_src_Some: "is_src U p x \<Longrightarrow> \<exists>op. p = Some op"
  by (auto simp: is_iff)

lemma is_reg_Some: "is_reg U p x \<Longrightarrow> \<exists>op. p = Some op"
  by (auto simp: is_iff)

section \<open>Rules on two operands\<close>

lemma shapes:
  assumes "wf_insn x"
  shows "is_bin (mn_of x) \<Longrightarrow> \<exists>a y. x = Op2 (mn_of x) a y"
    and "is_unary (mn_of x) \<Longrightarrow> \<exists>a. x = Op1 (mn_of x) a"
    and "mn_of x = UD_Ilea \<Longrightarrow> \<exists>a b d. x = Lea a b d"
    and "mn_of x = UD_Ixchg \<Longrightarrow> \<exists>a b. x = Xchg a b"
  using assms by (cases x; auto simp: wf_simps)+

lemma is_bin_simps [simp]:
  "is_bin UD_Imov" "is_bin UD_Isub" "is_bin UD_Iadd" "is_bin UD_Ixor" "is_bin UD_Iand" "is_bin UD_Ior"
  by (simp_all add: is_bin_def)

lemma xor_sound:
  assumes ok: "operands_ok U" "builder_ok U" and v: "views U ws (x0 # x1 # r)" "mn ws 0 = UD_Ixor"
  shows "sound U (x0 # x1 # r) (xor_rule U ws)"
proof (cases "mn ws 1 = UD_Ixor")
  case True
  note w = window [OF v(1)] and reg = same_regs [OF ok(1)] and src = same_srcs [OF ok(1)]
    and rs = same_reg_src [OF ok(1)]
  obtain a x where x0: "x0 = Op2 UD_Ixor a x" using w(1) shapes(1) [OF w(3)] v(2) by auto
  obtain b y where x1: "x1 = Op2 UD_Ixor b y" using w(2) shapes(1) [OF w(4)] True by auto
  have p: "is_reg U (opr ws 0 0) a" "is_src U (opr ws 0 1) x" "is_reg U (opr ws 1 0) b"
      "is_src U (opr ws 1 1) y" "x \<noteq> Reg a" "y \<noteq> Reg b"
    using w x0 x1 by (simp_all add: second_ok_def)
  have two: "sound U (x0 # x1 # r) (hit [drop_at 0, drop_at 1])"
    if "IsSameOperand U (op01 ws) (op11 ws) \<and> IsSameOperand U (op02 ws) (op12 ws)"
  proof -
    have "a = b" "x = y" using that reg [OF p(1,3)] src [OF p(2,4)] by auto
    then have "exec1 x1 (exec1 x0 s) = s" for s
      using p x0 x1 by (cases x) (auto simp: fun_eq_iff xor.assoc split: if_splits)
    then show ?thesis unfolding One_nat_def by (rule sound_hits(1))
  qed
  have three: "sound U (x0 # x1 # r) (hit [emit U ws 0 UD_Ixchg [Copy (op01 ws), Copy (op02 ws)], drop_at 1, drop_at 2])"
    if c: "3 \<le> length ws" "mn ws 2 = UD_Ixor" "IsSameOperand U (op01 ws) (op12 ws)"
      "IsSameOperand U (op01 ws) (op21 ws)" "IsSameOperand U (op02 ws) (op11 ws)"
      "IsSameOperand U (op02 ws) (op22 ws)"
  proof -
    obtain x2 r' where r: "r = x2 # r'" using third [OF v(1) c(1)] by blast
    note w3 = window3 [OF v(1) [unfolded r]]
    obtain c z where x2: "x2 = Op2 UD_Ixor c z" using w3(1) shapes(1) [OF w3(2)] c(2) by auto
    have q: "is_reg U (opr ws 2 0) c" "is_src U (opr ws 2 1) z" using w3 x2 by (simp_all add: second_ok_def)
    have "y = Reg a" "c = a" "x = Reg b" "x = z"
      using c(3-6) rs [OF p(1,4)] reg [OF p(1) q(1)] src [OF p(2) is_reg_src [OF ok(1) p(3)]] src [OF p(2) q(2)]
      by simp_all
    note eqs = this
    have "exec1 x2 (exec1 x1 (exec1 x0 s)) = exec1 (Xchg a b) s" for s
      using eqs p x0 x1 x2 by (auto simp: fun_eq_iff xor.assoc xor.left_commute xor.commute)
    moreover have "is_reg U (op02 ws) b" using p(2) eqs is_src_Reg [OF ok(1)] by simp
    ultimately show ?thesis using sound_emits(2) [OF emit_two(2) [OF ok(2) p(1), of "op02 ws" b ws 0]] r p eqs
      by simp
  qed
  show ?thesis using True
    by (auto simp: xor_rule_def Let_def
        intro!: sound_if two [unfolded One_nat_def] three [unfolded One_nat_def])
qed (simp add: xor_rule_def Let_def)

text \<open>A constant added to itself and taken off again around another change of the register.\<close>

lemma around_change:
  assumes "m1 \<in> {UD_Isub, UD_Iadd}" "x \<noteq> Reg a" "y \<noteq> Reg a"
    "(m0, m2) = (UD_Iadd, UD_Isub) \<or> (m0, m2) = (UD_Isub, UD_Iadd)"
  shows "exec1 (Op2 m2 a x) (exec1 (Op2 m1 a y) (exec1 (Op2 m0 a x) s)) = exec1 (Op2 m1 a y) s"
  using assms by (cases x; cases y) (auto simp: fun_eq_iff)

text \<open>What the rules of \<open>add\<close> and \<open>sub\<close> for three instructions check, and that it suffices.\<close>

lemma around_sound:
  assumes ok: "operands_ok U" and v: "views U ws (Op2 m0 a x # x1 # r)" "3 \<le> length ws"
    and same: "IsSameOperand U (op01 ws) (op11 ws)" "IsSameOperand U (op01 ws) (op21 ws)"
      "IsSameOperand U (op02 ws) (op22 ws)"
    and m: "mn ws 1 \<in> {UD_Isub, UD_Iadd}" "(m0, mn ws 2) = (UD_Iadd, UD_Isub) \<or> (m0, mn ws 2) = (UD_Isub, UD_Iadd)"
  shows "sound U (Op2 m0 a x # x1 # r) (hit [drop_at 0, drop_at 2])"
proof -
  obtain x2 r' where r: "r = x2 # r'" using third [OF v] by blast
  note w = window [OF v(1)] and w3 = window3 [OF v(1) [unfolded r]]
  obtain m1 b y where x1: "x1 = Op2 m1 b y" using w(2) shapes(1) [OF w(4)] m(1) by auto
  obtain m2 c z where x2: "x2 = Op2 m2 c z" using w3(1) shapes(1) [OF w3(2)] m(2) by auto
  have p: "is_reg U (op01 ws) a" "is_src U (op02 ws) x" "is_reg U (op11 ws) b" "is_reg U (op21 ws) c"
      "is_src U (op22 ws) z" "x \<noteq> Reg a" "y \<noteq> Reg b" "mn ws 1 = m1" "mn ws 2 = m2"
    using w w3 x1 x2 by (simp_all add: second_ok_def)
  have eqs: "b = a" "c = a" "z = x"
    using same same_regs [OF ok p(1,3)] same_regs [OF ok p(1,4)] same_srcs [OF ok p(2,5)] by simp_all
  show ?thesis unfolding r x1 x2 eqs
    using around_change [of m1 x a y m0 m2] m p eqs by (intro sound_hits(3)) auto
qed

lemma add_sound:
  assumes ok: "operands_ok U" and v: "views U ws (x0 # x1 # r)" "mn ws 0 = UD_Iadd"
  shows "sound U (x0 # x1 # r) (add_rule U ws)"
proof -
  note w = window [OF v(1)]
  obtain a x where x0: "x0 = Op2 UD_Iadd a x" using w(1) shapes(1) [OF w(3)] v(2) by auto
  have p: "is_reg U (op01 ws) a" "is_src U (op02 ws) x" using w x0 by (simp_all add: second_ok_def)
  then obtain o02 where o02: "op02 ws = Some o02" using is_src_Some by blast
  have zero: "sound U (x0 # x1 # r) (hit [drop_at 0])" if "uo_type o02 = UD_OP_IMM U" "uo_lval o02 = 0"
    using p(2) that o02 unfolding x0 by (intro sound_hits(2)) (auto simp: is_iff src32_def fun_eq_iff)
  note around = around_sound [OF ok v(1) [unfolded x0], folded x0]
  have pop: "\<not> IsEspMemOperand U (op12 ws) (- 4) False" if mv: "mn ws 1 = UD_Imov"
  proof -
    obtain b y where "x1 = Op2 UD_Imov b y" using w(2) shapes(1) [OF w(4)] mv by auto
    then show ?thesis using w not_esp_mem(1) [OF ok] by (simp add: second_ok_def)
  qed
  show ?thesis
    using pop v(2) o02
    by (auto simp: add_rule_def Let_def
        intro!: sound_if defined_all_of zero around [unfolded One_nat_def])
qed

lemma sub_sound:
  assumes ok: "operands_ok U" and v: "views U ws (x0 # x1 # r)" "mn ws 0 = UD_Isub"
  shows "sound U (x0 # x1 # r) (sub_rule U ws)"
proof -
  note w = window [OF v(1)]
  obtain a x where x0: "x0 = Op2 UD_Isub a x" using w(1) shapes(1) [OF w(3)] v(2) by auto
  have p: "is_reg U (op01 ws) a" "is_src U (op02 ws) x" "is_reg U (op11 ws) (dst x1)"
    using w x0 by (simp_all add: second_ok_def)
  then obtain o01 o02 o11 where o: "op01 ws = Some o01" "op02 ws = Some o02" "op11 ws = Some o11"
    using is_src_Some is_reg_Some by metis
  have zero: "sound U (x0 # x1 # r) (hit [drop_at 0])" if "uo_type o02 = UD_OP_IMM U" "uo_lval o02 = 0"
    using p(2) that o unfolding x0 by (intro sound_hits(2)) (auto simp: is_iff src32_def fun_eq_iff)
  note around = around_sound [OF ok v(1) [unfolded x0], folded x0]
  have "uo_type o11 \<noteq> UD_OP_MEM U"
    using p(3) o(3) op_types [OF ok] reg32_types by (auto simp: is_iff)
  then have mov: "sound U (x0 # x1 # r) (sub_mov_rule U ws)"
    using o by (auto simp: sub_mov_rule_def intro!: sound_if defined_all_of defined_any_of)
  show ?thesis
    using mov v(2) o
    by (auto simp: sub_rule_def Let_def
        intro!: sound_if defined_all_of sound_or_else zero around [unfolded One_nat_def])
qed

section \<open>Rules that begin with mov\<close>

text \<open>A constant in a register, changed by one more instruction, is another constant.\<close>

lemma fold_sound:
  assumes ok: "builder_ok U" and p: "is_reg U (op01 ws) a"
    and x: "x0 = Op2 UD_Imov a (Imm v)" "dst x1 = a" "\<And>s. s a = v \<Longrightarrow> exec1 x1 s a = ucast w"
      "\<And>s t. t \<noteq> a \<Longrightarrow> exec1 x1 s t = s t"
  shows "sound U (x0 # x1 # r) (hit [emit U ws 0 UD_Imov [Copy (op01 ws), new_imm U w], drop_at (Suc 0)])"
proof (rule sound_emits(1) [OF emit_imm [OF ok p]])
  show "exec1 x1 (exec1 x0 s) = exec1 (Op2 UD_Imov a (Imm (ucast w))) s" for s
    using x by (auto simp: fun_eq_iff)
qed simp_all

text \<open>The situation every such rule is in.\<close>

lemma mov_window:
  assumes ok: "operands_ok U" and v: "views U ws (x0 # x1 # r)" "mn ws 0 = UD_Imov"
    and same: "IsSameOperand U (op01 ws) (op11 ws)" and imm: "IsImmOperand U (op02 ws)"
  shows "\<exists>a o02 v. x0 = Op2 UD_Imov a (Imm v) \<and> is_reg U (op01 ws) a \<and> dst x1 = a
    \<and> op02 ws = Some o02 \<and> ucast (udex_get_opimm U o02) = v"
proof -
  note w = window [OF v(1)]
  obtain a x where x0: "x0 = Op2 UD_Imov a x" using w(1) shapes(1) [OF w(3)] v(2) by auto
  have p: "is_reg U (op01 ws) a" "is_src U (op02 ws) x" "is_reg U (op11 ws) (dst x1)"
    using w x0 by (simp_all add: second_ok_def)
  have "dst x1 = a" using same same_regs [OF ok p(1,3)] by simp
  moreover obtain v where "x = Imm v" using imm imm_pred [OF ok p(2)] by blast
  moreover obtain o02 where "op02 ws = Some o02" "ucast (udex_get_opimm U o02) = v"
    using imm_value [OF ok] p(2) calculation(2) by blast
  ultimately show ?thesis using x0 p(1) by blast
qed

lemma mov_unary_sound:
  assumes ok: "operands_ok U" "builder_ok U" and v: "views U ws (x0 # x1 # r)" "mn ws 0 = UD_Imov"
  shows "mn ws 1 = UD_Iinc \<Longrightarrow> sound U (x0 # x1 # r) (mov_inc_rule U ws)"
    and "mn ws 1 = UD_Idec \<Longrightarrow> sound U (x0 # x1 # r) (mov_dec_rule U ws)"
    and "mn ws 1 = UD_Inot \<Longrightarrow> sound U (x0 # x1 # r) (mov_not_rule U ws)"
    and "mn ws 1 = UD_Ineg \<Longrightarrow> sound U (x0 # x1 # r) (mov_neg_rule U ws)"
proof -
  note w = window [OF v(1)]
  have fold: "sound U (x0 # x1 # r) (first_of
      [(Inr (IsSameOperand U (op01 ws) (op11 ws) \<and> IsImmOperand U (op02 ws)),
        imm_of U (op02 ws) (\<lambda>v. hit [emit U ws 0 UD_Imov [Copy (op01 ws), new_imm U (f v)], drop_at 1]))])"
    if m: "is_unary (mn ws 1)" and f: "\<And>z. ucast (f z) = un_val (mn ws 1) (ucast z)" for f
  proof (intro sound_if; simp)
    assume c: "IsSameOperand U (op01 ws) (opr ws (Suc 0) 0) \<and> IsImmOperand U (opr ws 0 (Suc 0))"
    obtain a o02 v' where m0: "x0 = Op2 UD_Imov a (Imm v')" "is_reg U (op01 ws) a" "dst x1 = a"
        "op02 ws = Some o02" "ucast (udex_get_opimm U o02) = v'"
      using mov_window [OF ok(1) v] c by (metis One_nat_def)
    obtain t where "x1 = Op1 (mn ws 1) t" using shapes(2) [OF w(4)] w(2) m by auto
    then have x1: "x1 = Op1 (mn ws 1) a" using m0 by simp
    show "sound U (x0 # x1 # r) (imm_of U (opr ws 0 (Suc 0))
        (\<lambda>v. hit [emit U ws 0 UD_Imov [Copy (op01 ws), new_imm U (f v)], drop_at (Suc 0)]))"
      using m0 f x1 by (auto intro!: fold_sound [OF ok(2)])
  qed
  show "sound U (x0 # x1 # r) (mov_inc_rule U ws)" if "mn ws 1 = UD_Iinc"
    unfolding mov_inc_rule_def using that by (intro fold) (simp_all add: is_unary_def ucast_32)
  show "sound U (x0 # x1 # r) (mov_dec_rule U ws)" if "mn ws 1 = UD_Idec"
    unfolding mov_dec_rule_def using that by (intro fold) (simp_all add: is_unary_def ucast_32)
  show "sound U (x0 # x1 # r) (mov_not_rule U ws)" if "mn ws 1 = UD_Inot"
    unfolding mov_not_rule_def using that by (intro fold) (simp_all add: is_unary_def ucast_32)
  show "sound U (x0 # x1 # r) (mov_neg_rule U ws)" if "mn ws 1 = UD_Ineg"
    unfolding mov_neg_rule_def using that by (intro fold) (simp_all add: is_unary_def ucast_32)
qed

end
