(* ===== verification/PeepMove.thy ===== *)
theory PeepMove
  imports PeepArith
begin

text \<open>
  The soundness of the peephole rules for \<open>mov\<close>, and of moving a constant into the displacement of \<open>lea\<close>.
\<close>

lemma src_not_mem:
  assumes "operands_ok U" "is_src U (Some op) x"
  shows "uo_type op \<noteq> UD_OP_MEM U"
proof -
  have "src32 U op = Some x" using assms(2) by (simp add: is_src_def)
  from src32_cases [OF this] show ?thesis using op_types [OF assms(1)] reg32_types by metis
qed

lemma mov_binary_sound:
  assumes ok: "operands_ok U" "builder_ok U" and v: "views U ws (x0 # x1 # r)" "mn ws 0 = UD_Imov"
    and m: "is_bin (mn ws 1)" and f: "\<And>z i. ucast (f z i) = bin_val (mn ws 1) (ucast z) (ucast i)"
    and rest: "sound U (x0 # x1 # r) (first_of rs)"
  shows "sound U (x0 # x1 # r) (first_of
     ((Inr (IsSameOperand U (op01 ws) (op11 ws) \<and> IsImmOperand U (op02 ws) \<and> IsImmOperand U (op12 ws)),
       imm_of U (op02 ws) (\<lambda>v. imm_of U (op12 ws) (\<lambda>i.
         hit [emit U ws 0 UD_Imov [Copy (op01 ws), new_imm U (f v i)], drop_at 1]))) # rs))"
proof (intro sound_if; simp add: rest)
  note w = window [OF v(1)]
  assume c: "IsSameOperand U (op01 ws) (opr ws (Suc 0) 0) \<and> IsImmOperand U (opr ws 0 (Suc 0))
    \<and> IsImmOperand U (opr ws (Suc 0) (Suc 0))"
  obtain a o02 v' where m0: "x0 = Op2 UD_Imov a (Imm v')" "is_reg U (op01 ws) a" "dst x1 = a"
      "op02 ws = Some o02" "ucast (udex_get_opimm U o02) = v'"
    using mov_window [OF ok(1) v] c by (metis One_nat_def)
  obtain t y where "x1 = Op2 (mn ws 1) t y" using shapes(1) [OF w(4)] w(2) m by auto
  then have x1: "x1 = Op2 (mn ws 1) a y" using m0 by simp
  then have src: "is_src U (op12 ws) y" using w(8) unfolding second_ok_def by simp
  obtain i where y: "y = Imm i" using c imm_pred [OF ok(1) src] by auto
  obtain o12 where o12: "op12 ws = Some o12" "ucast (udex_get_opimm U o12) = i"
    using imm_value [OF ok(1)] src y by blast
  show "sound U (x0 # x1 # r) (imm_of U (opr ws 0 (Suc 0)) (\<lambda>v. imm_of U (opr ws (Suc 0) (Suc 0)) (\<lambda>i.
        hit [emit U ws 0 UD_Imov [Copy (op01 ws), new_imm U (f v i)], drop_at (Suc 0)])))"
    using m0 f x1 y o12 by (auto intro!: fold_sound [OF ok(2)])
qed

lemma mov_imm_sound:
  assumes ok: "operands_ok U" "builder_ok U" and v: "views U ws (x0 # x1 # r)" "mn ws 0 = UD_Imov"
  shows "mn ws 1 = UD_Ixor \<Longrightarrow> sound U (x0 # x1 # r) (mov_xor_rule U ws)"
    and "mn ws 1 = UD_Isub \<Longrightarrow> sound U (x0 # x1 # r) (mov_sub_rule U ws)"
    and "mn ws 1 = UD_Iand \<Longrightarrow> sound U (x0 # x1 # r) (mov_and_rule U ws)"
    and "mn ws 1 = UD_Ior \<Longrightarrow> sound U (x0 # x1 # r) (mov_or_rule U ws)"
  unfolding mov_xor_rule_def mov_sub_rule_def mov_and_rule_def mov_or_rule_def
  by (rule mov_binary_sound [OF ok v]; simp add: ucast_32)+

lemma mov_mov_sound:
  assumes ok: "operands_ok U" and v: "views U ws (x0 # x1 # r)" "mn ws 0 = UD_Imov" "mn ws 1 = UD_Imov"
  shows "sound U (x0 # x1 # r) (mov_mov_rule U ws)"
proof -
  note w = window [OF v(1)]
  obtain a x where x0: "x0 = Op2 UD_Imov a x" using w(1) shapes(1) [OF w(3)] v(2) by auto
  obtain b y where x1: "x1 = Op2 UD_Imov b y" using w(2) shapes(1) [OF w(4)] v(3) by auto
  have "a = b" if "IsSameOperand U (op01 ws) (op11 ws)"
    using that w x0 x1 same_regs [OF ok] by simp
  moreover have "exec1 (Op2 UD_Imov b y) (exec1 (Op2 UD_Imov b x) s) = exec1 (Op2 UD_Imov b y) s" for s
    using w x1 by (cases y) (auto simp: fun_eq_iff)
  ultimately show ?thesis unfolding mov_mov_rule_def x0 x1 by (auto intro!: sound_hits(2))
qed

lemma mov_add_sound:
  assumes ok: "operands_ok U" "builder_ok U" and v: "views U ws (x0 # x1 # r)" "mn ws 0 = UD_Imov"
    "mn ws 1 = UD_Iadd"
  shows "sound U (x0 # x1 # r) (mov_add_rule U ws)"
proof -
  note w = window [OF v(1)]
  obtain a x where x0: "x0 = Op2 UD_Imov a x" using w(1) shapes(1) [OF w(3)] v(2) by auto
  obtain b y where x1: "x1 = Op2 UD_Iadd b y" using w(2) shapes(1) [OF w(4)] v(3) by auto
  have p: "is_reg U (op01 ws) a" "is_src U (op02 ws) x" "is_reg U (op11 ws) b" "is_src U (op12 ws) y"
      "y \<noteq> Reg b"
    using w x0 x1 by (simp_all add: second_ok_def)
  then obtain o02 o11 o12 where o: "op02 ws = Some o02" "op11 ws = Some o11" "op12 ws = Some o12"
    using is_src_Some is_reg_Some by metis
  have nomem: "uo_type o02 \<noteq> UD_OP_MEM U"
    using src_not_mem [OF ok(1)] p(2) o(1) by metis
  have zero: "sound U (x0 # x1 # r) (hit [emit U ws 0 UD_Imov [Copy (op01 ws), Copy (op12 ws)], drop_at 1])"
    if c: "IsImmOperand U (op02 ws)" "udex_get_opimm U o02 = 0" "IsSameOperand U (op01 ws) (op11 ws)"
  proof -
    obtain v where v: "x = Imm v" using c(1) imm_pred [OF ok(1) p(2)] by blast
    then have "ucast (udex_get_opimm U o02) = v"
      using imm_value [OF ok(1), of "op02 ws" v] p(2) o(1) by auto
    then have x: "x = Imm 0" using v c(2) by simp
    have "a = b" using c(3) same_regs [OF ok(1) p(1,3)] by simp
    then have "exec1 x1 (exec1 x0 s) = exec1 (Op2 UD_Imov a y) s" for s
      using x x0 x1 p(5) by (cases y) (auto simp: fun_eq_iff)
    from sound_emits(1) [OF emit_two(1) [OF ok(2) p(1) is_bin_simps(1) p(4)] _ this]
    show ?thesis using p(5) \<open>a = b\<close> by simp
  qed
  show ?thesis
    unfolding mov_add_rule_def Let_def
    by (rule mov_binary_sound [OF ok v(1,2)])
      (use v(3) nomem o zero [unfolded One_nat_def] in
        \<open>auto simp: ucast_32 intro!: sound_if defined_all_of\<close>)
qed

text \<open>The constant in the register is taken off again after another addition or subtraction.\<close>

lemma zeroed_eq:
  assumes "m1 \<in> {UD_Isub, UD_Iadd}" "y \<noteq> Reg a"
    and "(m2 = UD_Isub \<and> w = v) \<or> (m2 = UD_Iadd \<and> v + w = 0)"
  shows "exec1 (Op2 m2 a (Imm w)) (exec1 (Op2 m1 b y) (exec1 (Op2 UD_Imov a (Imm v)) s))
    = exec1 (Op2 m1 b y) (exec1 (Op2 UD_Imov a (Imm 0)) s)"
proof -
  have "w = - v" if "v + w = 0" using that by (simp add: eq_neg_iff_add_eq_0 add.commute)
  then show ?thesis using assms by (cases y) (auto simp: fun_eq_iff)
qed

lemma low_zero:
  assumes "take_bit 32 (w :: 64 word) = 0"
  shows "(ucast w :: 32 word) = 0"
proof (rule bit_eqI)
  fix n
  have "\<not> bit (take_bit 32 w) n" using assms by simp
  then show "bit (ucast w :: 32 word) n \<longleftrightarrow> bit (0 :: 32 word) n"
    by (simp add: bit_take_bit_iff bit_ucast_iff)
qed

lemma mov_three_sound:
  assumes ok: "operands_ok U" "builder_ok U" and v: "views U ws (x0 # x1 # r)" "mn ws 0 = UD_Imov"
  shows "sound U (x0 # x1 # r) (mov_three_rule U ws)"
proof (cases "3 \<le> length ws \<and> mn ws 2 \<in> {UD_Isub, UD_Iadd} \<and> mn ws 1 \<in> {UD_Isub, UD_Iadd}
    \<and> IsImmOperand U (op02 ws) \<and> IsSameOperand U (op01 ws) (op21 ws)
    \<and> \<not> IsSameOperand U (op01 ws) (op12 ws)")
  case True
  then obtain x2 r' where r: "r = x2 # r'" using third [OF v(1)] by blast
  note w = window [OF v(1)] and w3 = window3 [OF v(1) [unfolded r]]
  obtain a x where x0: "x0 = Op2 UD_Imov a x" using w(1) shapes(1) [OF w(3)] v(2) by auto
  obtain m1 b y where x1: "x1 = Op2 m1 b y" using w(2) shapes(1) [OF w(4)] True by auto
  obtain m2 c z where x2: "x2 = Op2 m2 c z" using w3(1) shapes(1) [OF w3(2)] True by auto
  have p: "is_reg U (op01 ws) a" "is_src U (op02 ws) x" "is_src U (op12 ws) y"
      "is_reg U (op21 ws) c" "is_src U (op22 ws) z" "mn ws 1 = m1" "mn ws 2 = m2"
    using w w3 x0 x1 x2 by (simp_all add: second_ok_def)
  obtain k where x: "x = Imm k" using True imm_pred [OF ok(1) p(2)] by blast
  have c: "c = a" using True same_regs [OF ok(1) p(1,4)] by simp
  have y: "y \<noteq> Reg a" using True same_reg_src [OF ok(1) p(1,3)] by simp
  obtain o02 where o02: "op02 ws = Some o02" "ucast (udex_get_opimm U o02) = k"
    using imm_value [OF ok(1)] p(2) x by blast
  have sz: "uo_size o02 = 32" using viewsD(6) [OF v(1), of 0 a k o02] x0 x o02 by simp
  let ?zero = "hit [emit U ws 0 UD_Imov [Copy (op01 ws), new_imm U 0], drop_at 2]"
  have zeroed: "sound U (x0 # x1 # r) ?zero"
    if h: "z = Imm j" "(m2 = UD_Isub \<and> j = k) \<or> (m2 = UD_Iadd \<and> k + j = 0)" for j
  proof -
    have "m1 \<in> {UD_Isub, UD_Iadd}" using True p(6) by simp
    then have "exec1 x2 (exec1 x1 (exec1 x0 s)) = exec1 x1 (exec1 (Op2 UD_Imov a (Imm (ucast (0 :: 64 word)))) s)" for s
      unfolding x0 x1 x2 x c h(1) using zeroed_eq [OF _ y h(2)] by simp
    from sound_emits(4) [OF emit_imm [OF ok(2) p(1) is_bin_simps(1)] _ this] show ?thesis
      unfolding r by simp
  qed
  have sub: "sound U (x0 # x1 # r) ?zero" if "m2 = UD_Isub" "IsSameOperand U (op02 ws) (op22 ws)"
    using that same_srcs [OF ok(1) p(2,5)] x by (intro zeroed [of k]) auto
  have add: "sound U (x0 # x1 # r) ?zero"
    if h: "m2 = UD_Iadd" "IsImmOperand U (op22 ws)" "op22 ws = Some o22"
      "udex_get_sizeimm U (udex_get_opimm U o02 + udex_get_opimm U o22) (uo_size o02) = 0" for o22
  proof -
    obtain j where z: "z = Imm j" using h imm_pred [OF ok(1) p(5)] by blast
    have j: "ucast (udex_get_opimm U o22) = j"
      using imm_value [OF ok(1), of "op22 ws" j] p(5) z h(3) by auto
    have "take_bit 32 (udex_get_opimm U o02 + udex_get_opimm U o22) = 0"
      using h(4) sz library_preds(4) [OF ok(1)] by simp
    then have "(ucast (udex_get_opimm U o02 + udex_get_opimm U o22) :: 32 word) = 0"
      by (rule low_zero)
    then have "k + j = 0" using o02(2) j by (simp add: ucast_32)
    then show ?thesis using z h(1) by (intro zeroed) auto
  qed
  obtain o22 where o22: "op22 ws = Some o22" using is_src_Some p(5) by blast
  show ?thesis
    using True sub add p(6,7) o02(1) o22
    by (auto simp: mov_three_rule_def Let_def intro!: sound_if)
next
  case False
  note w = window [OF v(1)]
  obtain a x where "x0 = Op2 UD_Imov a x" using w(1) shapes(1) [OF w(3)] v(2) by auto
  then obtain o02 where o02: "op02 ws = Some o02" using w(7) by (auto simp: second_ok_def is_iff)
  have o22: "\<exists>o22. op22 ws = Some o22" if l: "3 \<le> length ws" "mn ws 2 = UD_Iadd"
  proof -
    obtain x2 r' where r: "r = x2 # r'" using third [OF v(1) l(1)] by blast
    note w3 = window3 [OF v(1) [unfolded r]]
    obtain c z where "x2 = Op2 UD_Iadd c z" using w3(1) shapes(1) [OF w3(2)] l(2) by auto
    then show ?thesis using w3(4) by (auto simp: second_ok_def is_iff)
  qed
  show ?thesis
    using False o02 o22 by (auto simp: mov_three_rule_def Let_def intro!: sound_if)
qed

lemma mov_sound:
  assumes ok: "operands_ok U" "builder_ok U" and v: "views U ws (x0 # x1 # r)" "mn ws 0 = UD_Imov"
  shows "sound U (x0 # x1 # r) (mov_rule U ws)"
proof -
  have "mn ws 1 \<noteq> UD_Ishl" "mn ws 1 \<noteq> UD_Ishr"
    using window(2,4) [OF v(1)] by (cases x1; auto simp: wf_simps)+
  then show ?thesis unfolding mov_rule_def
    using mov_three_sound [OF ok v] mov_unary_sound [OF ok v] mov_imm_sound [OF ok v]
      mov_mov_sound [OF ok(1) v] mov_add_sound [OF ok v]
    by (intro sound_or_else) (simp_all split: ud_mnemonic.split)
qed

section \<open>Rules that begin with lea\<close>

lemma lea_disp_sound:
  assumes ok: "operands_ok U" "builder_ok U" and v: "views U ws (Lea a b d # x1 # r)"
    and same: "IsSameOperand U (op01 ws) (op11 ws)"
  shows "sound U (Lea a b d # x1 # r) (lea_disp_rule U ws)"
proof -
  note w = window [OF v]
  have p: "is_reg U (op01 ws) a" "is_mem U (op02 ws) b d" "is_reg U (op11 ws) (dst x1)" "b \<noteq> a"
    using w by (simp_all add: second_ok_def)
  have d1: "dst x1 = a" using same same_regs [OF ok(1) p(1,3)] by simp
  obtain o02 where o02: "op02 ws = Some o02" "uo_base o02 = b" "ucast (uo_lval o02) = d"
    using p(2) by (auto simp: is_iff mem32_def split: if_splits)
  have moved: "sound U (Lea a b d # x1 # r) (hit [emit U ws 0 UD_Ilea
      [Copy (op01 ws), New (UD_OP_MEM U) k 0 b], drop_at (Suc 0)])"
    if "\<And>s. exec1 x1 s = s(a := s a + (ucast k - d))" for k
  proof -
    have "exec1 x1 (exec1 (Lea a b d) s) = exec1 (Lea a b (ucast k)) s" for s
      unfolding that using p(4) by (auto simp: fun_eq_iff)
    from sound_emits(1) [OF emit_lea [OF ok p(1,2)] _ this] show ?thesis using p(4) by simp
  qed
  have const: "sound U (Lea a b d # x1 # r) (first_of [(is_type (op12 ws) (UD_OP_IMM U),
      imm_of U (op12 ws) (\<lambda>lva. deref (op02 ws) (\<lambda>o02. hit [emit U ws 0 UD_Ilea
        [Copy (op01 ws), New (UD_OP_MEM U) (f (uo_lval o02) lva) 0 (uo_base o02)], drop_at 1])))])"
    if h: "mn ws 1 \<in> {UD_Isub, UD_Iadd}"
      "\<And>u l. (ucast (f u l) :: 32 word) = bin_val (mn ws 1) (ucast u) (ucast l)" for f
  proof -
    obtain y where x1: "x1 = Op2 (mn ws 1) a y" using shapes(1) [OF w(4)] w(2) h(1) d1 by fastforce
    have y: "is_src U (op12 ws) y" using w(8) unfolding x1 second_ok_def by simp
    show ?thesis
    proof (rule sound_if)
      show "defined (is_type (op12 ws) (UD_OP_IMM U))"
        using type_imm [OF ok(1) y] by (simp add: defined_def)
    next
      assume "is_type (op12 ws) (UD_OP_IMM U) = Inr True"
      then obtain i where i: "y = Imm i" using type_imm [OF ok(1) y] by auto
      then obtain o12 where o12: "op12 ws = Some o12" "ucast (udex_get_opimm U o12) = i"
        using imm_value [OF ok(1)] y by blast
      have "exec1 x1 s = s(a := s a + (ucast (f (uo_lval o02) (udex_get_opimm U o12)) - d))" for s
        using h i o12 o02 by (subst x1) auto
      from moved [OF this] show "sound U (Lea a b d # x1 # r) (imm_of U (op12 ws) (\<lambda>lva. deref (op02 ws)
          (\<lambda>o02. hit [emit U ws 0 UD_Ilea
          [Copy (op01 ws), New (UD_OP_MEM U) (f (uo_lval o02) lva) 0 (uo_base o02)], drop_at 1])))"
        using o12 o02 by simp
    qed simp
  qed
  have inc: "sound U (Lea a b d # x1 # r) (deref (op02 ws) (\<lambda>o02. hit [emit U ws 0 UD_Ilea
      [Copy (op01 ws), New (UD_OP_MEM U) (f (uo_lval o02)) 0 (uo_base o02)], drop_at 1]))"
    if h: "mn ws 1 \<in> {UD_Iinc, UD_Idec}" "\<And>u. (ucast (f u) :: 32 word) = un_val (mn ws 1) (ucast u)" for f
  proof -
    have x1: "x1 = Op1 (mn ws 1) a" using shapes(2) [OF w(4)] w(2) h(1) d1 by (fastforce simp: is_unary_def)
    have "exec1 x1 s = s(a := s a + (ucast (f (uo_lval o02)) - d))" for s
      using h o02 by (subst x1) auto
    from moved [OF this] show ?thesis using o02 by simp
  qed
  show ?thesis unfolding lea_disp_rule_def Let_def
    using const [of "\<lambda>u l. u - l"] const [of "\<lambda>u l. u + l"] inc [of "\<lambda>u. u + 1"] inc [of "\<lambda>u. u - 1"]
    by (auto simp: ucast_32 split: ud_mnemonic.split)
qed

end
