(* ===== verification/PeepWhole.thy ===== *)
theory PeepWhole
  imports PeepMove
begin

text \<open>
  The soundness of the remaining peephole rules, and of the choice among all of them.
\<close>

lemma lea_sound:
  assumes ok: "operands_ok U" "builder_ok U" and v: "views U ws (x0 # x1 # r)" "mn ws 0 = UD_Ilea"
  shows "sound U (x0 # x1 # r) (lea_rule U ws)"
proof -
  note w = window [OF v(1)]
  obtain a b d where x0: "x0 = Lea a b d" using w(1) shapes(3) [OF w(3)] v(2) by auto
  have p: "is_reg U (op01 ws) a" "is_mem U (op02 ws) b d" "is_reg U (op11 ws) (dst x1)" "b \<noteq> a"
    using w x0 by (simp_all add: second_ok_def)
  obtain o01 o02 o11 where o: "op01 ws = Some o01" "op02 ws = Some o02" "op11 ws = Some o11"
      "uo_base o01 = a" "uo_base o02 = b"
    using p reg32_types by (fastforce simp: is_iff mem32_def split: if_splits)
  have nojmp: "mn ws 1 \<noteq> UD_Ijmp" using w(2,4) by (cases x1) (auto simp: wf_simps)
  have twice: "sound U (x0 # x1 # r) (hit [drop_at 0])"
    if c: "mn ws 1 = UD_Ilea" "IsSameOperand U (op01 ws) (op11 ws)"
  proof -
    obtain a' b' d' where x1: "x1 = Lea a' b' d'" using w(2) shapes(3) [OF w(4)] c(1) by auto
    have "a = a'" "b' \<noteq> a'" using c(2) same_regs [OF ok(1) p(1,3)] x1 w(10) by simp_all
    then show ?thesis unfolding x0 x1 by (intro sound_hits(2)) (auto simp: fun_eq_iff)
  qed
  have disp: "sound U (x0 # x1 # r) (lea_disp_rule U ws)" if "IsSameOperand U (op01 ws) (op11 ws)"
    using lea_disp_sound [OF ok v(1) [unfolded x0] that] x0 by simp
  show ?thesis using nojmp o p(4) twice disp
    by (auto simp: lea_rule_def Let_def intro!: sound_if defined_all_of)
qed

section \<open>The last rules\<close>

lemma merge_sound:
  assumes ok: "operands_ok U" "builder_ok U" and v: "views U ws (x0 # x1 # r)"
  shows "sound U (x0 # x1 # r) (merge_rule U ws)"
proof (cases "mn ws 0 \<in> {UD_Isub, UD_Iadd} \<and> mn ws 1 \<in> {UD_Isub, UD_Iadd}
    \<and> IsSameOperand U (op01 ws) (op11 ws)")
  case True
  note w = window [OF v]
  obtain m0 a x where x0: "x0 = Op2 m0 a x" using w(1) shapes(1) [OF w(3)] True by auto
  obtain m1 b y where x1: "x1 = Op2 m1 b y" using w(2) shapes(1) [OF w(4)] True by auto
  have p: "is_reg U (op01 ws) a" "is_src U (op02 ws) x" "is_reg U (op11 ws) b" "is_src U (op12 ws) y"
      "x \<noteq> Reg a" "y \<noteq> Reg b" "mn ws 0 = m0" "mn ws 1 = m1"
    using w x0 x1 by (simp_all add: second_ok_def)
  have ba: "b = a" using True same_regs [OF ok(1) p(1,3)] by simp
  obtain o01 o02 o12 where o: "op01 ws = Some o01" "op02 ws = Some o02" "op12 ws = Some o12"
    using p is_src_Some is_reg_Some by metis
  let ?delta = "delta_of m0 m1 (uo_lval o02) (uo_lval o12)"
  have eff: "exec1 x1 (exec1 x0 s) = s(a := s a + ucast ?delta)"
    if "uo_type o02 = UD_OP_IMM U" "uo_type o12 = UD_OP_IMM U" for s
  proof -
    have "x = Imm (ucast (uo_lval o02))" "y = Imm (ucast (uo_lval o12))"
      using that p(2,4) o by (simp_all add: is_src_def src32_def)
    then show ?thesis using True p(7,8) x0 x1 ba
      by (auto simp: delta_of_def ucast_32 fun_eq_iff)
  qed
  have imm: "uo_type o02 = UD_OP_IMM U" if c: "uo_type o02 = UD_OP_IMM U \<or> uo_type o02 = UD_OP_CONST U"
  proof -
    have "src32 U o02 = Some x" using p(2) o(2) by (simp add: is_src_def)
    from src32_cases [OF this] c show ?thesis using op_types [OF ok(1)] reg32_types by metis
  qed
  have drop: "sound U (x0 # x1 # r) (hit [drop_at 0, drop_at (Suc 0)])"
    if c: "uo_type o02 = UD_OP_IMM U" "uo_type o12 = UD_OP_IMM U" "?delta = 0"
    by (rule sound_hits(1)) (simp add: eff [OF c(1,2)] c(3))
  have put: "sound U (x0 # x1 # r) (hit [emit U ws 0 m [Copy (op01 ws), new_imm_sz U k (uo_size o01)], drop_at (Suc 0)])"
    if c: "uo_type o02 = UD_OP_IMM U" "uo_type o12 = UD_OP_IMM U" "is_bin m"
      "\<And>z. bin_val m z (ucast k) = z + ucast ?delta" for m k
  proof -
    have "exec1 x1 (exec1 x0 s) = exec1 (Op2 m a (Imm (ucast k))) s" for s
      by (simp add: eff [OF c(1,2)] c(4))
    from sound_emits(1) [OF emit_imm [OF ok(2) p(1) c(3)] _ this] show ?thesis by simp
  qed
  have add: "bin_val UD_Iadd z (ucast ?delta) = z + ucast ?delta"
    and sub: "bin_val UD_Isub z (ucast (- ?delta)) = z + ucast ?delta" for z
    by (simp_all add: ucast_32)
  have "merge_rule U ws = first_of
      [(all_of [any_of [is_type (op02 ws) (UD_OP_IMM U), is_type (op02 ws) (UD_OP_CONST U)],
                Inr (uo_type o02 = uo_type o12)],
        if ?delta = 0 then hit [drop_at 0, drop_at 1]
        else if 0 <s ?delta
          then hit [emit U ws 0 UD_Iadd [Copy (op01 ws), new_imm_sz U ?delta (uo_size o01)], drop_at 1]
          else hit [emit U ws 0 UD_Isub [Copy (op01 ws), new_imm_sz U (- ?delta) (uo_size o01)], drop_at 1])]"
    using True o p(7,8) by (simp add: merge_rule_def Let_def)
  moreover have "sound U (x0 # x1 # r) \<dots>"
  proof (rule sound_if)
    show "defined (all_of [any_of [is_type (op02 ws) (UD_OP_IMM U), is_type (op02 ws) (UD_OP_CONST U)],
        Inr (uo_type o02 = uo_type o12)])"
      using o by (auto intro!: defined_all_of defined_any_of)
  next
    assume "all_of [any_of [is_type (op02 ws) (UD_OP_IMM U), is_type (op02 ws) (UD_OP_CONST U)],
        Inr (uo_type o02 = uo_type o12)] = Inr True"
    then have t: "uo_type o02 = UD_OP_IMM U" "uo_type o12 = UD_OP_IMM U"
      using imm o by (auto simp: any_of.simps split: if_splits)
    show "sound U (x0 # x1 # r) (if ?delta = 0 then hit [drop_at 0, drop_at 1]
        else if 0 <s ?delta
          then hit [emit U ws 0 UD_Iadd [Copy (op01 ws), new_imm_sz U ?delta (uo_size o01)], drop_at 1]
          else hit [emit U ws 0 UD_Isub [Copy (op01 ws), new_imm_sz U (- ?delta) (uo_size o01)], drop_at 1])"
      using drop [OF t] put [OF t is_bin_simps(3) add] put [OF t is_bin_simps(2) sub] by simp
  qed simp
  ultimately show ?thesis by simp
next
  case False
  then show ?thesis by (auto simp: merge_rule_def)
qed

text \<open>A register is not on the stack.\<close>

lemma overwrite_sound:
  assumes ok: "operands_ok U" and v: "views U ws (x0 # x1 # r)"
  shows "sound U (x0 # x1 # r) (overwrite_rule U ws o0)"
proof (cases "mn ws 1 = UD_Imov")
  case True
  have p: "is_reg U (op11 ws) (dst x1)" using window [OF v] by simp
  then have "\<not> esp_mem U (op11 ws)" using not_esp_mem(2) [OF ok] by blast
  then have "all_of [Inr (fst o0 \<noteq> None), Inr (snd o0 \<noteq> None), Inr (mn ws 1 = UD_Imov),
      Inr (esp_mem U (fst o0)), Inr (esp_mem U (op11 ws)),
      deref (fst o0) (\<lambda>o01. op_is (op11 ws) (\<lambda>op. uo_size o01 = uo_size op)),
      Inr (\<not> IsEffectESP U (fst (snd (ws ! 0))))] = Inr False"
    by (simp add: all_of.simps)
  then show ?thesis by (simp add: overwrite_rule_def first_of.simps)
next
  case False
  then show ?thesis by (simp add: overwrite_rule_def all_of.simps first_of.simps)
qed

section \<open>The whole of a window\<close>

theorem peep_sound:
  assumes ok: "operands_ok U" "builder_ok U" and v: "views U ws xs" "2 \<le> length xs"
  shows "sound U xs (peep U ws)"
proof -
  obtain x0 x1 r where xs: "xs = x0 # x1 # r"
    using v(2) by (cases xs; cases "tl xs") auto
  note v = v(1) [unfolded xs]
  have m: "is_unary (mn ws 0) \<or> is_bin (mn ws 0) \<or> mn ws 0 = UD_Ixchg \<or> mn ws 0 = UD_Ilea"
    using window(1,3) [OF v] by (cases x0) (simp_all add: wf_insn_def)
  have "sound U xs (snd (first_switch U ws))"
    using m bswap_sound [OF ok(1) v] neg_sound [OF ok(1) v] not_sound [OF ok(1) v] xchg_sound [OF ok v]
      add_sound [OF ok(1) v] sub_sound [OF ok(1) v] mov_sound [OF ok v] xor_sound [OF ok v] lea_sound [OF ok v] xs
    by (auto simp: first_switch_def Let_def is_unary_def is_bin_def)
  then show ?thesis
    using merge_sound [OF ok v] overwrite_sound [OF ok(1) v] xs
    by (simp add: peep_def case_prod_beta sound_or_else)
qed

end
