(* ===== verification/PeepTrace.thy ===== *)
theory PeepTrace
  imports PeepWhole Deobfuscate
begin

text \<open>
  The peephole pass on a whole trace of register instructions: it never faults, what the trace computes
  stays the same, and every counted hit takes an instruction away; so repeating the pass ends.
\<close>

section \<open>Traces of register instructions\<close>

definition slot_of :: "ud_env \<Rightarrow> 32 word \<Rightarrow> TraceRecordEx \<Rightarrow> slot" where
  "slot_of U mark tr = (has (tx_flags tr) mark, the (rinsn_of U (decode_rec U tr)))"

definition slots :: "ud_env \<Rightarrow> 32 word \<Rightarrow> InstSequence \<Rightarrow> slot list" where
  "slots U mark seq = map (slot_of U mark \<circ> snd) (is_nodes seq)"

text \<open>What the trace computes: its records that are not flagged.\<close>

definition trace_insns :: "ud_env \<Rightarrow> 32 word \<Rightarrow> InstSequence \<Rightarrow> rinsn list" where
  "trace_insns U mark seq = kept (slots U mark seq)"

definition reg_record :: "ud_env \<Rightarrow> 32 word \<Rightarrow> TraceRecordEx \<Rightarrow> bool" where
  "reg_record U mark tr \<longleftrightarrow> has (tx_flags tr) mark
     \<or> 1 \<le> ui_len (decode_rec U tr)
       \<and> (case rinsn_of U (decode_rec U tr) of None \<Rightarrow> False | Some x \<Rightarrow> \<not> self_src x)"

definition reg_trace :: "ud_env \<Rightarrow> 32 word \<Rightarrow> InstSequence \<Rightarrow> bool" where
  "reg_trace U mark seq \<longleftrightarrow> nodes_ok seq \<and> list_all (reg_record U mark \<circ> snd) (is_nodes seq)"

section \<open>Writing a record is writing its slot\<close>

lemma upd_rec_nth:
  assumes "nodes_ok seq" "i < length (is_nodes seq)" "fst (is_nodes seq ! i) = n"
  shows "is_nodes (upd_rec n f seq) = (is_nodes seq)[i := (n, f (snd (is_nodes seq ! i)))]"
proof (rule nth_equalityI)
  fix j assume j: "j < length (is_nodes (upd_rec n f seq))"
  then have "j < length (is_nodes seq)" by (simp add: upd_rec_def)
  moreover have "fst (is_nodes seq ! j) = n \<longleftrightarrow> j = i"
    using assms calculation unfolding nodes_ok_def
    by (metis length_map nth_eq_iff_index_eq nth_map)
  ultimately show "is_nodes (upd_rec n f seq) ! j = (is_nodes seq)[i := (n, f (snd (is_nodes seq ! i)))] ! j"
    by (auto simp: upd_rec_def nth_list_update)
qed (simp add: upd_rec_def)

lemma slots_upd:
  assumes "nodes_ok seq" "i < length (is_nodes seq)" "fst (is_nodes seq ! i) = n"
  shows "slots U mark (upd_rec n f seq) = (slots U mark seq)[i := slot_of U mark (f (snd (is_nodes seq ! i)))]"
  by (simp add: slots_def upd_rec_nth [OF assms] map_update)

lemma reg_trace_upd:
  assumes "reg_trace U mark seq" "\<And>tr. reg_record U mark tr \<Longrightarrow> reg_record U mark (f tr)"
  shows "reg_trace U mark (upd_rec n f seq)"
  using assms nodes_ok_upd_rec [of seq n f] unfolding reg_trace_def
  by (auto simp: list_all_iff upd_rec_def split: if_splits)

lemma decode_put_code:
  assumes "roundtrip_ok U" "rinsn_of U ud = Some x"
  shows "1 \<le> ui_len (decode_rec U (put_code (udex_to_bc U ud) tr))"
    "rinsn_of U (decode_rec U (put_code (udex_to_bc U ud) tr)) = Some x"
  using assms unfolding roundtrip_ok_def decode_rec_def put_code_def
  by (auto simp: Let_def case_prod_beta)

lemma act_slots:
  assumes lib: "roundtrip_ok U" "mark \<noteq> 0" and ok: "nodes_ok seq"
    and s: "slots U mark seq = A @ Y @ B" "length Y = length ws"
      "\<And>k. k < length ws \<Longrightarrow> ids seq ! (length A + k) = place ws k"
    and a: "act_within (length ws) a" "plain_act U a"
  shows "slots U mark (do_action U mark ws a seq) = A @ edit1 U a Y @ B"
proof -
  have len: "length (is_nodes seq) = length A + length ws + length B"
    using arg_cong [OF s(1), of length] s(2) by (simp add: slots_def)
  have upd: "slots U mark (upd_rec (place ws k) f seq)
      = (slots U mark seq)[length A + k := slot_of U mark (f (snd (is_nodes seq ! (length A + k))))]"
    if "k < length ws" for k f
    using that s(3) len by (intro slots_upd [OF ok]) (simp_all add: ids_def)
  have old: "slot_of U mark (snd (is_nodes seq ! (length A + k))) = Y ! k" if "k < length ws" for k
  proof -
    have "slots U mark seq ! (length A + k) = Y ! k" using that s by (simp add: nth_append)
    then show ?thesis using that len by (simp add: slots_def)
  qed
  show ?thesis
  proof (cases a)
    case (Drop k)
    then have "slot_of U mark (or_flags mark (snd (is_nodes seq ! (length A + k)))) = (True, snd (Y ! k))"
      using old [of k] a lib by (auto simp: slot_of_def prod_eq_iff)
    then show ?thesis using Drop upd [of k "or_flags mark"] a s(1,2)
      by (simp add: list_update_append)
  next
    case (Emit k ud)
    then obtain y where y: "rinsn_of U ud = Some y" using a by auto
    have "slot_of U mark (put_code (udex_to_bc U ud) (snd (is_nodes seq ! (length A + k)))) = (fst (Y ! k), y)"
      using old [of k] Emit a decode_put_code(2) [OF lib(1) y] by (auto simp: slot_of_def prod_eq_iff)
    then show ?thesis using Emit upd [of k "put_code (udex_to_bc U ud)"] a s(1,2) y
      by (simp add: list_update_append)
  qed (use a in simp_all)
qed

lemma act_reg_trace:
  assumes "roundtrip_ok U" "mark \<noteq> 0" "reg_trace U mark seq" "plain_act U a"
  shows "reg_trace U mark (do_action U mark ws a seq)"
proof (cases a)
  case (Drop k)
  then show ?thesis using assms by (auto intro!: reg_trace_upd simp: reg_record_def)
next
  case (Emit k ud)
  then obtain y where "rinsn_of U ud = Some y" "\<not> self_src y" using assms(4) by auto
  then show ?thesis using Emit assms(3) decode_put_code [OF assms(1), of ud y]
    by (auto intro!: reg_trace_upd simp: reg_record_def)
qed (use assms in simp_all)

lemma length_edit1 [simp]: "length (edit1 U a Y) = length Y"
  by (cases a) simp_all

lemma ids_do_action [simp]: "ids (do_action U mark ws a seq) = ids seq"
  by (cases a) (simp_all split: option.split)

lemma acts_slots:
  assumes lib: "roundtrip_ok U" "mark \<noteq> 0" and ok: "reg_trace U mark seq"
    and s: "slots U mark seq = A @ Y @ B" "length Y = length ws"
      "\<And>k. k < length ws \<Longrightarrow> ids seq ! (length A + k) = place ws k"
    and a: "list_all (act_within (length ws)) as" "list_all (plain_act U) as"
  shows "slots U mark (do_actions U mark ws as seq) = A @ edit U as Y @ B
    \<and> reg_trace U mark (do_actions U mark ws as seq)"
  using ok s a unfolding do_actions_def edit_def
proof (induction as arbitrary: seq Y)
  case (Cons a as)
  let ?seq = "do_action U mark ws a seq"
  have "nodes_ok seq" using Cons.prems(1) by (simp add: reg_trace_def)
  then have "slots U mark ?seq = A @ edit1 U a Y @ B"
    using Cons.prems by (intro act_slots [OF lib]) simp_all
  moreover have "reg_trace U mark ?seq"
    using Cons.prems by (intro act_reg_trace [OF lib]) simp_all
  ultimately show ?case using Cons.IH [of ?seq "edit1 U a Y"] Cons.prems by simp
qed simp

section \<open>The window at a place of the trace\<close>

lemma read_window_at:
  "read_window U mark seq ns = Some ws \<Longrightarrow> k < length ws \<Longrightarrow>
     length ws \<le> length ns \<and> place ws k = ns ! k
     \<and> (\<exists>tr. rec_at seq (ns ! k) = Some tr \<and> \<not> has (tx_flags tr) mark \<and> insn ws k = decode_rec U tr)"
proof (induction ns arbitrary: ws k)
  case (Cons n ns)
  then obtain tr ws' where n: "rec_at seq n = Some tr" "\<not> has (tx_flags tr) mark"
      "ws = (n, tr, decode_rec U tr) # ws'" "read_window U mark seq ns = Some ws'"
    by (auto split: option.splits if_splits)
  show ?case
  proof (cases k)
    case 0
    have "length ws' \<le> length ns"
      using Cons.IH [OF n(4), of 0] by (cases ws') auto
    then show ?thesis using 0 n by (simp add: place_def insn_def)
  next
    case (Suc j)
    then show ?thesis using Cons.IH [OF n(4), of j] Cons.prems n by (simp add: place_def insn_def)
  qed
qed simp

lemma rec_at_nth:
  assumes "nodes_ok seq" "i < length (is_nodes seq)"
  shows "rec_at seq (ids seq ! i) = Some (snd (is_nodes seq ! i))"
proof -
  have "is_nodes seq ! i \<in> set (is_nodes seq)" using assms(2) by simp
  then show ?thesis
    using assms unfolding nodes_ok_def rec_at_def ids_def by (simp add: prod_eq_iff)
qed

lemma window_slots:
  assumes lib: "roundtrip_ok U" and ok: "reg_trace U mark seq"
    and s: "ids seq = P @ ns" "read_window U mark seq (take m ns) = Some ws"
  obtains A xs B where "slots U mark seq = A @ map (Pair False) xs @ B" "views U ws xs"
    "length A = length P" "\<And>k. k < length ws \<Longrightarrow> ids seq ! (length A + k) = place ws k"
proof -
  let ?S = "slots U mark seq"
  define xs where "xs = map snd (take (length ws) (drop (length P) ?S))"
  have at: "length ws \<le> length ns" if "0 < length ws"
    using read_window_at [OF s(2) that] by simp
  have len: "length ?S = length P + length ns" using arg_cong [OF s(1), of length] by (simp add: slots_def ids_def)
  have l: "length P + length ws \<le> length ?S" using at len by (cases "length ws") auto
  have lx: "length xs = length ws" using l by (simp add: xs_def)
  have nodes: "nodes_ok seq" using ok by (simp add: reg_trace_def)
  have one: "?S ! (length P + k) = (False, xs ! k) \<and> rinsn_of U (insn ws k) = Some (xs ! k)
      \<and> \<not> self_src (xs ! k) \<and> ids seq ! (length P + k) = place ws k
      \<and> (\<exists>tr. insn ws k = decode_rec U tr)" if k: "k < length ws" for k
  proof -
    let ?e = "is_nodes seq ! (length P + k)"
    have lk: "length P + k < length (is_nodes seq)" using k l by (simp add: slots_def)
    have pl: "place ws k = ids seq ! (length P + k)"
      using read_window_at [OF s(2) k] k s(1) by (simp add: nth_append)
    obtain tr where tr: "rec_at seq (place ws k) = Some tr" "\<not> has (tx_flags tr) mark"
        "insn ws k = decode_rec U tr"
      using read_window_at [OF s(2) k] by auto
    then have e: "snd ?e = tr" using rec_at_nth [OF nodes lk] pl by simp
    have "reg_record U mark tr"
      using ok nth_mem [OF lk] e by (auto simp: reg_trace_def list_all_iff)
    then obtain x where x: "rinsn_of U (decode_rec U tr) = Some x" "\<not> self_src x"
      using tr(2) by (auto simp: reg_record_def split: option.splits)
    have S: "?S ! (length P + k) = (False, x)"
      using lk e tr(2) x by (simp add: slots_def slot_of_def)
    moreover have "xs ! k = x" using k l S by (simp add: xs_def)
    ultimately show ?thesis using x tr pl by auto
  qed
  have mid: "take (length ws) (drop (length P) ?S) = map (Pair False) xs"
    using one l by (intro nth_equalityI) (simp_all add: lx)
  have "?S = take (length P) ?S @ take (length ws) (drop (length P) ?S) @ drop (length P + length ws) ?S"
    by (metis append_take_drop_id drop_drop add.commute)
  then have "?S = take (length P) ?S @ map (Pair False) xs @ drop (length P + length ws) ?S"
    unfolding mid .
  moreover have "views U ws xs"
  proof -
    have "uo_size op = 32" if "k < length ws" "xs ! k = Op2 UD_Imov r (Imm v)" "opr ws k 1 = Some op" for k r v op
      using one [OF that(1)] that lib unfolding roundtrip_ok_def decode_rec_def opr_def by fastforce
    then show ?thesis using one lx unfolding views_def by simp
  qed
  ultimately show thesis using that [of "take (length P) ?S" xs "drop (length P + length ws) ?S"] one l by simp
qed

section \<open>A step of the pass\<close>

lemma kept_append [simp]: "kept (xs @ ys) = kept xs @ kept ys"
  by (simp add: kept_def)

lemma kept_plain [simp]: "kept (map (Pair False) xs) = xs"
  by (simp add: kept_def filter_map comp_def)

lemma run_append: "run (xs @ ys) s = run ys (run xs s)"
  by (simp add: run_def)

lemma edit_grows:
  "length (edit U as Y) = length Y
    \<and> (\<forall>k < length Y. fst (Y ! k) \<or> Drop k \<in> set as \<longrightarrow> fst (edit U as Y ! k))"
  unfolding edit_def
proof (induction as arbitrary: Y)
  case (Cons a as)
  have "fst (edit1 U a Y ! k)" if "k < length Y" "fst (Y ! k) \<or> a = Drop k" for k
  proof (cases a)
    case (Drop j)
    then show ?thesis using that by (cases "k = j") simp_all
  next
    case (Emit j ud)
    then show ?thesis using that by (cases "k = j") simp_all
  qed (use that in simp_all)
  then show ?case using Cons.IH [of "edit1 U a Y"] by auto
qed simp

lemma kept_shorter:
  assumes "k < length Y" "fst (Y ! k)"
  shows "length (kept Y) < length Y"
  using length_filter_less [of "Y ! k" Y "\<lambda>y. \<not> fst y"] assms by (simp add: kept_def)

lemma dropped_shorter:
  assumes "list_ex is_drop as" "list_all (act_within (length xs)) as"
  shows "length (kept (edit U as (map (Pair False) xs))) < length xs"
proof -
  obtain a where a: "a \<in> set as" "is_drop a" using assms(1) by (auto simp: list_ex_iff)
  have "\<exists>k. a = Drop k" using a(2) by (cases a) simp_all
  then obtain k where "a = Drop k" ..
  then have k: "Drop k \<in> set as" "k < length xs"
    using a(1) assms(2) by (auto simp: list_all_iff)
  have "length (kept (edit U as (map (Pair False) xs))) < length (edit U as (map (Pair False) xs))"
    using k edit_grows [of U as "map (Pair False) xs"] by (intro kept_shorter [of k]) auto
  then show ?thesis using edit_grows [of U as "map (Pair False) xs"] by simp
qed

lemma normal_step:
  assumes lib: "operands_ok U" "builder_ok U" "roundtrip_ok U" "mark \<noteq> 0" and ok: "reg_trace U mark seq"
    and s: "ids seq = P @ ns" "read_window U mark seq (take m ns) = Some ws" "2 \<le> length ws"
  shows "\<exists>h as. peep U ws = Inr (h, as) \<and> (\<not> h \<longrightarrow> as = []) \<and> reg_trace U mark (do_actions U mark ws as seq)
    \<and> (\<forall>st. run (trace_insns U mark (do_actions U mark ws as seq)) st = run (trace_insns U mark seq) st)
    \<and> (h \<longrightarrow> length (trace_insns U mark (do_actions U mark ws as seq)) < length (trace_insns U mark seq))"
proof -
  obtain A xs B where w: "slots U mark seq = A @ map (Pair False) xs @ B" "views U ws xs"
      "length A = length P" "\<And>k. k < length ws \<Longrightarrow> ids seq ! (length A + k) = place ws k"
    using window_slots [OF lib(3) ok s(1,2)] by blast
  have l: "length xs = length ws" using w(2) by (simp add: views_def)
  have within: "within (length ws) (peep U ws)" using s(3) by (rule peep_within)
  consider "peep U ws = Inr (False, [])" | as where "peep U ws = Inr (True, as)" "list_all (plain_act U) as"
      "list_ex is_drop as" "\<And>st. run (kept (edit U as (map (Pair False) xs))) st = run xs st"
    using peep_sound [OF lib(1,2) w(2)] s(3) l unfolding sound_def pass_def by auto
  then show ?thesis
  proof cases
    case 1
    then show ?thesis using ok by (intro exI [of _ False] exI [of _ "[]"]) (simp add: do_actions_def)
  next
    case 2
    have a: "list_all (act_within (length ws)) as" using within 2(1) by simp
    have S: "slots U mark (do_actions U mark ws as seq) = A @ edit U as (map (Pair False) xs) @ B"
        "reg_trace U mark (do_actions U mark ws as seq)"
      using acts_slots [OF lib(3,4) ok w(1) _ w(4) a 2(2)] l by simp_all
    have "length (kept (edit U as (map (Pair False) xs))) < length xs"
      using dropped_shorter [OF 2(3), of xs U] a unfolding l by simp
    then show ?thesis using 2(1,4) S w(1)
      by (intro exI [of _ True] exI [of _ as]) (simp add: trace_insns_def run_append)
  qed
qed

lemma ids_do_actions [simp]: "ids (do_actions U mark ws as seq) = ids seq"
  unfolding do_actions_def by (induction as arbitrary: seq) simp_all

text \<open>What the loop has done when it comes to the end.\<close>

definition simplified ::
  "ud_env \<Rightarrow> 32 word \<Rightarrow> InstSequence \<Rightarrow> int \<Rightarrow> InstSequence \<Rightarrow> bool" where
  "simplified U mark seq n seq' \<longleftrightarrow> reg_trace U mark seq' \<and> 0 \<le> n
     \<and> (\<forall>st. run (trace_insns U mark seq') st = run (trace_insns U mark seq) st)
     \<and> int (length (trace_insns U mark seq')) + n \<le> int (length (trace_insns U mark seq))
     \<and> (n = 0 \<longrightarrow> seq' = seq)"

lemma simplified_refl: "reg_trace U mark seq \<Longrightarrow> simplified U mark seq 0 seq"
  by (simp add: simplified_def)

lemma simplified_trans:
  "simplified U mark s m t \<Longrightarrow> simplified U mark t n u \<Longrightarrow> simplified U mark s (m + n) u"
  unfolding simplified_def by auto

lemma normal_loop_simplifies:
  assumes lib: "operands_ok U" "builder_ok U" "roundtrip_ok U" "mark \<noteq> 0"
    and "reg_trace U mark seq" "ids seq = P @ ns"
  shows "\<exists>n seq'. normal_loop U mark ns nrc seq = Inr (nrc + n, seq') \<and> simplified U mark seq n seq'"
  using assms(5,6)
proof (induction ns arbitrary: P nrc seq)
  case Nil
  then show ?case using simplified_refl by (intro exI [of _ 0] exI [of _ seq]) simp
next
  case (Cons n ns)
  have rest: "ids seq = (P @ [n]) @ ns" using Cons.prems(2) by simp
  show ?case
  proof (cases "\<exists>ws. read_window U mark seq (take MAX_N_INST (n # ns)) = Some ws \<and> 2 \<le> length ws")
    case False
    then have "normal_loop U mark (n # ns) nrc seq = normal_loop U mark ns nrc seq"
      by (auto simp: not_le split: option.split)
    then show ?thesis using Cons.IH [OF Cons.prems(1) rest] by simp
  next
    case True
    then obtain ws where ws: "read_window U mark seq (take MAX_N_INST (n # ns)) = Some ws" "2 \<le> length ws"
      by blast
    obtain h as where step: "peep U ws = Inr (h, as)" "\<not> h \<longrightarrow> as = []"
        "reg_trace U mark (do_actions U mark ws as seq)"
        "\<forall>st. run (trace_insns U mark (do_actions U mark ws as seq)) st = run (trace_insns U mark seq) st"
        "h \<longrightarrow> length (trace_insns U mark (do_actions U mark ws as seq)) < length (trace_insns U mark seq)"
      using normal_step [OF lib Cons.prems ws] by blast
    let ?seq = "do_actions U mark ws as seq" and ?d = "if h then 1 else 0 :: int"
    have one: "simplified U mark seq ?d ?seq"
      using step Cons.prems(1) by (cases h) (simp_all add: simplified_def do_actions_def)
    obtain k seq' where k: "normal_loop U mark ns (nrc + ?d) ?seq = Inr (nrc + ?d + k, seq')"
        "simplified U mark ?seq k seq'"
      using Cons.IH [OF step(3), of "P @ [n]" "nrc + ?d"] rest by auto
    have "normal_loop U mark (n # ns) nrc seq = normal_loop U mark ns (nrc + ?d) ?seq"
      using ws step(1) by simp
    then show ?thesis using k simplified_trans [OF one k(2)]
      by (intro exI [of _ "?d + k"] exI [of _ seq']) simp
  qed
qed

lemma doDeobfuscateNormal_simplifies:
  assumes lib: "operands_ok U" "builder_ok U" "roundtrip_ok U"
    and "mark = (if flagonly then RECORD_FLAG_JUNK U else RECORD_FLAG_DELETE U)" "mark \<noteq> 0"
    and "reg_trace U mark seq"
  shows "\<exists>n seq'. doDeobfuscateNormal U seq flagonly = Inr (n, seq') \<and> simplified U mark seq n seq'"
  using normal_loop_simplifies [OF lib assms(5,6), of "[]" "ids seq" 0] assms(4)
  unfolding doDeobfuscateNormal_def by simp

section \<open>Repeating the passes\<close>

text \<open>Erasing flagged records erases nothing of what the trace computes.\<close>

lemma delete_keeps_insns:
  assumes "reg_trace U mark seq"
  defines "seq' \<equiv> snd (deleteFlagedInSeq mark seq)"
  shows "reg_trace U mark seq'" "trace_insns U mark seq' = trace_insns U mark seq"
    "list_all (\<lambda>e. \<not> has (tx_flags (snd e)) mark) (is_nodes seq')"
proof -
  have n: "is_nodes seq' = filter (\<lambda>e. \<not> has (tx_flags (snd e)) mark) (is_nodes seq)"
    by (simp add: seq'_def deleteFlagedInSeq_filter)
  show "list_all (\<lambda>e. \<not> has (tx_flags (snd e)) mark) (is_nodes seq')"
    unfolding n by (simp add: list_all_iff)
  show "reg_trace U mark seq'"
    using assms(1) nodes_ok_delete [of seq mark] n unfolding reg_trace_def seq'_def
    by (auto simp: list_all_iff)
  show "trace_insns U mark seq' = trace_insns U mark seq"
    unfolding trace_insns_def kept_def slots_def n
    by (simp add: filter_map comp_def slot_of_def)
qed

text \<open>There is no push in such a trace, so the push/pop pass has nothing to do.\<close>

lemma reg_not_pushpop:
  "rinsn_of U ud = Some x \<Longrightarrow> ui_mnemonic ud \<noteq> UD_Ipush \<and> ui_mnemonic ud \<noteq> UD_Ipop"
  using rinsn_of_mn [of U ud x] by (cases x) (auto simp: wf_insn_def is_unary_def is_bin_def)

lemma pp_loop_idle:
  assumes "reg_trace U (RECORD_FLAG_DELETE U) seq" "ids seq = P @ ns" "pp_tr1 st = None"
  shows "pp_loop U (hd_opt ns) st seq = Some (Inr seq)"
  using assms(2,3)
proof (induction ns arbitrary: P st)
  case Nil
  then show ?case by (simp add: pp_loop.simps)
next
  case (Cons n ns)
  have ok: "nodes_ok seq" using assms(1) by (simp add: reg_trace_def)
  let ?i = "length P"
  have l: "?i < length (is_nodes seq)" using arg_cong [OF Cons.prems(1), of length] by (simp add: ids_def)
  have "ids seq ! ?i = n" using Cons.prems(1) by (simp add: nth_append)
  then obtain tr where tr: "rec_at seq n = Some tr" "snd (is_nodes seq ! ?i) = tr"
    using rec_at_nth [OF ok l] by auto
  have r: "reg_record U (RECORD_FLAG_DELETE U) tr"
    using assms(1) nth_mem [OF l] tr(2) by (auto simp: reg_trace_def list_all_iff)
  have d: "distinct (P @ n # ns)" using ok Cons.prems(1) by (simp add: nodes_ok_def ids_def)
  then have nx: "rec_next seq n = hd_opt ns"
    using succ_in_split [OF d] Cons.prems(1) by (simp add: rec_next_def ids_def)
  have IH: "pp_loop U (hd_opt ns) st' seq = Some (Inr seq)" if "pp_tr1 st' = None" for st'
    using Cons.IH [of "P @ [n]" st'] that Cons.prems(1) by simp
  have scan: "pp_scan U n tr st = None \<or> (\<exists>st'. pp_scan U n tr st = Some st' \<and> pp_tr1 st' = None)"
    if "\<not> has (tx_flags tr) (RECORD_FLAG_DELETE U)"
    using that r reg_not_pushpop Cons.prems(2)
    by (auto simp: reg_record_def pp_scan_def Let_def split: option.splits)
  note unroll = pp_loop.simps [of U "Some n" st seq]
  show ?case
  proof (cases "has (tx_flags tr) (RECORD_FLAG_DELETE U)")
    case True
    then show ?thesis using IH [OF Cons.prems(2)] tr(1) nx by (simp add: unroll)
  next
    case False
    then have "1 \<le> ui_len (decode_rec U tr)" using r by (simp add: reg_record_def)
    moreover have "pp_tr1 (forget st) = None" by (simp add: forget_def)
    ultimately show ?thesis using scan [OF False] IH tr(1) nx False by (auto simp: unroll)
  qed
qed

lemma pushpop_idle:
  assumes "reg_trace U (RECORD_FLAG_DELETE U) seq"
  shows "doDeobfuscateTempPushPop U seq = Inr (0, seq)"
proof -
  have "rec_first seq = hd_opt (ids seq)" by (cases "is_nodes seq") (simp_all add: rec_first_def ids_def)
  then show ?thesis using pp_loop_idle [OF assms, of "[]" "ids seq"]
    by (simp add: doDeobfuscateTempPushPop_def)
qed

lemma dob_once_simplifies:
  assumes lib: "operands_ok U" "builder_ok U" "roundtrip_ok U" and d: "RECORD_FLAG_DELETE U \<noteq> 0"
    and ok: "reg_trace U (RECORD_FLAG_DELETE U) seq"
  shows "\<exists>n seq'. dob_once U seq = Inr (n, seq') \<and> reg_trace U (RECORD_FLAG_DELETE U) seq' \<and> 0 \<le> n
    \<and> (\<forall>st. run (trace_insns U (RECORD_FLAG_DELETE U) seq') st = run (trace_insns U (RECORD_FLAG_DELETE U) seq) st)
    \<and> int (length (trace_insns U (RECORD_FLAG_DELETE U) seq')) + n
        \<le> int (length (trace_insns U (RECORD_FLAG_DELETE U) seq))"
proof -
  let ?m = "RECORD_FLAG_DELETE U" and ?del = "\<lambda>s. snd (deleteFlagedInSeq (RECORD_FLAG_DELETE U) s)"
  obtain n seq1 where n: "doDeobfuscateNormal U seq False = Inr (n, seq1)" "simplified U ?m seq n seq1"
    using doDeobfuscateNormal_simplifies [OF lib _ d ok, of False] by auto
  then have s1: "reg_trace U ?m seq1" by (simp add: simplified_def)
  note d1 = delete_keeps_insns [OF s1]
  note d2 = delete_keeps_insns [OF d1(1)]
  have "dob_once U seq = Inr (n, ?del (?del seq1))"
    using n(1) pushpop_idle [OF d1(1)]
    by (simp add: dob_once_def dobCurrentSequenceNormal_def dobCurrentSequencePushPop_def)
  then show ?thesis using n(2) d1 d2 by (simp add: simplified_def)
qed

lemma dob_loop_ends:
  assumes lib: "operands_ok U" "builder_ok U" "roundtrip_ok U" and d: "RECORD_FLAG_DELETE U \<noteq> 0"
    and ok: "reg_trace U (RECORD_FLAG_DELETE U) seq"
  shows "\<exists>n seq'. dob_loop U nr seq = Some (Inr (n, seq')) \<and> reg_trace U (RECORD_FLAG_DELETE U) seq'
    \<and> (\<forall>st. run (trace_insns U (RECORD_FLAG_DELETE U) seq') st = run (trace_insns U (RECORD_FLAG_DELETE U) seq) st)
    \<and> int (length (trace_insns U (RECORD_FLAG_DELETE U) seq')) + n
        \<le> int (length (trace_insns U (RECORD_FLAG_DELETE U) seq)) + nr"
  using ok
proof (induction "length (trace_insns U (RECORD_FLAG_DELETE U) seq)" arbitrary: seq nr rule: less_induct)
  case less
  obtain n seq1 where n: "dob_once U seq = Inr (n, seq1)" "reg_trace U (RECORD_FLAG_DELETE U) seq1" "0 \<le> n"
      "\<forall>st. run (trace_insns U (RECORD_FLAG_DELETE U) seq1) st = run (trace_insns U (RECORD_FLAG_DELETE U) seq) st"
      "int (length (trace_insns U (RECORD_FLAG_DELETE U) seq1)) + n
        \<le> int (length (trace_insns U (RECORD_FLAG_DELETE U) seq))"
    using dob_once_simplifies [OF lib d less.prems] by blast
  show ?case
  proof (cases "n < 1")
    case True
    then show ?thesis using n by (simp add: dob_loop.simps [of U nr seq])
  next
    case False
    then have "length (trace_insns U (RECORD_FLAG_DELETE U) seq1) < length (trace_insns U (RECORD_FLAG_DELETE U) seq)"
      using n(5) by simp
    from less.hyps [OF this n(2), of "nr + n"] False n show ?thesis
      by (auto simp: dob_loop.simps [of U nr seq])
  qed
qed

end
