(* ===== verification/PeepSamples.thy ===== *)
theory PeepSamples
  imports Samples PeepTrace
begin

text \<open>
  A disassembler and assembler of register instructions that decode what they encode, and traces in
  their code, at which the properties of the peephole pass are applied.
\<close>

section \<open>Encoding\<close>

definition word_of_le :: "byte list \<Rightarrow> 32 word" where
  "word_of_le bs = ucast (bs ! 0) OR push_bit 8 (ucast (bs ! 1)) OR push_bit 16 (ucast (bs ! 2))
     OR push_bit 24 (ucast (bs ! 3))"

lemma word_of_le_bytes: "word_of_le (le_bytes w) = w"
proof (rule bit_eqI)
  fix n assume "possible_bit TYPE(32 word) n"
  then have "n < 32" by simp
  then obtain i j where ij: "i < 4" "j < 8" "n = 8 * i + j" using less_32_cases by blast
  then consider "i = 0" | "i = 1" | "i = 2" | "i = 3" by linarith
  then show "bit (word_of_le (le_bytes w)) n = bit w n"
    using ij by cases
      (auto simp: word_of_le_def le_bytes_def bit_or_iff bit_push_bit_iff bit_ucast_iff bit_drop_bit_eq
        dest: bit_imp_le_length)
qed

text \<open>The mnemonics that have a code.\<close>

definition reg_mnemonics :: "ud_mnemonic list" where
  "reg_mnemonics =
     [UD_Imov, UD_Iadd, UD_Isub, UD_Ixor, UD_Iand, UD_Ior, UD_Inot, UD_Ineg, UD_Iinc, UD_Idec, UD_Ibswap,
      UD_Ixchg, UD_Ilea]"

fun index_of :: "'a list \<Rightarrow> 'a \<Rightarrow> nat" where
  "index_of [] x = 0"
| "index_of (y # ys) x = (if x = y then 0 else Suc (index_of ys x))"

definition enc_op :: "ud_operand option \<Rightarrow> byte list" where
  "enc_op p =
     (case p of None \<Rightarrow> []
      | Some op \<Rightarrow> word_of_int (uo_type op) # word_of_int (uo_base op) # le_bytes (ucast (uo_lval op)))"

definition dec_op :: "byte list \<Rightarrow> ud_operand option" where
  "dec_op bs =
     (if length bs < 6 then None else Some (mini_uop (uint (bs ! 0)) (uint (bs ! 1)) (ucast (word_of_le (drop 2 bs)))))"

definition reg_encode :: "ud_insn \<Rightarrow> int \<times> byte list" where
  "reg_encode ud =
     (let bs = word_of_nat (index_of reg_mnemonics (ui_mnemonic ud))
            # enc_op (ui_opr ud 0) @ (if is_unary (ui_mnemonic ud) then [] else enc_op (ui_opr ud 1))
      in (int (length bs), bs))"

definition reg_decode :: "byte list \<Rightarrow> ud_insn" where
  "reg_decode bs =
     (let k = (case bs of [] \<Rightarrow> 255 | b # _ \<Rightarrow> unat b)
      in \<lparr>ui_len = 1, ui_mnemonic = (if k < length reg_mnemonics then reg_mnemonics ! k else UD_Iother 0),
          ui_opr = (\<lambda>i. if i = 0 then dec_op (take 6 (drop 1 bs)) else if i = 1 then dec_op (take 6 (drop 7 bs)) else None),
          ui_opr_mode = 32\<rparr>)"

definition mini_regs :: ud_env where
  "mini_regs = mini_ud\<lparr>ud_decode := (\<lambda>bs a. reg_decode bs), udex_to_bc := reg_encode\<rparr>"

section \<open>The laws hold\<close>

lemma mini_regs_operands: "operands_ok mini_regs"
  by (simp add: operands_ok_def mini_regs_def mini_ud_def mini_same_def mini_is_imm_def mini_esp_mem_def
      split: option.splits)

lemma mini_regs_builder: "builder_ok mini_regs"
proof -
  have "\<exists>q. (f :: nat \<Rightarrow> ud_operand option)(i := Some (mini_uop t r v)) = f(i := Some q) \<and> uo_type q = t
      \<and> (t = 2 \<or> t = 4 \<longrightarrow> (ucast (uo_lval q) :: 32 word) = ucast v)
      \<and> (t = 4 \<longrightarrow> uo_base q = r \<and> uo_index q = 0 \<and> uo_scale q = 0)" for f i t r v
    by (rule exI [of _ "mini_uop t r v"]) (simp add: mini_uop_def)
  then show ?thesis by (simp add: builder_ok_def mini_regs_def mini_ud_def)
qed

text \<open>An operand as it comes back from its code.\<close>

definition coded :: "ud_operand \<Rightarrow> ud_operand" where
  "coded op = mini_uop (uo_type op) (take_bit 8 (uo_base op)) (ucast (ucast (uo_lval op) :: 32 word))"

lemma dec_enc: "uo_type op \<in> {1, 2, 4} \<Longrightarrow> dec_op (enc_op (Some op)) = Some (coded op)"
  by (auto simp: dec_op_def enc_op_def coded_def word_of_le_bytes unsigned_of_int take_bit_int_eq_self)

lemma enc_length: "length (enc_op (Some op)) = 6"
  by (simp add: enc_op_def)

lemma mini_regs_sel [simp]:
  "UD_OP_REG mini_regs = 1" "UD_OP_IMM mini_regs = 2" "UD_OP_MEM mini_regs = 4" "UD_R_ESP mini_regs = 5"
  "UD_NONE mini_regs = 0" "ud_decode mini_regs bs a = reg_decode bs" "udex_to_bc mini_regs = reg_encode"
  by (simp_all add: mini_regs_def mini_ud_def)

lemma coded_views:
  "reg32 mini_regs op = Some r \<Longrightarrow> reg32 mini_regs (coded op) = Some r"
  "src32 mini_regs op = Some x \<Longrightarrow> src32 mini_regs (coded op) = Some x"
  "mem32 mini_regs op = Some d \<Longrightarrow> mem32 mini_regs (coded op) = Some d"
  by (auto simp: reg32_def src32_def mem32_def coded_def mini_uop_def take_bit_int_eq_self
      split: if_splits)

lemma view_types:
  "reg32 mini_regs op = Some r \<Longrightarrow> uo_type op \<in> {1, 2, 4}"
  "src32 mini_regs op = Some x \<Longrightarrow> uo_type op \<in> {1, 2, 4}"
  "mem32 mini_regs op = Some d \<Longrightarrow> uo_type op \<in> {1, 2, 4}"
  by (auto simp: reg32_def src32_def mem32_def split: if_splits)

lemma index_of_nth: "x \<in> set xs \<Longrightarrow> index_of xs x < length xs \<and> xs ! index_of xs x = x"
  by (induction xs) auto

lemma reg_decode_encode:
  assumes "ui_mnemonic ud \<in> set reg_mnemonics" "ui_opr ud 0 = Some o0" "uo_type o0 \<in> {1, 2, 4}"
  shows "ui_mnemonic (reg_decode (snd (reg_encode ud))) = ui_mnemonic ud"
    "ui_opr (reg_decode (snd (reg_encode ud))) 0 = Some (coded o0)"
    "\<not> is_unary (ui_mnemonic ud) \<Longrightarrow> ui_opr ud 1 = Some o1 \<Longrightarrow> uo_type o1 \<in> {1, 2, 4}
      \<Longrightarrow> ui_opr (reg_decode (snd (reg_encode ud))) 1 = Some (coded o1)"
proof -
  let ?k = "index_of reg_mnemonics (ui_mnemonic ud)"
  have k: "?k < length reg_mnemonics" "reg_mnemonics ! ?k = ui_mnemonic ud"
    using index_of_nth [OF assms(1)] by simp_all
  have "?k < 2 ^ 8" using k(1) by (simp add: reg_mnemonics_def)
  then have u: "unat (word_of_nat ?k :: byte) = ?k" by (simp add: unat_of_nat take_bit_nat_eq_self)
  show "ui_mnemonic (reg_decode (snd (reg_encode ud))) = ui_mnemonic ud"
    using k u by (simp add: reg_decode_def reg_encode_def Let_def)
  show "ui_opr (reg_decode (snd (reg_encode ud))) 0 = Some (coded o0)"
    using assms(2) dec_enc [OF assms(3)] enc_length [of o0]
    by (simp add: reg_decode_def reg_encode_def Let_def)
  show "ui_opr (reg_decode (snd (reg_encode ud))) 1 = Some (coded o1)"
    if "\<not> is_unary (ui_mnemonic ud)" "ui_opr ud 1 = Some o1" "uo_type o1 \<in> {1, 2, 4}"
    using that assms(2) dec_enc [OF that(3)] enc_length [of o0] enc_length [of o1]
    by (simp add: reg_decode_def reg_encode_def Let_def)
qed

lemma wf_mnemonics: "wf_insn x \<Longrightarrow> mn_of x \<in> set reg_mnemonics"
  by (cases x) (auto simp: wf_insn_def is_unary_def is_bin_def reg_mnemonics_def)

lemma reg_roundtrip:
  assumes "rinsn_of mini_regs ud = Some x"
  shows "rinsn_of mini_regs (reg_decode (snd (reg_encode ud))) = Some x"
proof -
  note m = rinsn_of_mn [OF assms] and s = rinsn_of_second [OF assms]
  obtain o0 where o0: "ui_opr ud 0 = Some o0" "reg32 mini_regs o0 = Some (dst x)"
    using m by (auto simp: is_iff)
  have mem: "ui_mnemonic ud \<in> set reg_mnemonics" using m wf_mnemonics [of x] by simp
  note d = reg_decode_encode [OF mem o0(1) view_types(1) [OF o0(2)]]
  have first: "is_reg mini_regs (ui_opr (reg_decode (snd (reg_encode ud))) 0) (dst x)"
    using d(2) coded_views(1) [OF o0(2)] by (simp add: is_iff)
  have second: "\<not> is_unary (mn_of x) \<Longrightarrow> second_ok mini_regs (ui_opr (reg_decode (snd (reg_encode ud))) 1) x"
  proof (cases x)
    case (Op2 k r y)
    then obtain o1 where o1: "ui_opr ud 1 = Some o1" "src32 mini_regs o1 = Some y"
      using s by (auto simp: second_ok_def is_iff)
    moreover assume "\<not> is_unary (mn_of x)"
    ultimately show ?thesis
      using d(3) [OF _ o1(1) view_types(2) [OF o1(2)]] m coded_views(2) [OF o1(2)] Op2
      by (simp add: second_ok_def is_iff)
  next
    case (Xchg a b)
    then obtain o1 where o1: "ui_opr ud 1 = Some o1" "reg32 mini_regs o1 = Some b"
      using s by (auto simp: second_ok_def is_iff)
    then show ?thesis
      using d(3) [OF _ o1(1) view_types(1) [OF o1(2)]] m coded_views(1) [OF o1(2)] Xchg
      by (simp add: second_ok_def is_iff is_unary_def)
  next
    case (Lea r b k)
    then obtain o1 where o1: "ui_opr ud 1 = Some o1" "mem32 mini_regs o1 = Some (b, k)"
      using s by (auto simp: second_ok_def is_iff)
    then show ?thesis
      using d(3) [OF _ o1(1) view_types(3) [OF o1(2)]] m coded_views(3) [OF o1(2)] Lea
      by (simp add: second_ok_def is_iff is_unary_def)
  qed (simp add: second_ok_def)
  show ?thesis
    using m d(1) first second
    by (cases x) (auto simp: rinsn_of_simps second_ok_def wf_insn_def is_unary_def is_bin_def)
qed

lemma mini_regs_roundtrip: "roundtrip_ok mini_regs"
proof -
  have "uo_size op = 32" if "ui_opr (reg_decode bs) 1 = Some op" for bs op
    using that by (auto simp: reg_decode_def Let_def dec_op_def mini_uop_def split: if_splits)
  moreover have "ui_len (reg_decode bs) = 1" for bs by (simp add: reg_decode_def Let_def)
  moreover have "fst (reg_encode ud) = int (length (snd (reg_encode ud)))" for ud
    by (simp add: reg_encode_def Let_def)
  ultimately show ?thesis using reg_roundtrip
    by (auto simp: roundtrip_ok_def Let_def case_prod_beta)
qed

section \<open>Traces\<close>

text \<open>
  \<open>mov r1, 5; sub r1, 2; xor r2, r3; xor r3, r2; xor r2, r3\<close>: a constant in two steps and an exchange in
  three.
\<close>

definition reg_insn :: "ud_mnemonic \<Rightarrow> ud_operand list \<Rightarrow> ud_insn" where
  "reg_insn m ps =
     \<lparr>ui_len = 1, ui_mnemonic = m, ui_opr = (\<lambda>i. if i < length ps then Some (ps ! i) else None), ui_opr_mode = 32\<rparr>"

abbreviation "opd_reg r \<equiv> mini_uop 1 r 0"
abbreviation "opd_imm v \<equiv> mini_uop 2 0 v"

definition reg_rec :: "addr \<Rightarrow> ud_insn \<Rightarrow> TraceRecordEx" where
  "reg_rec a ud =
     (let tr = mini_rec a 0 0x1000 0x1000; (n, bs) = reg_encode ud
      in tr\<lparr>tx_ctx1 := (tx_ctx1 tr)\<lparr>tr_szOP := n, tr_opcode := bs\<rparr>\<rparr>)"

definition mini_junk :: InstSequence where
  "mini_junk = \<lparr>is_nodes =
     [(0, reg_rec 0x401000 (reg_insn UD_Imov [opd_reg 1, opd_imm 5])), (1, reg_rec 0x401005 (reg_insn UD_Isub [opd_reg 1, opd_imm 2])),
      (2, reg_rec 0x40100A (reg_insn UD_Ixor [opd_reg 2, opd_reg 3])), (3, reg_rec 0x40100C (reg_insn UD_Ixor [opd_reg 3, opd_reg 2])),
      (4, reg_rec 0x40100E (reg_insn UD_Ixor [opd_reg 2, opd_reg 3]))], is_fresh = 5\<rparr>"

lemma mini_junk_trace: "reg_trace mini_regs (RECORD_FLAG_DELETE mini_regs) mini_junk"
  by code_simp

lemma mini_junk_insns: "trace_insns mini_regs (RECORD_FLAG_DELETE mini_regs) mini_junk =
  [Op2 UD_Imov 1 (Imm 5), Op2 UD_Isub 1 (Imm 2), Op2 UD_Ixor 2 (Reg 3), Op2 UD_Ixor 3 (Reg 2), Op2 UD_Ixor 2 (Reg 3)]"
  by code_simp

lemma mini_junk_run:
  "run (trace_insns mini_regs (RECORD_FLAG_DELETE mini_regs) mini_junk) st = st(1 := 3, 2 := st 3, 3 := st 2)"
  unfolding mini_junk_insns by (auto simp: run_def fun_eq_iff xor.assoc xor.left_commute xor.commute)

text \<open>\<open>mov r1, 5; mov r1, r1\<close>.\<close>

definition mini_self :: window where
  "mini_self =
     [(0, reg_rec 0x401000 (reg_insn UD_Imov [opd_reg 1, opd_imm 5]), reg_insn UD_Imov [opd_reg 1, opd_imm 5]),
      (1, reg_rec 0x401005 (reg_insn UD_Imov [opd_reg 1, opd_reg 1]), reg_insn UD_Imov [opd_reg 1, opd_reg 1])]"

lemmas mini_regs_laws = mini_regs_operands mini_regs_builder mini_regs_roundtrip

end
