(* ===== verification/StraightLine.thy ===== *)
theory StraightLine
  imports MatcherFacts PatternEngine
begin

text \<open>
  Patterns without repetition: every statement is an instruction that stands once. For these the state machine
  of positions, counters and look-ahead is a plain list comparison: a pattern accepts exactly the
  instruction sequences that match its statements one by one under one table of variables.
\<close>

section \<open>The specification\<close>

text \<open>An instruction with what is known of its effect on the stack pointer and the flags.\<close>

type_synonym input = "x86inst \<times> bool \<times> bool"

definition guard_code :: "patternInst \<Rightarrow> input \<Rightarrow> int" where
  "guard_code pi x =
     (case x of (ins, esp, efl) \<Rightarrow>
        if has (pi_flags pi) PATTERN_FLAG_NOESPCHANGE \<and> esp then -2
        else if has (pi_flags pi) PATTERN_FLAG_NOEFLAGSCHG \<and> efl then -3
        else if has (pi_flags pi) PATTERN_CFLAG_16BIT \<and> xi_size ins \<noteq> 0 then -4
        else if has (pi_flags pi) PATTERN_CFLAG_32BIT \<and> xi_size ins \<noteq> 1 then -4
        else if has (pi_flags pi) PATTERN_CFLAG_64BIT \<and> xi_size ins \<noteq> 2 then -4
        else 0)"

definition stmt_match :: "x86_env \<Rightarrow> patternInst \<Rightarrow> input \<Rightarrow> seqRuntime \<Rightarrow> (int, seqRuntime) outcome" where
  "stmt_match E pi x c =
     (if guard_code pi x < 0 then Inr (guard_code pi x, c\<lparr>crt_nvars := []\<rparr>)
      else bindS (loopS (matchAlternative E (fst x)) (pi_insts pi) (c\<lparr>crt_nvars := []\<rparr>))
             (\<lambda>r c'. Inr (if r = Some True then 1 else -1, c')))"

text \<open>The codes are those of a step: 1 complete, 0 undecided, -2 failed.\<close>

fun match_all :: "x86_env \<Rightarrow> patternInst list \<Rightarrow> input list \<Rightarrow> seqRuntime \<Rightarrow> (int, seqRuntime) outcome" where
  "match_all E [] xs c = Inr (1, c)"
| "match_all E (pi # pis) [] c = Inr (0, c)"
| "match_all E (pi # pis) (x # xs) c =
     bindS (stmt_match E pi x c) (\<lambda>st c'. if 0 \<le> st then match_all E pis xs c' else Inr (-2, c'))"

section \<open>The implementation\<close>

fun feed :: "x86_env \<Rightarrow> patternSequence \<Rightarrow> input list \<Rightarrow> (int, patternSequence) outcome" where
  "feed E s [] = Inr (0, s)"
| "feed E s (x # xs) =
     bindS (testForSequence E s (fst x) (fst (snd x)) (snd (snd x)) None)
       (\<lambda>st s'. if st = 0 then feed E s' xs else Inr (st, s'))"

definition straight_stmt :: "patternInst \<Rightarrow> bool" where
  "straight_stmt pi \<longleftrightarrow> pi_type pi = pattern_inst_instruction \<and> pi_minc pi = 1 \<and> pi_maxc pi = 1"

section \<open>The matcher does not look at the position\<close>

definition repos :: "nat option \<Rightarrow> int \<Rightarrow> seqRuntime \<Rightarrow> seqRuntime" where
  "repos p k c = c\<lparr>crt_inst := p, crt_count := k\<rparr>"

lemma repos_simps [simp]:
  "crt_vars (repos p k c) = crt_vars c" "crt_opvars (repos p k c) = crt_opvars c"
  "crt_nvars (repos p k c) = crt_nvars c"
  "(repos p k c)\<lparr>crt_nvars := n\<rparr> = repos p k (c\<lparr>crt_nvars := n\<rparr>)"
  "(repos p k c)\<lparr>crt_opvars := ov\<rparr> = repos p k (c\<lparr>crt_opvars := ov\<rparr>)"
  "set_var (repos p k c) i v = repos p k (set_var c i v)"
  "repos p k (repos q l c) = repos p k c"
  by (simp_all add: repos_def set_var_def)

lemma repos_eqD:
  assumes "repos p k c = repos p k d"
  shows "crt_vars c = crt_vars d" "crt_opvars c = crt_opvars d"
  using arg_cong [where f = crt_vars, OF assms] arg_cong [where f = crt_opvars, OF assms] by simp_all

lemma repos_add [simp]: "add_var (repos p k c) i v = map_out (repos p k) (add_var c i v)"
  by (simp add: add_var_def note_var_def)

lemma repos_resolve [simp]: "resolveVar (repos p k c) op pop = resolveVar c op pop"
  by (simp add: resolveVar_def chaseF_def cong: if_cong option.case_cong)

lemma repos_check: "checkAndSaveVar E (repos p k c) pop ins iop = map_out (repos p k) (checkAndSaveVar E c pop ins iop)"
  by (simp add: checkAndSaveVar_def checkAndSaveVar_reg_def checkAndSaveVar_imm_def checkAndSaveVar_mem_def
      Let_def cong: if_cong option.case_cong split: option.split sum.split)

lemma repos_save_noted: "save_noted E (repos p k c) i f = map_out (repos p k) (save_noted E c i f)"
  by (simp add: save_noted_def split: option.split)

lemma repos_save_unnoted: "save_unnoted E (repos p k c) i f = repos p k (save_unnoted E c i f)"
  by (simp add: save_unnoted_def)

lemma repos_save:
  "saveMemoryExprVar E (repos p k c) pop ins iop = map_out (repos p k) (saveMemoryExprVar E c pop ins iop)"
  by (simp add: saveMemoryExprVar_def Let_def repos_save_noted repos_save_unnoted cong: if_cong
      split: option.split sum.split)
    (auto intro!: bindS_cong split: sum.split)

lemma repos_size: "matchSizeVar E (repos p k c) i z = map_out (repos p k) (matchSizeVar E c i z)"
  by (simp add: matchSizeVar_def Let_def split: option.split)

lemma repos_type:
  "matchByType E (repos p k c) ib pop v iop x ins = map_out (repos p k) (matchByType E c ib pop v iop x ins)"
  by (cases "po_type pop") (simp_all add: matchByType_def zero_if_def repos_check repos_save cong: if_cong)

lemma repos_operand:
  "isMatchInstOperand E (repos p k c) ib pop v iop x ins
    = map_out (repos p k) (isMatchInstOperand E c ib pop v iop x ins)"
  by (simp add: isMatchInstOperand_def repos_size repos_type cong: if_cong)

lemma loopS_map_out:
  assumes "\<And>x s. f x (g s) = map_out g (f x s)"
  shows "loopS f xs (g s) = map_out g (loopS f xs s)"
  by (induction xs arbitrary: s) (auto simp: assms intro!: bindS_cong split: option.split)

lemma repos_in_all: "matchInAll E ib pop i ins (repos p k c) = map_out (repos p k) (matchInAll E ib pop i ins c)"
  unfolding matchInAll_def by (rule loopS_map_out) (simp add: repos_operand Let_def cong: if_cong)

lemma repos_body_operand:
  "matchBodyOperand E ib ins i (repos p k c) = map_out (repos p k) (matchBodyOperand E ib ins i c)"
  by (simp add: matchBodyOperand_def Let_def repos_in_all repos_operand cong: if_cong)

lemma repos_body_operands:
  "loopS (matchBodyOperand E ib ins) is (repos p k c) = map_out (repos p k) (loopS (matchBodyOperand E ib ins) is c)"
  by (rule loopS_map_out) (rule repos_body_operand)

lemma repos_body: "isMatchInstBody E (repos p k c) ib ins = map_out (repos p k) (isMatchInstBody E c ib ins)"
  by (auto simp: isMatchInstBody_def repos_body_operands intro!: bindS_cong split: option.split)

lemma repos_mnemonic: "matchMnemonicVar E (repos p k c) ib ins = map_out (repos p k) (matchMnemonicVar E c ib ins)"
  by (simp add: matchMnemonicVar_def Let_def split: option.split)

lemma repos_alternative:
  "matchAlternative E ins ib (repos p k c) = map_out (repos p k) (matchAlternative E ins ib c)"
  by (simp add: matchAlternative_def repos_size repos_body repos_mnemonic cong: if_cong)

lemma repos_alternatives:
  "loopS (matchAlternative E ins) ibs (repos p k c) = map_out (repos p k) (loopS (matchAlternative E ins) ibs c)"
  by (rule loopS_map_out) (rule repos_alternative)

lemma repos_stmt: "stmt_match E pi x (repos p k c) = map_out (repos p k) (stmt_match E pi x c)"
  by (simp add: stmt_match_def repos_alternatives)

section \<open>One step\<close>

lemma isMatchInst_stmt:
  "isMatchInst E s i ins esp efl = bindS (stmt_match E (ps_insts s ! i) (ins, esp, efl) (ps_crt s))
    (\<lambda>st c. Inr (st, if 0 \<le> st then upd_inst (s\<lparr>ps_crt := c\<rparr>) i counted else s\<lparr>ps_crt := c\<rparr>))"
proof -
  have tail: "bindS (on_crt (s\<lparr>ps_crt := d\<rparr>) m)
        (\<lambda>r s'. if r = Some True then Inr (1, upd_inst s' i counted) else Inr (-1, s'))
      = bindS (bindS m (\<lambda>r c'. Inr (if r = Some True then (1 :: int) else -1, c')))
          (\<lambda>st c. Inr (st, if 0 \<le> st then upd_inst (s\<lparr>ps_crt := c\<rparr>) i counted else s\<lparr>ps_crt := c\<rparr>))"
    for d m
    by (cases m) (auto simp: on_crt_def)
  show ?thesis
    unfolding isMatchInst_def stmt_match_def guard_code_def Let_def upd_crt_def counted_def [symmetric, abs_def]
    by (simp add: tail del: de_Morgan_conj)
qed

lemma upd_inst_at [simp]: "i < length (ps_insts s) \<Longrightarrow> ps_insts (upd_inst s i f) ! i = f (ps_insts s ! i)"
  by (simp add: upd_inst_def)

lemma ps_crt_upd_inst [simp]: "ps_crt (upd_inst s i f) = ps_crt s"
  by (simp add: upd_inst_def)

text \<open>A statement that stands once is left with its first match.\<close>

lemma testForInstruction_once:
  assumes i: "i < length (ps_insts s)" and pi: "straight_stmt (ps_insts s ! i)"
    and zero: "pi_matched_count (ps_insts s ! i) = 0"
  shows "testForInstruction E s i ins esp efl ud
    = bindS (stmt_match E (ps_insts s ! i) (ins, esp, efl) (ps_crt s)) (\<lambda>st c.
        if 0 \<le> st then Inr (0, upd_crt (upd_inst (upd_inst (s\<lparr>ps_crt := c\<rparr>) i counted) i
             (\<lambda>p. p\<lparr>pi_userdata := ud\<rparr>)) (\<lambda>c. c\<lparr>crt_inst := next_inst s i\<rparr>))
        else Inr (-2, s\<lparr>ps_crt := c\<rparr>))"
proof -
  have "pi_minc (ps_insts s ! i) = 1" "pi_maxc (ps_insts s ! i) = 1" using pi by (simp_all add: straight_stmt_def)
  then show ?thesis
    unfolding testForInstruction_def isMatchInst_stmt bindS_assoc Let_def
    using i zero
    by (intro bindS_cong refl) (auto simp: counted_def matched_step_def Let_def next_inst_def)
qed

definition advance :: "patternSequence \<Rightarrow> nat \<Rightarrow> nat option \<Rightarrow> seqRuntime \<Rightarrow> patternSequence" where
  "advance s i ud c = (upd_inst s i (\<lambda>p. (counted p)\<lparr>pi_userdata := ud\<rparr>))
     \<lparr>ps_crt := repos (next_inst s i) (crt_count (ps_crt s) + 1) c\<rparr>"

lemma straight_step:
  assumes i: "i < length (ps_insts s)" and at: "crt_inst (ps_crt s) = Some i"
    and pis: "\<forall>pi \<in> set (ps_insts s). straight_stmt pi" and zero: "pi_matched_count (ps_insts s ! i) = 0"
    and room: "crt_count (ps_crt s) < ps_maximumInst s"
  shows "testForSequence E s ins esp efl ud
    = bindS (stmt_match E (ps_insts s ! i) (ins, esp, efl) (ps_crt s)) (\<lambda>st c.
        if 0 \<le> st then Inr (if Suc i < length (ps_insts s) then 0 else 1, advance s i ud c)
        else Inr (-2, s\<lparr>ps_crt := repos (Some i) (crt_count (ps_crt s) + 1) c\<rparr>))"
proof -
  let ?k = "crt_count (ps_crt s) + 1" and ?pi = "ps_insts s ! i"
  have pi: "straight_stmt ?pi" using pis i by simp
  have kind: "pi_type (ps_insts s ! j) = pattern_inst_instruction" if "j < length (ps_insts s)" for j
    using pis that by (simp add: straight_stmt_def)
  have s1: "upd_crt s (\<lambda>c. c\<lparr>crt_count := ?k\<rparr>) = s\<lparr>ps_crt := repos (Some i) ?k (ps_crt s)\<rparr>"
    using at by (cases "ps_crt s") (simp add: upd_crt_def repos_def)
  let ?s = "s\<lparr>ps_crt := repos (Some i) ?k (ps_crt s)\<rparr>"
  have "testForSequence E s ins esp efl ud = testLoop E ins esp efl ud False (Some i) ?s"
    using room by (simp add: testForSequence_def Let_def s1) (simp add: repos_def)
  also have "\<dots> = bindS (testForInstruction E ?s i ins esp efl ud) (\<lambda>st t.
      if st < 0 then Inr (st, t)
      else case crt_inst (ps_crt t) of None \<Rightarrow> Inr (1, t)
        | Some j \<Rightarrow> if length (ps_insts t) \<le> j then Inl Null_deref
            else if pi_type (ps_insts t ! j) \<noteq> pattern_inst_instruction
            then testLoop E ins esp efl ud True (Some j) t else Inr (0, t))"
    using i kind [OF i] by (simp add: testLoop.simps(2))
  also have "testForInstruction E ?s i ins esp efl ud
      = bindS (stmt_match E ?pi (ins, esp, efl) (ps_crt s)) (\<lambda>st c.
          if 0 \<le> st then Inr (0, advance s i ud c)
          else Inr (-2, s\<lparr>ps_crt := repos (Some i) ?k c\<rparr>))"
  proof -
    have "testForInstruction E ?s i ins esp efl ud
      = bindS (stmt_match E ?pi (ins, esp, efl) (repos (Some i) ?k (ps_crt s))) (\<lambda>st c.
        if 0 \<le> st then Inr (0, upd_crt (upd_inst (upd_inst (?s\<lparr>ps_crt := c\<rparr>) i counted) i
             (\<lambda>p. p\<lparr>pi_userdata := ud\<rparr>)) (\<lambda>c. c\<lparr>crt_inst := next_inst ?s i\<rparr>))
        else Inr (-2, ?s\<lparr>ps_crt := c\<rparr>))"
      using testForInstruction_once [of i ?s E ins esp efl ud] i pi zero by simp
    also have "\<dots> = bindS (stmt_match E ?pi (ins, esp, efl) (ps_crt s)) (\<lambda>st c.
          if 0 \<le> st then Inr (0, advance s i ud c)
          else Inr (-2, s\<lparr>ps_crt := repos (Some i) ?k c\<rparr>))"
      unfolding repos_stmt bindS_map_out using i
      by (intro bindS_cong refl) (simp add: advance_def upd_inst_def upd_crt_def repos_def next_inst_def)
    finally show ?thesis .
  qed
  finally show ?thesis
    unfolding bindS_assoc using i kind
    by (simp only:) (intro bindS_cong refl, auto simp: advance_def repos_def next_inst_def upd_inst_def
        nth_list_update counted_def)
qed

section \<open>A whole run\<close>

lemma repos_match_all: "match_all E pis xs (repos p k c) = map_out (repos p k) (match_all E pis xs c)"
  by (induction E pis xs c rule: match_all.induct) (auto simp: repos_stmt intro!: bindS_cong)

lemma feed_match_all:
  assumes "i < length (ps_insts s)" "crt_inst (ps_crt s) = Some i"
    and "\<forall>pi \<in> set (ps_insts s). straight_stmt pi"
    and "\<forall>pi \<in> set (drop i (ps_insts s)). pi_matched_count pi = 0"
    and "crt_count (ps_crt s) + int (length (ps_insts s) - i) \<le> ps_maximumInst s"
  shows "bindS (feed E s xs) (\<lambda>st s'. Inr (st, repos None 0 (ps_crt s')))
    = map_out (repos None 0) (match_all E (drop i (ps_insts s)) xs (ps_crt s))"
  using assms
proof (induction xs arbitrary: s i)
  case Nil
  then show ?case by (simp add: Cons_nth_drop_Suc [symmetric])
next
  case (Cons x xs)
  let ?pi = "ps_insts s ! i"
  have d: "drop i (ps_insts s) = ?pi # drop (Suc i) (ps_insts s)"
    using Cons.prems(1) by (simp add: Cons_nth_drop_Suc)
  have zero: "pi_matched_count ?pi = 0" using Cons.prems(4) d by simp
  have room: "crt_count (ps_crt s) < ps_maximumInst s" using Cons.prems(1,5) by simp
  have rest: "bindS (feed E (advance s i None c) xs) (\<lambda>st s'. Inr (st, repos None 0 (ps_crt s')))
      = map_out (repos None 0) (match_all E (drop (Suc i) (ps_insts s)) xs c)"
    if "Suc i < length (ps_insts s)" for c
  proof -
    let ?a = "advance s i None c"
    have a: "ps_insts ?a = (ps_insts s)[i := (counted ?pi)\<lparr>pi_userdata := None\<rparr>]"
        "ps_crt ?a = repos (Some (Suc i)) (crt_count (ps_crt s) + 1) c" "ps_maximumInst ?a = ps_maximumInst s"
      using that by (simp_all add: advance_def upd_inst_def next_inst_def)
    have "straight_stmt ((counted ?pi)\<lparr>pi_userdata := None\<rparr>)"
      using Cons.prems(1,3) by (simp add: straight_stmt_def counted_def)
    then have st: "\<forall>pi \<in> set (ps_insts ?a). straight_stmt pi"
      using Cons.prems(3) a(1) set_update_subset_insert by (metis in_mono insertE)
    have "bindS (feed E ?a xs) (\<lambda>st s'. Inr (st, repos None 0 (ps_crt s')))
        = map_out (repos None 0) (match_all E (drop (Suc i) (ps_insts ?a)) xs (ps_crt ?a))"
      using Cons.prems(4,5) that a st d by (intro Cons.IH) (simp_all add: repos_def)
    also have "\<dots> = map_out (repos None 0) (match_all E (drop (Suc i) (ps_insts s)) xs c)"
      using a by (simp add: repos_match_all map_out_def bindS_assoc)
    finally show ?thesis .
  qed
  show ?case
    unfolding feed.simps straight_step [OF Cons.prems(1-3) zero room] d match_all.simps bindS_assoc map_out_def
  proof (intro bindS_cong, simp)
    fix st c
    show "bindS (if 0 \<le> st then Inr (if Suc i < length (ps_insts s) then 0 else 1, advance s i None c)
          else Inr (- 2, s\<lparr>ps_crt := repos (Some i) (crt_count (ps_crt s) + 1) c\<rparr>))
        (\<lambda>a sa. bindS (if a = 0 then feed E sa xs else Inr (a, sa)) (\<lambda>st s'. Inr (st, repos None 0 (ps_crt s'))))
      = bindS (if 0 \<le> st then match_all E (drop (Suc i) (ps_insts s)) xs c else Inr (- 2, c))
          (\<lambda>a s. Inr (a, repos None 0 s))"
      using rest [of c] by (auto simp: advance_def map_out_def)
  qed
qed

lemma match_all_reset: "match_all E (map reset_stmt pis) xs c = match_all E pis xs c"
proof (induction E pis xs c rule: match_all.induct)
  case (3 E pi pis x xs c)
  have "stmt_match E (reset_stmt pi) x c = stmt_match E pi x c"
    by (cases x) (simp add: stmt_match_def guard_code_def reset_stmt_def)
  then show ?case using 3 by (auto intro!: bindS_cong)
qed simp_all

text \<open>
  From the start of a match: the pattern completes, fails or is undecided as the list comparison says, with the
  same variables.
\<close>

lemma straight_line:
  assumes "ps_insts s \<noteq> []" "\<forall>pi \<in> set (ps_insts s). straight_stmt pi"
    and "int (length (ps_insts s)) \<le> ps_maximumInst s"
  shows "bindS (feed E (fresh s) xs) (\<lambda>st s'. Inr (st, repos None 0 (ps_crt s')))
    = map_out (repos None 0) (match_all E (ps_insts s) xs (ps_crt (fresh s)))"
proof -
  have "ps_insts (fresh s) = map reset_stmt (ps_insts s)" "crt_inst (ps_crt (fresh s)) = Some 0"
      "crt_count (ps_crt (fresh s)) = 0" "ps_maximumInst (fresh s) = ps_maximumInst s"
    using assms(1) by (simp_all add: fresh_def reset_counters_def start_seq_def)
  then show ?thesis
    using feed_match_all [of 0 "fresh s" E xs] assms by (simp add: straight_stmt_def match_all_reset)
      (simp add: reset_stmt_def)
qed

end
