(* ===== verification/IatData.thy ===== *)
theory IatData
  imports TraceCPU
begin

text \<open>
  The data of the import call window (\<open>xvmiatcallframe.h\<close>): what is known of an instruction that may call an
  import, the exports of the modules, the names that were resolved, and the state of the window. OllyDbg,
  the Windows API and \<open>xvmiatcall.h\<close> are not in the repository: the functions and constants used of them are
  in the record \<open>iat_env\<close>.
\<close>

section \<open>Calls\<close>

datatype IATCall_Type =
    iatcall_call | iatcall_jmp | iatcall_callmem | iatcall_jmpmem | iatcall_pushret | iatcall_memaddr
  | iatcall_other int32

datatype fixed_state = fixed_none | fixed_testmode | fixed_realmode | fixed_faild

text \<open>
  \<open>iatcall_info\<close> with its bases \<open>t_sorthdr\<close> (the first three) and \<open>iatcall_data\<close>. Of the array
  \<open>opcode\<close> the list holds the bytes that were put there last.
\<close>

record iatcall_info =
  ic_addr :: "32 word"
  ic_size :: "32 word"
  ic_type :: "32 word"
  ic_cmdaddr :: addr
  ic_callto :: addr
  ic_ophead :: byte
  ic_opsuffix :: byte
  ic_szop :: int
  ic_opcode :: "byte list"
  ic_calltype :: IATCall_Type
  ic_memoft :: int32
  ic_retaddr :: addr
  ic_hasHead :: bool
  ic_rtflags :: int32
  ic_modhash :: int32
  ic_funchash :: int32
  ic_result_addr :: addr
  ic_selected :: bool
  ic_fixedState :: fixed_state

text \<open>\<open>memset(&iatinfo, 0, sizeof(iatinfo))\<close>; the zero of the call type is overwritten before it is read.\<close>

definition zero_info :: iatcall_info where
  "zero_info =
     \<lparr>ic_addr = 0, ic_size = 0, ic_type = 0, ic_cmdaddr = 0, ic_callto = 0, ic_ophead = 0, ic_opsuffix = 0,
      ic_szop = 0, ic_opcode = [], ic_calltype = iatcall_other 0, ic_memoft = 0, ic_retaddr = 0,
      ic_hasHead = False, ic_rtflags = 0, ic_modhash = 0, ic_funchash = 0, ic_result_addr = 0,
      ic_selected = False, ic_fixedState = fixed_none\<rparr>"

section \<open>Exports and resolved names\<close>

text \<open>
  \<open>index_map\<close> is used through the interface of \<open>std::map\<close>: an association list in the order of the
  keys. \<open>insert\<close> leaves an entry that is there already.
\<close>

type_synonym ('k, 'v) index_map = "('k \<times> 'v) list"

fun im_insert :: "'k::linorder \<Rightarrow> 'v \<Rightarrow> ('k, 'v) index_map \<Rightarrow> ('k, 'v) index_map" where
  "im_insert k v [] = [(k, v)]"
| "im_insert k v (e # es) =
     (if k < fst e then (k, v) # e # es else if k = fst e then e # es else e # im_insert k v es)"

definition im_sorted :: "('k::linorder, 'v) index_map \<Rightarrow> bool" where
  "im_sorted m \<longleftrightarrow> sorted_wrt (<) (map fst m)"

record iatcall_api_cache =
  ia_addr :: addr
  ia_modBase :: addr
  ia_base :: "32 word"
  ia_hasName :: bool
  ia_name :: wstring

record iatcall_mod_cache =
  im_addrbase :: addr
  im_addrend :: addr
  im_apis :: "(addr, iatcall_api_cache) index_map"
  im_name :: wstring

type_synonym iatcall_cache = "(addr, iatcall_mod_cache) index_map"

text \<open>\<open>iat_module\<close> and \<open>iat_func\<close>, with the members the sources use. The pointer to the module is its hash.\<close>

record iat_func =
  fn_nameHash :: int32
  fn_name :: wstring
  fn_modHash :: int32
  fn_IATRVA :: addr

record iat_module =
  md_nameHash :: int32
  md_name :: wstring
  md_funcs :: "(int32, iat_func) index_map"

type_synonym iat_modules = "(int32, iat_module) index_map"

section \<open>Keyed lists\<close>

text \<open>
  \<open>NAvlList\<close>: \<open>find\<close>, \<open>[]\<close>, and a walk from the first element to the last. Where a new key is put is the library's
  affair: a parameter, given the key and the keys that are there.
\<close>

type_synonym 'v keyed = "(addr \<times> 'v) list"

text \<open>Writing an element through its pointer.\<close>

definition kl_upd :: "addr \<Rightarrow> 'v \<Rightarrow> 'v keyed \<Rightarrow> 'v keyed" where
  "kl_upd k v xs = map (\<lambda>(j, w). (j, if j = k then v else w)) xs"

definition kl_set :: "(addr \<Rightarrow> addr list \<Rightarrow> nat) \<Rightarrow> addr \<Rightarrow> 'v \<Rightarrow> 'v keyed \<Rightarrow> 'v keyed" where
  "kl_set place k v xs =
     (if k \<in> fst ` set xs then kl_upd k v xs
      else (let n = place k (map fst xs) in take n xs @ (k, v) # drop n xs))"

lemma kl_upd_fst [simp]: "map fst (kl_upd k v xs) = map fst xs"
  by (simp add: kl_upd_def comp_def case_prod_beta)

lemma map_of_kl_upd: "map_of (kl_upd k v xs) j = (if j = k \<and> k \<in> fst ` set xs then Some v else map_of xs j)"
proof (induction xs)
  case (Cons e es)
  obtain a b where e: "e = (a, b)" by (cases e)
  show ?case using Cons.IH unfolding e kl_upd_def
    by (cases "a = j"; cases "j = k") simp_all
qed (simp add: kl_upd_def)

lemma map_of_insert:
  assumes "k \<notin> fst ` set xs"
  shows "map_of (take n xs @ (k, v) # drop n xs) = (map_of xs)(k \<mapsto> v)"
proof -
  have "k \<notin> fst ` set (take n xs)" using assms by (auto dest: in_set_takeD)
  then have "map_of (take n xs) k = None" by (simp add: map_of_eq_None_iff)
  moreover have "map_of xs = map_of (drop n xs) ++ map_of (take n xs)"
    by (metis append_take_drop_id map_of_append)
  ultimately show ?thesis by (auto simp: fun_eq_iff map_add_def split: option.split)
qed

lemma map_of_kl_set [simp]: "map_of (kl_set place k v xs) = (map_of xs)(k \<mapsto> v)"
proof (cases "k \<in> fst ` set xs")
  case True
  then show ?thesis by (auto simp: kl_set_def map_of_kl_upd fun_eq_iff)
next
  case False
  then show ?thesis unfolding kl_set_def Let_def by (simp only: if_False map_of_insert [OF False])
qed

lemma set_kl_insert: "set (take n xs @ x # drop n xs) = insert x (set xs)"
  by (metis append_take_drop_id set_append list.simps(15) Un_insert_right)

lemma distinct_kl_set [simp]:
  assumes "distinct (map fst xs)"
  shows "distinct (map fst (kl_set place k v xs))"
proof (cases "k \<in> fst ` set xs")
  case False
  let ?n = "place k (map fst xs)"
  have d: "distinct (take ?n (map fst xs) @ drop ?n (map fst xs))" using assms by simp
  have k: "k \<notin> set (map fst xs)" using False by simp
  have "distinct (take ?n (map fst xs) @ k # drop ?n (map fst xs))"
    using d k in_set_takeD [of k ?n "map fst xs"] in_set_dropD [of k ?n "map fst xs"]
    unfolding distinct_append by auto
  then show ?thesis using False by (simp add: kl_set_def Let_def take_map drop_map)
qed (use assms in \<open>simp add: kl_set_def\<close>)

lemma kl_set_keys: "fst ` set (kl_set place k v xs) = insert k (fst ` set xs)"
proof (cases "k \<in> fst ` set xs")
  case True
  moreover have "fst ` set (kl_upd k v xs) = fst ` set xs"
    using arg_cong [OF kl_upd_fst [of k v xs], of set] by (simp only: set_map)
  ultimately show ?thesis by (simp add: kl_set_def insert_absorb)
next
  case False
  then show ?thesis by (simp add: kl_set_def Let_def set_kl_insert del: set_append)
qed

section \<open>What is used of OllyDbg and Windows\<close>

text \<open>A memory block and a module, with the members that are read.\<close>

record t_memory =
  mm_base :: addr
  mm_size :: "32 word"
  mm_owner :: addr

record t_module =
  tm_base :: addr
  tm_size :: "32 word"
  tm_path :: wstring
  tm_edatabase :: addr
  tm_edatasize :: "32 word"

text \<open>An operand of the disassembler: whether it is there, its constant, and whether registers form its address.\<close>

record t_operand =
  to_features :: bool
  to_opconst :: addr
  to_aregs :: bool

text \<open>
  Reads of the debuggee take the buffer and give the count with the buffer after the call; \<open>junk\<close> is what
  an uninitialised buffer holds. \<open>map_file\<close> is the content of the file of a module, if it can be mapped,
  after \<open>GetFullPathName\<close> and the directories of 32-bit processes; \<open>image_exports\<close> is the export entry of
  the optional header, \<open>type_code\<close> and \<open>code_type\<close> are the conversions between the enumeration and integers,
  \<open>rva_offset\<close> is \<open>RvaToOffset\<close>. \<open>vm_step\<close> is a step of the emulator, \<open>init_r3\<close> its start, with the
  argument if one is given.
\<close>

record 'v iat_env =
  iat_cpu :: "'v cpu_env"
  dbg_read :: "addr \<Rightarrow> byte list \<Rightarrow> int \<times> byte list"
  junk :: "nat \<Rightarrow> byte list"
  dbg_disasm :: "byte list \<Rightarrow> addr \<Rightarrow> int \<times> addr \<times> t_operand list"
  SZ_OPCODE :: nat
  type_code :: "IATCall_Type \<Rightarrow> int32"
  code_type :: "int32 \<Rightarrow> IATCall_Type"
  call_place :: "addr \<Rightarrow> addr list \<Rightarrow> nat"
  dbg_memory :: "addr \<Rightarrow> t_memory option"
  dbg_module :: "addr \<Rightarrow> t_module option"
  map_file :: "t_module \<Rightarrow> byte list option"
  image_exports :: "byte list \<Rightarrow> addr \<times> 32 word"
  rva_offset :: "byte list \<Rightarrow> addr \<Rightarrow> nat"
  to_wide :: "byte list \<Rightarrow> wstring"
  ordinal_name :: "32 word \<Rightarrow> wstring"
  nhash_name :: "wstring \<Rightarrow> int32"
  nhash_lower :: "wstring \<Rightarrow> int32"
  vm_step :: "'v xVMDebugCPU \<Rightarrow> vcpu_return \<times> 'v xVMDebugCPU"
  init_r3 :: "bool option \<Rightarrow> 'v xVMDebugCPU \<Rightarrow> 'v xVMDebugCPU"
  new_cpu :: "'v xVMDebugCPU"
  IATCALL_FLAG_TRACEFAILD :: int32
  IATCALL_FLAG_REACHLIMIT :: int32
  IATCALL_FLAG_SUSPECT :: int32
  IATCALL_FLAG_TRACEDOUT :: int32
  IATCALL_FLAG_MARKINVAILD :: int32
  IATCALL_FLAG_KEEPMARK_MASK :: int32

text \<open>Reading a pointer from the debuggee into a variable that holds \<open>old\<close>.\<close>

definition read_ptr :: "'v iat_env \<Rightarrow> addr \<Rightarrow> byte list \<Rightarrow> int \<times> addr" where
  "read_ptr I a old = (let (n, buf) = dbg_read I a old in (n, le_word buf))"

section \<open>The window\<close>

definition IATCF_FLAG_SHOWKNOWN :: int32 where "IATCF_FLAG_SHOWKNOWN = 0x1"
definition IATCF_FLAG_SHOWCALL :: int32 where "IATCF_FLAG_SHOWCALL = 0x2"
definition IATCF_FLAG_SHOWJMP :: int32 where "IATCF_FLAG_SHOWJMP = 0x4"
definition IATCF_FLAG_SHOWCALLMEM :: int32 where "IATCF_FLAG_SHOWCALLMEM = 0x8"
definition IATCF_FLAG_SHOWJMPMEM :: int32 where "IATCF_FLAG_SHOWJMPMEM = 0x10"
definition IATCF_FLAG_SHOWPUSHRET :: int32 where "IATCF_FLAG_SHOWPUSHRET = 0x20"
definition IATCF_FLAG_SHOWMEMADDR :: int32 where "IATCF_FLAG_SHOWMEMADDR = 0x40"
definition IATCF_FLAG_SHOWUNKNOWN :: int32 where "IATCF_FLAG_SHOWUNKNOWN = 0x80"
definition IATCF_FLAG_SHOWFAILD :: int32 where "IATCF_FLAG_SHOWFAILD = 0x100"
definition IATCF_FLAG_SHOWRTLIMIT :: int32 where "IATCF_FLAG_SHOWRTLIMIT = 0x200"
definition IATCF_FLAG_SHOWSUSPECT :: int32 where "IATCF_FLAG_SHOWSUSPECT = 0x400"

definition IATCF_FLAG_SHOWALL :: int32 where
  "IATCF_FLAG_SHOWALL =
     IATCF_FLAG_SHOWKNOWN OR IATCF_FLAG_SHOWCALL OR IATCF_FLAG_SHOWJMP OR IATCF_FLAG_SHOWCALLMEM
     OR IATCF_FLAG_SHOWJMPMEM OR IATCF_FLAG_SHOWPUSHRET OR IATCF_FLAG_SHOWMEMADDR OR IATCF_FLAG_SHOWUNKNOWN
     OR IATCF_FLAG_SHOWFAILD OR IATCF_FLAG_SHOWRTLIMIT OR IATCF_FLAG_SHOWSUSPECT"

lemmas show_flag_defs =
  IATCF_FLAG_SHOWKNOWN_def IATCF_FLAG_SHOWCALL_def IATCF_FLAG_SHOWJMP_def IATCF_FLAG_SHOWCALLMEM_def
  IATCF_FLAG_SHOWJMPMEM_def IATCF_FLAG_SHOWPUSHRET_def IATCF_FLAG_SHOWMEMADDR_def IATCF_FLAG_SHOWUNKNOWN_def
  IATCF_FLAG_SHOWFAILD_def IATCF_FLAG_SHOWRTLIMIT_def IATCF_FLAG_SHOWSUSPECT_def

text \<open>\<open>m_table\<close> is what the table shows: copies of the calls, in the order of their \<open>addr\<close>.\<close>

record 'v xVMIATCallFrame =
  m_calls :: "iatcall_info keyed"
  m_mods :: iat_modules
  m_cache :: iatcall_cache
  m_vcpu :: "'v xVMDebugCPU option"
  m_flushFlags :: int32
  m_mmaddrEnd :: addr
  m_table :: "iatcall_info list"
  m_lastsel :: int

definition new_iat_frame :: "'v xVMIATCallFrame" where
  "new_iat_frame =
     \<lparr>m_calls = [], m_mods = [], m_cache = [], m_vcpu = None, m_flushFlags = IATCF_FLAG_SHOWALL,
      m_mmaddrEnd = 0, m_table = [], m_lastsel = -1\<rparr>"

text \<open>Every call is filed under its own address, once.\<close>

definition calls_ok :: "iatcall_info keyed \<Rightarrow> bool" where
  "calls_ok xs \<longleftrightarrow> distinct (map fst xs) \<and> list_all (\<lambda>e. ic_cmdaddr (snd e) = fst e) xs"

lemma calls_ok_Nil [simp]: "calls_ok []"
  by (simp add: calls_ok_def)

lemma calls_ok_upd:
  assumes "calls_ok xs" "ic_cmdaddr i = k"
  shows "calls_ok (kl_upd k i xs)"
proof -
  have "list_all (\<lambda>e. ic_cmdaddr (snd e) = fst e) (kl_upd k i xs)"
    using assms unfolding calls_ok_def kl_upd_def by (auto simp: list_all_iff)
  then show ?thesis using assms by (simp add: calls_ok_def)
qed

lemma calls_ok_set [simp]:
  assumes "calls_ok xs" "ic_cmdaddr i = k"
  shows "calls_ok (kl_set place k i xs)"
proof (cases "k \<in> fst ` set xs")
  case True
  then show ?thesis using calls_ok_upd [OF assms] by (simp add: kl_set_def)
next
  case False
  have "distinct (map fst (kl_set place k i xs))" using assms by (simp add: calls_ok_def)
  moreover have "set (kl_set place k i xs) = insert (k, i) (set xs)"
    using False by (simp add: kl_set_def Let_def set_kl_insert del: set_append)
  ultimately show ?thesis using assms by (simp add: calls_ok_def list_all_iff)
qed

lemma calls_ok_find: "calls_ok xs \<Longrightarrow> map_of xs a = Some i \<Longrightarrow> ic_cmdaddr i = a"
  by (auto simp: calls_ok_def list_all_iff dest!: map_of_SomeD)

end
