(* ===== verification/IatSearch.thy ===== *)
theory IatSearch
  imports IatData
begin

text \<open>
  Searching a memory block for instructions that may call imports (\<open>searchCallsInMemory\<close>,
  \<open>xvmiatcallframe.cpp\<close>): first by the bytes of calls and jumps, then by constants that point to pointers out of the
  image; at last the calls whose target cannot be read are dropped.
\<close>

section \<open>Bytes of the block\<close>

text \<open>Reading past the block is a fault.\<close>

definition bytes_at :: "byte list \<Rightarrow> nat \<Rightarrow> nat \<Rightarrow> fault + byte list" where
  "bytes_at mem k n = (if k + n \<le> length mem then Inr (take n (drop k mem)) else Inl Array_overflow)"

definition byte_at :: "byte list \<Rightarrow> nat \<Rightarrow> fault + byte" where
  "byte_at mem k = (if k < length mem then Inr (mem ! k) else Inl Array_overflow)"

definition dword_at :: "byte list \<Rightarrow> nat \<Rightarrow> fault + 32 word" where
  "dword_at mem k = bindF (bytes_at mem k 4) (\<lambda>bs. Inr (le_word bs))"

fun foldF :: "('x \<Rightarrow> 's \<Rightarrow> fault + 's) \<Rightarrow> 'x list \<Rightarrow> 's \<Rightarrow> fault + 's" where
  "foldF f [] s = Inr s"
| "foldF f (x # xs) s = bindF (f x s) (foldF f xs)"

section \<open>Calls by their bytes\<close>

text \<open>
  \<open>call rel32\<close> and \<open>jmp rel32\<close>, with the byte before and the byte after; at the start of the block both
  are taken to be \<open>nop\<close>.
\<close>

definition near_call ::
  "IATCall_Type \<Rightarrow> addr \<Rightarrow> byte list \<Rightarrow> nat \<Rightarrow> iatcall_info \<Rightarrow> fault + iatcall_info option" where
  "near_call ty base mem oft i =
     bindF (dword_at mem (oft + 1)) (\<lambda>rel.
     bindF (bytes_at mem oft 5) (\<lambda>code.
     bindF (if oft \<noteq> 0 then byte_at mem (oft - 1) else Inr 0x90) (\<lambda>hd.
     bindF (if oft \<noteq> 0 then byte_at mem (oft + 5) else Inr 0x90) (\<lambda>sfx.
       Inr (Some (i\<lparr>ic_calltype := ty, ic_callto := base + of_nat oft + 5 + rel, ic_szop := 5,
                   ic_opcode := code, ic_ophead := hd, ic_opsuffix := sfx\<rparr>))))))"

text \<open>Six bytes with an address at \<open>k\<close>.\<close>

definition long_call ::
  "IATCall_Type \<Rightarrow> byte list \<Rightarrow> nat \<Rightarrow> nat \<Rightarrow> iatcall_info \<Rightarrow> fault + iatcall_info option" where
  "long_call ty mem oft k i =
     bindF (dword_at mem (oft + k)) (\<lambda>to.
     bindF (bytes_at mem oft 6) (\<lambda>code.
       Inr (Some (i\<lparr>ic_calltype := ty, ic_callto := to, ic_szop := 6, ic_opcode := code\<rparr>))))"

definition recognize ::
  "addr \<Rightarrow> byte list \<Rightarrow> nat \<Rightarrow> iatcall_info \<Rightarrow> fault + iatcall_info option" where
  "recognize base mem oft i =
     bindF (byte_at mem oft) (\<lambda>op1.
       if op1 = 0xE8 then near_call iatcall_call base mem oft i
       else if op1 = 0xE9 then near_call iatcall_jmp base mem oft i
       else if op1 = 0xFF then
         bindF (byte_at mem (oft + 1)) (\<lambda>op2.
           if op2 = 0x15 then long_call iatcall_callmem mem oft 2 i
           else if op2 = 0x25 then long_call iatcall_jmpmem mem oft 2 i
           else Inr None)
       else if op1 = 0x68 then
         bindF (byte_at mem (oft + 5)) (\<lambda>op2.
           if op2 = 0xC3 then long_call iatcall_pushret mem oft 1 i else Inr None)
       else Inr None)"

text \<open>The loop works on one record, which keeps what earlier finds left in it.\<close>

definition filed :: "addr \<Rightarrow> iatcall_info \<Rightarrow> iatcall_info" where
  "filed a i = i\<lparr>ic_cmdaddr := a, ic_selected := False, ic_fixedState := fixed_none, ic_size := 1, ic_type := 0\<rparr>"

definition scan_at ::
  "'v iat_env \<Rightarrow> addr \<Rightarrow> byte list \<Rightarrow> nat \<Rightarrow> iatcall_info \<times> iatcall_info keyed
    \<Rightarrow> fault + iatcall_info \<times> iatcall_info keyed" where
  "scan_at I base mem oft s =
     bindF (recognize base mem oft (fst s)) (\<lambda>r.
       case r of
         None \<Rightarrow> Inr s
       | Some i \<Rightarrow>
           (let i' = filed (base + of_nat oft) i
            in Inr (i', kl_set (call_place I) (ic_cmdaddr i') i' (snd s))))"

section \<open>Calls through pointers\<close>

text \<open>An operand that is the constant and nothing else, among those before the first empty one.\<close>

fun const_operand :: "addr \<Rightarrow> t_operand list \<Rightarrow> bool" where
  "const_operand a [] = False"
| "const_operand a (op # ops) =
     (if \<not> to_features op then False
      else if to_opconst op = a \<and> \<not> to_aregs op then True
      else const_operand a ops)"

text \<open>
  An instruction that begins \<open>i\<close> bytes before the constant: \<open>i\<close> counts up while the block is not left and
  nothing decodes to a use of the constant.
\<close>

fun find_user ::
  "'v iat_env \<Rightarrow> addr \<Rightarrow> byte list \<Rightarrow> nat \<Rightarrow> addr \<Rightarrow> nat list \<Rightarrow> iatcall_info \<times> iatcall_info keyed
    \<Rightarrow> fault + iatcall_info \<times> iatcall_info keyed" where
  "find_user I base mem oft a [] s = Inr s"
| "find_user I base mem oft a (i # is) s =
     (if oft < i then Inr s
      else bindF (bytes_at mem (oft - i) (i + 4)) (\<lambda>op.
        let at = base + of_nat oft - of_nat i; (clen, memconst, ops) = dbg_disasm I op at
        in if 0 < clen \<and> memconst = a then
             (if const_operand a ops \<and> map_of (snd s) at = None then
                (let sz = min (nat clen) (SZ_OPCODE I)
                 in bindF (bytes_at mem (oft - i) sz) (\<lambda>code.
                      let i' = (filed at (fst s))\<lparr>ic_szop := int sz, ic_opcode := code, ic_memoft := of_nat i,
                                 ic_callto := memconst, ic_calltype := iatcall_memaddr\<rparr>
                      in Inr (i', kl_set (call_place I) (ic_cmdaddr i') i' (snd s))))
              else Inr s)
           else find_user I base mem oft a is s))"

text \<open>
  \<open>tmpaddr\<close> and \<open>uddr\<close> begin as 0. What the constant points to must be outside the image and readable.
\<close>

definition memaddr_at ::
  "'v iat_env \<Rightarrow> addr \<Rightarrow> byte list \<Rightarrow> addr \<Rightarrow> addr \<Rightarrow> addr \<Rightarrow> nat \<Rightarrow> iatcall_info \<times> iatcall_info keyed
    \<Rightarrow> fault + iatcall_info \<times> iatcall_info keyed" where
  "memaddr_at I base mem imgbase imgend band oft s =
     bindF (dword_at mem oft) (\<lambda>a.
       if imgbase + 1 \<le> a \<and> a < imgend then
         (let (n, tmp) = read_ptr I a [0, 0, 0, 0]
          in if n = 4 \<and> (tmp < imgbase \<or> band \<le> tmp) \<and> fst (read_ptr I tmp [0, 0, 0, 0]) = 4
             then find_user I base mem oft a [1..<12] s else Inr s)
       else Inr s)"

section \<open>Dropping what cannot be read\<close>

text \<open>
  \<open>None\<close> is a call that is removed. A call through memory gets the pointer that is stored there.
\<close>

definition resolve_call :: "'v iat_env \<Rightarrow> iatcall_info \<Rightarrow> iatcall_info option" where
  "resolve_call I i =
     (if 0x80000000 \<le> ic_callto i \<or> ic_callto i \<le> 0x10000 then None
      else let (n, t) = read_ptr I (ic_callto i) (junk I 4)
           in if n \<le> 0 then None
              else if ic_calltype i \<in> {iatcall_callmem, iatcall_jmpmem} then
                (if fst (read_ptr I t (le_bytes t)) \<le> 0 then None else Some (i\<lparr>ic_callto := t\<rparr>))
              else Some i)"

fun resolve_calls :: "'v iat_env \<Rightarrow> iatcall_info keyed \<Rightarrow> iatcall_info keyed" where
  "resolve_calls I [] = []"
| "resolve_calls I ((k, i) # xs) =
     (case resolve_call I i of None \<Rightarrow> resolve_calls I xs | Some i' \<Rightarrow> (k, i') # resolve_calls I xs)"

section \<open>The search\<close>

definition searchCallsInMemory ::
  "'v iat_env \<Rightarrow> addr \<Rightarrow> byte list \<Rightarrow> addr \<Rightarrow> addr \<Rightarrow> 'v xVMIATCallFrame \<Rightarrow> fault + 'v xVMIATCallFrame" where
  "searchCallsInMemory I base mem imgbase imgend fr =
     (let szLoop = length mem - 5
      in bindF (foldF (scan_at I base mem) [0..<szLoop] (zero_info, m_calls fr)) (\<lambda>s1.
           bindF (if 0 < imgbase \<and> imgbase < imgend then
                    (let band = (if imgbase \<le> m_mmaddrEnd fr \<and> m_mmaddrEnd fr < imgend
                                 then m_mmaddrEnd fr else imgend)
                     in foldF (memaddr_at I base mem imgbase imgend band) [0..<szLoop] s1)
                  else Inr s1) (\<lambda>s2.
             Inr (fr\<lparr>m_calls := resolve_calls I (snd s2)\<rparr>))))"

section \<open>What is found\<close>

lemma bytes_at_ok: "k + n \<le> length mem \<Longrightarrow> bytes_at mem k n = Inr (take n (drop k mem))"
  by (simp add: bytes_at_def)

lemma byte_at_ok: "k < length mem \<Longrightarrow> byte_at mem k = Inr (mem ! k)"
  by (simp add: byte_at_def)

lemma dword_at_ok: "k + 4 \<le> length mem \<Longrightarrow> dword_at mem k = Inr (le_word (take 4 (drop k mem)))"
  by (simp add: dword_at_def bytes_at_ok)

lemmas at_ok = bytes_at_ok byte_at_ok dword_at_ok

text \<open>The call an offset of the block holds, if any, and where it goes, as a table.\<close>

definition call_kind :: "byte list \<Rightarrow> nat \<Rightarrow> IATCall_Type option" where
  "call_kind mem oft =
     (if mem ! oft = 0xE8 then Some iatcall_call
      else if mem ! oft = 0xE9 then Some iatcall_jmp
      else if mem ! oft = 0xFF \<and> mem ! (oft + 1) = 0x15 then Some iatcall_callmem
      else if mem ! oft = 0xFF \<and> mem ! (oft + 1) = 0x25 then Some iatcall_jmpmem
      else if mem ! oft = 0x68 \<and> mem ! (oft + 5) = 0xC3 then Some iatcall_pushret
      else None)"

definition call_target :: "addr \<Rightarrow> byte list \<Rightarrow> nat \<Rightarrow> IATCall_Type \<Rightarrow> addr" where
  "call_target base mem oft ty =
     (if ty = iatcall_call \<or> ty = iatcall_jmp
      then base + of_nat oft + 5 + le_word (take 4 (drop (oft + 1) mem))
      else if ty = iatcall_pushret then le_word (take 4 (drop (oft + 1) mem))
      else le_word (take 4 (drop (oft + 2) mem)))"

text \<open>What is written down for a call at an offset, whatever the working record held.\<close>

definition describes :: "addr \<Rightarrow> byte list \<Rightarrow> nat \<Rightarrow> iatcall_info \<Rightarrow> bool" where
  "describes base mem oft i \<longleftrightarrow> ic_cmdaddr i = base + of_nat oft
     \<and> (\<exists>ty. call_kind mem oft = Some ty \<and> ic_calltype i = ty \<and> ic_callto i = call_target base mem oft ty
          \<and> ic_opcode i = take (nat (ic_szop i)) (drop oft mem)
          \<and> ic_szop i = (if ty = iatcall_call \<or> ty = iatcall_jmp then 5 else 6)
          \<and> (ty = iatcall_call \<or> ty = iatcall_jmp \<longrightarrow> oft \<noteq> 0 \<longrightarrow>
               ic_ophead i = mem ! (oft - 1) \<and> ic_opsuffix i = mem ! (oft + 5)))"

lemma describes_call:
  assumes "describes base mem oft i" "call_kind mem oft = Some ty"
  shows "ic_calltype i = ty \<and> ic_callto i = call_target base mem oft ty
    \<and> (ty = iatcall_call \<longrightarrow> oft \<noteq> 0 \<longrightarrow> ic_ophead i = mem ! (oft - 1))"
  using assms by (auto simp: describes_def)

lemma recognize_ok:
  assumes "oft < length mem - 5"
  shows "(call_kind mem oft = None \<longrightarrow> recognize base mem oft i = Inr None)
    \<and> (call_kind mem oft \<noteq> None \<longrightarrow>
        (\<exists>j. recognize base mem oft i = Inr (Some j) \<and> describes base mem oft (filed (base + of_nat oft) j)))"
proof -
  have b: "oft < length mem" "oft + 1 < length mem" "oft + 5 < length mem" "oft + 1 + 4 \<le> length mem"
      "oft + 2 + 4 \<le> length mem" "oft + 5 \<le> length mem" "oft + 6 \<le> length mem" "oft - 1 < length mem"
    using assms by linarith+
  show ?thesis
    using b by (auto simp: recognize_def call_kind_def near_call_def long_call_def at_ok describes_def filed_def
        call_target_def split: if_splits)
qed

text \<open>The offsets of a block that is no longer than the address space are different addresses.\<close>

lemma offsets_apart:
  assumes "length mem \<le> 2 ^ 32" "i < length mem" "j < length mem"
  shows "base + of_nat i = base + (of_nat j :: 32 word) \<longleftrightarrow> i = j"
proof -
  have "(of_nat i :: 32 word) = of_nat j \<longleftrightarrow> i = j"
    using assms by (simp add: of_nat_inverse [where 'a = 32, of i] word_of_nat_eq_iff take_bit_nat_eq_self)
  then show ?thesis by simp
qed

lemma foldF_append: "foldF f (xs @ ys) s = bindF (foldF f xs s) (foldF f ys)"
  by (induction xs arbitrary: s) (auto simp: bindF_def split: sum.split)

definition scanned :: "addr \<Rightarrow> byte list \<Rightarrow> nat \<Rightarrow> iatcall_info keyed \<Rightarrow> iatcall_info keyed \<Rightarrow> bool" where
  "scanned base mem n xs ys \<longleftrightarrow>
     (\<forall>oft < n. call_kind mem oft \<noteq> None \<longrightarrow>
        (\<exists>i. map_of ys (base + of_nat oft) = Some i \<and> describes base mem oft i))
     \<and> (\<forall>a. (\<forall>oft < n. call_kind mem oft \<noteq> None \<longrightarrow> a \<noteq> base + of_nat oft) \<longrightarrow> map_of ys a = map_of xs a)
     \<and> (calls_ok xs \<longrightarrow> calls_ok ys)"

lemma filed_cmdaddr [simp]: "ic_cmdaddr (filed a i) = a"
  by (simp add: filed_def)

lemma scan_loop:
  assumes "length mem \<le> 2 ^ 32" "n \<le> length mem - 5"
  shows "\<exists>i ys. foldF (scan_at I base mem) [0..<n] (i0, xs) = Inr (i, ys) \<and> scanned base mem n xs ys"
  using assms(2)
proof (induction n)
  case 0
  then show ?case by (simp add: scanned_def)
next
  case (Suc n)
  then obtain i ys where s: "foldF (scan_at I base mem) [0..<n] (i0, xs) = Inr (i, ys)" "scanned base mem n xs ys"
    by auto
  have n: "n < length mem - 5" using Suc.prems by simp
  have apart: "base + of_nat oft = base + (of_nat n :: 32 word) \<longleftrightarrow> oft = n" if "oft \<le> n" for oft
    using offsets_apart [OF assms(1), of oft n base] that n by simp
  show ?case
  proof (cases "call_kind mem n")
    case None
    then have "scan_at I base mem n (i, ys) = Inr (i, ys)"
      using recognize_ok [OF n, of base i] by (simp add: scan_at_def)
    moreover have "scanned base mem (Suc n) xs ys"
      using s(2) None unfolding scanned_def by (auto simp: less_Suc_eq)
    ultimately show ?thesis using s(1) by (simp add: foldF_append)
  next
    case (Some ty)
    then obtain j where j: "recognize base mem n i = Inr (Some j)"
        "describes base mem n (filed (base + of_nat n) j)"
      using recognize_ok [OF n, of base i] by auto
    let ?j = "filed (base + of_nat n) j"
    let ?ys = "kl_set (call_place I) (base + of_nat n) ?j ys"
    have "scan_at I base mem n (i, ys) = Inr (?j, ?ys)" using j(1) by (simp add: scan_at_def Let_def)
    moreover have "scanned base mem (Suc n) xs ?ys"
      using s(2) j(2) apart Some unfolding scanned_def by (auto simp: less_Suc_eq)
    ultimately show ?thesis using s(1) by (simp add: foldF_append)
  qed
qed

section \<open>The second search only adds\<close>

text \<open>The disassembler decodes no more bytes than it is given.\<close>

definition disasm_within :: "'v iat_env \<Rightarrow> bool" where
  "disasm_within I \<longleftrightarrow> (\<forall>bs a. fst (dbg_disasm I bs a) \<le> int (length bs))"

definition adds_users :: "iatcall_info keyed \<Rightarrow> iatcall_info keyed \<Rightarrow> bool" where
  "adds_users xs ys \<longleftrightarrow> map_of xs \<subseteq>\<^sub>m map_of ys \<and> (calls_ok xs \<longrightarrow> calls_ok ys)
     \<and> (\<forall>a i. map_of ys a = Some i \<longrightarrow> map_of xs a = None \<longrightarrow> ic_calltype i = iatcall_memaddr)"

lemma adds_users_refl: "adds_users xs xs"
  by (simp add: adds_users_def)

lemma adds_users_trans: "adds_users xs ys \<Longrightarrow> adds_users ys zs \<Longrightarrow> adds_users xs zs"
proof -
  assume 1: "adds_users xs ys" and 2: "adds_users ys zs"
  have "ic_calltype i = iatcall_memaddr" if "map_of zs a = Some i" "map_of xs a = None" for a i
  proof (cases "map_of ys a")
    case None
    then show ?thesis using 2 that(1) by (simp add: adds_users_def)
  next
    case (Some j)
    have "map_of ys \<subseteq>\<^sub>m map_of zs" using 2 by (simp add: adds_users_def)
    then have "map_of zs a = Some j" using Some by (force simp: map_le_def dom_def)
    then show ?thesis using 1 that Some by (simp add: adds_users_def)
  qed
  then show ?thesis using 1 2 map_le_trans unfolding adds_users_def by blast
qed

lemma find_user_adds:
  assumes "disasm_within I" "oft + 4 \<le> length mem"
  shows "\<exists>j ys. find_user I base mem oft a is (i, xs) = Inr (j, ys) \<and> adds_users xs ys"
proof (induction "is")
  case Nil
  then show ?case by (simp add: adds_users_refl)
next
  case (Cons k ks)
  show ?case
  proof (cases "oft < k")
    case True
    then show ?thesis by (simp add: adds_users_refl)
  next
    case False
    let ?at = "base + of_nat oft - of_nat k" and ?op = "take (k + 4) (drop (oft - k) mem)"
    have op: "bytes_at mem (oft - k) (k + 4) = Inr ?op" using False assms(2) by (intro bytes_at_ok) simp
    obtain clen mc ops where d: "dbg_disasm I ?op ?at = (clen, mc, ops)" by (cases "dbg_disasm I ?op ?at")
    have "clen \<le> int (length ?op)" using assms(1) d unfolding disasm_within_def by (metis fst_conv)
    then have "nat clen \<le> k + 4" by simp
    then have sz: "bytes_at mem (oft - k) (min (nat clen) (SZ_OPCODE I))
        = Inr (take (min (nat clen) (SZ_OPCODE I)) (drop (oft - k) mem))"
      using False assms(2) by (intro bytes_at_ok) linarith
    have new: "adds_users xs (kl_set p ?at j xs)"
      if "map_of xs ?at = None" "ic_calltype j = iatcall_memaddr" "ic_cmdaddr j = ?at" for p j
      using that by (auto simp: adds_users_def map_le_def)
    show ?thesis using Cons.IH False op d sz
      by (auto simp: Let_def intro!: adds_users_refl new)
  qed
qed

lemma memaddr_at_adds:
  assumes "disasm_within I" "oft + 4 \<le> length mem"
  shows "\<exists>j ys. memaddr_at I base mem ib ie band oft (i, xs) = Inr (j, ys) \<and> adds_users xs ys"
  using find_user_adds [OF assms, of base _ "[1..<12]" i xs] dword_at_ok [OF assms(2)]
  by (auto simp: memaddr_at_def adds_users_refl split: prod.split)

lemma memaddr_loop:
  assumes "disasm_within I" "\<forall>oft \<in> set ofts. oft + 4 \<le> length mem"
  shows "\<exists>j ys. foldF (memaddr_at I base mem ib ie band) ofts (i, xs) = Inr (j, ys) \<and> adds_users xs ys"
  using assms(2)
proof (induction ofts arbitrary: i xs)
  case Nil
  then show ?case by (simp add: adds_users_refl)
next
  case (Cons oft ofts)
  obtain j ys where 1: "memaddr_at I base mem ib ie band oft (i, xs) = Inr (j, ys)" "adds_users xs ys"
    using memaddr_at_adds [OF assms(1), of oft mem base ib ie band i xs] Cons.prems by auto
  obtain k zs where 2: "foldF (memaddr_at I base mem ib ie band) ofts (j, ys) = Inr (k, zs)" "adds_users ys zs"
    using Cons.IH [of j ys] Cons.prems by auto
  show ?case using 1 2 adds_users_trans by (intro exI [of _ k] exI [of _ zs]) auto
qed

section \<open>The last pass is a filter\<close>

lemma resolve_keys: "fst ` set (resolve_calls I xs) \<subseteq> fst ` set xs"
  by (induction I xs rule: resolve_calls.induct) (auto split: option.splits)

lemma map_of_resolve:
  "distinct (map fst xs) \<Longrightarrow> map_of (resolve_calls I xs) a = Option.bind (map_of xs a) (resolve_call I)"
proof (induction I xs rule: resolve_calls.induct)
  case (2 I k i xs)
  have "k \<notin> fst ` set (resolve_calls I xs)" using 2(3) resolve_keys [of I xs] by auto
  then have "map_of (resolve_calls I xs) k = None" by (simp add: map_of_eq_None_iff)
  moreover have "map_of (resolve_calls I xs) a = Option.bind (map_of xs a) (resolve_call I)"
    using 2 by (cases "resolve_call I i") simp_all
  ultimately show ?case by (auto split: option.split)
qed simp

lemma resolve_cmdaddr: "resolve_call I i = Some j \<Longrightarrow> ic_cmdaddr j = ic_cmdaddr i"
  by (auto simp: resolve_call_def Let_def split: prod.splits if_splits)

lemma calls_ok_resolve: "calls_ok xs \<Longrightarrow> calls_ok (resolve_calls I xs)"
proof (induction I xs rule: resolve_calls.induct)
  case (2 I k i xs)
  have ok: "calls_ok xs" using 2(3) by (simp add: calls_ok_def)
  show ?case
  proof (cases "resolve_call I i")
    case None
    then show ?thesis using 2(1) ok by simp
  next
    case (Some j)
    have "k \<notin> fst ` set (resolve_calls I xs)"
      using 2(3) resolve_keys [of I xs] by (auto simp: calls_ok_def)
    then show ?thesis using 2(2) [OF Some ok] 2(3) Some resolve_cmdaddr [OF Some] by (simp add: calls_ok_def)
  qed
qed simp

section \<open>The whole search\<close>

lemma search_result:
  assumes "disasm_within I" "length mem \<le> 2 ^ 32"
  shows "\<exists>ys zs. searchCallsInMemory I base mem ib ie fr = Inr (fr\<lparr>m_calls := resolve_calls I zs\<rparr>)
    \<and> scanned base mem (length mem - 5) (m_calls fr) ys \<and> adds_users ys zs"
proof -
  let ?n = "length mem - 5"
  obtain i ys where 1: "foldF (scan_at I base mem) [0..<?n] (zero_info, m_calls fr) = Inr (i, ys)"
      "scanned base mem ?n (m_calls fr) ys"
    using scan_loop [OF assms(2) order_refl, of I base zero_info "m_calls fr"] by auto
  have 2: "\<exists>j zs. foldF (memaddr_at I base mem ib ie band) [0..<?n] (i, ys) = Inr (j, zs) \<and> adds_users ys zs" for band
    by (rule memaddr_loop [OF assms(1)]) auto
  show ?thesis
  proof (cases "0 < ib \<and> ib < ie")
    case True
    let ?band = "if ib \<le> m_mmaddrEnd fr \<and> m_mmaddrEnd fr < ie then m_mmaddrEnd fr else ie"
    obtain j zs where "foldF (memaddr_at I base mem ib ie ?band) [0..<?n] (i, ys) = Inr (j, zs)" "adds_users ys zs"
      using 2 [of ?band] by auto
    then show ?thesis using 1 True by (auto simp: searchCallsInMemory_def)
  next
    case False
    then show ?thesis using 1 adds_users_refl [of ys] by (auto simp: searchCallsInMemory_def)
  qed
qed

end
