(* ===== verification/IatExport.thy ===== *)
theory IatExport
  imports IatSearch
begin

text \<open>
  The exports of the debuggee's modules (\<open>cacheModuleExport\<close> and what it calls, \<open>getExport\<close>) and the table
  of resolved functions (\<open>hitIATCallModule\<close>, \<open>getFuncInfo\<close>), \<open>xvmiatcallframe.cpp\<close>.
\<close>

section \<open>Module names\<close>

text \<open>The part after the last slash that is not the first character.\<close>

definition findModName :: "wstring \<Rightarrow> wstring option" where
  "findModName p =
     (if p = [] then None
      else Some (case find (\<lambda>k. p ! k = 92 \<or> p ! k = 47) (rev [1..<length p]) of
                   None \<Rightarrow> p | Some k \<Rightarrow> drop (k + 1) p))"

section \<open>Export directories\<close>

record export_dir =
  ed_Base :: "32 word"
  ed_NumberOfFunctions :: "32 word"
  ed_NumberOfNames :: "32 word"
  ed_AddressOfFunctions :: addr
  ed_AddressOfNames :: addr
  ed_AddressOfNameOrdinals :: addr

text \<open>\<open>IMAGE_EXPORT_DIRECTORY\<close> at an offset of the data.\<close>

definition export_dir_at :: "byte list \<Rightarrow> nat \<Rightarrow> fault + export_dir" where
  "export_dir_at data k =
     bindF (dword_at data (k + 16)) (\<lambda>b.
     bindF (dword_at data (k + 20)) (\<lambda>nf.
     bindF (dword_at data (k + 24)) (\<lambda>nn.
     bindF (dword_at data (k + 28)) (\<lambda>af.
     bindF (dword_at data (k + 32)) (\<lambda>an.
     bindF (dword_at data (k + 36)) (\<lambda>ao.
       Inr \<lparr>ed_Base = b, ed_NumberOfFunctions = nf, ed_NumberOfNames = nn, ed_AddressOfFunctions = af,
            ed_AddressOfNames = an, ed_AddressOfNameOrdinals = ao\<rparr>))))))"

definition wordv_at :: "byte list \<Rightarrow> nat \<Rightarrow> fault + 32 word" where
  "wordv_at data k = bindF (bytes_at data k 2) (\<lambda>bs. Inr (le_word bs))"

text \<open>The loop over the names: the first name whose ordinal is \<open>i\<close>, or 0.\<close>

fun find_name ::
  "(nat \<Rightarrow> fault + 32 word) \<Rightarrow> (nat \<Rightarrow> fault + 32 word) \<Rightarrow> nat \<Rightarrow> nat list \<Rightarrow> fault + 32 word" where
  "find_name ords names i [] = Inr 0"
| "find_name ords names i (k # ks) =
     bindF (ords k) (\<lambda>n. if n = of_nat i then names k else find_name ords names i ks)"

text \<open>
  One export: its address, and the offset of its name if both arrays are there (\<open>tables\<close>); \<open>read_name\<close> gives the
  name at an offset, if it has one.
\<close>

definition export_at ::
  "'v iat_env \<Rightarrow> export_dir \<Rightarrow> addr \<Rightarrow> (nat \<Rightarrow> fault + 32 word)
    \<Rightarrow> ((nat \<Rightarrow> fault + 32 word) \<times> (nat \<Rightarrow> fault + 32 word)) option
    \<Rightarrow> (addr \<Rightarrow> fault + wstring option) \<Rightarrow> nat \<Rightarrow> fault + iatcall_api_cache" where
  "export_at I ed modbase rvas tables read_name i =
     bindF (rvas i) (\<lambda>rva.
     bindF (case tables of
              None \<Rightarrow> Inr 0
            | Some (ords, names) \<Rightarrow> find_name ords names i [0..<unat (ed_NumberOfNames ed)]) (\<lambda>oft.
     bindF (if oft \<noteq> 0 then read_name oft else Inr None) (\<lambda>nm.
       let b = ed_Base ed + of_nat i
       in Inr \<lparr>ia_addr = rva, ia_modBase = modbase, ia_base = b, ia_hasName = (nm \<noteq> None),
               ia_name = (case nm of None \<Rightarrow> ordinal_name I b | Some w \<Rightarrow> w)\<rparr>)))"

definition add_export ::
  "(nat \<Rightarrow> fault + iatcall_api_cache) \<Rightarrow> nat \<Rightarrow> (addr, iatcall_api_cache) index_map
    \<Rightarrow> fault + (addr, iatcall_api_cache) index_map" where
  "add_export ex i apis = bindF (ex i) (\<lambda>a. Inr (im_insert (ia_addr a) a apis))"

text \<open>The module with all its exports, put into the cache.\<close>

definition cache_module ::
  "t_module \<Rightarrow> export_dir \<Rightarrow> (nat \<Rightarrow> fault + iatcall_api_cache) \<Rightarrow> iatcall_cache
    \<Rightarrow> (iatcall_mod_cache option, iatcall_cache) outcome" where
  "cache_module m ed ex cache =
     (case findModName (tm_path m) of
        None \<Rightarrow> Inl Null_deref
      | Some name \<Rightarrow>
          bindF (foldF (add_export ex) [0..<unat (ed_NumberOfFunctions ed)] []) (\<lambda>apis.
            let imod = \<lparr>im_addrbase = tm_base m, im_addrend = tm_base m + tm_size m, im_apis = apis, im_name = name\<rparr>;
                cache' = im_insert (tm_base m) imod cache
            in Inr (map_of cache' (tm_base m), cache')))"

section \<open>From the file\<close>

text \<open>A name of more than 512 characters counts as none.\<close>

definition file_name :: "'v iat_env \<Rightarrow> byte list \<Rightarrow> addr \<Rightarrow> fault + wstring option" where
  "file_name I data oft =
     (let k = rva_offset I data oft
      in if length data \<le> k then Inl Array_overflow
         else let w = to_wide I (drop k data) in Inr (if 512 < length w then None else Some w))"

definition file_tables ::
  "'v iat_env \<Rightarrow> byte list \<Rightarrow> export_dir \<Rightarrow> ((nat \<Rightarrow> fault + 32 word) \<times> (nat \<Rightarrow> fault + 32 word)) option" where
  "file_tables I data ed =
     (if ed_AddressOfNames ed \<noteq> 0 \<and> ed_AddressOfNameOrdinals ed \<noteq> 0
      then Some (\<lambda>k. wordv_at data (rva_offset I data (ed_AddressOfNameOrdinals ed) + 2 * k),
                 \<lambda>k. dword_at data (rva_offset I data (ed_AddressOfNames ed) + 4 * k))
      else None)"

definition cacheModuleExportFromFile ::
  "'v iat_env \<Rightarrow> addr \<Rightarrow> iatcall_cache \<Rightarrow> (iatcall_mod_cache option, iatcall_cache) outcome" where
  "cacheModuleExportFromFile I a cache =
     (case map_of cache a of
        Some m \<Rightarrow> Inr (Some m, cache)
      | None \<Rightarrow>
          (case dbg_module I a of
             None \<Rightarrow> Inr (None, cache)
           | Some tm \<Rightarrow>
               if tm_base tm \<noteq> a \<and> map_of cache (tm_base tm) \<noteq> None
               then Inr (map_of cache (tm_base tm), cache)
               else (case map_file I tm of
                       None \<Rightarrow> Inr (None, cache)
                     | Some data \<Rightarrow>
                         (let (rva, sz) = image_exports I data
                          in if data = [] \<or> rva = 0 \<or> sz = 0 then Inr (None, cache)
                             else bindF (export_dir_at data (rva_offset I data rva)) (\<lambda>ed.
                               if ed_NumberOfFunctions ed = 0 then Inr (None, cache)
                               else cache_module tm ed
                                 (export_at I ed (tm_base tm)
                                   (\<lambda>i. dword_at data (rva_offset I data (ed_AddressOfFunctions ed) + 4 * i))
                                   (file_tables I data ed) (file_name I data)) cache)))))"

section \<open>From memory\<close>

text \<open>An array read from the debuggee; a read that is cut short leaves the null pointer.\<close>

definition read_array :: "'v iat_env \<Rightarrow> addr \<Rightarrow> 32 word \<Rightarrow> byte list option" where
  "read_array I a sz =
     (let (n, buf) = dbg_read I a (junk I (unat sz)) in if n \<noteq> int (unat sz) then None else Some buf)"

definition memory_name :: "'v iat_env \<Rightarrow> addr \<Rightarrow> addr \<Rightarrow> fault + wstring option" where
  "memory_name I modbase oft =
     (let (n, buf) = dbg_read I (modbase + oft) (0 # junk I 519) in Inr (Some (to_wide I buf)))"

text \<open>
  The array of ordinals is read with the number of functions, but there is one for every name. That the array of
  addresses could be read is not checked.
\<close>

definition memory_tables ::
  "'v iat_env \<Rightarrow> addr \<Rightarrow> export_dir \<Rightarrow> ((nat \<Rightarrow> fault + 32 word) \<times> (nat \<Rightarrow> fault + 32 word)) option" where
  "memory_tables I modbase ed =
     (case (read_array I (ed_AddressOfNameOrdinals ed + modbase) (ed_NumberOfFunctions ed * 2),
            read_array I (ed_AddressOfNames ed + modbase) (ed_NumberOfNames ed * 4)) of
        (Some ords, Some names) \<Rightarrow> Some (\<lambda>k. wordv_at ords (2 * k), \<lambda>k. dword_at names (4 * k))
      | _ \<Rightarrow> None)"

definition memory_rvas :: "'v iat_env \<Rightarrow> addr \<Rightarrow> export_dir \<Rightarrow> nat \<Rightarrow> fault + 32 word" where
  "memory_rvas I modbase ed i =
     (case read_array I (ed_AddressOfFunctions ed + modbase) (4 * ed_NumberOfFunctions ed) of
        None \<Rightarrow> Inl Null_deref
      | Some rvas \<Rightarrow> dword_at rvas (4 * i))"

definition cacheModuleExportFromMemory ::
  "'v iat_env \<Rightarrow> addr \<Rightarrow> iatcall_cache \<Rightarrow> (iatcall_mod_cache option, iatcall_cache) outcome" where
  "cacheModuleExportFromMemory I a cache =
     (case map_of cache a of
        Some m \<Rightarrow> Inr (Some m, cache)
      | None \<Rightarrow>
          (case dbg_module I a of
             None \<Rightarrow> Inr (None, cache)
           | Some tm \<Rightarrow>
               if tm_edatabase tm = 0 \<or> tm_edatasize tm = 0 then Inr (None, cache)
               else if tm_base tm \<noteq> a \<and> map_of cache (tm_base tm) \<noteq> None
               then Inr (map_of cache (tm_base tm), cache)
               else (case read_array I (tm_edatabase tm) (tm_edatasize tm) of
                       None \<Rightarrow> Inr (None, cache)
                     | Some data \<Rightarrow>
                         bindF (export_dir_at data 0) (\<lambda>ed.
                           if ed_NumberOfFunctions ed = 0 then Inr (None, cache)
                           else cache_module tm ed
                             (export_at I ed (tm_base tm) (memory_rvas I (tm_base tm) ed)
                               (memory_tables I (tm_base tm) ed) (memory_name I (tm_base tm))) cache))))"

definition cacheModuleExport ::
  "'v iat_env \<Rightarrow> addr \<Rightarrow> iatcall_cache \<Rightarrow> (iatcall_mod_cache option, iatcall_cache) outcome" where
  "cacheModuleExport I a cache =
     bindS (cacheModuleExportFromFile I a cache) (\<lambda>r cache1.
       case r of Some m \<Rightarrow> Inr (Some m, cache1) | None \<Rightarrow> cacheModuleExportFromMemory I a cache1)"

section \<open>Looking up an export\<close>

text \<open>\<open>upper_bound\<close>, and one step back unless it is the first entry.\<close>

definition near_module :: "iatcall_cache \<Rightarrow> addr \<Rightarrow> iatcall_mod_cache" where
  "near_module cache a =
     (let before = takeWhile (\<lambda>e. fst e \<le> a) cache
      in snd (if before = [] then hd cache else last before))"

definition cached_module :: "iatcall_cache \<Rightarrow> addr \<Rightarrow> iatcall_mod_cache option" where
  "cached_module cache a =
     (if cache \<noteq> [] then
        (let m = near_module cache a in if im_addrbase m \<le> a \<and> a < im_addrend m then Some m else None)
      else None)"

definition getExport ::
  "'v iat_env \<Rightarrow> addr \<Rightarrow> iatcall_cache \<Rightarrow> (iatcall_api_cache option, iatcall_cache) outcome" where
  "getExport I a cache =
     bindS (case cached_module cache a of
              Some m \<Rightarrow> Inr (Some m, cache)
            | None \<Rightarrow> cacheModuleExport I a cache) (\<lambda>r cache1.
       case r of
         None \<Rightarrow> Inr (None, cache1)
       | Some m \<Rightarrow> Inr (map_of (im_apis m) (a - im_addrbase m), cache1))"

section \<open>The table of resolved functions\<close>

definition getFuncInfo :: "iat_modules \<Rightarrow> int32 \<Rightarrow> int32 \<Rightarrow> iat_func option" where
  "getFuncInfo mods mh fh =
     (case map_of mods mh of None \<Rightarrow> None | Some m \<Rightarrow> map_of (md_funcs m) fh)"

text \<open>Writing a function through its pointer.\<close>

definition upd_func :: "int32 \<Rightarrow> int32 \<Rightarrow> (iat_func \<Rightarrow> iat_func) \<Rightarrow> iat_modules \<Rightarrow> iat_modules" where
  "upd_func mh fh f mods =
     map (\<lambda>(k, m). (k, if k = mh then m\<lparr>md_funcs :=
       map (\<lambda>(j, fn). (j, if j = fh then f fn else fn)) (md_funcs m)\<rparr> else m)) mods"

definition add_func :: "int32 \<Rightarrow> int32 \<Rightarrow> wstring \<Rightarrow> iat_modules \<Rightarrow> iat_modules" where
  "add_func mh fh name mods =
     map (\<lambda>(k, m). (k, if k = mh then m\<lparr>md_funcs :=
       im_insert fh \<lparr>fn_nameHash = fh, fn_name = name, fn_modHash = mh, fn_IATRVA = 0\<rparr> (md_funcs m)\<rparr> else m)) mods"

text \<open>
  A resolved call is filed under its module and function; the pointer returned is the pair of hashes. A target that
  is no export makes the call suspect.
\<close>

definition hitIATCallModule ::
  "'v iat_env \<Rightarrow> iatcall_info \<Rightarrow> 'v xVMIATCallFrame
    \<Rightarrow> ((int32 \<times> int32) option \<times> iatcall_info, 'v xVMIATCallFrame) outcome" where
  "hitIATCallModule I i fr =
     (if ic_result_addr i = 0 then Inr ((None, i), fr)
      else bindS (getExport I (ic_result_addr i) (m_cache fr)) (\<lambda>api cache1.
        let fr1 = fr\<lparr>m_cache := cache1\<rparr>
        in case api of
             None \<Rightarrow> Inr ((None, i\<lparr>ic_rtflags := IATCALL_FLAG_SUSPECT I, ic_modhash := 0, ic_funchash := 0\<rparr>), fr1)
           | Some ap \<Rightarrow>
               (case Option.bind (dbg_module I (ic_result_addr i)) (\<lambda>tm. findModName (tm_path tm)) of
                  None \<Rightarrow> Inr ((None, i), fr1)
                | Some modname \<Rightarrow>
                    (let mh = nhash_lower I modname; fh = nhash_name I (ia_name ap);
                         mods1 = im_insert mh \<lparr>md_nameHash = mh, md_name = modname, md_funcs = []\<rparr> (m_mods fr1);
                         i1 = i\<lparr>ic_modhash := mh, ic_funchash := fh,
                                ic_rtflags := ic_rtflags i AND IATCALL_FLAG_KEEPMARK_MASK I
                                  OR IATCALL_FLAG_TRACEDOUT I\<rparr>
                     in Inr ((Some (mh, fh), i1), fr1\<lparr>m_mods := add_func mh fh (ia_name ap) mods1\<rparr>)))))"

section \<open>Ordered maps\<close>

lemma im_insert_keys: "fst ` set (im_insert k v m) = insert k (fst ` set m)"
  by (induction k v m rule: im_insert.induct) auto

lemma im_insert_sorted: "im_sorted m \<Longrightarrow> im_sorted (im_insert k v m)"
proof (induction k v m rule: im_insert.induct)
  case (2 k v e es)
  consider "k < fst e" | "k = fst e" | "fst e < k" by fastforce
  then show ?case
  proof cases
    case 3
    then have i: "im_insert k v (e # es) = e # im_insert k v es" by auto
    have "im_sorted (im_insert k v es)" using 2 3 by (auto simp: im_sorted_def)
    moreover have "\<forall>x \<in> fst ` set (im_insert k v es). fst e < x"
      using 2(2) 3 unfolding im_insert_keys im_sorted_def by auto
    ultimately show ?thesis unfolding i by (simp add: im_sorted_def)
  qed (use 2(2) in \<open>auto simp: im_sorted_def\<close>)
qed (simp add: im_sorted_def)

lemma im_sorted_distinct: "im_sorted m \<Longrightarrow> distinct (map fst m)"
  unfolding im_sorted_def by (induction m) (auto simp: image_iff)

lemma map_of_im_insert:
  assumes "im_sorted m"
  shows "map_of (im_insert k v m) = (if k \<in> fst ` set m then map_of m else (map_of m)(k \<mapsto> v))"
  using assms
proof (induction k v m rule: im_insert.induct)
  case (2 k v e es)
  obtain a b where e: "e = (a, b)" by (cases e)
  consider "k < a" | "k = a" | "a < k" by fastforce
  then show ?case
  proof cases
    case 1
    then have "k \<notin> fst ` set (e # es)" using 2(2) e by (auto simp: im_sorted_def)
    then show ?thesis using 1 e by (simp add: fun_eq_iff)
  next
    case 3
    then have "map_of (im_insert k v es) = (if k \<in> fst ` set es then map_of es else (map_of es)(k \<mapsto> v))"
      using 2 e by (auto simp: im_sorted_def)
    then show ?thesis using 3 e by (auto simp: fun_eq_iff)
  qed (simp add: e)
qed simp

section \<open>The cache is searched as a set of ranges\<close>

text \<open>Modules are filed under their base, in order, and end before the next begins.\<close>

definition cache_ok :: "iatcall_cache \<Rightarrow> bool" where
  "cache_ok cache \<longleftrightarrow> sorted_wrt (\<lambda>e f. fst e < fst f \<and> im_addrend (snd e) \<le> fst f) cache
     \<and> list_all (\<lambda>e. im_addrbase (snd e) = fst e) cache"

definition holds_addr :: "addr \<Rightarrow> iatcall_mod_cache \<Rightarrow> bool" where
  "holds_addr a m \<longleftrightarrow> im_addrbase m \<le> a \<and> a < im_addrend m"

lemma cached_module_find:
  assumes "cache_ok cache"
  shows "cached_module cache a = find (holds_addr a) (map snd cache)"
proof -
  have base: "im_addrbase (snd e) = fst e" if "e \<in> set cache" for e
    using assms that by (auto simp: cache_ok_def list_all_iff)
  let ?low = "takeWhile (\<lambda>e. fst e \<le> a) cache"
  have split: "cache = ?low @ dropWhile (\<lambda>e. fst e \<le> a) cache" by simp
  have high: "\<not> holds_addr a (snd e)" if e: "e \<in> set (dropWhile (\<lambda>e. fst e \<le> a) cache)" for e
  proof -
    obtain d ds where d: "dropWhile (\<lambda>e. fst e \<le> a) cache = d # ds" using e by (cases "dropWhile (\<lambda>e. fst e \<le> a) cache") auto
    have "\<not> fst d \<le> a" using hd_dropWhile [of "\<lambda>e. fst e \<le> a" cache] d by simp
    moreover have "sorted_wrt (\<lambda>e f. fst e < fst f \<and> im_addrend (snd e) \<le> fst f) (d # ds)"
    proof -
      have "sorted_wrt (\<lambda>e f. fst e < fst f \<and> im_addrend (snd e) \<le> fst f) (?low @ d # ds)"
        using assms split unfolding cache_ok_def d by simp
      then show ?thesis unfolding sorted_wrt_append by blast
    qed
    then have "fst d \<le> fst e" using e d by auto
    ultimately have "a < fst e" by simp
    moreover have "e \<in> set cache" using e by (rule set_dropWhileD)
    ultimately show ?thesis using base [of e] by (auto simp: holds_addr_def)
  qed
  show ?thesis
  proof (cases "?low = []")
    case True
    then have "cache = dropWhile (\<lambda>e. fst e \<le> a) cache" using split by simp
    then have none: "\<not> holds_addr a (snd e)" if "e \<in> set cache" for e using high that by metis
    then have "find (holds_addr a) (map snd cache) = None" by (auto simp: find_None_iff)
    moreover have "cached_module cache a = None"
      using none [of "hd cache"] True
      by (cases cache) (auto simp: cached_module_def near_module_def holds_addr_def Let_def)
    ultimately show ?thesis by simp
  next
    case False
    let ?c = "last ?low"
    have c: "cache = butlast ?low @ ?c # dropWhile (\<lambda>e. fst e \<le> a) cache"
      using split append_butlast_last_id [OF False] by (metis append_Cons append_Nil append_assoc)
    have cl: "fst ?c \<le> a" using last_in_set [OF False] by (auto dest: set_takeWhileD)
    have before: "\<not> holds_addr a (snd e)" if e: "e \<in> set (butlast ?low)" for e
    proof -
      have "sorted_wrt (\<lambda>e f. fst e < fst f \<and> im_addrend (snd e) \<le> fst f)
          (butlast ?low @ ?c # dropWhile (\<lambda>e. fst e \<le> a) cache)"
        using assms c unfolding cache_ok_def by metis
      then have "im_addrend (snd e) \<le> fst ?c" using e by (auto simp: sorted_wrt_append)
      then show ?thesis using cl by (auto simp: holds_addr_def)
    qed
    have "find (holds_addr a) (map snd cache)
        = (if holds_addr a (snd ?c) then Some (snd ?c) else None)"
    proof -
      have "find (holds_addr a) (map snd (xs @ e # ys)) = (if holds_addr a (snd e) then Some (snd e) else None)"
        if "\<forall>x \<in> set xs. \<not> holds_addr a (snd x)" "\<forall>x \<in> set ys. \<not> holds_addr a (snd x)"
        for xs ys and e :: "addr \<times> iatcall_mod_cache"
        using that by (induction xs) (auto simp: find_None_iff)
      then show ?thesis using before high by (subst c) blast
    qed
    moreover have "near_module cache a = snd ?c" using False by (simp add: near_module_def Let_def)
    ultimately show ?thesis using False by (auto simp: cached_module_def Let_def holds_addr_def)
  qed
qed

section \<open>The exports of a module\<close>

text \<open>The first function with an address is the one that is found under it.\<close>

lemma add_exports:
  assumes "foldF (add_export ex) [0..<n] [] = Inr apis"
  shows "im_sorted apis \<and> (\<forall>i < n. \<exists>a. ex i = Inr a)
    \<and> (\<forall>rva a. map_of apis rva = Some a \<longleftrightarrow>
         (\<exists>i < n. ex i = Inr a \<and> ia_addr a = rva \<and> (\<forall>j < i. \<forall>b. ex j = Inr b \<longrightarrow> ia_addr b \<noteq> rva)))"
  using assms
proof (induction n arbitrary: apis)
  case 0
  then show ?case by (simp add: im_sorted_def)
next
  case (Suc n)
  obtain xs where xs: "foldF (add_export ex) [0..<n] [] = Inr xs" "add_export ex n xs = Inr apis"
    using Suc.prems by (auto simp: foldF_append bindF_Inr_eq)
  then obtain a where a: "ex n = Inr a" "apis = im_insert (ia_addr a) a xs"
    by (auto simp: add_export_def bindF_Inr_eq)
  note IH = Suc.IH [OF xs(1)]
  have key: "ia_addr a \<in> fst ` set xs \<longleftrightarrow> (\<exists>i < n. \<exists>b. ex i = Inr b \<and> ia_addr b = ia_addr a)" (is "?l \<longleftrightarrow> ?r")
  proof
    assume ?l
    then obtain b where "map_of xs (ia_addr a) = Some b"
      by (metis map_of_eq_None_iff option.exhaust)
    then show ?r using IH by blast
  next
    assume ?r
    let ?P = "\<lambda>i. i < n \<and> (\<exists>b. ex i = Inr b \<and> ia_addr b = ia_addr a)"
    obtain i where i: "?P i" "\<forall>j < i. \<not> ?P j"
      using \<open>?r\<close> exists_least_iff [of ?P] by blast
    then have "\<forall>j < i. \<forall>b. ex j = Inr b \<longrightarrow> ia_addr b \<noteq> ia_addr a" by auto
    moreover note i(1)
    ultimately obtain b where "map_of xs (ia_addr a) = Some b" using IH by blast
    then show ?l by (metis map_of_SomeD fst_conv image_eqI)
  qed
  have "map_of apis rva = Some b \<longleftrightarrow> (\<exists>i < Suc n. ex i = Inr b \<and> ia_addr b = rva
      \<and> (\<forall>j < i. \<forall>c. ex j = Inr c \<longrightarrow> ia_addr c \<noteq> rva))" for rva b
  proof (cases "rva = ia_addr a \<and> ia_addr a \<notin> fst ` set xs")
    case True
    then have "map_of apis rva = Some a" using a IH by (simp add: map_of_im_insert)
    moreover have "\<forall>j < n. \<forall>c. ex j = Inr c \<longrightarrow> ia_addr c \<noteq> rva" using True key by blast
    ultimately show ?thesis using a(1) True by (auto simp: less_Suc_eq intro!: exI [of _ n])
  next
    case False
    then have "map_of apis rva = map_of xs rva" using a IH by (auto simp: map_of_im_insert)
    moreover have "\<not> (ex n = Inr b \<and> ia_addr b = rva \<and> (\<forall>j < n. \<forall>c. ex j = Inr c \<longrightarrow> ia_addr c \<noteq> rva))"
      using False key a(1) by auto
    ultimately show ?thesis using IH by (auto simp: less_Suc_eq)
  qed
  then show ?case using IH a im_insert_sorted by (auto simp: less_Suc_eq)
qed

section \<open>Resolved functions stay\<close>

text \<open>Modules and functions are filed under the hashes of their names, in order.\<close>

definition mods_ok :: "iat_modules \<Rightarrow> bool" where
  "mods_ok mods \<longleftrightarrow> im_sorted mods
     \<and> list_all (\<lambda>(k, m). md_nameHash m = k \<and> im_sorted (md_funcs m)
          \<and> list_all (\<lambda>(j, f). fn_nameHash f = j) (md_funcs m)) mods"

lemma mods_ok_Nil [simp]: "mods_ok []"
  by (simp add: mods_ok_def im_sorted_def)

lemma im_insert_set: "im_sorted m \<Longrightarrow> set (im_insert k v m) \<subseteq> insert (k, v) (set m)"
  by (induction k v m rule: im_insert.induct) (auto simp: im_sorted_def split: if_splits)

lemma map_snd_sorted [simp]: "im_sorted (map (\<lambda>(k, m). (k, f k m)) xs) \<longleftrightarrow> im_sorted xs"
  by (simp add: im_sorted_def comp_def case_prod_beta)

lemma mods_ok_insert: "mods_ok mods \<Longrightarrow> mods_ok (im_insert k \<lparr>md_nameHash = k, md_name = nm, md_funcs = []\<rparr> mods)"
  using im_insert_set [of mods k "\<lparr>md_nameHash = k, md_name = nm, md_funcs = []\<rparr>"] im_insert_sorted [of mods]
  unfolding mods_ok_def by (fastforce simp: list_all_iff im_sorted_def)

lemma mods_ok_map:
  assumes "mods_ok mods" "\<And>k m. (k, m) \<in> set mods \<Longrightarrow> md_nameHash (f k m) = md_nameHash m
    \<and> im_sorted (md_funcs (f k m)) \<and> list_all (\<lambda>(j, g). fn_nameHash g = j) (md_funcs (f k m))"
  shows "mods_ok (map (\<lambda>(k, m). (k, f k m)) mods)"
  using assms unfolding mods_ok_def by (fastforce simp: list_all_iff)

lemma mods_ok_add: "mods_ok mods \<Longrightarrow> mods_ok (add_func mh fh nm mods)"
  unfolding add_func_def
proof (rule mods_ok_map)
  fix k m assume a: "mods_ok mods" "(k, m) \<in> set mods"
  then have m: "im_sorted (md_funcs m)" "\<forall>(j, g) \<in> set (md_funcs m). fn_nameHash g = j"
    by (auto simp: mods_ok_def list_all_iff)
  let ?f = "\<lparr>fn_nameHash = fh, fn_name = nm, fn_modHash = mh, fn_IATRVA = 0\<rparr>"
  have "\<forall>(j, g) \<in> set (im_insert fh ?f (md_funcs m)). fn_nameHash g = j"
    using im_insert_set [OF m(1), of fh ?f] m(2) by auto
  then show "md_nameHash (if k = mh then m\<lparr>md_funcs := im_insert fh ?f (md_funcs m)\<rparr> else m) = md_nameHash m
      \<and> im_sorted (md_funcs (if k = mh then m\<lparr>md_funcs := im_insert fh ?f (md_funcs m)\<rparr> else m))
      \<and> list_all (\<lambda>(j, g). fn_nameHash g = j)
          (md_funcs (if k = mh then m\<lparr>md_funcs := im_insert fh ?f (md_funcs m)\<rparr> else m))"
    using m im_insert_sorted by (auto simp: list_all_iff)
qed

lemma map_of_map_val: "map_of (map (\<lambda>(k, m). (k, f k m)) xs) j = map_option (f j) (map_of xs j)"
  by (induction xs) auto

lemma getFuncInfo_add:
  assumes "mods_ok mods"
  shows "getFuncInfo (add_func mh fh nm mods) m f =
    (if m = mh \<and> mh \<in> fst ` set mods \<and> f = fh \<and> getFuncInfo mods mh fh = None
     then Some \<lparr>fn_nameHash = fh, fn_name = nm, fn_modHash = mh, fn_IATRVA = 0\<rparr> else getFuncInfo mods m f)"
proof (cases "map_of mods m")
  case None
  then have "m \<notin> fst ` set mods" by (simp add: map_of_eq_None_iff)
  then show ?thesis using None
    unfolding add_func_def getFuncInfo_def map_of_map_val by auto
next
  case (Some md)
  then have "(m, md) \<in> set mods" by (rule map_of_SomeD)
  then have "im_sorted (md_funcs md)" "m \<in> fst ` set mods"
    using assms by (auto simp: mods_ok_def list_all_iff rev_image_eqI)
  moreover have "fh \<in> fst ` set (md_funcs md) \<longleftrightarrow> map_of (md_funcs md) fh \<noteq> None"
    by (simp add: map_of_eq_None_iff)
  ultimately show ?thesis using Some
    by (cases "m = mh"; cases "map_of (md_funcs md) fh")
      (simp_all add: add_func_def getFuncInfo_def map_of_map_val map_of_im_insert)
qed

lemma getFuncInfo_insert:
  assumes "mods_ok mods"
  shows "getFuncInfo (im_insert k \<lparr>md_nameHash = k, md_name = nm, md_funcs = []\<rparr> mods) m f = getFuncInfo mods m f"
proof -
  have s: "im_sorted mods" using assms by (simp add: mods_ok_def)
  show ?thesis
    unfolding getFuncInfo_def map_of_im_insert [OF s]
    by (auto simp: map_of_eq_None_iff [symmetric] split: option.split)
qed

text \<open>What filing a call keeps, and what it yields: the three ways the function ends.\<close>

lemma hit_cases:
  assumes "hitIATCallModule I i fr = Inr ((r, i'), fr')"
  obtains "ic_result_addr i = 0" "r = None" "i' = i" "fr' = fr"
  | cache where "ic_result_addr i \<noteq> 0" "r = None"
      "i' = i\<lparr>ic_rtflags := IATCALL_FLAG_SUSPECT I, ic_modhash := 0, ic_funchash := 0\<rparr>"
      "fr' = fr\<lparr>m_cache := cache\<rparr>"
  | ap nm mh fh cache where "ic_result_addr i \<noteq> 0" "r = Some (mh, fh)"
      "mh = nhash_lower I nm" "fh = nhash_name I (ia_name ap)"
      "getExport I (ic_result_addr i) (m_cache fr) = Inr (Some ap, cache)"
      "i' = i\<lparr>ic_modhash := mh, ic_funchash := fh,
         ic_rtflags := ic_rtflags i AND IATCALL_FLAG_KEEPMARK_MASK I OR IATCALL_FLAG_TRACEDOUT I\<rparr>"
      "fr' = fr\<lparr>m_cache := cache, m_mods := add_func mh fh (ia_name ap)
         (im_insert mh \<lparr>md_nameHash = mh, md_name = nm, md_funcs = []\<rparr> (m_mods fr))\<rparr>"
  | cache where "ic_result_addr i \<noteq> 0" "r = None" "i' = i" "fr' = fr\<lparr>m_cache := cache\<rparr>"
proof (cases "ic_result_addr i = 0")
  case True
  then have "r = None" "i' = i" "fr' = fr" using assms by (simp_all add: hitIATCallModule_def)
  then show ?thesis using True that(1) by blast
next
  case r: False
  then obtain api cache where g: "getExport I (ic_result_addr i) (m_cache fr) = Inr (api, cache)"
    using assms by (auto simp: hitIATCallModule_def bindS_Inr_eq)
  show ?thesis
  proof (cases api)
    case None
    then have "r = None" "fr' = fr\<lparr>m_cache := cache\<rparr>"
        "i' = i\<lparr>ic_rtflags := IATCALL_FLAG_SUSPECT I, ic_modhash := 0, ic_funchash := 0\<rparr>"
      using assms r g by (simp_all add: hitIATCallModule_def bindS_def)
    then show ?thesis using r that(2) by blast
  next
    case (Some ap)
    show ?thesis
    proof (cases "Option.bind (dbg_module I (ic_result_addr i)) (\<lambda>tm. findModName (tm_path tm))")
      case None
      then have "r = None" "i' = i" "fr' = fr\<lparr>m_cache := cache\<rparr>"
        using assms r g Some by (simp_all add: hitIATCallModule_def bindS_def)
      then show ?thesis using r that(4) by blast
    next
      case nm: (Some nm)
      let ?mh = "nhash_lower I nm" and ?fh = "nhash_name I (ia_name ap)"
      have "r = Some (?mh, ?fh)"
          "i' = i\<lparr>ic_modhash := ?mh, ic_funchash := ?fh,
             ic_rtflags := ic_rtflags i AND IATCALL_FLAG_KEEPMARK_MASK I OR IATCALL_FLAG_TRACEDOUT I\<rparr>"
          "fr' = fr\<lparr>m_cache := cache, m_mods := add_func ?mh ?fh (ia_name ap)
             (im_insert ?mh \<lparr>md_nameHash = ?mh, md_name = nm, md_funcs = []\<rparr> (m_mods fr))\<rparr>"
        using assms r g Some nm by (simp_all add: hitIATCallModule_def bindS_def Let_def)
      then show ?thesis using r g Some that(3) by blast
    qed
  qed
qed

lemma hit_result:
  assumes "hitIATCallModule I i fr = Inr ((r, i'), fr')"
  shows "ic_cmdaddr i' = ic_cmdaddr i \<and> ic_result_addr i' = ic_result_addr i \<and> ic_callto i' = ic_callto i
    \<and> ic_calltype i' = ic_calltype i \<and> ic_szop i' = ic_szop i \<and> ic_opcode i' = ic_opcode i
    \<and> m_calls fr' = m_calls fr \<and> m_table fr' = m_table fr \<and> m_vcpu fr' = m_vcpu fr
    \<and> m_flushFlags fr' = m_flushFlags fr \<and> m_mmaddrEnd fr' = m_mmaddrEnd fr
    \<and> (mods_ok (m_mods fr) \<longrightarrow> mods_ok (m_mods fr'))"
  using assms by (cases rule: hit_cases) (simp_all add: mods_ok_insert mods_ok_add)

lemma hit_files:
  assumes "hitIATCallModule I i fr = Inr ((Some (mh, fh), i'), fr')" "mods_ok (m_mods fr)"
  shows "ic_modhash i' = mh \<and> ic_funchash i' = fh
    \<and> (\<exists>f. getFuncInfo (m_mods fr') mh fh = Some f
         \<and> (getFuncInfo (m_mods fr) mh fh = None \<longrightarrow> fn_IATRVA f = 0 \<and> fh = nhash_name I (fn_name f)))
    \<and> (\<forall>m g f. getFuncInfo (m_mods fr) m g = Some f \<longrightarrow> getFuncInfo (m_mods fr') m g = Some f)"
  using assms(1)
proof (cases rule: hit_cases)
  case (3 ap nm mh' fh' cache)
  let ?mods = "im_insert mh \<lparr>md_nameHash = mh, md_name = nm, md_funcs = []\<rparr> (m_mods fr)"
  have k: "mh \<in> fst ` set ?mods" by (simp add: im_insert_keys)
  have g: "getFuncInfo (m_mods fr') m f = (if m = mh \<and> f = fh \<and> getFuncInfo (m_mods fr) mh fh = None
      then Some \<lparr>fn_nameHash = fh, fn_name = ia_name ap, fn_modHash = mh, fn_IATRVA = 0\<rparr>
      else getFuncInfo (m_mods fr) m f)" for m f
    using 3 k getFuncInfo_add [OF mods_ok_insert [OF assms(2)], of mh fh "ia_name ap" mh nm m f]
      getFuncInfo_insert [OF assms(2)] by simp
  show ?thesis using 3 g by (cases "getFuncInfo (m_mods fr) mh fh") auto
qed simp_all

end
