(* ===== verification/IatTrace.thy ===== *)
theory IatTrace
  imports IatExport
begin

text \<open>
  Tracing a call to the import it reaches (\<open>traceIAT\<close>), the commands that trace, list and refine calls, and
  finding the extent of an image (\<open>findCalls\<close>), \<open>xvmiatcallframe.cpp\<close>. The CPU is the one of \<open>TraceCPU\<close>.
\<close>

section \<open>What a trace that arrived means\<close>

text \<open>The target is taken; the flags keep their marks only.\<close>

definition accept :: "'v iat_env \<Rightarrow> addr \<Rightarrow> addr \<Rightarrow> iatcall_info \<Rightarrow> iatcall_info" where
  "accept I retaddr addrip i =
     i\<lparr>ic_retaddr := retaddr, ic_result_addr := addrip,
       ic_rtflags := ic_rtflags i AND IATCALL_FLAG_KEEPMARK_MASK I\<rparr>"

definition nop_head :: "iatcall_info \<Rightarrow> iatcall_info" where
  "nop_head i =
     (if ic_result_addr i \<noteq> 0 \<and> \<not> ic_hasHead i \<and> ic_ophead i = 0x90 then i\<lparr>ic_hasHead := True\<rparr> else i)"

type_synonym 'v tracer =
  "iatcall_info \<Rightarrow> 'v xVMIATCallFrame \<Rightarrow> (bool \<times> iatcall_info, 'v xVMIATCallFrame) outcome"

definition or_rtflags :: "int32 \<Rightarrow> iatcall_info \<Rightarrow> iatcall_info" where
  "or_rtflags f i = i\<lparr>ic_rtflags := ic_rtflags i OR f\<rparr>"

text \<open>
  \<open>vi\<close> is how far the stack pointer is from where it began. A call that left the stack as it was, or
  lower, may have a one-byte push in front; if it has not, the call is traced again as a jump.
\<close>

definition arrived_call ::
  "'v iat_env \<Rightarrow> 'v tracer \<Rightarrow> int \<Rightarrow> addr \<Rightarrow> addr \<Rightarrow> 'v xVMDebugCPU \<Rightarrow> iatcall_info \<Rightarrow> 'v xVMIATCallFrame
    \<Rightarrow> (iatcall_info, 'v xVMIATCallFrame) outcome" where
  "arrived_call I retry vi retaddr addrip c i fr =
     (let near = retaddr - ic_cmdaddr i \<le> 8
      in if vi = 4 then Inr (nop_head (if near then accept I retaddr addrip i else i), fr)
         else if vi \<le> 0 then
           (let (head, c1) = checkESPSpace (iat_cpu I) [ic_ophead i] (\<bar>vi\<bar> + 4) c; fr1 = fr\<lparr>m_vcpu := Some c1\<rparr>
            in if head then
                 Inr (nop_head (if near then (accept I retaddr addrip i)\<lparr>ic_hasHead := True\<rparr> else i), fr1)
               else bindS (retry (i\<lparr>ic_calltype := iatcall_jmp\<rparr>) fr1) (\<lambda>(found, cp) fr2.
                 Inr (nop_head (if found then or_rtflags (IATCALL_FLAG_SUSPECT I) cp else i), fr2)))
         else Inr (nop_head i, fr))"

definition arrived_jmp ::
  "'v iat_env \<Rightarrow> int \<Rightarrow> addr \<Rightarrow> addr \<Rightarrow> 'v xVMDebugCPU \<Rightarrow> iatcall_info \<Rightarrow> 'v xVMIATCallFrame
    \<Rightarrow> (iatcall_info, 'v xVMIATCallFrame) outcome" where
  "arrived_jmp I vi retaddr addrip c i fr =
     (let near = retaddr = 0 \<or> retaddr - ic_cmdaddr i \<le> 6
      in if vi = 0 then Inr (nop_head (if near then accept I retaddr addrip i else i), fr)
         else if vi < 0 then
           (let (head, c1) = checkESPSpace (iat_cpu I) [ic_ophead i] \<bar>vi\<bar> c
            in Inr (nop_head (if head \<and> near
                 then or_rtflags (IATCALL_FLAG_SUSPECT I) ((accept I retaddr addrip i)\<lparr>ic_hasHead := True\<rparr>) else i),
                 fr\<lparr>m_vcpu := Some c1\<rparr>))
         else Inr (nop_head i, fr))"

definition arrived ::
  "xvmdbg_config \<Rightarrow> 'v iat_env \<Rightarrow> 'v tracer \<Rightarrow> 'v xVMDebugCPU \<Rightarrow> iatcall_info \<Rightarrow> 'v xVMIATCallFrame
    \<Rightarrow> (iatcall_info, 'v xVMIATCallFrame) outcome" where
  "arrived cfg I retry c i fr =
     (let vi = isValidIATCall (iat_cpu I) cfg c; i1 = or_rtflags (IATCALL_FLAG_TRACEFAILD I) i
      in if vi = -1 then Inr (i1, fr)
         else
           (let addrip = c_RIP c; (buf, c1) = access_read_physical (iat_cpu I) (c_ESP c) [0, 0, 0, 0] c;
                retaddr = le_word buf; i2 = i1\<lparr>ic_hasHead := False, ic_retaddr := 0\<rparr>; fr1 = fr\<lparr>m_vcpu := Some c1\<rparr>
            in case ic_calltype i2 of
                 iatcall_call \<Rightarrow> arrived_call I retry vi retaddr addrip c1 i2 fr1
               | iatcall_jmp \<Rightarrow> arrived_jmp I vi retaddr addrip c1 i2 fr1
               | iatcall_callmem \<Rightarrow>
                   Inr (if vi = 4 \<and> retaddr = ic_cmdaddr i2 + 6 then accept I retaddr addrip i2 else i2, fr1)
               | iatcall_other n \<Rightarrow> Inr (i2, fr1)
               | _ \<Rightarrow>
                   Inr (if vi = 0 \<and> (retaddr = 0 \<or> retaddr - ic_cmdaddr i2 \<le> 6)
                        then accept I retaddr addrip i2 else i2, fr1)))"

section \<open>Tracing\<close>

fun trace_loop ::
  "xvmdbg_config \<Rightarrow> 'v iat_env \<Rightarrow> 'v tracer \<Rightarrow> nat \<Rightarrow> iatcall_info \<Rightarrow> 'v xVMIATCallFrame
    \<Rightarrow> (iatcall_info, 'v xVMIATCallFrame) outcome" where
  "trace_loop cfg I retry 0 i fr = Inr (i, fr)"
| "trace_loop cfg I retry (Suc n) i fr =
     (case m_vcpu fr of
        None \<Rightarrow> Inl Null_deref
      | Some c \<Rightarrow>
          if DEOBFUSCATE_ESP (iat_cpu I) < c_ESP c \<and> 8 < c_ESP c - DEOBFUSCATE_ESP (iat_cpu I)
          then Inr (or_rtflags (IATCALL_FLAG_TRACEFAILD I) i, fr)
          else (let (r, c1) = vm_step I c; fr1 = fr\<lparr>m_vcpu := Some c1\<rparr>
                in case r of
                     VCPU_LOOPRET_FINISHED \<Rightarrow> arrived cfg I retry c1 i fr1
                   | VCPU_LOOPRET_NORMAL \<Rightarrow> trace_loop cfg I retry n i fr1
                   | VCPU_LOOPRET_other m \<Rightarrow>
                       Inr (i\<lparr>ic_rtflags := ic_rtflags i AND IATCALL_FLAG_KEEPMARK_MASK I
                              OR IATCALL_FLAG_TRACEFAILD I\<rparr>, fr1)))"

text \<open>At the end: a call with a target is filed. A target that an earlier trace left counts too.\<close>

definition file_result :: "'v iat_env \<Rightarrow> 'v tracer" where
  "file_result I i fr =
     bindS (if ic_result_addr i \<noteq> 0 then hitIATCallModule I i fr else Inr ((None, i), fr)) (\<lambda>(f, i') fr'.
       Inr ((ic_result_addr i' \<noteq> 0, i'), fr'))"

definition trace_from :: "xvmdbg_config \<Rightarrow> 'v iat_env \<Rightarrow> 'v tracer \<Rightarrow> addr \<Rightarrow> 'v tracer" where
  "trace_from cfg I retry a i fr =
     (case m_vcpu fr of
        None \<Rightarrow> Inl Null_deref
      | Some c \<Rightarrow>
          bindS (trace_loop cfg I retry (nat (sint (maxIATTraceLines cfg)))
                   (i\<lparr>ic_rtflags := ic_rtflags i AND IATCALL_FLAG_KEEPMARK_MASK I OR IATCALL_FLAG_REACHLIMIT I\<rparr>)
                   (fr\<lparr>m_vcpu := Some (initIATrace (iat_cpu I) a (init_r3 I (Some False) c))\<rparr>))
            (file_result I))"

definition traceIAT_with :: "xvmdbg_config \<Rightarrow> 'v iat_env \<Rightarrow> 'v tracer \<Rightarrow> 'v tracer" where
  "traceIAT_with cfg I retry i fr =
     (if ic_calltype i = iatcall_memaddr then
        (let (n, p) = read_ptr I (ic_callto i) [0, 0, 0, 0]
         in if n = 4 then
              bindS (getExport I p (m_cache fr)) (\<lambda>api cache1.
                let fr1 = fr\<lparr>m_cache := cache1\<rparr>
                in if api \<noteq> None then
                     bindS (hitIATCallModule I (i\<lparr>ic_retaddr := ic_cmdaddr i + word_of_int (ic_szop i),
                              ic_result_addr := p\<rparr>) fr1) (\<lambda>(f, i') fr'. Inr ((ic_result_addr i' \<noteq> 0, i'), fr'))
                   else trace_from cfg I retry p i fr1)
            else Inr ((False, or_rtflags (IATCALL_FLAG_TRACEFAILD I) i), fr))
      else trace_from cfg I retry (ic_cmdaddr i) i fr)"

text \<open>
  Only a call of type \<open>iatcall_call\<close> is traced again, as a jump; so the function calls itself once at most.
\<close>

definition traceIAT :: "xvmdbg_config \<Rightarrow> 'v iat_env \<Rightarrow> 'v tracer" where
  "traceIAT cfg I = traceIAT_with cfg I (traceIAT_with cfg I (\<lambda>i fr. Inl Diverges))"

section \<open>The list\<close>

definition testFlushFlags :: "int32 \<Rightarrow> 'v xVMIATCallFrame \<Rightarrow> bool" where
  "testFlushFlags flags fr \<longleftrightarrow> m_flushFlags fr AND flags = flags"

definition type_flag :: "IATCall_Type \<Rightarrow> int32" where
  "type_flag t =
     (case t of
        iatcall_call \<Rightarrow> IATCF_FLAG_SHOWCALL
      | iatcall_jmp \<Rightarrow> IATCF_FLAG_SHOWJMP
      | iatcall_callmem \<Rightarrow> IATCF_FLAG_SHOWCALLMEM
      | iatcall_jmpmem \<Rightarrow> IATCF_FLAG_SHOWJMPMEM
      | iatcall_pushret \<Rightarrow> IATCF_FLAG_SHOWPUSHRET
      | iatcall_memaddr \<Rightarrow> IATCF_FLAG_SHOWMEMADDR
      | iatcall_other n \<Rightarrow> 0)"

definition call_shown :: "'v iat_env \<Rightarrow> 'v xVMIATCallFrame \<Rightarrow> iatcall_info \<Rightarrow> bool" where
  "call_shown I fr i \<longleftrightarrow>
     (let f = ic_rtflags i
      in if has f (IATCALL_FLAG_TRACEFAILD I) \<and> \<not> testFlushFlags IATCF_FLAG_SHOWFAILD fr then False
         else if has f (IATCALL_FLAG_REACHLIMIT I) \<and> \<not> testFlushFlags IATCF_FLAG_SHOWRTLIMIT fr then False
         else if \<not> testFlushFlags
                (if has f (IATCALL_FLAG_SUSPECT I) then IATCF_FLAG_SHOWSUSPECT
                 else if has f (IATCALL_FLAG_TRACEDOUT I) \<and> \<not> has f (IATCALL_FLAG_MARKINVAILD I)
                 then IATCF_FLAG_SHOWKNOWN else IATCF_FLAG_SHOWUNKNOWN) fr then False
         else testFlushFlags (type_flag (ic_calltype i)) fr)"

text \<open>Every call gets the next number, shown or not.\<close>

fun number_calls :: "32 word \<Rightarrow> iatcall_info keyed \<Rightarrow> iatcall_info keyed" where
  "number_calls n [] = []"
| "number_calls n ((k, i) # xs) = (k, i\<lparr>ic_addr := n\<rparr>) # number_calls (n + 1) xs"

definition flushCalls :: "'v iat_env \<Rightarrow> 'v xVMIATCallFrame \<Rightarrow> 'v xVMIATCallFrame" where
  "flushCalls I fr =
     (let calls = number_calls 1 (m_calls fr)
      in fr\<lparr>m_calls := calls, m_table := filter (call_shown I fr) (map snd calls)\<rparr>)"

definition setFlushFlags ::
  "'v iat_env \<Rightarrow> int32 \<Rightarrow> bool \<Rightarrow> bool \<Rightarrow> 'v xVMIATCallFrame \<Rightarrow> 'v xVMIATCallFrame" where
  "setFlushFlags I flags on replace fr =
     flushCalls I (fr\<lparr>m_flushFlags :=
       (if replace then (if on then flags else 0)
        else if on then m_flushFlags fr OR flags else m_flushFlags fr AND NOT flags)\<rparr>)"

section \<open>Commands\<close>

definition openCPU :: "'v iat_env \<Rightarrow> 'v xVMIATCallFrame \<Rightarrow> 'v xVMIATCallFrame" where
  "openCPU I fr = (if m_vcpu fr = None then fr\<lparr>m_vcpu := Some (init_r3 I None (new_cpu I))\<rparr> else fr)"

definition closeCPU :: "'v xVMIATCallFrame \<Rightarrow> 'v xVMIATCallFrame" where
  "closeCPU fr = fr\<lparr>m_vcpu := None\<rparr>"

definition reset_iat :: "'v xVMIATCallFrame \<Rightarrow> 'v xVMIATCallFrame" where
  "reset_iat fr = (closeCPU fr)\<lparr>m_cache := []\<rparr>"

text \<open>The calls named by the rows of the table, one after the other.\<close>

definition trace_one :: "xvmdbg_config \<Rightarrow> 'v iat_env \<Rightarrow> addr \<Rightarrow> 'v xVMIATCallFrame \<Rightarrow> fault + 'v xVMIATCallFrame" where
  "trace_one cfg I a fr =
     (case map_of (m_calls fr) a of
        None \<Rightarrow> Inr fr
      | Some i \<Rightarrow>
          (case traceIAT cfg I i fr of
             Inl f \<Rightarrow> Inl f
           | Inr ((ok, i'), fr') \<Rightarrow> Inr (fr'\<lparr>m_calls := kl_upd a i' (m_calls fr')\<rparr>)))"

definition traceSelected :: "xvmdbg_config \<Rightarrow> 'v iat_env \<Rightarrow> 'v xVMIATCallFrame \<Rightarrow> fault + 'v xVMIATCallFrame" where
  "traceSelected cfg I fr =
     bindF (foldF (trace_one cfg I) (map ic_cmdaddr (filter ic_selected (m_table fr))) (openCPU I fr)) (\<lambda>fr1.
       Inr (closeCPU (flushCalls I fr1)))"

text \<open>
  A call whose target is itself a resolved call, or the byte before one with a head, is a call of a stub of the program.
\<close>

definition stub_of :: "addr \<Rightarrow> iatcall_info keyed \<Rightarrow> iatcall_info option" where
  "stub_of a calls =
     (case map_of calls a of
        Some i \<Rightarrow> Some i
      | None \<Rightarrow>
          (case map_of calls (a + 1) of
             Some i \<Rightarrow> if ic_calltype i \<in> {iatcall_call, iatcall_jmp} \<and> ic_hasHead i then Some i else None
           | None \<Rightarrow> None))"

definition refine_one :: "'v iat_env \<Rightarrow> addr \<Rightarrow> iatcall_info keyed \<Rightarrow> iatcall_info keyed" where
  "refine_one I a calls =
     (case map_of calls a of
        None \<Rightarrow> calls
      | Some i \<Rightarrow>
          if ic_calltype i = iatcall_call
             \<and> (case stub_of (ic_callto i) calls of None \<Rightarrow> False | Some s \<Rightarrow> has (ic_rtflags s) (IATCALL_FLAG_TRACEDOUT I))
          then kl_upd a (i\<lparr>ic_rtflags := IATCALL_FLAG_TRACEDOUT I OR IATCALL_FLAG_MARKINVAILD I
                 OR IATCALL_FLAG_SUSPECT I\<rparr>) calls
          else calls)"

definition refineResults :: "'v iat_env \<Rightarrow> 'v xVMIATCallFrame \<Rightarrow> 'v xVMIATCallFrame" where
  "refineResults I fr =
     flushCalls I (fr\<lparr>m_calls := fold (refine_one I) (map ic_cmdaddr (m_table fr)) (m_calls fr)\<rparr>)"

definition traceAll :: "xvmdbg_config \<Rightarrow> 'v iat_env \<Rightarrow> 'v xVMIATCallFrame \<Rightarrow> fault + 'v xVMIATCallFrame" where
  "traceAll cfg I fr =
     bindF (foldF (trace_one cfg I) (map ic_cmdaddr (m_table fr)) (openCPU I fr)) (\<lambda>fr1.
       Inr (closeCPU (refineResults I fr1)))"

text \<open>The pointers of a table in the debuggee, if all of it can be read.\<close>

definition table_at :: "'v iat_env \<Rightarrow> addr \<Rightarrow> int \<Rightarrow> addr list option" where
  "table_at I a sz =
     (let n = nat (sz div 4)
      in case read_array I a (of_nat (n * 4)) of
           None \<Rightarrow> None
         | Some buf \<Rightarrow> Some (map (\<lambda>i. le_word (take 4 (drop (4 * i) buf))) [0..<n]))"

definition table_call :: "addr \<Rightarrow> iatcall_info" where
  "table_call a =
     zero_info\<lparr>ic_cmdaddr := a, ic_fixedState := fixed_none, ic_callto := a, ic_size := 1, ic_type := 0,
       ic_calltype := iatcall_memaddr\<rparr>"

definition add_entry ::
  "'v iat_env \<Rightarrow> addr \<Rightarrow> nat \<times> addr \<Rightarrow> iatcall_info keyed \<Rightarrow> iatcall_info keyed" where
  "add_entry I a e calls =
     (let cmd = a + of_nat (fst e * 4)
      in if fst (dbg_read I (snd e) (junk I 4)) \<noteq> 4 then calls
         else if map_of calls cmd = None then kl_set (call_place I) cmd (table_call cmd) calls else calls)"

definition addArrayToIATCall :: "'v iat_env \<Rightarrow> addr \<Rightarrow> int \<Rightarrow> 'v xVMIATCallFrame \<Rightarrow> 'v xVMIATCallFrame" where
  "addArrayToIATCall I a sz fr =
     flushCalls I (case table_at I a sz of
                     None \<Rightarrow> fr
                   | Some ps \<Rightarrow> fr\<lparr>m_calls := fold (add_entry I a) (zip [0..<length ps] ps) (m_calls fr)\<rparr>)"

text \<open>
  Every entry is traced; either its slot gets the target, or the function it reaches is told its slot.
  The first component of the state is the list of the writes to the debuggee.
\<close>

definition area_entry ::
  "xvmdbg_config \<Rightarrow> 'v iat_env \<Rightarrow> addr \<Rightarrow> bool \<Rightarrow> nat \<times> addr
    \<Rightarrow> (addr \<times> byte list) list \<times> 'v xVMIATCallFrame \<Rightarrow> fault + (addr \<times> byte list) list \<times> 'v xVMIATCallFrame" where
  "area_entry cfg I a onlyFix e s =
     (let cmd = a + of_nat (fst e * 4)
      in if fst (dbg_read I (snd e) (junk I 4)) \<noteq> 4 then Inr s
         else (case traceIAT cfg I (table_call cmd) (snd s) of
                 Inl f \<Rightarrow> Inl f
               | Inr ((ok, i), fr1) \<Rightarrow>
                   if \<not> ok then Inr (fst s, fr1)
                   else if onlyFix then Inr (fst s @ [(cmd, le_bytes (ic_result_addr i))], fr1)
                   else (case hitIATCallModule I i fr1 of
                           Inl f \<Rightarrow> Inl f
                         | Inr ((None, i'), fr2) \<Rightarrow> Inr (fst s, fr2)
                         | Inr ((Some (mh, fh), i'), fr2) \<Rightarrow>
                             Inr (fst s, fr2\<lparr>m_mods := upd_func mh fh (\<lambda>f. f\<lparr>fn_IATRVA := ic_callto i'\<rparr>) (m_mods fr2)\<rparr>))))"

definition setIATArea ::
  "xvmdbg_config \<Rightarrow> 'v iat_env \<Rightarrow> addr \<Rightarrow> int \<Rightarrow> bool \<Rightarrow> 'v xVMIATCallFrame
    \<Rightarrow> fault + (addr \<times> byte list) list \<times> 'v xVMIATCallFrame" where
  "setIATArea cfg I a sz onlyFix fr =
     bindF (case table_at I a sz of
              None \<Rightarrow> Inr ([], openCPU I fr)
            | Some ps \<Rightarrow> foldF (area_entry cfg I a onlyFix) (zip [0..<length ps] ps) ([], openCPU I fr)) (\<lambda>(ws, fr1).
       Inr (ws, closeCPU (flushCalls I fr1)))"

section \<open>The extent of an image\<close>

text \<open>
  The sizes in the headers of the image that owns a block; a header that is not there leaves zeros. The end by
  the blocks of memory: as long as the next one has the same owner.
\<close>

definition image_sizes :: "'v iat_env \<Rightarrow> addr \<Rightarrow> 32 word \<times> 32 word" where
  "image_sizes I owner =
     (let dos = snd (host_read (iat_cpu I) owner (replicate 64 0))
      in if le_word (take 2 dos) = 0x5A4D then
           (let nt = snd (host_read (iat_cpu I) (owner + le_word (take 4 (drop 60 dos))) (replicate 248 0))
            in (if le_word (take 4 nt) = 0x4550 then le_word (take 4 (drop 80 nt)) else 0, le_word (take 4 (drop 56 nt))))
         else (0, 0))"

partial_function (option) blocks_end :: "'v iat_env \<Rightarrow> addr \<Rightarrow> t_memory option \<Rightarrow> addr \<Rightarrow> addr option" where
  "blocks_end I owner mm stop =
     (case mm of
        None \<Rightarrow> Some stop
      | Some m \<Rightarrow>
          if mm_owner m \<noteq> owner then Some stop
          else blocks_end I owner (dbg_memory I (mm_base m + mm_size m)) (mm_base m + mm_size m))"

declare blocks_end.simps [code]

definition image_extent :: "'v iat_env \<Rightarrow> t_memory \<Rightarrow> (addr \<times> addr) option" where
  "image_extent I mem =
     (if mm_owner mem = 0 then Some (0, 0)
      else (case blocks_end I (mm_owner mem) (dbg_memory I (mm_owner mem)) 0 of
              None \<Rightarrow> None
            | Some stop \<Rightarrow>
                (let (szImage, align) = image_sizes I (mm_owner mem); d = stop - (mm_owner mem + szImage)
                 in Some (if (if d <s 0 then - d else d) < max align 0x1000 then (mm_owner mem, stop) else (0, 0)))))"

text \<open>\<open>findCalls\<close> for the selected block; a walk over the blocks that does not end is the fault \<open>Diverges\<close>.\<close>

definition findCalls ::
  "'v iat_env \<Rightarrow> addr \<Rightarrow> bool \<Rightarrow> 'v xVMIATCallFrame \<Rightarrow> fault + 'v xVMIATCallFrame" where
  "findCalls I a beMerge fr =
     (case (if a = 0 then None else dbg_memory I a) of
        None \<Rightarrow> Inr fr
      | Some mem \<Rightarrow>
          if mm_size mem < 1 then Inr fr
          else (case image_extent I mem of
                  None \<Rightarrow> Inl Diverges
                | Some (imgbase, imgend) \<Rightarrow>
                    (let fr1 = (if beMerge then fr else fr\<lparr>m_calls := []\<rparr>);
                         (n, buf) = host_read (iat_cpu I) (mm_base mem) (junk I (unat (mm_size mem)))
                     in bindF (if 6 \<le> n then searchCallsInMemory I (mm_base mem) (take (nat n) buf) imgbase imgend fr1
                               else Inr fr1) (\<lambda>fr2.
                          Inr (flushCalls I fr2)))))"

definition setEndOfImageForMemaddr ::
  "'v iat_env \<Rightarrow> addr \<Rightarrow> bool \<Rightarrow> 'v xVMIATCallFrame \<Rightarrow> fault + 'v xVMIATCallFrame" where
  "setEndOfImageForMemaddr I a bReset fr =
     (if bReset then Inr (fr\<lparr>m_mmaddrEnd := 0\<rparr>)
      else case (if a = 0 then None else dbg_memory I a) of
             None \<Rightarrow> Inr fr
           | Some mem \<Rightarrow>
               if mm_size mem < 1 then Inr fr
               else (case image_extent I mem of
                       None \<Rightarrow> Inl Diverges
                     | Some (imgbase, imgend) \<Rightarrow>
                         Inr (if imgbase \<le> a \<and> a < imgend
                              then fr\<lparr>m_mmaddrEnd := mm_base mem + mm_size mem\<rparr> else fr)))"

section \<open>The recursion is the one of the code\<close>

text \<open>Nothing but the call type decides whether the call is traced again, and tracing keeps it.\<close>

lemma nop_head_keeps [simp]:
  "ic_calltype (nop_head i) = ic_calltype i" "ic_cmdaddr (nop_head i) = ic_cmdaddr i"
  "ic_result_addr (nop_head i) = ic_result_addr i"
  by (simp_all add: nop_head_def)

lemma accept_keeps [simp]:
  "ic_calltype (accept I r a i) = ic_calltype i" "ic_cmdaddr (accept I r a i) = ic_cmdaddr i"
  "ic_result_addr (accept I r a i) = a"
  by (simp_all add: accept_def)

lemma or_rtflags_keeps [simp]:
  "ic_calltype (or_rtflags f i) = ic_calltype i" "ic_cmdaddr (or_rtflags f i) = ic_cmdaddr i"
  "ic_result_addr (or_rtflags f i) = ic_result_addr i"
  by (simp_all add: or_rtflags_def)

lemma arrived_retry:
  assumes "ic_calltype i = iatcall_call \<Longrightarrow> (\<And>j g. ic_calltype j = iatcall_jmp \<Longrightarrow> r j g = r' j g)"
  shows "arrived cfg I r c i fr = arrived cfg I r' c i fr"
proof (cases "ic_calltype i = iatcall_call")
  case True
  have "arrived_call I r vi retaddr addrip d j g = arrived_call I r' vi retaddr addrip d j g" for vi retaddr addrip d j g
  proof -
    have "r (j\<lparr>ic_calltype := iatcall_jmp\<rparr>) = r' (j\<lparr>ic_calltype := iatcall_jmp\<rparr>)"
      using assms True by (auto simp: fun_eq_iff)
    then show ?thesis unfolding arrived_call_def by (simp only:)
  qed
  then show ?thesis unfolding arrived_def by (simp only:)
next
  case False
  then show ?thesis by (cases "ic_calltype i") (simp_all add: arrived_def Let_def)
qed

lemma trace_loop_retry:
  assumes "ic_calltype i = iatcall_call \<Longrightarrow> (\<And>j g. ic_calltype j = iatcall_jmp \<Longrightarrow> r j g = r' j g)"
  shows "trace_loop cfg I r n i fr = trace_loop cfg I r' n i fr"
  using assms
proof (induction n arbitrary: i fr)
  case (Suc n)
  have "arrived cfg I r c i = arrived cfg I r' c i" for c
    by (rule ext, rule arrived_retry) (use Suc.prems in blast)
  moreover have "trace_loop cfg I r n i = trace_loop cfg I r' n i"
    by (rule ext, rule Suc.IH) (use Suc.prems in blast)
  ultimately show ?case unfolding trace_loop.simps by (simp only:)
qed simp

lemma traceIAT_with_retry:
  assumes "ic_calltype i = iatcall_call \<Longrightarrow> (\<And>j g. ic_calltype j = iatcall_jmp \<Longrightarrow> r j g = r' j g)"
  shows "traceIAT_with cfg I r i fr = traceIAT_with cfg I r' i fr"
proof -
  have "trace_loop cfg I r n (i\<lparr>ic_rtflags := f\<rparr>) g = trace_loop cfg I r' n (i\<lparr>ic_rtflags := f\<rparr>) g" for n f g
    by (rule trace_loop_retry) (use assms in simp)
  then have "trace_from cfg I r a i = trace_from cfg I r' a i" for a
    by (auto simp: trace_from_def fun_eq_iff split: option.split)
  then show ?thesis unfolding traceIAT_with_def by (simp only:)
qed

lemma traceIAT_unfold: "traceIAT cfg I i fr = traceIAT_with cfg I (traceIAT cfg I) i fr"
proof -
  have "traceIAT_with cfg I (\<lambda>i fr. Inl Diverges) j g = traceIAT cfg I j g" if "ic_calltype j = iatcall_jmp" for j g
    unfolding traceIAT_def by (rule traceIAT_with_retry) (use that in simp)
  then have "traceIAT_with cfg I (traceIAT_with cfg I (\<lambda>i fr. Inl Diverges)) i fr
      = traceIAT_with cfg I (traceIAT cfg I) i fr"
    by (intro traceIAT_with_retry)
  then show ?thesis by (simp only: traceIAT_def)
qed

end
