(* ===== verification/IatFix.thy ===== *)
theory IatFix
  imports IatTrace
begin

text \<open>
  Rewriting a resolved call in the debuggee (\<open>fixIATCall\<close>), and what the operations on the calls keep.
\<close>

section \<open>Fixing a call\<close>

text \<open>
  The writes to the debuggee, and the call with its new state. \<open>direct\<close> writes a jump or call of the target,
  else one through the slot of the import table.
\<close>

definition near_code :: "byte \<Rightarrow> addr \<Rightarrow> addr \<Rightarrow> byte list" where
  "near_code op at to = op # le_bytes (to - at - 5)"

definition slot_code :: "byte \<Rightarrow> addr \<Rightarrow> byte list" where
  "slot_code op2 slot = [0xFF, op2] @ le_bytes slot"

definition known_slot :: "iat_modules \<Rightarrow> iatcall_info \<Rightarrow> addr option" where
  "known_slot mods i =
     (case getFuncInfo mods (ic_modhash i) (ic_funchash i) of
        None \<Rightarrow> None
      | Some f \<Rightarrow> if fn_IATRVA f = 0 then None else Some (fn_IATRVA f))"

definition fix_with ::
  "fixed_state \<Rightarrow> (addr \<times> byte list) option \<Rightarrow> iatcall_info \<Rightarrow> (addr \<times> byte list) list \<times> iatcall_info" where
  "fix_with st w i =
     (case w of None \<Rightarrow> ([], i\<lparr>ic_fixedState := fixed_faild\<rparr>) | Some e \<Rightarrow> ([e], i\<lparr>ic_fixedState := st\<rparr>))"

definition fix_at :: "iatcall_info \<Rightarrow> addr" where
  "fix_at i = (if ic_hasHead i then ic_cmdaddr i - 1 else ic_cmdaddr i)"

definition fix_call :: "iat_modules \<Rightarrow> bool \<Rightarrow> iatcall_info \<Rightarrow> (addr \<times> byte list) list \<times> iatcall_info" where
  "fix_call mods direct i =
     (let at = fix_at i; region = ic_retaddr i - at;
          fits = (region = 6 \<or> (region = 5 \<and> ic_opsuffix i = 0x90))
      in if direct then
           fix_with fixed_testmode
             (if ic_result_addr i \<noteq> 0 \<and> ic_retaddr i \<noteq> 0 \<and> fits
              then Some (at, near_code 0xE8 at (ic_result_addr i) @ replicate (unat region - 5) 0x90) else None) i
         else
           fix_with fixed_realmode
             (if fits then map_option (\<lambda>slot. (at, slot_code 0x15 slot)) (known_slot mods i) else None) i)"

definition fix_callmem :: "iat_modules \<Rightarrow> bool \<Rightarrow> iatcall_info \<Rightarrow> (addr \<times> byte list) list \<times> iatcall_info" where
  "fix_callmem mods direct i =
     (let at = ic_cmdaddr i
      in if ic_retaddr i - at \<noteq> 6 then fix_with fixed_faild None i
         else if direct then
           fix_with fixed_testmode
             (if ic_result_addr i \<noteq> 0 \<and> ic_retaddr i \<noteq> 0
              then Some (at, near_code 0xE8 at (ic_result_addr i) @ [0x90]) else None) i
         else fix_with fixed_realmode (map_option (\<lambda>slot. (at, slot_code 0x15 slot)) (known_slot mods i)) i)"

definition fix_jmp :: "iat_modules \<Rightarrow> bool \<Rightarrow> addr \<Rightarrow> iatcall_info \<Rightarrow> (addr \<times> byte list) list \<times> iatcall_info" where
  "fix_jmp mods direct at i =
     (if direct then
        fix_with fixed_testmode
          (if ic_result_addr i \<noteq> 0 then Some (at, near_code 0xE9 at (ic_result_addr i)) else None) i
      else fix_with fixed_realmode (map_option (\<lambda>slot. (at, slot_code 0x25 slot)) (known_slot mods i)) i)"

definition fix_memaddr :: "iat_modules \<Rightarrow> bool \<Rightarrow> iatcall_info \<Rightarrow> (addr \<times> byte list) list \<times> iatcall_info" where
  "fix_memaddr mods direct i =
     (if direct then
        fix_with fixed_testmode
          (if ic_result_addr i \<noteq> 0 then Some (ic_callto i, le_bytes (ic_result_addr i)) else None) i
      else fix_with fixed_realmode
        (map_option (\<lambda>slot. (ic_cmdaddr i + ic_memoft i, le_bytes slot)) (known_slot mods i)) i)"

definition fixIATCall ::
  "iat_modules \<Rightarrow> bool \<Rightarrow> iatcall_info \<Rightarrow> bool \<times> (addr \<times> byte list) list \<times> iatcall_info" where
  "fixIATCall mods direct i =
     (let (ws, i') =
        (case ic_calltype i of
           iatcall_call \<Rightarrow> fix_call mods direct i
         | iatcall_jmp \<Rightarrow> fix_jmp mods direct (fix_at i) i
         | iatcall_callmem \<Rightarrow> fix_callmem mods direct i
         | iatcall_pushret \<Rightarrow> fix_jmp mods direct (ic_cmdaddr i) i
         | iatcall_jmpmem \<Rightarrow> fix_jmp mods direct (ic_cmdaddr i) i
         | iatcall_memaddr \<Rightarrow> fix_memaddr mods direct i
         | iatcall_other n \<Rightarrow> ([], i))
      in (ic_fixedState i' = fixed_testmode \<or> ic_fixedState i' = fixed_realmode, ws, i'))"

text \<open>The rows that are selected, in order.\<close>

definition fix_one ::
  "bool \<Rightarrow> addr \<Rightarrow> (addr \<times> byte list) list \<times> 'v xVMIATCallFrame \<Rightarrow> (addr \<times> byte list) list \<times> 'v xVMIATCallFrame" where
  "fix_one direct a s =
     (case map_of (m_calls (snd s)) a of
        None \<Rightarrow> s
      | Some i \<Rightarrow>
          (let (ok, ws, i') = fixIATCall (m_mods (snd s)) direct i
           in (fst s @ ws, (snd s)\<lparr>m_calls := kl_upd a i' (m_calls (snd s))\<rparr>)))"

definition fix_selected ::
  "bool \<Rightarrow> 'v xVMIATCallFrame \<Rightarrow> (addr \<times> byte list) list \<times> 'v xVMIATCallFrame" where
  "fix_selected direct fr = fold (fix_one direct) (map ic_cmdaddr (filter ic_selected (m_table fr))) ([], fr)"

definition tempFixupSelected ::
  "'v xVMIATCallFrame \<Rightarrow> (addr \<times> byte list) list \<times> 'v xVMIATCallFrame" where
  "tempFixupSelected fr = fix_selected True fr"

definition fixupSelectedCall ::
  "'v iat_env \<Rightarrow> 'v xVMIATCallFrame \<Rightarrow> (addr \<times> byte list) list \<times> 'v xVMIATCallFrame" where
  "fixupSelectedCall I fr = (let (ws, fr') = fix_selected False fr in (ws, flushCalls I fr'))"

section \<open>What fixing writes\<close>

text \<open>A near call or jump goes where it should, a write of a call ends where the call returns.\<close>

lemma near_code_target: "at + 5 + le_word (take 4 (tl (near_code op at to @ rest))) = to"
  using le_word_le_bytes [of "to - at - 5" "[]"] by (simp add: near_code_def le_bytes_def)

lemma near_code_length [simp]: "length (near_code op at to) = 5"
  by (simp add: near_code_def le_bytes_def)

lemma slot_code_length [simp]: "length (slot_code op2 slot) = 6"
  by (simp add: slot_code_def le_bytes_def)

lemma fix_with_simps [simp]:
  "fix_with st None i = ([], i\<lparr>ic_fixedState := fixed_faild\<rparr>)"
  "fix_with st (Some e) i = ([e], i\<lparr>ic_fixedState := st\<rparr>)"
  by (simp_all add: fix_with_def)

lemma fix_with_keeps: "ic_cmdaddr (snd (fix_with st w i)) = ic_cmdaddr i"
  by (cases w) simp_all

lemma fixIATCall_cmdaddr: "ic_cmdaddr (snd (snd (fixIATCall mods direct i))) = ic_cmdaddr i"
  by (cases "ic_calltype i")
    (simp_all add: fixIATCall_def fix_call_def fix_jmp_def fix_callmem_def fix_memaddr_def fix_with_keeps
      Let_def case_prod_beta)

definition is_call :: "IATCall_Type \<Rightarrow> bool" where
  "is_call t \<longleftrightarrow> t = iatcall_call \<or> t = iatcall_callmem"

text \<open>What a direct fix that succeeded has written.\<close>

lemma direct_fix:
  assumes "fixIATCall mods True i = (True, ws, i')"
    and "ic_calltype i \<in> {iatcall_call, iatcall_jmp, iatcall_callmem, iatcall_jmpmem, iatcall_pushret}"
  shows "\<exists>at bs. ws = [(at, bs)] \<and> 5 \<le> length bs
    \<and> hd bs = (if is_call (ic_calltype i) then 0xE8 else 0xE9)
    \<and> at + 5 + le_word (take 4 (tl bs)) = ic_result_addr i
    \<and> (is_call (ic_calltype i) \<longrightarrow> at + of_nat (length bs) = ic_retaddr i)"
proof -
  have len: "length (replicate (unat (r - 5)) (0x90 :: byte)) = unat (r - 5)" for r :: "32 word" by simp
  have e: "hd (near_code op at to @ rest) = op" for op at to rest by (simp add: near_code_def)
  consider "ic_calltype i = iatcall_call" | "ic_calltype i = iatcall_callmem"
    | "ic_calltype i \<in> {iatcall_jmp, iatcall_jmpmem, iatcall_pushret}" using assms(2) by auto
  then show ?thesis
  proof cases
    case 1
    let ?r = "ic_retaddr i - fix_at i"
    have g: "ic_result_addr i \<noteq> 0" "ic_retaddr i \<noteq> 0" "?r = 6 \<or> (?r = 5 \<and> ic_opsuffix i = 0x90)"
        "ws = [(fix_at i, near_code 0xE8 (fix_at i) (ic_result_addr i) @ replicate (unat ?r - 5) 0x90)]"
      using assms(1) 1 by (auto simp: fixIATCall_def fix_call_def Let_def split: if_splits)
    have "fix_at i + ?r = ic_retaddr i" by simp
    moreover have "of_nat (5 + (unat ?r - 5)) = ?r" using g(3) by auto
    ultimately show ?thesis using g(4) 1 near_code_target [of "fix_at i" "0xE8"] e
      by (simp add: is_call_def)
  next
    case 2
    then have g: "ic_retaddr i - ic_cmdaddr i = 6" "ws = [(ic_cmdaddr i, near_code 0xE8 (ic_cmdaddr i) (ic_result_addr i) @ [0x90])]"
      using assms(1) by (auto simp: fixIATCall_def fix_callmem_def Let_def split: if_splits)
    have "ic_cmdaddr i + 6 = ic_retaddr i" using g(1) by (simp add: algebra_simps)
    then show ?thesis using g(2) 2 near_code_target [of "ic_cmdaddr i" "0xE8"] e
      by (simp add: is_call_def)
  next
    case 3
    then obtain at where "ws = [(at, near_code 0xE9 at (ic_result_addr i))]"
      using assms(1) by (auto simp: fixIATCall_def fix_jmp_def split: if_splits)
    then show ?thesis using 3 near_code_target [of at "0xE9" "ic_result_addr i" "[]"] e [of "0xE9" at _ "[]"]
      by (auto simp: is_call_def)
  qed
qed

end
