(* ===== verification/Packets.thy ===== *)
theory Packets
  imports Config
begin

text \<open>
  Packets of packets: \<open>NPacketBuffer\<close> as the import call window and the block window use it, with
  fields of several types, among them the bytes of another packet. The class is not in the repository: its functions
  are a parameter, and \<open>npacket_laws\<close> says what is relied on.
\<close>

section \<open>The functions that are called\<close>

datatype pk_val = PInt int32 | PInt64 "64 word" | PByte cbyte | PWStr wstring | PBin "cbyte list"

text \<open>
  \<open>np_nodes\<close> is what a loop of \<open>tonext\<close> over all ids visits. A default is given to some of the getters.
\<close>

record ('i, 'p) npacket =
  np_empty :: 'p
  np_put :: "'p \<Rightarrow> 'i \<Rightarrow> pk_val \<Rightarrow> 'p"
  np_getInt :: "'p \<Rightarrow> 'i \<Rightarrow> int32 option \<Rightarrow> int32"
  np_getLongLong :: "'p \<Rightarrow> 'i \<Rightarrow> 64 word"
  np_getByte :: "'p \<Rightarrow> 'i \<Rightarrow> cbyte"
  np_getWString :: "'p \<Rightarrow> 'i \<Rightarrow> wstring"
  np_getBinary :: "'p \<Rightarrow> 'i \<Rightarrow> cbyte list option"
  np_nodes :: "'p \<Rightarrow> ('i \<times> cbyte list) list"
  np_data :: "'p \<Rightarrow> cbyte list"
  np_parse :: "cbyte list \<Rightarrow> 'p"

text \<open>A packet that is filled by a list of put calls, from \<open>setempty\<close> on.\<close>

definition np_build :: "('i, 'p) npacket \<Rightarrow> ('i \<times> pk_val) list \<Rightarrow> 'p" where
  "np_build N fs = foldl (\<lambda>p (i, v). np_put N p i v) (np_empty N) fs"

definition np_write :: "('i, 'p) npacket \<Rightarrow> ('i \<times> pk_val) list \<Rightarrow> cbyte list" where
  "np_write N fs = np_data N (np_build N fs)"

section \<open>What is relied on\<close>

text \<open>
  A packet holds a list of fields; putting appends one, a getter finds the first with its id, the nodes are
  all fields with their bytes, parsing the bytes of a packet gives its fields, and a packet with fields has bytes.
\<close>

definition holds ::
  "('i, 'p) npacket \<Rightarrow> ('p \<Rightarrow> ('i \<times> pk_val) list) \<Rightarrow> (pk_val \<Rightarrow> cbyte list) \<Rightarrow> bool" where
  "holds N flds raw \<longleftrightarrow>
     flds (np_empty N) = [] \<and> (\<forall>p i v. flds (np_put N p i v) = flds p @ [(i, v)])
     \<and> (\<forall>p i v d. map_of (flds p) i = Some (PInt v) \<longrightarrow> np_getInt N p i d = v)
     \<and> (\<forall>p i v. map_of (flds p) i = Some (PInt64 v) \<longrightarrow> np_getLongLong N p i = v)
     \<and> (\<forall>p i v. map_of (flds p) i = Some (PByte v) \<longrightarrow> np_getByte N p i = v)
     \<and> (\<forall>p i v. map_of (flds p) i = Some (PWStr v) \<longrightarrow> np_getWString N p i = v)
     \<and> (\<forall>p i v. map_of (flds p) i = Some (PBin v) \<longrightarrow> np_getBinary N p i = Some v)
     \<and> (\<forall>p i. map_of (flds p) i = None \<longrightarrow> np_getBinary N p i = None)
     \<and> (\<forall>b. raw (PBin b) = b) \<and> (\<forall>p. np_nodes N p = map (\<lambda>(i, v). (i, raw v)) (flds p))
     \<and> (\<forall>p. flds (np_parse N (np_data N p)) = flds p) \<and> (\<forall>p. np_data N p = [] \<longrightarrow> flds p = [])"

definition npacket_laws :: "('i, 'p) npacket \<Rightarrow> bool" where
  "npacket_laws N \<longleftrightarrow> (\<exists>flds raw. holds N flds raw)"

lemma holds_build: "holds N flds raw \<Longrightarrow> flds (np_build N fs) = fs"
proof -
  assume h: "holds N flds raw"
  have "flds (foldl (\<lambda>p (i, v). np_put N p i v) p fs) = flds p @ fs" for p
    using h by (induction fs arbitrary: p) (auto simp: holds_def)
  then show ?thesis using h by (simp add: np_build_def holds_def)
qed

text \<open>What is read of the bytes of a packet that was built from fields.\<close>

lemma np_read:
  assumes "npacket_laws N"
  defines "q fs \<equiv> np_parse N (np_write N fs)"
  shows "map_of fs i = Some (PInt n) \<Longrightarrow> np_getInt N (q fs) i d = n"
    and "map_of fs i = Some (PInt64 l) \<Longrightarrow> np_getLongLong N (q fs) i = l"
    and "map_of fs i = Some (PByte b) \<Longrightarrow> np_getByte N (q fs) i = b"
    and "map_of fs i = Some (PWStr w) \<Longrightarrow> np_getWString N (q fs) i = w"
    and "map_of fs i = Some (PBin bs) \<Longrightarrow> np_getBinary N (q fs) i = Some bs"
    and "map_of fs i = None \<Longrightarrow> np_getBinary N (q fs) i = None"
proof -
  obtain flds raw where h: "holds N flds raw" using assms(1) by (auto simp: npacket_laws_def)
  have "flds (q fs) = fs"
    using h holds_build [OF h] unfolding q_def np_write_def by (simp add: holds_def)
  then show "map_of fs i = Some (PInt n) \<Longrightarrow> np_getInt N (q fs) i d = n"
    "map_of fs i = Some (PInt64 l) \<Longrightarrow> np_getLongLong N (q fs) i = l"
    "map_of fs i = Some (PByte b) \<Longrightarrow> np_getByte N (q fs) i = b"
    "map_of fs i = Some (PWStr w) \<Longrightarrow> np_getWString N (q fs) i = w"
    "map_of fs i = Some (PBin bs) \<Longrightarrow> np_getBinary N (q fs) i = Some bs"
    "map_of fs i = None \<Longrightarrow> np_getBinary N (q fs) i = None"
    using h by (simp_all add: holds_def)
qed

text \<open>The nodes with a given id, when all the fields with that id are bytes.\<close>

definition np_bins :: "'i \<Rightarrow> ('i \<times> pk_val) list \<Rightarrow> cbyte list list" where
  "np_bins i fs = concat (map (\<lambda>(j, v). if j = i then (case v of PBin b \<Rightarrow> [b] | _ \<Rightarrow> []) else []) fs)"

lemma np_nodes_of:
  assumes "npacket_laws N" "\<forall>(j, v) \<in> set fs. j = i \<longrightarrow> (\<exists>b. v = PBin b)"
  shows "map snd (filter (\<lambda>n. fst n = i) (np_nodes N (np_parse N (np_write N fs)))) = np_bins i fs"
proof -
  obtain flds raw where h: "holds N flds raw" using assms(1) by (auto simp: npacket_laws_def)
  have raw: "raw (PBin b) = b" for b using h by (simp add: holds_def)
  have "flds (np_parse N (np_write N fs)) = fs"
    using h holds_build [OF h] unfolding np_write_def by (simp add: holds_def)
  then have n: "np_nodes N (np_parse N (np_write N fs)) = map (\<lambda>(i, v). (i, raw v)) fs"
    using h by (simp add: holds_def)
  show ?thesis unfolding n using assms(2) raw
    by (induction fs) (auto simp: np_bins_def)
qed

text \<open>A packet whose fields are all bytes.\<close>

definition the_bin :: "pk_val \<Rightarrow> cbyte list" where
  "the_bin v = (case v of PBin b \<Rightarrow> b | _ \<Rightarrow> [])"

lemma np_nodes_all:
  assumes "npacket_laws N" "\<forall>(j, v) \<in> set fs. \<exists>b. v = PBin b"
  shows "np_nodes N (np_parse N (np_write N fs)) = map (\<lambda>(j, v). (j, the_bin v)) fs"
proof -
  obtain flds raw where h: "holds N flds raw" using assms(1) by (auto simp: npacket_laws_def)
  have raw: "raw (PBin b) = b" for b using h by (simp add: holds_def)
  have "flds (np_parse N (np_write N fs)) = fs"
    using h holds_build [OF h] unfolding np_write_def by (simp add: holds_def)
  then show ?thesis using h assms(2) raw by (auto simp: holds_def the_bin_def)
qed

lemma np_write_nonempty: "npacket_laws N \<Longrightarrow> fs \<noteq> [] \<Longrightarrow> np_write N fs \<noteq> []"
proof -
  assume a: "npacket_laws N" "fs \<noteq> []"
  obtain flds raw where h: "holds N flds raw" using a(1) by (auto simp: npacket_laws_def)
  then show ?thesis using a(2) holds_build [OF h, of fs] unfolding np_write_def holds_def by metis
qed

end
