(* ===== verification/IatRecords.thy ===== *)
theory IatRecords
  imports IatFix Packets
begin

text \<open>
  The records of the import call window as a file (\<open>saveRecords\<close>, \<open>loadRecords\<close>): a packet with a
  packet of modules, each with its functions, and a packet for every call. The file is its content.
\<close>

section \<open>Writing\<close>

datatype iatcall_vid =
    iatcall_vid_module | iatcall_vid_node | iatcall_vid_hash | iatcall_vid_name | iatcall_vid_iatrva
  | iatcall_vid_record | iatcall_vid_cmdaddr | iatcall_vid_callto | iatcall_vid_ophead | iatcall_vid_opsuffix
  | iatcall_vid_opcode | iatcall_vid_calltype | iatcall_vid_memoft | iatcall_vid_retaddr | iatcall_vid_hashead
  | iatcall_vid_rtflags | iatcall_vid_modhash | iatcall_vid_apihash

type_synonym 'p iat_packet = "(iatcall_vid, 'p) npacket"

definition func_fields :: "iat_func \<Rightarrow> (iatcall_vid \<times> pk_val) list" where
  "func_fields f =
     [(iatcall_vid_hash, PInt (fn_nameHash f)), (iatcall_vid_iatrva, PInt (fn_IATRVA f)),
      (iatcall_vid_name, PWStr (fn_name f))]"

definition module_fields :: "'p iat_packet \<Rightarrow> iat_module \<Rightarrow> (iatcall_vid \<times> pk_val) list" where
  "module_fields N m =
     [(iatcall_vid_hash, PInt (md_nameHash m)), (iatcall_vid_name, PWStr (md_name m))]
     @ map (\<lambda>f. (iatcall_vid_node, PBin (np_write N (func_fields (snd f))))) (md_funcs m)"

definition call_fields :: "'v iat_env \<Rightarrow> iatcall_info \<Rightarrow> (iatcall_vid \<times> pk_val) list" where
  "call_fields I i =
     [(iatcall_vid_cmdaddr, PInt64 (ucast (ic_cmdaddr i))), (iatcall_vid_callto, PInt64 (ucast (ic_callto i))),
      (iatcall_vid_ophead, PByte (ic_ophead i)), (iatcall_vid_opsuffix, PByte (ic_opsuffix i))]
     @ (if 0 < ic_szop i then [(iatcall_vid_opcode, PBin (take (nat (ic_szop i)) (ic_opcode i)))] else [])
     @ [(iatcall_vid_calltype, PInt (type_code I (ic_calltype i))), (iatcall_vid_memoft, PInt (ic_memoft i)),
        (iatcall_vid_retaddr, PInt64 (ucast (ic_retaddr i))),
        (iatcall_vid_hashead, PInt (if ic_hasHead i then 1 else 0)), (iatcall_vid_rtflags, PInt (ic_rtflags i)),
        (iatcall_vid_modhash, PInt (ic_modhash i)), (iatcall_vid_apihash, PInt (ic_funchash i))]"

definition file_fields :: "'p iat_packet \<Rightarrow> 'v iat_env \<Rightarrow> 'v xVMIATCallFrame \<Rightarrow> (iatcall_vid \<times> pk_val) list" where
  "file_fields N I fr =
     (iatcall_vid_module,
      PBin (np_write N (map (\<lambda>m. (iatcall_vid_node, PBin (np_write N (module_fields N (snd m))))) (m_mods fr))))
     # map (\<lambda>e. (iatcall_vid_record, PBin (np_write N (call_fields I (snd e))))) (m_calls fr)"

text \<open>Before, every call that has a target is filed again.\<close>

definition hit_one :: "'v iat_env \<Rightarrow> addr \<Rightarrow> 'v xVMIATCallFrame \<Rightarrow> fault + 'v xVMIATCallFrame" where
  "hit_one I a fr =
     (case map_of (m_calls fr) a of
        None \<Rightarrow> Inr fr
      | Some i \<Rightarrow>
          (case hitIATCallModule I i fr of
             Inl f \<Rightarrow> Inl f
           | Inr ((f, i'), fr') \<Rightarrow> Inr (fr'\<lparr>m_calls := kl_upd a i' (m_calls fr')\<rparr>)))"

definition saveRecords ::
  "'p iat_packet \<Rightarrow> 'v iat_env \<Rightarrow> 'v xVMIATCallFrame \<Rightarrow> fault + cbyte list \<times> 'v xVMIATCallFrame" where
  "saveRecords N I fr =
     bindF (foldF (hit_one I) (map fst (m_calls fr)) fr) (\<lambda>fr1. Inr (np_write N (file_fields N I fr1), fr1))"

section \<open>Reading\<close>

text \<open>The member \<open>modHash\<close> of a loaded function is not set.\<close>

definition load_func :: "'p iat_packet \<Rightarrow> int32 \<Rightarrow> cbyte list \<Rightarrow> iat_func" where
  "load_func N junk_hash bs =
     (let p = np_parse N bs
      in \<lparr>fn_nameHash = np_getInt N p iatcall_vid_hash None, fn_name = np_getWString N p iatcall_vid_name,
          fn_modHash = junk_hash, fn_IATRVA = np_getInt N p iatcall_vid_iatrva None\<rparr>)"

definition add_funcs :: "iat_func list \<Rightarrow> iat_module \<Rightarrow> iat_module" where
  "add_funcs fs m = m\<lparr>md_funcs := fold (\<lambda>f. im_insert (fn_nameHash f) f) fs (md_funcs m)\<rparr>"

definition load_module :: "'p iat_packet \<Rightarrow> int32 \<Rightarrow> cbyte list \<Rightarrow> iat_modules \<Rightarrow> iat_modules" where
  "load_module N junk_hash bs mods =
     (let p = np_parse N bs; h = np_getInt N p iatcall_vid_hash None;
          m = \<lparr>md_nameHash = h, md_name = np_getWString N p iatcall_vid_name, md_funcs = []\<rparr>;
          fs = map (\<lambda>n. load_func N junk_hash (snd n)) (filter (\<lambda>n. fst n = iatcall_vid_node) (np_nodes N p))
      in map (\<lambda>(k, m). (k, if k = h then add_funcs fs m else m)) (im_insert h m mods))"

definition load_call :: "'p iat_packet \<Rightarrow> 'v iat_env \<Rightarrow> cbyte list \<Rightarrow> iatcall_info" where
  "load_call N I bs =
     (let p = np_parse N bs; code = np_getBinary N p iatcall_vid_opcode;
          n = (case code of None \<Rightarrow> 0 | Some b \<Rightarrow> min (length b) (SZ_OPCODE I))
      in zero_info\<lparr>ic_cmdaddr := ucast (np_getLongLong N p iatcall_vid_cmdaddr),
           ic_callto := ucast (np_getLongLong N p iatcall_vid_callto),
           ic_ophead := np_getByte N p iatcall_vid_ophead, ic_opsuffix := np_getByte N p iatcall_vid_opsuffix,
           ic_szop := int n, ic_opcode := (case code of None \<Rightarrow> [] | Some b \<Rightarrow> take n b),
           ic_calltype := code_type I (np_getInt N p iatcall_vid_calltype None),
           ic_memoft := np_getInt N p iatcall_vid_memoft None,
           ic_retaddr := ucast (np_getLongLong N p iatcall_vid_retaddr),
           ic_hasHead := (np_getInt N p iatcall_vid_hashead None \<noteq> 0),
           ic_rtflags := np_getInt N p iatcall_vid_rtflags None,
           ic_modhash := np_getInt N p iatcall_vid_modhash None,
           ic_funchash := np_getInt N p iatcall_vid_apihash None\<rparr>)"

definition loadRecords ::
  "'p iat_packet \<Rightarrow> 'v iat_env \<Rightarrow> int32 \<Rightarrow> cbyte list \<Rightarrow> 'v xVMIATCallFrame \<Rightarrow> 'v xVMIATCallFrame" where
  "loadRecords N I junk_hash data fr =
     (if data = [] then fr
      else
        (let nodes = np_nodes N (np_parse N data);
             mods = fold (\<lambda>n mods. fold (\<lambda>k. load_module N junk_hash (snd k)) (np_nodes N (np_parse N (snd n))) mods)
                      (filter (\<lambda>n. fst n = iatcall_vid_module) nodes) [];
             calls = fold (\<lambda>n calls. let i = load_call N I (snd n) in kl_set (call_place I) (ic_cmdaddr i) i calls)
                      (filter (\<lambda>n. fst n = iatcall_vid_record) nodes) []
         in flushCalls I (fr\<lparr>m_mods := mods, m_calls := calls\<rparr>)))"

section \<open>What comes back\<close>

text \<open>The state of a call that is not saved is reset.\<close>

definition saved_part :: "iatcall_info \<Rightarrow> iatcall_info" where
  "saved_part i =
     i\<lparr>ic_addr := 0, ic_size := 0, ic_type := 0, ic_result_addr := 0, ic_selected := False,
       ic_fixedState := fixed_none\<rparr>"

lemma saved_part_idem [simp]: "saved_part (saved_part i) = saved_part i"
  by (simp add: saved_part_def)

text \<open>
  A code fits its array, and a type comes back from its number. Every type with a name does, and every type
  that is read from a number; the array holds at least six bytes.
\<close>

definition type_ok :: "'v iat_env \<Rightarrow> IATCall_Type \<Rightarrow> bool" where
  "type_ok I t \<longleftrightarrow> code_type I (type_code I t) = t"

definition code_ok :: "'v iat_env \<Rightarrow> iatcall_info \<Rightarrow> bool" where
  "code_ok I i \<longleftrightarrow> ic_szop i = int (length (ic_opcode i)) \<and> length (ic_opcode i) \<le> SZ_OPCODE I
     \<and> type_ok I (ic_calltype i)"

definition named :: "IATCall_Type set" where
  "named = {iatcall_call, iatcall_jmp, iatcall_callmem, iatcall_jmpmem, iatcall_pushret, iatcall_memaddr}"

definition codes_ok :: "'v iat_env \<Rightarrow> bool" where
  "codes_ok I \<longleftrightarrow> 6 \<le> SZ_OPCODE I \<and> (\<forall>t \<in> named. type_ok I t) \<and> (\<forall>n. type_ok I (code_type I n))"

lemma codes_okD:
  "codes_ok I \<Longrightarrow> 6 \<le> SZ_OPCODE I" "codes_ok I \<Longrightarrow> t \<in> named \<Longrightarrow> type_ok I t"
  "codes_ok I \<Longrightarrow> type_ok I (code_type I n)"
  by (simp_all add: codes_ok_def)

lemma load_call_fields:
  assumes "npacket_laws N" "code_ok I i"
  shows "load_call N I (np_write N (call_fields I i)) = saved_part i"
proof -
  note r = np_read [OF assms(1), of "call_fields I i"]
  let ?q = "np_parse N (np_write N (call_fields I i))"
  have a: "np_getLongLong N ?q iatcall_vid_cmdaddr = ucast (ic_cmdaddr i)"
      "np_getLongLong N ?q iatcall_vid_callto = ucast (ic_callto i)"
      "np_getLongLong N ?q iatcall_vid_retaddr = ucast (ic_retaddr i)"
    by (rule r(2); simp add: call_fields_def)+
  have b: "np_getByte N ?q iatcall_vid_ophead = ic_ophead i" "np_getByte N ?q iatcall_vid_opsuffix = ic_opsuffix i"
    by (rule r(3); simp add: call_fields_def)+
  have c: "np_getInt N ?q iatcall_vid_calltype None = type_code I (ic_calltype i)"
      "np_getInt N ?q iatcall_vid_memoft None = ic_memoft i"
      "np_getInt N ?q iatcall_vid_hashead None = (if ic_hasHead i then 1 else 0)"
      "np_getInt N ?q iatcall_vid_rtflags None = ic_rtflags i"
      "np_getInt N ?q iatcall_vid_modhash None = ic_modhash i"
      "np_getInt N ?q iatcall_vid_apihash None = ic_funchash i"
    by (rule r(1); simp add: call_fields_def)+
  have d: "np_getBinary N ?q iatcall_vid_opcode = (if ic_opcode i = [] then None else Some (ic_opcode i))"
  proof (cases "ic_opcode i = []")
    case True
    then have "np_getBinary N ?q iatcall_vid_opcode = None"
      using assms(2) by (intro r(6)) (simp add: call_fields_def code_ok_def)
    then show ?thesis using True by simp
  next
    case False
    then have "np_getBinary N ?q iatcall_vid_opcode = Some (ic_opcode i)"
      using assms(2) by (intro r(5)) (simp add: call_fields_def code_ok_def)
    then show ?thesis using False by simp
  qed
  show ?thesis using a b c d assms(2)
    by (simp add: load_call_def Let_def zero_info_def saved_part_def code_ok_def type_ok_def)
qed

text \<open>The functions of a module, and the modules, come back in their order.\<close>

lemma im_insert_last: "\<forall>j \<in> fst ` set xs. j < k \<Longrightarrow> im_insert k v xs = xs @ [(k, v)]"
  by (induction k v xs rule: im_insert.induct) auto

lemma fold_im_insert:
  assumes "im_sorted (acc @ xs)"
  shows "fold (\<lambda>e. im_insert (fst e) (snd e)) xs acc = acc @ xs"
  using assms
proof (induction xs arbitrary: acc)
  case (Cons e xs)
  have "\<forall>j \<in> fst ` set acc. j < fst e" using Cons.prems by (auto simp: im_sorted_def sorted_wrt_append)
  then show ?case using Cons.IH [of "acc @ [e]"] Cons.prems by (simp add: im_insert_last)
qed simp

definition loaded_func :: "int32 \<Rightarrow> iat_func \<Rightarrow> iat_func" where
  "loaded_func jh f = f\<lparr>fn_modHash := jh\<rparr>"

definition loaded_module :: "int32 \<Rightarrow> iat_module \<Rightarrow> iat_module" where
  "loaded_module jh m = m\<lparr>md_funcs := map (\<lambda>(j, f). (j, loaded_func jh f)) (md_funcs m)\<rparr>"

lemma load_func_fields:
  assumes "npacket_laws N"
  shows "load_func N jh (np_write N (func_fields f)) = loaded_func jh f"
proof -
  note r = np_read [OF assms, of "func_fields f"]
  let ?q = "np_parse N (np_write N (func_fields f))"
  have "np_getInt N ?q iatcall_vid_hash None = fn_nameHash f" "np_getInt N ?q iatcall_vid_iatrva None = fn_IATRVA f"
    by (rule r(1); simp add: func_fields_def)+
  moreover have "np_getWString N ?q iatcall_vid_name = fn_name f" by (rule r(4); simp add: func_fields_def)
  ultimately show ?thesis by (simp add: load_func_def loaded_func_def Let_def)
qed

lemma load_module_fields:
  assumes "npacket_laws N" "md_nameHash m = k" "im_sorted (md_funcs m)"
    "list_all (\<lambda>(j, f). fn_nameHash f = j) (md_funcs m)" "\<forall>j \<in> fst ` set mods. j < k"
  shows "load_module N jh (np_write N (module_fields N m)) mods = mods @ [(k, loaded_module jh m)]"
proof -
  note r = np_read [OF assms(1), of "module_fields N m"]
  let ?q = "np_parse N (np_write N (module_fields N m))"
  let ?ns = "filter (\<lambda>n. fst n = iatcall_vid_node) (np_nodes N ?q)"
  have q: "np_getInt N ?q iatcall_vid_hash None = k" "np_getWString N ?q iatcall_vid_name = md_name m"
    by (rule r(1) r(4); simp add: module_fields_def assms(2))+
  have "map snd ?ns = np_bins iatcall_vid_node (module_fields N m)"
    by (rule np_nodes_of [OF assms(1)]) (auto simp: module_fields_def)
  also have "\<dots> = map (\<lambda>f. np_write N (func_fields (snd f))) (md_funcs m)"
    by (simp add: module_fields_def np_bins_def comp_def)
  finally have "map (load_func N jh) (map snd ?ns) = map (\<lambda>f. loaded_func jh (snd f)) (md_funcs m)"
    by (simp add: load_func_fields [OF assms(1)])
  then have ns: "map (\<lambda>n. load_func N jh (snd n)) ?ns = map (\<lambda>f. loaded_func jh (snd f)) (md_funcs m)"
    by (simp add: comp_def)
  let ?fs = "map (\<lambda>(j, f). (j, loaded_func jh f)) (md_funcs m)"
  have s: "im_sorted ?fs" using assms(3) map_snd_sorted [of "\<lambda>j f. loaded_func jh f" "md_funcs m"] by simp
  have "fold (\<lambda>f. im_insert (fn_nameHash f) f) (map (\<lambda>f. loaded_func jh (snd f)) (md_funcs m)) []
      = fold (\<lambda>e. im_insert (fst e) (snd e)) ?fs []"
    using assms(4) unfolding fold_map
    by (intro fold_cong) (auto simp: list_all_iff loaded_func_def fun_eq_iff)
  also have "\<dots> = ?fs" using fold_im_insert [of "[]" ?fs] s by simp
  finally have f: "add_funcs (map (\<lambda>f. loaded_func jh (snd f)) (md_funcs m))
      \<lparr>md_nameHash = k, md_name = md_name m, md_funcs = []\<rparr> = loaded_module jh m"
    using assms(2) by (simp add: add_funcs_def loaded_module_def)
  have "map (\<lambda>(j, m'). (j, if j = k then g m' else m')) mods = mods" for g
    using assms(5) by (induction mods) auto
  then show ?thesis
    unfolding load_module_def Let_def q ns im_insert_last [OF assms(5)] by (simp add: f)
qed

lemma load_modules:
  assumes "npacket_laws N" "im_sorted (acc @ xs)"
    "list_all (\<lambda>(k, m). md_nameHash m = k \<and> im_sorted (md_funcs m)
          \<and> list_all (\<lambda>(j, f). fn_nameHash f = j) (md_funcs m)) xs"
  shows "fold (\<lambda>b. load_module N jh b) (map (\<lambda>m. np_write N (module_fields N (snd m))) xs) acc
    = acc @ map (\<lambda>(k, m). (k, loaded_module jh m)) xs"
  using assms(2,3)
proof (induction xs arbitrary: acc)
  case (Cons e xs)
  obtain k m where e: "e = (k, m)" by (cases e)
  have m: "md_nameHash m = k" "im_sorted (md_funcs m)" "list_all (\<lambda>(j, f). fn_nameHash f = j) (md_funcs m)"
      "\<forall>j \<in> fst ` set acc. j < k"
    using Cons.prems by (auto simp: e im_sorted_def sorted_wrt_append)
  have "im_sorted ((acc @ [(k, loaded_module jh m)]) @ xs)"
    using Cons.prems(1) by (simp add: e im_sorted_def)
  then show ?case
    using Cons.IH [of "acc @ [(k, loaded_module jh m)]"] Cons.prems(2) load_module_fields [OF assms(1) m]
    by (simp add: e)
qed simp

lemma number_calls_keys [simp]: "map fst (number_calls n xs) = map fst xs"
  by (induction n xs rule: number_calls.induct) simp_all

lemma number_calls_set:
  "(k, i) \<in> set (number_calls n xs) \<Longrightarrow> \<exists>j m. (k, j) \<in> set xs \<and> i = j\<lparr>ic_addr := m\<rparr>"
  by (induction n xs rule: number_calls.induct) auto

lemma number_calls_find:
  "map_option saved_part (map_of (number_calls n xs) a) = map_option saved_part (map_of xs a)"
  by (induction n xs rule: number_calls.induct) (auto simp: saved_part_def)

lemma load_calls:
  assumes "npacket_laws N" "distinct (map fst xs)"
    "list_all (\<lambda>e. ic_cmdaddr (snd e) = fst e \<and> code_ok I (snd e)) xs" "calls_ok acc"
  defines "step \<equiv> \<lambda>b calls. let i = load_call N I b in kl_set (call_place I) (ic_cmdaddr i) i calls"
  shows "map_of (fold step (map (\<lambda>e. np_write N (call_fields I (snd e))) xs) acc)
      = map_of acc ++ map_of (map (\<lambda>(k, i). (k, saved_part i)) xs)
    \<and> calls_ok (fold step (map (\<lambda>e. np_write N (call_fields I (snd e))) xs) acc)"
  using assms(2-4)
proof (induction xs arbitrary: acc)
  case (Cons e xs)
  obtain k i where e: "e = (k, i)" by (cases e)
  have i: "load_call N I (np_write N (call_fields I i)) = saved_part i" "ic_cmdaddr (saved_part i) = k"
    using Cons.prems(2) load_call_fields [OF assms(1), of I i] by (simp_all add: e saved_part_def)
  have k: "map_of (map (\<lambda>(k, i). (k, saved_part i)) xs) k = None"
    using Cons.prems(1) by (force simp: e map_of_eq_None_iff)
  have "step (np_write N (call_fields I (snd e))) acc = kl_set (call_place I) k (saved_part i) acc"
    by (simp add: step_def e i)
  then have f: "fold step (map (\<lambda>e. np_write N (call_fields I (snd e))) (e # xs)) acc
      = fold step (map (\<lambda>e. np_write N (call_fields I (snd e))) xs) (kl_set (call_place I) k (saved_part i) acc)"
    by simp
  have m: "(map_of acc)(k \<mapsto> saved_part i) ++ map_of (map (\<lambda>(k, i). (k, saved_part i)) xs)
      = map_of acc ++ map_of (map (\<lambda>(k, i). (k, saved_part i)) (e # xs))"
    using k by (auto simp: e fun_eq_iff map_add_def split: option.split)
  have c: "calls_ok (kl_set (call_place I) k (saved_part i) acc)" using Cons.prems(3) i(2) by simp
  have d: "distinct (map fst xs)" "list_all (\<lambda>e. ic_cmdaddr (snd e) = fst e \<and> code_ok I (snd e)) xs"
    using Cons.prems(1,2) by simp_all
  show ?case using Cons.IH [OF d c] unfolding f m [symmetric] map_of_kl_set .
qed simp

text \<open>Loading what was saved, whatever the window held.\<close>

lemma load_saved:
  assumes "npacket_laws N" "calls_ok (m_calls fr)" "mods_ok (m_mods fr)"
    "list_all (\<lambda>e. code_ok I (snd e)) (m_calls fr)"
    and fr'_def: "fr' = loadRecords N I jh (np_write N (file_fields N I fr)) fr0"
  shows "m_mods fr' = map (\<lambda>(k, m). (k, loaded_module jh m)) (m_mods fr)"
    and "map_option saved_part (map_of (m_calls fr') a) = map_option saved_part (map_of (m_calls fr) a)"
    and "calls_ok (m_calls fr')"
proof -
  let ?data = "np_write N (file_fields N I fr)"
  let ?mbytes = "map (\<lambda>m. np_write N (module_fields N (snd m))) (m_mods fr)"
  let ?mfields = "map (\<lambda>m. (iatcall_vid_node, PBin (np_write N (module_fields N (snd m))))) (m_mods fr)"
  let ?nodes = "np_nodes N (np_parse N ?data)"
  have nodes: "?nodes = (iatcall_vid_module, np_write N ?mfields)
      # map (\<lambda>e. (iatcall_vid_record, np_write N (call_fields I (snd e)))) (m_calls fr)"
    by (subst np_nodes_all [OF assms(1)]) (auto simp: file_fields_def the_bin_def)
  have ms: "filter (\<lambda>n. fst n = iatcall_vid_module) ?nodes = [(iatcall_vid_module, np_write N ?mfields)]"
    unfolding nodes by (simp add: filter_map comp_def)
  have cs: "map snd (filter (\<lambda>n. fst n = iatcall_vid_record) ?nodes)
      = map (\<lambda>e. np_write N (call_fields I (snd e))) (m_calls fr)"
    unfolding nodes by (simp add: filter_map comp_def)
  have mn: "np_nodes N (np_parse N (np_write N ?mfields)) = map (Pair iatcall_vid_node) ?mbytes"
    by (subst np_nodes_all [OF assms(1)]) (auto simp: the_bin_def)
  have mods: "fold (\<lambda>k. load_module N jh (snd k)) (map (Pair iatcall_vid_node) ?mbytes) []
      = map (\<lambda>(k, m). (k, loaded_module jh m)) (m_mods fr)"
    using load_modules [OF assms(1), of "[]" "m_mods fr" jh] assms(3) by (simp add: mods_ok_def fold_map comp_def)
  let ?step = "\<lambda>b calls. let i = load_call N I b in kl_set (call_place I) (ic_cmdaddr i) i calls"
  let ?calls = "fold ?step (map (\<lambda>e. np_write N (call_fields I (snd e))) (m_calls fr)) []"
  have "fold (\<lambda>n. ?step (snd n)) ns xs = fold ?step (map snd ns) xs" for ns :: "(iatcall_vid \<times> cbyte list) list" and xs
    by (simp add: fold_map comp_def)
  then have fr': "fr' = flushCalls I (fr0\<lparr>m_mods := map (\<lambda>(k, m). (k, loaded_module jh m)) (m_mods fr),
      m_calls := ?calls\<rparr>)"
    using np_write_nonempty [OF assms(1)] cs ms mn mods
    unfolding fr'_def loadRecords_def Let_def by (simp add: file_fields_def)
  have c: "map_of ?calls = map_of (map (\<lambda>(k, i). (k, saved_part i)) (m_calls fr)) \<and> calls_ok ?calls"
    using load_calls [OF assms(1), of "m_calls fr" I "[]"] assms(2,4) by (simp add: calls_ok_def list_all_iff)
  show "m_mods fr' = map (\<lambda>(k, m). (k, loaded_module jh m)) (m_mods fr)"
    by (simp add: fr' flushCalls_def Let_def)
  show "map_option saved_part (map_of (m_calls fr') a) = map_option saved_part (map_of (m_calls fr) a)"
    using c by (simp add: fr' flushCalls_def Let_def number_calls_find map_of_map option.map_comp comp_def)
  show "calls_ok (m_calls fr')"
    using c number_calls_set [of _ _ 1 ?calls] unfolding fr' flushCalls_def Let_def
    by (fastforce simp: calls_ok_def list_all_iff)
qed

end
