(* ===== verification/IatState.thy ===== *)
theory IatState
  imports IatRecords
begin

text \<open>
  The import call window as a state machine: the commands of the window as steps, the states they reach,
  and what holds in all of them.
\<close>

section \<open>What a trace keeps\<close>

text \<open>
  The address and the code of the call, the list, the table and the flags stay; modules only get functions.
\<close>

definition keeps_call :: "iatcall_info \<Rightarrow> 'v xVMIATCallFrame \<Rightarrow> iatcall_info \<Rightarrow> 'v xVMIATCallFrame \<Rightarrow> bool" where
  "keeps_call i fr i' fr' \<longleftrightarrow>
     ic_cmdaddr i' = ic_cmdaddr i \<and> ic_callto i' = ic_callto i \<and> ic_szop i' = ic_szop i
     \<and> ic_opcode i' = ic_opcode i \<and> ic_calltype i' \<in> {ic_calltype i, iatcall_jmp}
     \<and> m_calls fr' = m_calls fr \<and> m_table fr' = m_table fr \<and> m_flushFlags fr' = m_flushFlags fr
     \<and> m_mmaddrEnd fr' = m_mmaddrEnd fr \<and> (mods_ok (m_mods fr) \<longrightarrow> mods_ok (m_mods fr'))
     \<and> (m_vcpu fr \<noteq> None \<longrightarrow> m_vcpu fr' \<noteq> None)"

lemma kept_refl [simp]: "keeps_call i fr i fr"
  by (simp add: keeps_call_def)

lemma kept_trans: "keeps_call i fr j g \<Longrightarrow> keeps_call j g k h \<Longrightarrow> keeps_call i fr k h"
  by (auto simp: keeps_call_def)

definition tracer_ok :: "'v tracer \<Rightarrow> bool" where
  "tracer_ok t \<longleftrightarrow> (\<forall>i fr ok i' fr'. t i fr = Inr ((ok, i'), fr') \<longrightarrow> keeps_call i fr i' fr')"

lemma hit_kept: "hitIATCallModule I i fr = Inr ((r, i'), fr') \<Longrightarrow> keeps_call i fr i' fr'"
  using hit_result [of I i fr r i' fr'] by (simp add: keeps_call_def)

lemma nop_head_kept [simp]: "keeps_call i fr (nop_head j) fr' \<longleftrightarrow> keeps_call i fr j fr'"
  by (simp add: keeps_call_def nop_head_def)

lemma accept_kept [simp]: "keeps_call i fr (accept I r a j) fr' \<longleftrightarrow> keeps_call i fr j fr'"
  by (simp add: keeps_call_def accept_def)

lemma or_rtflags_kept [simp]: "keeps_call i fr (or_rtflags f j) fr' \<longleftrightarrow> keeps_call i fr j fr'"
  by (simp add: keeps_call_def or_rtflags_def)

lemma kept_fields [simp]:
  "keeps_call i fr (j\<lparr>ic_hasHead := b\<rparr>) fr' \<longleftrightarrow> keeps_call i fr j fr'"
  "keeps_call i fr (j\<lparr>ic_retaddr := a\<rparr>) fr' \<longleftrightarrow> keeps_call i fr j fr'"
  "keeps_call i fr (j\<lparr>ic_rtflags := f\<rparr>) fr' \<longleftrightarrow> keeps_call i fr j fr'"
  "keeps_call i fr j (fr\<lparr>m_vcpu := Some c\<rparr>) \<longleftrightarrow> keeps_call i fr j (fr\<lparr>m_vcpu := Some d\<rparr>)"
  "keeps_call i (fr\<lparr>m_cache := x\<rparr>) j fr' \<longleftrightarrow> keeps_call i fr j fr'"
  by (simp_all add: keeps_call_def)

lemma kept_vcpu: "keeps_call i fr j fr' \<Longrightarrow> keeps_call i fr j (fr'\<lparr>m_vcpu := Some c\<rparr>)"
  by (simp add: keeps_call_def)

lemma arrived_call_kept:
  assumes "tracer_ok t" "arrived_call I t vi r a c i fr = Inr (i', fr')"
  shows "keeps_call i fr i' fr'"
proof -
  obtain head c1 where h: "checkESPSpace (iat_cpu I) [ic_ophead i] (\<bar>vi\<bar> + 4) c = (head, c1)"
    by (cases "checkESPSpace (iat_cpu I) [ic_ophead i] (\<bar>vi\<bar> + 4) c")
  consider "vi = 4" | "vi \<noteq> 4" "vi \<le> 0" head | "vi \<noteq> 4" "vi \<le> 0" "\<not> head" | "vi \<noteq> 4" "\<not> vi \<le> 0" by blast
  then show ?thesis
  proof cases
    case 3
    let ?j = "i\<lparr>ic_calltype := iatcall_jmp\<rparr>" and ?g = "fr\<lparr>m_vcpu := Some c1\<rparr>"
    obtain found cp where t: "t ?j ?g = Inr ((found, cp), fr')"
        "i' = nop_head (if found then or_rtflags (IATCALL_FLAG_SUSPECT I) cp else i)"
      using assms(2) 3 h by (auto simp: arrived_call_def Let_def bindS_Inr_eq)
    have "keeps_call ?j ?g cp fr'" using assms(1) t(1) unfolding tracer_ok_def by blast
    then have "keeps_call i fr cp fr'" "keeps_call i fr i fr'" by (auto simp: keeps_call_def)
    then show ?thesis using t(2) by simp
  qed (use assms(2) h in \<open>auto simp: arrived_call_def Let_def kept_vcpu\<close>)
qed

lemma arrived_jmp_kept:
  assumes "arrived_jmp I vi r a c i fr = Inr (i', fr')"
  shows "keeps_call i fr i' fr'"
  using assms by (auto simp: arrived_jmp_def Let_def kept_vcpu split: if_splits prod.splits)

lemma arrived_kept:
  assumes "tracer_ok t" "arrived cfg I t c i fr = Inr (i', fr')"
  shows "keeps_call i fr i' fr'"
proof (cases "isValidIATCall (iat_cpu I) cfg c = -1")
  case True
  then show ?thesis using assms(2) by (auto simp: arrived_def Let_def)
next
  case False
  let ?i = "(or_rtflags (IATCALL_FLAG_TRACEFAILD I) i)\<lparr>ic_hasHead := False, ic_retaddr := 0\<rparr>"
  obtain buf c1 where b: "access_read_physical (iat_cpu I) (c_ESP c) [0, 0, 0, 0] c = (buf, c1)"
    by (cases "access_read_physical (iat_cpu I) (c_ESP c) [0, 0, 0, 0] c")
  let ?g = "fr\<lparr>m_vcpu := Some c1\<rparr>"
  have "keeps_call ?i ?g i' fr'"
    using assms(2) False b arrived_call_kept [OF assms(1)] arrived_jmp_kept
    by (cases "ic_calltype ?i") (auto simp: arrived_def Let_def)
  moreover have "keeps_call i fr ?i ?g" by (simp add: kept_vcpu)
  ultimately show ?thesis using kept_trans by blast
qed

lemma trace_loop_kept:
  assumes "tracer_ok t" "trace_loop cfg I t n i fr = Inr (i', fr')"
  shows "keeps_call i fr i' fr'"
  using assms(2)
proof (induction n arbitrary: i fr)
  case (Suc n)
  obtain c where c: "m_vcpu fr = Some c" using Suc.prems by (auto split: option.splits)
  obtain r c1 where s: "vm_step I c = (r, c1)" by (cases "vm_step I c")
  let ?g = "fr\<lparr>m_vcpu := Some c1\<rparr>"
  have g: "keeps_call i fr i ?g" by (simp add: kept_vcpu)
  show ?case
  proof (cases "DEOBFUSCATE_ESP (iat_cpu I) < c_ESP c \<and> 8 < c_ESP c - DEOBFUSCATE_ESP (iat_cpu I)")
    case True
    then show ?thesis using Suc.prems c by auto
  next
    case False
    then have e: "trace_loop cfg I t (Suc n) i fr = (case r of
        VCPU_LOOPRET_FINISHED \<Rightarrow> arrived cfg I t c1 i ?g
      | VCPU_LOOPRET_NORMAL \<Rightarrow> trace_loop cfg I t n i ?g
      | VCPU_LOOPRET_other m \<Rightarrow>
          Inr (i\<lparr>ic_rtflags := ic_rtflags i AND IATCALL_FLAG_KEEPMARK_MASK I OR IATCALL_FLAG_TRACEFAILD I\<rparr>, ?g))"
      using c s False by (auto simp: Let_def)
    show ?thesis
    proof (cases r)
      case VCPU_LOOPRET_FINISHED
      then have "arrived cfg I t c1 i ?g = Inr (i', fr')" using Suc.prems unfolding e by simp
      then show ?thesis using arrived_kept [OF assms(1)] g kept_trans by blast
    next
      case VCPU_LOOPRET_NORMAL
      then have "trace_loop cfg I t n i ?g = Inr (i', fr')" using Suc.prems unfolding e by simp
      then show ?thesis using Suc.IH g kept_trans by blast
    next
      case (VCPU_LOOPRET_other m)
      then show ?thesis using Suc.prems g unfolding e by auto
    qed
  qed
qed simp

lemma file_result_kept:
  assumes "file_result I i fr = Inr ((ok, i'), fr')"
  shows "keeps_call i fr i' fr'"
  using assms hit_kept by (fastforce simp: file_result_def bindS_Inr_eq split: if_splits)

lemma trace_from_kept:
  assumes "tracer_ok t" "trace_from cfg I t a i fr = Inr ((ok, i'), fr')"
  shows "keeps_call i fr i' fr'"
proof -
  obtain c where c: "m_vcpu fr = Some c"
    using assms(2) by (auto simp: trace_from_def split: option.splits)
  let ?i = "i\<lparr>ic_rtflags := ic_rtflags i AND IATCALL_FLAG_KEEPMARK_MASK I OR IATCALL_FLAG_REACHLIMIT I\<rparr>"
  let ?g = "fr\<lparr>m_vcpu := Some (initIATrace (iat_cpu I) a (init_r3 I (Some False) c))\<rparr>"
  obtain j h where t: "trace_loop cfg I t (nat (sint (maxIATTraceLines cfg))) ?i ?g = Inr (j, h)"
      "file_result I j h = Inr ((ok, i'), fr')"
    using assms(2) c by (auto simp: trace_from_def bindS_Inr_eq)
  have "keeps_call i fr ?i ?g" by (simp add: kept_vcpu)
  then show ?thesis
    using trace_loop_kept [OF assms(1) t(1)] file_result_kept [OF t(2)] kept_trans by blast
qed

lemma traceIAT_with_kept:
  assumes "tracer_ok t"
  shows "tracer_ok (traceIAT_with cfg I t)"
  unfolding tracer_ok_def
proof (intro allI impI)
  fix i fr ok i' fr'
  assume a: "traceIAT_with cfg I t i fr = Inr ((ok, i'), fr')"
  show "keeps_call i fr i' fr'"
  proof (cases "ic_calltype i = iatcall_memaddr")
    case False
    then show ?thesis using a trace_from_kept [OF assms] by (simp add: traceIAT_with_def)
  next
    case True
    obtain n p where r: "read_ptr I (ic_callto i) [0, 0, 0, 0] = (n, p)" by force
    show ?thesis
    proof (cases "n = 4")
      case False
      then show ?thesis using a True r by (auto simp: traceIAT_with_def)
    next
      case n: True
      obtain api cache where g: "getExport I p (m_cache fr) = Inr (api, cache)"
        using a True r n by (auto simp: traceIAT_with_def bindS_Inr_eq)
      let ?g = "fr\<lparr>m_cache := cache\<rparr>"
      let ?i = "i\<lparr>ic_retaddr := ic_cmdaddr i + word_of_int (ic_szop i), ic_result_addr := p\<rparr>"
      have k: "keeps_call i fr ?i ?g" "keeps_call i fr i ?g" by (simp_all add: keeps_call_def)
      show ?thesis
      proof (cases "api = None")
        case True
        then have "trace_from cfg I t p i ?g = Inr ((ok, i'), fr')"
          using a \<open>ic_calltype i = iatcall_memaddr\<close> r n g by (simp add: traceIAT_with_def bindS_def Let_def)
        then show ?thesis using trace_from_kept [OF assms] k kept_trans by blast
      next
        case False
        then obtain f where "hitIATCallModule I ?i ?g = Inr ((f, i'), fr')"
          using a \<open>ic_calltype i = iatcall_memaddr\<close> r n g
          by (auto simp: traceIAT_with_def bindS_Inr_eq Let_def)
        then show ?thesis using hit_kept k kept_trans by blast
      qed
    qed
  qed
qed

lemma traceIAT_kept: "traceIAT cfg I i fr = Inr ((ok, i'), fr') \<Longrightarrow> keeps_call i fr i' fr'"
proof -
  have "tracer_ok (\<lambda>i fr. Inl Diverges)" by (simp add: tracer_ok_def)
  then have "tracer_ok (traceIAT cfg I)" unfolding traceIAT_def by (intro traceIAT_with_kept)
  then show "traceIAT cfg I i fr = Inr ((ok, i'), fr') \<Longrightarrow> keeps_call i fr i' fr'" by (auto simp: tracer_ok_def)
qed

section \<open>What holds of the window\<close>

text \<open>
  Every call is filed once, under its own address, with a code that fits; every row of the table names a call;
  the resolved modules and functions are filed under the hashes of their names.
\<close>

definition rows_ok :: "'v xVMIATCallFrame \<Rightarrow> bool" where
  "rows_ok fr \<longleftrightarrow> ic_cmdaddr ` set (m_table fr) \<subseteq> fst ` set (m_calls fr)"

definition iat_ok :: "'v iat_env \<Rightarrow> 'v xVMIATCallFrame \<Rightarrow> bool" where
  "iat_ok I fr \<longleftrightarrow> calls_ok (m_calls fr) \<and> list_all (\<lambda>e. code_ok I (snd e)) (m_calls fr)
     \<and> mods_ok (m_mods fr) \<and> rows_ok fr"

lemma iat_ok_new: "iat_ok I new_iat_frame"
  by (simp add: iat_ok_def new_iat_frame_def rows_ok_def)

lemma number_calls_ok:
  assumes "calls_ok xs"
  shows "calls_ok (number_calls n xs)"
  using assms number_calls_set [of _ _ n xs] by (fastforce simp: calls_ok_def list_all_iff)

text \<open>Listing the calls gives a table of them, whatever was listed before.\<close>

lemma iat_ok_flush:
  assumes "calls_ok (m_calls fr)" "list_all (\<lambda>e. code_ok I (snd e)) (m_calls fr)" "mods_ok (m_mods fr)"
  shows "iat_ok I (flushCalls I fr)"
proof -
  let ?c = "number_calls 1 (m_calls fr)"
  have c: "calls_ok ?c" using assms(1) by (rule number_calls_ok)
  have "list_all (\<lambda>e. code_ok I (snd e)) ?c"
    using assms(2) number_calls_set [of _ _ 1 "m_calls fr"] by (fastforce simp: list_all_iff code_ok_def)
  moreover have "ic_cmdaddr ` snd ` set ?c \<subseteq> fst ` set ?c"
    using c by (force simp: calls_ok_def list_all_iff)
  ultimately show ?thesis
    using assms(3) c by (auto simp: iat_ok_def rows_ok_def flushCalls_def Let_def)
qed

lemma kl_upd_keys: "fst ` set (kl_upd k v xs) = fst ` set xs"
  using arg_cong [OF kl_upd_fst [of k v xs], of set] by (simp only: set_map)

lemma iat_ok_upd:
  assumes "iat_ok I fr" "ic_cmdaddr i = k" "code_ok I i"
  shows "iat_ok I (fr\<lparr>m_calls := kl_upd k i (m_calls fr)\<rparr>)"
proof -
  have "list_all (\<lambda>e. code_ok I (snd e)) (kl_upd k i (m_calls fr))"
    using assms unfolding iat_ok_def kl_upd_def by (auto simp: list_all_iff)
  then show ?thesis using assms calls_ok_upd by (simp add: iat_ok_def rows_ok_def kl_upd_keys)
qed

lemma iat_ok_call: "iat_ok I fr \<Longrightarrow> map_of (m_calls fr) a = Some i \<Longrightarrow> ic_cmdaddr i = a \<and> code_ok I i"
  by (auto simp: iat_ok_def calls_ok_def list_all_iff dest!: map_of_SomeD)

lemma iat_ok_kept:
  assumes "iat_ok I fr" "keeps_call i fr i' fr'"
  shows "iat_ok I fr'"
  using assms by (simp add: iat_ok_def keeps_call_def rows_ok_def)

lemma code_ok_kept: "codes_ok I \<Longrightarrow> keeps_call i fr i' fr' \<Longrightarrow> code_ok I i \<Longrightarrow> code_ok I i'"
  using codes_okD(2) [of I iatcall_jmp] by (auto simp: keeps_call_def code_ok_def named_def)

lemma iat_ok_cpu [simp]: "iat_ok I (openCPU I fr) = iat_ok I fr" "iat_ok I (closeCPU fr) = iat_ok I fr"
  by (simp_all add: iat_ok_def rows_ok_def openCPU_def closeCPU_def)

lemma iat_ok_list: "iat_ok I fr \<Longrightarrow> iat_ok I (flushCalls I fr)"
  by (intro iat_ok_flush) (simp_all add: iat_ok_def)

lemma foldF_invariant:
  assumes "foldF f xs s = Inr t" "P s" "\<And>x s t. x \<in> set xs \<Longrightarrow> P s \<Longrightarrow> f x s = Inr t \<Longrightarrow> P t"
  shows "P t"
  using assms by (induction xs arbitrary: s) (auto simp: bindF_Inr_eq)

lemma trace_one_ok:
  assumes "codes_ok I" "iat_ok I fr" "trace_one cfg I a fr = Inr fr'"
  shows "iat_ok I fr'"
proof (cases "map_of (m_calls fr) a")
  case None
  then show ?thesis using assms by (simp add: trace_one_def)
next
  case (Some i)
  then obtain ok i' g where t: "traceIAT cfg I i fr = Inr ((ok, i'), g)" "fr' = g\<lparr>m_calls := kl_upd a i' (m_calls g)\<rparr>"
    using assms(3) by (auto simp: trace_one_def split: sum.splits)
  have k: "keeps_call i fr i' g" using traceIAT_kept [OF t(1)] .
  have "ic_cmdaddr i' = a" "code_ok I i'"
    using iat_ok_call [OF assms(2) Some] code_ok_kept [OF assms(1) k] k by (simp_all add: keeps_call_def)
  then show ?thesis unfolding t(2) by (rule iat_ok_upd [OF iat_ok_kept [OF assms(2) k]])
qed

lemma hit_one_ok:
  assumes "codes_ok I" "iat_ok I fr" "hit_one I a fr = Inr fr'"
  shows "iat_ok I fr'"
proof (cases "map_of (m_calls fr) a")
  case None
  then show ?thesis using assms by (simp add: hit_one_def)
next
  case (Some i)
  then obtain r i' g where t: "hitIATCallModule I i fr = Inr ((r, i'), g)" "fr' = g\<lparr>m_calls := kl_upd a i' (m_calls g)\<rparr>"
    using assms(3) by (auto simp: hit_one_def split: sum.splits)
  have k: "keeps_call i fr i' g" using hit_kept [OF t(1)] .
  have "ic_cmdaddr i' = a" "code_ok I i'"
    using iat_ok_call [OF assms(2) Some] code_ok_kept [OF assms(1) k] k by (simp_all add: keeps_call_def)
  then show ?thesis unfolding t(2) by (rule iat_ok_upd [OF iat_ok_kept [OF assms(2) k]])
qed

section \<open>The search keeps it\<close>

definition found_ok :: "'v iat_env \<Rightarrow> iatcall_info \<times> iatcall_info keyed \<Rightarrow> bool" where
  "found_ok I s \<longleftrightarrow> calls_ok (snd s) \<and> list_all (\<lambda>e. code_ok I (snd e)) (snd s)"

lemma bytes_at_Inr: "bytes_at mem k n = Inr bs \<Longrightarrow> length bs = n"
  by (auto simp: bytes_at_def split: if_splits)

lemma kl_set_set: "set (kl_set place k v xs) \<subseteq> insert (k, v) (set xs)"
proof (cases "k \<in> fst ` set xs")
  case True
  then show ?thesis by (auto simp: kl_set_def kl_upd_def split: if_splits)
next
  case False
  then show ?thesis by (simp add: kl_set_def Let_def set_kl_insert del: set_append)
qed

lemma found_ok_set:
  assumes "found_ok I s" "ic_cmdaddr i = k" "code_ok I i"
  shows "found_ok I (j, kl_set place k i (snd s))"
  using assms kl_set_set [of place k i "snd s"] by (auto simp: found_ok_def list_all_iff)

lemma recognize_code:
  assumes "recognize base mem oft i = Inr (Some j)" "codes_ok I"
  shows "code_ok I j"
proof -
  have "ic_szop j = int (length (ic_opcode j)) \<and> length (ic_opcode j) \<le> 6 \<and> ic_calltype j \<in> named"
    using assms(1)
    by (auto simp: recognize_def near_call_def long_call_def bindF_Inr_eq named_def dest!: bytes_at_Inr
        split: if_splits)
  then show ?thesis using codes_okD(1,2) [OF assms(2)] by (auto simp: code_ok_def)
qed

lemma scan_at_ok:
  assumes "found_ok I s" "scan_at I base mem oft s = Inr t" "codes_ok I"
  shows "found_ok I t"
proof -
  obtain r where r: "recognize base mem oft (fst s) = Inr r" using assms(2) by (auto simp: scan_at_def bindF_Inr_eq)
  show ?thesis
  proof (cases r)
    case None
    then show ?thesis using assms(1,2) r by (simp add: scan_at_def)
  next
    case (Some j)
    have "code_ok I (filed (base + of_nat oft) j)"
      using recognize_code [OF r [unfolded Some] assms(3)] by (simp add: code_ok_def filed_def)
    then show ?thesis using found_ok_set [OF assms(1)] assms(2) r Some by (auto simp: scan_at_def Let_def)
  qed
qed

lemma find_user_ok:
  assumes "found_ok I s" "find_user I base mem oft a is s = Inr t" and ok: "codes_ok I"
  shows "found_ok I t"
  using assms(2)
proof (induction "is")
  case (Cons k ks)
  let ?at = "base + of_nat oft - of_nat k" and ?op = "take (k + 4) (drop (oft - k) mem)"
  show ?case
  proof (cases "oft < k")
    case False
    then obtain op where op: "bytes_at mem (oft - k) (k + 4) = Inr op" using Cons.prems by (auto simp: bindF_Inr_eq)
    obtain clen mc ops where d: "dbg_disasm I op ?at = (clen, mc, ops)" by (cases "dbg_disasm I op ?at")
    let ?sz = "min (nat clen) (SZ_OPCODE I)"
    let ?j = "\<lambda>code. (filed ?at (fst s))\<lparr>ic_szop := int ?sz, ic_opcode := code, ic_memoft := of_nat k,
                ic_callto := mc, ic_calltype := iatcall_memaddr\<rparr>"
    have e: "find_user I base mem oft a (k # ks) s =
        (if 0 < clen \<and> mc = a then
           (if const_operand a ops \<and> map_of (snd s) ?at = None then
              bindF (bytes_at mem (oft - k) ?sz) (\<lambda>code. Inr (?j code, kl_set (call_place I) ?at (?j code) (snd s)))
            else Inr s)
         else find_user I base mem oft a ks s)"
      using False op d by (simp add: Let_def)
    show ?thesis
    proof (cases "0 < clen \<and> mc = a")
      case True
      show ?thesis
      proof (cases "const_operand a ops \<and> map_of (snd s) ?at = None")
        case c: True
        have "bindF (bytes_at mem (oft - k) ?sz) (\<lambda>code. Inr (?j code, kl_set (call_place I) ?at (?j code) (snd s))) = Inr t"
          using Cons.prems unfolding e by (simp only: True c if_True simp_thms)
        then obtain code where code: "bytes_at mem (oft - k) ?sz = Inr code"
            "t = (?j code, kl_set (call_place I) ?at (?j code) (snd s))"
          by (auto simp: bindF_Inr_eq)
        have "code_ok I (?j code)" using bytes_at_Inr [OF code(1)] codes_okD(2) [OF ok, of iatcall_memaddr]
          by (simp add: code_ok_def named_def)
        then show ?thesis unfolding code(2) by (intro found_ok_set [OF assms(1)]) simp_all
      next
        case False
        then have "t = s" using Cons.prems True unfolding e by auto
        then show ?thesis using assms(1) by simp
      qed
    next
      case False
      then have "find_user I base mem oft a ks s = Inr t" using Cons.prems unfolding e by (simp only: if_False)
      then show ?thesis by (rule Cons.IH)
    qed
  qed (use Cons.prems assms(1) in simp)
qed (use assms(1) in simp)

lemma memaddr_at_ok:
  assumes "found_ok I s" "memaddr_at I base mem ib ie band oft s = Inr t" and ok: "codes_ok I"
  shows "found_ok I t"
proof -
  obtain a where "t = s \<or> find_user I base mem oft a [1..<12] s = Inr t"
    using assms(2) by (auto simp: memaddr_at_def bindF_Inr_eq split: if_splits prod.splits)
  then show ?thesis using assms(1) find_user_ok [OF assms(1) _ ok] by blast
qed

lemma resolve_code: "resolve_call I i = Some j \<Longrightarrow> code_ok I j \<longleftrightarrow> code_ok I i"
  by (auto simp: resolve_call_def Let_def code_ok_def split: prod.splits if_splits)

lemma found_ok_resolve: "found_ok I (j, xs) \<Longrightarrow> found_ok I (j, resolve_calls I xs)"
proof -
  assume a: "found_ok I (j, xs)"
  have "list_all (\<lambda>e. code_ok I (snd e)) xs \<Longrightarrow> list_all (\<lambda>e. code_ok I (snd e)) (resolve_calls I xs)"
    by (induction I xs rule: resolve_calls.induct) (auto simp: resolve_code split: option.splits)
  then show ?thesis using a calls_ok_resolve [of xs I] by (simp add: found_ok_def)
qed

lemma search_ok:
  assumes "found_ok I (j, m_calls fr)" "searchCallsInMemory I base mem ib ie fr = Inr fr'" "codes_ok I"
  shows "found_ok I (j, m_calls fr') \<and> m_mods fr' = m_mods fr"
proof -
  let ?n = "length mem - 5"
  obtain s1 where 1: "foldF (scan_at I base mem) [0..<?n] (zero_info, m_calls fr) = Inr s1"
    using assms(2) unfolding searchCallsInMemory_def Let_def bindF_Inr_eq by blast
  have f1: "found_ok I s1"
  proof (rule foldF_invariant [OF 1])
    show "found_ok I (zero_info, m_calls fr)" using assms(1) unfolding found_ok_def by simp
  next
    fix x s t assume "found_ok I s" "scan_at I base mem x s = Inr t"
    then show "found_ok I t" by (rule scan_at_ok [OF _ _ assms(3)])
  qed
  have mem: "found_ok I t" if "foldF (memaddr_at I base mem ib ie band) ofts s1 = Inr t" for band ofts t
  proof (rule foldF_invariant [OF that])
    show "found_ok I s1" by (rule f1)
  next
    fix x s t assume "found_ok I s" "memaddr_at I base mem ib ie band x s = Inr t"
    then show "found_ok I t" by (rule memaddr_at_ok [OF _ _ assms(3)])
  qed
  let ?band = "if ib \<le> m_mmaddrEnd fr \<and> m_mmaddrEnd fr < ie then m_mmaddrEnd fr else ie"
  let ?second = "if 0 < ib \<and> ib < ie then foldF (memaddr_at I base mem ib ie ?band) [0..<?n] s1 else Inr s1"
  have "bindF ?second (\<lambda>s2. Inr (fr\<lparr>m_calls := resolve_calls I (snd s2)\<rparr>)) = Inr fr'"
    using assms(2) unfolding searchCallsInMemory_def Let_def 1 bindF_def sum.case by (simp only: bindF_def)
  then obtain s2 where s: "?second = Inr s2" and fr': "fr' = fr\<lparr>m_calls := resolve_calls I (snd s2)\<rparr>"
    unfolding bindF_Inr_eq by blast
  have "found_ok I s2"
  proof (cases "0 < ib \<and> ib < ie")
    case True
    then have "foldF (memaddr_at I base mem ib ie ?band) [0..<?n] s1 = Inr s2" using s by (simp only: simp_thms if_True)
    then show ?thesis by (rule mem)
  next
    case False
    then have "s1 = s2" using s by (simp only: if_False sum.inject)
    then show ?thesis using f1 by simp
  qed
  then have "found_ok I (j, snd s2)" unfolding found_ok_def by simp
  then show ?thesis using fr' found_ok_resolve [of I j "snd s2"] by simp
qed

section \<open>The commands keep it\<close>

lemma iat_ok_found: "iat_ok I fr \<Longrightarrow> found_ok I (j, m_calls fr)"
  by (simp add: iat_ok_def found_ok_def)

lemma findCalls_ok:
  assumes "iat_ok I fr" "findCalls I a merge fr = Inr fr'" "codes_ok I"
  shows "iat_ok I fr'"
proof -
  have list: "iat_ok I (flushCalls I g)" if "found_ok I (zero_info, m_calls g)" "mods_ok (m_mods g)" for g
    using that by (intro iat_ok_flush) (simp_all add: found_ok_def)
  let ?g = "if merge then fr else fr\<lparr>m_calls := []\<rparr>"
  have g: "found_ok I (zero_info, m_calls ?g)" "mods_ok (m_mods ?g)"
    using assms(1) by (auto simp: iat_ok_def found_ok_def)
  consider "fr' = fr" | "fr' = flushCalls I ?g"
    | h base mem ib ie where "searchCallsInMemory I base mem ib ie ?g = Inr h" "fr' = flushCalls I h"
    using assms(2) unfolding findCalls_def Let_def
    by (fastforce simp: bindF_Inr_eq split: option.splits if_splits prod.splits)
  then show ?thesis
  proof cases
    case 3
    then show ?thesis using search_ok [OF g(1) 3(1) assms(3)] g(2) list by simp
  qed (use assms(1) list g in simp_all)
qed

lemma setEnd_ok:
  assumes "iat_ok I fr" "setEndOfImageForMemaddr J a r fr = Inr fr'"
  shows "iat_ok I fr'"
proof -
  have "fr' = fr \<or> (\<exists>b. fr' = fr\<lparr>m_mmaddrEnd := b\<rparr>)"
    using assms(2) by (auto simp: setEndOfImageForMemaddr_def split: if_splits option.splits)
  then show ?thesis using assms(1) by (elim disjE exE) (simp_all add: iat_ok_def rows_ok_def)
qed

lemma traceSelected_ok:
  assumes "iat_ok I fr" "traceSelected cfg I fr = Inr fr'" and ok: "codes_ok I"
  shows "iat_ok I fr'"
proof -
  obtain g where g: "foldF (trace_one cfg I) (map ic_cmdaddr (filter ic_selected (m_table fr))) (openCPU I fr) = Inr g"
      "fr' = closeCPU (flushCalls I g)"
    using assms(2) by (auto simp: traceSelected_def bindF_Inr_eq)
  have "iat_ok I g"
    using foldF_invariant [OF g(1), of "iat_ok I"] trace_one_ok [OF ok] assms(1) by (metis iat_ok_cpu(1))
  then show ?thesis unfolding g(2) by (simp add: iat_ok_list)
qed

lemma refine_one_ok:
  assumes "found_ok I (j, xs)"
  shows "found_ok I (j, refine_one I a xs)"
proof (cases "map_of xs a")
  case (Some i)
  then have "ic_cmdaddr i = a" "code_ok I i"
    using assms by (auto simp: found_ok_def calls_ok_def list_all_iff dest!: map_of_SomeD)
  then have "found_ok I (j, kl_upd a (i\<lparr>ic_rtflags := f\<rparr>) xs)" for f
    using assms calls_ok_upd [of xs "i\<lparr>ic_rtflags := f\<rparr>" a]
    by (auto simp: found_ok_def code_ok_def kl_upd_def list_all_iff)
  then show ?thesis using assms Some by (simp add: refine_one_def)
qed (use assms in \<open>simp add: refine_one_def\<close>)

lemma refineResults_ok:
  assumes "iat_ok I fr"
  shows "iat_ok I (refineResults I fr)"
proof -
  have "found_ok I (zero_info, fold (refine_one I) as xs)" if "found_ok I (zero_info, xs)" for as xs
    using that by (induction as arbitrary: xs) (simp_all add: refine_one_ok)
  then have "found_ok I (zero_info, fold (refine_one I) (map ic_cmdaddr (m_table fr)) (m_calls fr))"
    using iat_ok_found [OF assms] by blast
  then show ?thesis unfolding refineResults_def
    using assms by (intro iat_ok_flush) (simp_all add: found_ok_def iat_ok_def)
qed

lemma traceAll_ok:
  assumes "iat_ok I fr" "traceAll cfg I fr = Inr fr'" and ok: "codes_ok I"
  shows "iat_ok I fr'"
proof -
  obtain g where g: "foldF (trace_one cfg I) (map ic_cmdaddr (m_table fr)) (openCPU I fr) = Inr g"
      "fr' = closeCPU (refineResults I g)"
    using assms(2) by (auto simp: traceAll_def bindF_Inr_eq)
  have "iat_ok I g"
    using foldF_invariant [OF g(1), of "iat_ok I"] trace_one_ok [OF ok] assms(1) by (metis iat_ok_cpu(1))
  then show ?thesis unfolding g(2) by (simp add: refineResults_ok)
qed

lemma addArray_ok:
  assumes "iat_ok I fr" and ok: "codes_ok I"
  shows "iat_ok I (addArrayToIATCall I a sz fr)"
proof -
  have one: "found_ok I (j, add_entry I a e xs)" if "found_ok I (j, xs)" for j e xs
    using that found_ok_set [of I "(j, xs)" "table_call (a + of_nat (fst e * 4))" "a + of_nat (fst e * 4)"]
      codes_okD(2) [OF ok, of iatcall_memaddr]
    by (simp add: add_entry_def Let_def table_call_def zero_info_def code_ok_def named_def)
  have "found_ok I (zero_info, fold (add_entry I a) es xs)" if "found_ok I (zero_info, xs)" for es xs
    using that by (induction es arbitrary: xs) (simp_all add: one)
  then have "found_ok I (zero_info, fold (add_entry I a) es (m_calls fr))" for es
    using iat_ok_found [OF assms(1)] by blast
  then have "iat_ok I (flushCalls I (fr\<lparr>m_calls := fold (add_entry I a) es (m_calls fr)\<rparr>))" for es
    using assms by (intro iat_ok_flush) (simp_all add: found_ok_def iat_ok_def)
  then show ?thesis
    using iat_ok_list [OF assms(1)] by (cases "table_at I a sz") (simp_all add: addArrayToIATCall_def)
qed

lemma iat_ok_mods: "iat_ok I fr \<Longrightarrow> mods_ok ms \<Longrightarrow> iat_ok I (fr\<lparr>m_mods := ms\<rparr>)"
  by (simp add: iat_ok_def rows_ok_def)

lemma mods_ok_upd:
  assumes "mods_ok mods"
  shows "mods_ok (upd_func mh fh (\<lambda>f. f\<lparr>fn_IATRVA := a\<rparr>) mods)"
  unfolding upd_func_def
proof (rule mods_ok_map [OF assms])
  fix k m assume "(k, m) \<in> set mods"
  then have m: "im_sorted (md_funcs m)" "\<forall>(j, f) \<in> set (md_funcs m). fn_nameHash f = j"
    using assms by (auto simp: mods_ok_def list_all_iff)
  let ?fs = "map (\<lambda>(j, f). (j, if j = fh then f\<lparr>fn_IATRVA := a\<rparr> else f)) (md_funcs m)"
  have "im_sorted ?fs" using m(1) map_snd_sorted [of "\<lambda>j f. if j = fh then f\<lparr>fn_IATRVA := a\<rparr> else f" "md_funcs m"]
    by simp
  then show "md_nameHash (if k = mh then m\<lparr>md_funcs := ?fs\<rparr> else m) = md_nameHash m
      \<and> im_sorted (md_funcs (if k = mh then m\<lparr>md_funcs := ?fs\<rparr> else m))
      \<and> list_all (\<lambda>(j, g). fn_nameHash g = j) (md_funcs (if k = mh then m\<lparr>md_funcs := ?fs\<rparr> else m))"
    using m by (auto simp: list_all_iff)
qed

lemma area_entry_ok:
  assumes "iat_ok I (snd s)" "area_entry cfg I a only e s = Inr t"
  shows "iat_ok I (snd t)"
proof -
  let ?i = "table_call (a + of_nat (fst e * 4))"
  consider "t = s" | ok i g where "traceIAT cfg I ?i (snd s) = Inr ((ok, i), g)" "snd t = g"
    | ok i g r i' h where "traceIAT cfg I ?i (snd s) = Inr ((ok, i), g)" "hitIATCallModule I i g = Inr ((r, i'), h)"
        "snd t = h"
    | ok i g r i' h mh fh where "traceIAT cfg I ?i (snd s) = Inr ((ok, i), g)"
        "hitIATCallModule I i g = Inr ((r, i'), h)"
        "snd t = h\<lparr>m_mods := upd_func mh fh (\<lambda>f. f\<lparr>fn_IATRVA := ic_callto i'\<rparr>) (m_mods h)\<rparr>"
    using assms(2) unfolding area_entry_def Let_def
    by (fastforce split: if_splits sum.splits option.splits)
  then show ?thesis
  proof cases
    case 2
    then show ?thesis using iat_ok_kept [OF assms(1) traceIAT_kept] by simp
  next
    case 3
    have "iat_ok I h" by (rule iat_ok_kept [OF iat_ok_kept [OF assms(1) traceIAT_kept [OF 3(1)]] hit_kept [OF 3(2)]])
    then show ?thesis using 3(3) by simp
  next
    case 4
    have "iat_ok I h" by (rule iat_ok_kept [OF iat_ok_kept [OF assms(1) traceIAT_kept [OF 4(1)]] hit_kept [OF 4(2)]])
    then show ?thesis unfolding 4(3) by (intro iat_ok_mods mods_ok_upd) (simp_all add: iat_ok_def)
  qed (use assms(1) in simp)
qed

lemma setIATArea_ok:
  assumes "iat_ok I fr" "setIATArea cfg I a sz only fr = Inr (ws, fr')"
  shows "iat_ok I fr'"
proof -
  obtain g where g: "fr' = closeCPU (flushCalls I g)"
      "g = openCPU I fr \<or> (\<exists>es vs. foldF (area_entry cfg I a only) es ([], openCPU I fr) = Inr (vs, g))"
    using assms(2) by (auto simp: setIATArea_def bindF_Inr_eq split: option.splits)
  have "iat_ok I (snd t)" if "foldF (area_entry cfg I a only) es ([], openCPU I fr) = Inr t" for es t
  proof (rule foldF_invariant [OF that])
    show "iat_ok I (snd ([], openCPU I fr))" using assms(1) by simp
  next
    fix e s t assume "iat_ok I (snd s)" "area_entry cfg I a only e s = Inr t"
    then show "iat_ok I (snd t)" by (rule area_entry_ok)
  qed
  then have "iat_ok I g" using g(2) assms(1) by fastforce
  then show ?thesis unfolding g(1) by (simp add: iat_ok_list)
qed

lemma fix_with_code: "code_ok I (snd (fix_with st w i)) \<longleftrightarrow> code_ok I i"
  by (cases w) (simp_all add: code_ok_def)

lemma code_ok_fixed [simp]: "code_ok I (i\<lparr>ic_fixedState := st\<rparr>) \<longleftrightarrow> code_ok I i"
  by (simp add: code_ok_def)

lemma fixIATCall_code: "code_ok I (snd (snd (fixIATCall mods direct i))) \<longleftrightarrow> code_ok I i"
  by (cases "ic_calltype i")
    (simp_all add: fixIATCall_def fix_call_def fix_jmp_def fix_callmem_def fix_memaddr_def fix_with_code
      Let_def case_prod_beta)

lemma fix_one_ok:
  assumes "iat_ok I (snd s)"
  shows "iat_ok I (snd (fix_one direct a s))"
proof (cases "map_of (m_calls (snd s)) a")
  case None
  then show ?thesis using assms by (simp add: fix_one_def)
next
  case (Some i)
  let ?i = "snd (snd (fixIATCall (m_mods (snd s)) direct i))"
  have "ic_cmdaddr ?i = a" "code_ok I ?i"
    using iat_ok_call [OF assms Some] by (simp_all add: fixIATCall_cmdaddr fixIATCall_code)
  then have "iat_ok I ((snd s)\<lparr>m_calls := kl_upd a ?i (m_calls (snd s))\<rparr>)" by (rule iat_ok_upd [OF assms])
  then show ?thesis using Some by (simp add: fix_one_def case_prod_beta)
qed

lemma fix_selected_ok:
  assumes "iat_ok I fr"
  shows "iat_ok I (snd (fix_selected direct fr))"
proof -
  have "iat_ok I (snd (fold (fix_one direct) as s))" if "iat_ok I (snd s)" for as s
    using that by (induction as arbitrary: s) (simp_all add: fix_one_ok)
  then show ?thesis using assms by (simp add: fix_selected_def)
qed

lemma setFlushFlags_ok: "iat_ok I fr \<Longrightarrow> iat_ok I (setFlushFlags I f on r fr)"
  unfolding setFlushFlags_def by (intro iat_ok_flush) (simp_all add: iat_ok_def)

section \<open>Records\<close>

lemma mods_ok_load_module: "mods_ok mods \<Longrightarrow> mods_ok (load_module N jh bs mods)"
proof -
  assume a: "mods_ok mods"
  have f: "im_sorted (fold (\<lambda>f. im_insert (fn_nameHash f) f) fs xs)
      \<and> list_all (\<lambda>(j, f). fn_nameHash f = j) (fold (\<lambda>f. im_insert (fn_nameHash f) f) fs xs)"
    if "im_sorted xs" "list_all (\<lambda>(j, f). fn_nameHash f = j) xs" for fs and xs :: "(int32, iat_func) index_map"
    using that
  proof (induction fs arbitrary: xs)
    case (Cons f fs)
    have "list_all (\<lambda>(j, f). fn_nameHash f = j) (im_insert (fn_nameHash f) f xs)"
      using im_insert_set [OF Cons.prems(1), of "fn_nameHash f" f] Cons.prems(2) by (auto simp: list_all_iff)
    then show ?case using Cons.IH im_insert_sorted [OF Cons.prems(1)] by simp
  qed simp
  let ?h = "np_getInt N (np_parse N bs) iatcall_vid_hash None"
  let ?ms = "im_insert ?h \<lparr>md_nameHash = ?h, md_name = np_getWString N (np_parse N bs) iatcall_vid_name, md_funcs = []\<rparr> mods"
  have ms: "mods_ok ?ms" by (rule mods_ok_insert [OF a])
  show ?thesis
    unfolding load_module_def Let_def
  proof (rule mods_ok_map [OF ms])
    fix k m assume "(k, m) \<in> set ?ms"
    then have m: "im_sorted (md_funcs m)" "list_all (\<lambda>(j, f). fn_nameHash f = j) (md_funcs m)"
      using ms by (auto simp: mods_ok_def list_all_iff)
    let ?fs = "map (\<lambda>n. load_func N jh (snd n)) (filter (\<lambda>n. fst n = iatcall_vid_node) (np_nodes N (np_parse N bs)))"
    show "md_nameHash (if k = ?h then add_funcs ?fs m else m) = md_nameHash m
        \<and> im_sorted (md_funcs (if k = ?h then add_funcs ?fs m else m))
        \<and> list_all (\<lambda>(j, g). fn_nameHash g = j) (md_funcs (if k = ?h then add_funcs ?fs m else m))"
      using f [OF m, of ?fs] m by (simp add: add_funcs_def)
  qed
qed

lemma load_call_code: "codes_ok I \<Longrightarrow> code_ok I (load_call N I bs)"
  by (simp add: load_call_def Let_def code_ok_def codes_okD(3) split: option.split)

lemma loadRecords_ok:
  assumes "iat_ok I fr" and ok: "codes_ok I"
  shows "iat_ok I (loadRecords N I jh data fr)"
proof (cases "data = []")
  case False
  have m1: "mods_ok (fold (\<lambda>k. load_module N jh (snd k)) ns mods)" if "mods_ok mods" for ns :: "(iatcall_vid \<times> cbyte list) list" and mods
    using that by (induction ns arbitrary: mods) (simp_all add: mods_ok_load_module)
  have m2: "mods_ok (fold (\<lambda>n mods. fold (\<lambda>k. load_module N jh (snd k)) (np_nodes N (np_parse N (snd n))) mods) ns mods)"
    if "mods_ok mods" for ns :: "(iatcall_vid \<times> cbyte list) list" and mods
    using that by (induction ns arbitrary: mods) (simp_all add: m1)
  have c: "found_ok I (j, fold (\<lambda>n calls. let i = load_call N I (snd n) in kl_set (call_place I) (ic_cmdaddr i) i calls) ns xs)"
    if "found_ok I (j, xs)" for j xs and ns :: "(iatcall_vid \<times> cbyte list) list"
    using that
  proof (induction ns arbitrary: xs)
    case (Cons n ns)
    have "found_ok I (j, kl_set (call_place I) (ic_cmdaddr (load_call N I (snd n))) (load_call N I (snd n)) xs)"
      using found_ok_set [OF Cons.prems refl load_call_code [OF ok]] by simp
    then show ?case using Cons.IH by (simp add: Let_def)
  qed simp
  have "found_ok I (zero_info, [])" by (simp add: found_ok_def)
  from c [OF this] show ?thesis
    using False unfolding loadRecords_def Let_def if_not_P [OF False]
    by (intro iat_ok_flush) (simp_all add: found_ok_def m2)
qed (use assms in \<open>simp add: loadRecords_def\<close>)

lemma saveRecords_ok:
  assumes "iat_ok I fr" "saveRecords N I fr = Inr (data, fr')" and ok: "codes_ok I"
  shows "iat_ok I fr' \<and> data = np_write N (file_fields N I fr')"
proof -
  have g: "foldF (hit_one I) (map fst (m_calls fr)) fr = Inr fr'" "data = np_write N (file_fields N I fr')"
    using assms(2) by (auto simp: saveRecords_def bindF_Inr_eq)
  have "iat_ok I fr'" using foldF_invariant [OF g(1), of "iat_ok I"] hit_one_ok [OF ok] assms(1) by blast
  then show ?thesis using g(2) by simp
qed

end
