(* ===== verification/BlockData.thy ===== *)
theory BlockData
  imports IatState
begin

text \<open>
  The data of the block window (\<open>xvmblockframe.h\<close>): code blocks, the log of their executions, the template that
  is made of a log, and the state of the window. \<open>InstSequence\<close>, \<open>SequenceExecute\<close> and \<open>opcode_bp\<close> come
  from the emulator library, which is not in the repository; they are given with the members the sources use.
\<close>

section \<open>Blocks, logs and templates\<close>

text \<open>\<open>InstSequence\<close>; \<open>cb_insts\<close> are its instructions.\<close>

record CodeBlock =
  cb_refc :: int32
  cb_seqID :: int32
  cb_flags :: int32
  cb_uuid :: int32
  cb_entry :: addr
  cb_comment :: wstring
  cb_pattern :: wstring
  cb_insts :: InstSequence

datatype sevar_type =
    sevar_none | sevar_int | sevar_str | sevar_setuuid | sevar_setcomment | sevar_setpattern | sevar_other int32

text \<open>The value of a variable is a union: \<open>sqword\<close> and \<open>byte\<close> are two readings of it.\<close>

record SeqExecVar =
  sv_type :: sevar_type
  sv_sqword :: "64 word"
  sv_byte :: "byte list"

record SequenceExecute =
  se_seqid :: int32
  se_ip :: addr
  se_uuid :: int32
  se_flags :: "32 word"
  se_regs :: "32 word list"
  se_eflags :: "32 word"
  se_vars :: "SeqExecVar list"

record opexec_tpl =
  tp_ip :: addr
  tp_seqid :: int32
  tp_entry :: addr
  tp_uuid :: int32
  tp_flags :: "32 word"

datatype bk_dbgmode = dbg_byvm | dbg_direct

section \<open>Rows of the tables\<close>

text \<open>
  The tables point to the elements of the lists. A pointer is the key of its element; \<open>None\<close> is one that was
  never set, or whose element is gone. Following it is a fault.
\<close>

record seq_info =
  sr_selected :: bool
  sr_is :: "int32 option"

record opexec_info =
  lr_selected :: bool
  lr_entry :: addr
  lr_se :: "int32 option"

record opexec_tpltb =
  pr_selected :: bool
  pr_tpl :: "addr option"

section \<open>Maps with several values for a key\<close>

text \<open>\<open>index_multimap\<close> is used through the interface of \<open>std::multimap\<close>: \<open>insert\<close>, \<open>find\<close>, \<open>count\<close>.\<close>

fun mm_insert :: "'k::linorder \<Rightarrow> 'v \<Rightarrow> ('k \<times> 'v) list \<Rightarrow> ('k \<times> 'v) list" where
  "mm_insert k v [] = [(k, v)]"
| "mm_insert k v (e # es) = (if k < fst e then (k, v) # e # es else e # mm_insert k v es)"

definition mm_find :: "'k \<Rightarrow> ('k \<times> 'v) list \<Rightarrow> ('k \<times> 'v) list" where
  "mm_find k m = dropWhile (\<lambda>e. fst e \<noteq> k) m"

definition mm_count :: "'k \<Rightarrow> ('k \<times> 'v) list \<Rightarrow> nat" where
  "mm_count k m = length (filter (\<lambda>e. fst e = k) m)"

type_synonym SequencesIndex = "(addr \<times> int32) list"

section \<open>What is used of the libraries and of OllyDbg\<close>

text \<open>
  \<open>seq_place\<close> is where \<open>new_back\<close> of a list puts a new key among those that are there, \<open>row_place\<close> where
  \<open>gLPAddsorteddata\<close> puts a row; both use an element whose key is there again. \<open>prev_null\<close> is what \<open>prev\<close> gives
  for a null pointer, with the keys of the list. \<open>new_block\<close> is a new \<open>InstSequence\<close>, \<open>seq_rip\<close> its method
  \<open>rip\<close>. \<open>detect_blocks\<close> and \<open>detect_file\<close> are the analysis of a trace: the blocks and the logs after it, given
  the logs before. \<open>stack_junk\<close> is a local that is not set.
  \<open>wcstol\<close> reads a decimal number.
\<close>

record 'v block_env = "'v iat_env" +
  seq_place :: "int32 \<Rightarrow> int32 list \<Rightarrow> nat"
  row_place :: "32 word \<Rightarrow> 32 word list \<Rightarrow> nat"
  prev_null :: "int32 list \<Rightarrow> fault + int32 option"
  new_block :: CodeBlock
  seq_rip :: "CodeBlock \<Rightarrow> addr"
  detect_blocks :: "TraceRecordEx list \<Rightarrow> SequenceExecute keyed \<Rightarrow> CodeBlock list \<times> SequenceExecute keyed"
  detect_file :: "wstring \<Rightarrow> SequenceExecute keyed \<Rightarrow> CodeBlock list \<times> SequenceExecute keyed"
  stack_junk :: "32 word"
  set_int3 :: "addr \<Rightarrow> int"
  cpu_context :: "CONTEXT option"
  dbg_thread :: "32 word \<Rightarrow> nat option"
  open_thread :: "32 word \<Rightarrow> bool"
  thread_context :: "nat \<Rightarrow> CONTEXT option"
  ud_length :: "byte list \<Rightarrow> addr \<Rightarrow> int"
  force_flags :: "'v xVMDebugCPU \<Rightarrow> 32 word"
  set_eflags :: "32 word \<Rightarrow> 'v xVMDebugCPU \<Rightarrow> 'v xVMDebugCPU"
  wide_string :: "string \<Rightarrow> wstring"
  wcstol :: "wstring \<Rightarrow> int32"
  TEXTLEN :: nat
  INSTSEQ_FLAG_MONITER :: int32
  SEQEXEC_FLAG_HIDDEN :: "32 word"
  SEQEXEC_FLAG_TEMP :: "32 word"
  SEQEXEC_FLAG_BREAK :: "32 word"
  bkopt_flags_showhidden :: int32

section \<open>The window\<close>

text \<open>
  \<open>bf_rcs\<close> is the CPU of the window's trace view; the instructions of its sequence are those the CPU records, the
  other members are \<open>bf_rcs_tag\<close>. The breakpoints are kept by address.
\<close>

record 'v xVMBlockFrame =
  bf_hFrame :: bool
  bf_seqs :: "CodeBlock keyed"
  bf_instIndex :: SequencesIndex
  bf_sseq :: "SequenceExecute keyed"
  bf_setpl :: "opexec_tpl keyed"
  bf_bps :: "addr keyed"
  bf_hilSeqs :: "int32 list"
  bf_lastRip :: addr
  bf_shotBPs :: "addr list"
  bf_brIPs :: "addr list"
  bf_hiOIP :: addr
  bf_skipNext :: bool
  bf_lastsel :: int
  bf_dbgmode :: int32
  bf_unqID :: int32
  bf_uniqueID :: int32
  bf_blocks :: "seq_info keyed"
  bf_logs :: "opexec_info keyed"
  bf_tpls :: "opexec_tpltb keyed"
  bf_rcs :: "'v xVMDebugCPU"
  bf_rcs_tag :: CodeBlock

text \<open>The constructor; \<open>m_lastRip\<close> and \<open>m_hiOIP\<close> are not set by it.\<close>

definition new_block_frame :: "'v block_env \<Rightarrow> addr \<Rightarrow> addr \<Rightarrow> 'v xVMBlockFrame" where
  "new_block_frame B rip oip =
     \<lparr>bf_hFrame = False, bf_seqs = [], bf_instIndex = [], bf_sseq = [], bf_setpl = [], bf_bps = [],
      bf_hilSeqs = [], bf_lastRip = rip, bf_shotBPs = [], bf_brIPs = [], bf_hiOIP = oip, bf_skipNext = False,
      bf_lastsel = -1, bf_dbgmode = 0, bf_unqID = 0, bf_uniqueID = 0, bf_blocks = [], bf_logs = [], bf_tpls = [],
      bf_rcs = init_r3 B None (new_cpu B), bf_rcs_tag = new_block B\<rparr>"

definition reset_frame :: "'v xVMBlockFrame \<Rightarrow> 'v xVMBlockFrame" where
  "reset_frame fr = fr\<lparr>bf_hFrame := False, bf_uniqueID := 0\<rparr>"

definition findSeq :: "int32 \<Rightarrow> 'v xVMBlockFrame \<Rightarrow> CodeBlock option" where
  "findSeq seqID fr = map_of (bf_seqs fr) seqID"

text \<open>The sequence of the trace view, and of a CPU.\<close>

definition rcs_block :: "'v xVMBlockFrame \<Rightarrow> CodeBlock" where
  "rcs_block fr = (bf_rcs_tag fr)\<lparr>cb_insts := m_seq1 (bf_rcs fr)\<rparr>"

definition cpu_block :: "'v block_env \<Rightarrow> 'v xVMDebugCPU \<Rightarrow> CodeBlock" where
  "cpu_block B c = (new_block B)\<lparr>cb_insts := m_seq1 c\<rparr>"

definition records :: "CodeBlock \<Rightarrow> TraceRecordEx list" where
  "records b = map snd (is_nodes (cb_insts b))"

text \<open>Pointers whose elements are not there any more.\<close>

definition live :: "'k set \<Rightarrow> 'k option \<Rightarrow> 'k option" where
  "live ks p = (case p of None \<Rightarrow> None | Some k \<Rightarrow> if k \<in> ks then Some k else None)"

definition set_seqs :: "CodeBlock keyed \<Rightarrow> 'v xVMBlockFrame \<Rightarrow> 'v xVMBlockFrame" where
  "set_seqs xs fr =
     fr\<lparr>bf_seqs := xs,
        bf_blocks := map (\<lambda>(a, r). (a, r\<lparr>sr_is := live (fst ` set xs) (sr_is r)\<rparr>)) (bf_blocks fr)\<rparr>"

definition set_logs :: "SequenceExecute keyed \<Rightarrow> 'v xVMBlockFrame \<Rightarrow> 'v xVMBlockFrame" where
  "set_logs xs fr =
     fr\<lparr>bf_sseq := xs,
        bf_logs := map (\<lambda>(a, r). (a, r\<lparr>lr_se := live (fst ` set xs) (lr_se r)\<rparr>)) (bf_logs fr)\<rparr>"

definition set_tpls :: "opexec_tpl keyed \<Rightarrow> 'v xVMBlockFrame \<Rightarrow> 'v xVMBlockFrame" where
  "set_tpls xs fr =
     fr\<lparr>bf_setpl := xs,
        bf_tpls := map (\<lambda>(a, r). (a, r\<lparr>pr_tpl := live (fst ` set xs) (pr_tpl r)\<rparr>)) (bf_tpls fr)\<rparr>"

text \<open>Following a pointer of a row.\<close>

definition row_block :: "'v xVMBlockFrame \<Rightarrow> seq_info \<Rightarrow> fault + int32 \<times> CodeBlock" where
  "row_block fr r =
     (case sr_is r of None \<Rightarrow> Inl Null_deref
      | Some k \<Rightarrow> (case map_of (bf_seqs fr) k of None \<Rightarrow> Inl Null_deref | Some b \<Rightarrow> Inr (k, b)))"

definition row_log :: "'v xVMBlockFrame \<Rightarrow> opexec_info \<Rightarrow> fault + int32 \<times> SequenceExecute" where
  "row_log fr r =
     (case lr_se r of None \<Rightarrow> Inl Null_deref
      | Some k \<Rightarrow> (case map_of (bf_sseq fr) k of None \<Rightarrow> Inl Null_deref | Some se \<Rightarrow> Inr (k, se)))"

definition row_tpl :: "'v xVMBlockFrame \<Rightarrow> opexec_tpltb \<Rightarrow> fault + addr \<times> opexec_tpl" where
  "row_tpl fr r =
     (case pr_tpl r of None \<Rightarrow> Inl Null_deref
      | Some k \<Rightarrow> (case map_of (bf_setpl fr) k of None \<Rightarrow> Inl Null_deref | Some t \<Rightarrow> Inr (k, t)))"

text \<open>\<open>gLPGetsortedbyindex\<close> and \<open>gLPGetsortedbyselection\<close>: the row at a place, if there is one.\<close>

definition row_at :: "int \<Rightarrow> 'r keyed \<Rightarrow> (32 word \<times> 'r) option" where
  "row_at i rows = (if 0 \<le> i \<and> i < int (length rows) then Some (rows ! nat i) else None)"

end
