(* ===== verification/Blocks.thy ===== *)
theory Blocks
  imports BlockData
begin

text \<open>
  Filing code blocks, logging their executions, counting them, and the tables of the block window
  (\<open>xvmblockframe.cpp\<close>). What a command shows besides its tables is left out.
\<close>

section \<open>Filing blocks\<close>

definition put_block :: "'v block_env \<Rightarrow> int32 \<Rightarrow> CodeBlock \<Rightarrow> 'v xVMBlockFrame \<Rightarrow> 'v xVMBlockFrame" where
  "put_block B k b fr = fr\<lparr>bf_seqs := kl_set (seq_place B) k b (bf_seqs fr)\<rparr>"

definition loadSequence :: "'v block_env \<Rightarrow> CodeBlock \<Rightarrow> 'v xVMBlockFrame \<Rightarrow> 'v xVMBlockFrame" where
  "loadSequence B seq fr =
     (put_block B (cb_seqID seq) seq fr)
       \<lparr>bf_instIndex := foldl (\<lambda>ix tr. mm_insert (tr_rip (tx_ctx1 tr)) (cb_seqID seq) ix)
                          (bf_instIndex fr) (records seq)\<rparr>"

text \<open>The loop of \<open>emptySeqID\<close> and \<open>emptyExecLogID\<close>; it does not end when every number is taken.\<close>

partial_function (option) free_from :: "int32 list \<Rightarrow> int32 \<Rightarrow> int32 option" where
  "free_from ks i = (if i \<in> set ks then free_from ks (i + 1) else Some i)"

declare free_from.simps [code]

definition first_free :: "int32 list \<Rightarrow> int32 \<Rightarrow> fault + int32" where
  "first_free ks old =
     (case free_from ks (if sint old < 0 then 0 else old) of None \<Rightarrow> Inl Diverges | Some i \<Rightarrow> Inr i)"

definition emptySeqID :: "int32 \<Rightarrow> 'v xVMBlockFrame \<Rightarrow> fault + int32" where
  "emptySeqID old fr = first_free (map fst (bf_seqs fr)) old"

text \<open>The block with a number, and the frame; the number is given when it is minus one.\<close>

definition ensureSequence ::
  "'v block_env \<Rightarrow> int32 \<Rightarrow> addr \<Rightarrow> 'v xVMBlockFrame \<Rightarrow> fault + int32 \<times> 'v xVMBlockFrame" where
  "ensureSequence B seqID entry fr =
     (case findSeq seqID fr of
        Some _ \<Rightarrow> Inr (seqID, fr)
      | None \<Rightarrow>
          bindF (if seqID = -1 then emptySeqID (-1) fr else Inr seqID) (\<lambda>k.
            Inr (k, put_block B k ((new_block B)\<lparr>cb_seqID := k, cb_entry := entry\<rparr>) fr)))"

definition upd_block :: "int32 \<Rightarrow> (CodeBlock \<Rightarrow> CodeBlock) \<Rightarrow> 'v xVMBlockFrame \<Rightarrow> 'v xVMBlockFrame" where
  "upd_block k f fr =
     (case findSeq k fr of None \<Rightarrow> fr | Some b \<Rightarrow> fr\<lparr>bf_seqs := kl_upd k (f b) (bf_seqs fr)\<rparr>)"

definition upd_log ::
  "int32 \<Rightarrow> (SequenceExecute \<Rightarrow> SequenceExecute) \<Rightarrow> 'v xVMBlockFrame \<Rightarrow> 'v xVMBlockFrame" where
  "upd_log k f fr =
     (case map_of (bf_sseq fr) k of None \<Rightarrow> fr | Some se \<Rightarrow> fr\<lparr>bf_sseq := kl_upd k (f se) (bf_sseq fr)\<rparr>)"

section \<open>Breakpoints and tables\<close>

definition setBreakPoint :: "'v block_env \<Rightarrow> addr \<Rightarrow> bool \<Rightarrow> 'v xVMBlockFrame \<Rightarrow> 'v xVMBlockFrame" where
  "setBreakPoint B ip bRemove fr =
     (if bRemove then fr\<lparr>bf_bps := filter (\<lambda>e. fst e \<noteq> ip) (bf_bps fr)\<rparr>
      else fr\<lparr>bf_bps := kl_set (seq_place B) ip ip (bf_bps fr)\<rparr>)"

definition flushSeqs :: "'v block_env \<Rightarrow> 'v xVMBlockFrame \<Rightarrow> 'v xVMBlockFrame" where
  "flushSeqs B fr =
     fr\<lparr>bf_blocks := foldl (\<lambda>rows (idx, k). kl_set (row_place B) (of_nat idx)
            \<lparr>sr_selected = False, sr_is = Some k\<rparr> rows) [] (enumerate 1 (map fst (bf_seqs fr)))\<rparr>"

definition flushSeq :: "int32 \<Rightarrow> 'v xVMBlockFrame \<Rightarrow> 'v xVMBlockFrame" where
  "flushSeq seqID fr =
     (case findSeq seqID fr of None \<Rightarrow> fr
      | Some b \<Rightarrow> fr\<lparr>bf_rcs := (bf_rcs fr)\<lparr>m_seq1 := cb_insts b\<rparr>, bf_rcs_tag := b\<rparr>)"

definition shows_log :: "'v block_env \<Rightarrow> xvmdbg_config \<Rightarrow> SequenceExecute \<Rightarrow> bool" where
  "shows_log B cfg se \<longleftrightarrow>
     has (bkopt_filter cfg) (bkopt_flags_showhidden B) \<or> \<not> has (se_flags se) (SEQEXEC_FLAG_HIDDEN B)"

definition flushExecLog ::
  "'v block_env \<Rightarrow> xvmdbg_config \<Rightarrow> int32 \<times> SequenceExecute \<Rightarrow> 'v xVMBlockFrame \<Rightarrow> 'v xVMBlockFrame" where
  "flushExecLog B cfg e fr =
     (case e of (key, se) \<Rightarrow>
        if shows_log B cfg se then
          (let fr1 = (if has (se_flags se) (SEQEXEC_FLAG_BREAK B) then setBreakPoint B (se_ip se) False fr else fr);
               entry = (case findSeq (se_seqid se) fr1 of None \<Rightarrow> stack_junk B | Some b \<Rightarrow> seq_rip B b)
           in fr1\<lparr>bf_logs := kl_set (row_place B) key
                   \<lparr>lr_selected = False, lr_entry = entry, lr_se = Some key\<rparr> (bf_logs fr1)\<rparr>)
        else fr)"

definition flushExecLogs :: "'v block_env \<Rightarrow> xvmdbg_config \<Rightarrow> 'v xVMBlockFrame \<Rightarrow> 'v xVMBlockFrame" where
  "flushExecLogs B cfg fr = foldl (\<lambda>fr e. flushExecLog B cfg e fr) (fr\<lparr>bf_logs := []\<rparr>) (bf_sseq fr)"

text \<open>The last log that is not temporary and has an address; it is highlighted.\<close>

definition setHilightOIP :: "addr \<Rightarrow> 'v xVMBlockFrame \<Rightarrow> 'v xVMBlockFrame" where
  "setHilightOIP ip fr = fr\<lparr>bf_hiOIP := ip\<rparr>"

definition hiLastExecLog :: "'v block_env \<Rightarrow> 'v xVMBlockFrame \<Rightarrow> 'v xVMBlockFrame" where
  "hiLastExecLog B fr =
     (case find (\<lambda>(k, se). \<not> has (se_flags se) (SEQEXEC_FLAG_TEMP B) \<and> se_ip se \<noteq> 0) (rev (bf_sseq fr)) of
        None \<Rightarrow> fr | Some (k, se) \<Rightarrow> setHilightOIP (se_ip se) fr)"

definition flushAllExecLogs :: "'v block_env \<Rightarrow> xvmdbg_config \<Rightarrow> 'v xVMBlockFrame \<Rightarrow> 'v xVMBlockFrame" where
  "flushAllExecLogs B cfg fr = hiLastExecLog B (flushExecLogs B cfg fr)"

definition flushTemplate ::
  "'v block_env \<Rightarrow> nat \<times> addr \<times> opexec_tpl \<Rightarrow> 'v xVMBlockFrame \<Rightarrow> 'v xVMBlockFrame" where
  "flushTemplate B e fr =
     (case e of (i, k, t) \<Rightarrow>
        (let fr1 = (if has (tp_flags t) (SEQEXEC_FLAG_BREAK B) then setBreakPoint B (tp_ip t) False fr else fr)
         in fr1\<lparr>bf_tpls := kl_set (row_place B) (of_nat i) \<lparr>pr_selected = False, pr_tpl = Some k\<rparr> (bf_tpls fr1)\<rparr>))"

definition flushExecTemplate :: "'v block_env \<Rightarrow> 'v xVMBlockFrame \<Rightarrow> 'v xVMBlockFrame" where
  "flushExecTemplate B fr =
     foldl (\<lambda>fr e. flushTemplate B e fr) (fr\<lparr>bf_tpls := []\<rparr>) (enumerate 0 (bf_setpl fr))"

section \<open>Logs of executions\<close>

text \<open>
  A log may carry new values for its block. Whichever variable asks for it, the value is that of the first one.
\<close>

definition exec_var ::
  "'v block_env \<Rightarrow> SequenceExecute \<times> 'v xVMBlockFrame \<Rightarrow> nat \<Rightarrow> SequenceExecute \<times> 'v xVMBlockFrame" where
  "exec_var B st i =
     (case st of (se, fr) \<Rightarrow>
        (let v = se_vars se ! i; v0 = se_vars se ! 0;
             se' = se\<lparr>se_vars := (se_vars se)[i := v\<lparr>sv_type := sevar_none\<rparr>]\<rparr>
         in case sv_type v of
              sevar_setuuid \<Rightarrow> (se', upd_block (se_seqid se) (\<lambda>b. b\<lparr>cb_uuid := ucast (sv_sqword v0)\<rparr>) fr)
            | sevar_setcomment \<Rightarrow>
                (se', upd_block (se_seqid se) (\<lambda>b. b\<lparr>cb_comment := to_wide B (sv_byte v0)\<rparr>) fr)
            | sevar_setpattern \<Rightarrow>
                (se', upd_block (se_seqid se) (\<lambda>b. b\<lparr>cb_pattern := to_wide B (sv_byte v0)\<rparr>) fr)
            | _ \<Rightarrow> (se, fr)))"

definition emptyExecLogID :: "int32 \<Rightarrow> 'v xVMBlockFrame \<Rightarrow> fault + int32 \<times> 'v xVMBlockFrame" where
  "emptyExecLogID old fr =
     (let ks = map fst (bf_sseq fr); u = bf_uniqueID fr
      in if old = -1 \<and> u \<notin> set ks then Inr (u, fr\<lparr>bf_uniqueID := u + 1\<rparr>)
         else bindF (first_free ks old) (\<lambda>i.
                Inr (i, if old = -1 then fr\<lparr>bf_uniqueID := of_nat (length ks)\<rparr> else fr)))"

definition addBlockExecLog ::
  "'v block_env \<Rightarrow> xvmdbg_config \<Rightarrow> SequenceExecute \<Rightarrow> int32 \<Rightarrow> 'v xVMBlockFrame
    \<Rightarrow> fault + int32 \<times> 'v xVMBlockFrame" where
  "addBlockExecLog B cfg se startID fr =
     (let (se1, fr1) = foldl (exec_var B) (se, fr) [0..<length (se_vars se)]
      in bindF (emptyExecLogID startID fr1) (\<lambda>(sid, fr2).
           Inr (sid, flushExecLog B cfg (sid, se1)
                       (fr2\<lparr>bf_sseq := kl_set (seq_place B) sid se1 (bf_sseq fr2)\<rparr>))))"

definition clearSeqExecLogs :: "'v block_env \<Rightarrow> xvmdbg_config \<Rightarrow> 'v xVMBlockFrame \<Rightarrow> 'v xVMBlockFrame" where
  "clearSeqExecLogs B cfg fr = flushExecLogs B cfg (set_logs [] fr)"

definition removeTempExecLogs :: "'v block_env \<Rightarrow> 'v xVMBlockFrame \<Rightarrow> 'v xVMBlockFrame" where
  "removeTempExecLogs B fr =
     set_logs (filter (\<lambda>(k, se). \<not> has (se_flags se) (SEQEXEC_FLAG_TEMP B)) (bf_sseq fr)) fr"

text \<open>
  The loop goes back from the last log. After a removal, which gives the next log or null, it goes to what is before
  that; for the last log this is \<open>prev(0)\<close>.
\<close>

fun key_before :: "int32 list \<Rightarrow> int32 \<Rightarrow> int32 option" where
  "key_before (x # y # xs) k = (if y = k then Some x else key_before (y # xs) k)"
| "key_before _ k = None"

definition key_after :: "int32 list \<Rightarrow> int32 \<Rightarrow> int32 option" where
  "key_after ks k = key_before (rev ks) k"

lemma filter_key_shorter: "map_of xs k = Some v \<Longrightarrow> length (filter (\<lambda>e. fst e \<noteq> k) xs) < length xs"
  by (auto dest!: map_of_SomeD intro!: length_filter_less)

function last_temp_loop ::
  "'v block_env \<Rightarrow> int32 option \<Rightarrow> SequenceExecute keyed \<Rightarrow> fault + SequenceExecute keyed" where
  "last_temp_loop B p xs =
     (case p of None \<Rightarrow> Inr xs
      | Some k \<Rightarrow>
          (case map_of xs k of
             None \<Rightarrow> Inl Null_deref
           | Some se \<Rightarrow>
               if has (se_flags se) (SEQEXEC_FLAG_TEMP B) then
                 (let xs' = filter (\<lambda>e. fst e \<noteq> k) xs
                  in case key_after (map fst xs) k of
                       Some n \<Rightarrow> last_temp_loop B (key_before (map fst xs') n) xs'
                     | None \<Rightarrow> (case prev_null B (map fst xs') of
                                   Inl f \<Rightarrow> Inl f | Inr q \<Rightarrow> last_temp_loop B q xs'))
               else Inr xs))"
  by pat_completeness auto

termination
  by (relation "measure (\<lambda>(B, p, xs). length xs)") (auto simp: filter_key_shorter)

declare last_temp_loop.simps [simp del]

definition removeLastTempExecLogs :: "'v block_env \<Rightarrow> 'v xVMBlockFrame \<Rightarrow> fault + 'v xVMBlockFrame" where
  "removeLastTempExecLogs B fr =
     bindF (last_temp_loop B (if bf_sseq fr = [] then None else Some (fst (last (bf_sseq fr)))) (bf_sseq fr)) (\<lambda>xs.
       Inr (set_logs xs fr))"

section \<open>Counting and templates\<close>

definition resetBlocksReference :: "'v xVMBlockFrame \<Rightarrow> 'v xVMBlockFrame" where
  "resetBlocksReference fr = fr\<lparr>bf_seqs := map (\<lambda>(k, b). (k, b\<lparr>cb_refc := 0\<rparr>)) (bf_seqs fr)\<rparr>"

definition calcBlockExecReference :: "'v block_env \<Rightarrow> 'v xVMBlockFrame \<Rightarrow> 'v xVMBlockFrame" where
  "calcBlockExecReference B fr =
     flushSeqs B (foldl (\<lambda>fr (k, se). upd_block (se_seqid se) (\<lambda>b. b\<lparr>cb_refc := cb_refc b + 1\<rparr>) fr)
       (resetBlocksReference fr) (bf_sseq fr))"

definition template_of :: "'v block_env \<Rightarrow> 'v xVMBlockFrame \<Rightarrow> SequenceExecute \<Rightarrow> opexec_tpl" where
  "template_of B fr se =
     \<lparr>tp_ip = se_ip se, tp_seqid = se_seqid se,
      tp_entry = (case findSeq (se_seqid se) fr of None \<Rightarrow> 0 | Some b \<Rightarrow> seq_rip B b),
      tp_uuid = se_uuid se, tp_flags = 0\<rparr>"

definition exportExecLogsToTemplate :: "'v block_env \<Rightarrow> 'v xVMBlockFrame \<Rightarrow> 'v xVMBlockFrame" where
  "exportExecLogsToTemplate B fr =
     flushExecTemplate B
       (set_tpls (foldl (\<lambda>ts (k, se). if has (se_flags se) (SEQEXEC_FLAG_TEMP B) then ts
                           else kl_set (seq_place B) (se_ip se) (template_of B fr se) ts) [] (bf_sseq fr)) fr)"

section \<open>Resetting, and traces\<close>

definition resetBlocks :: "'v xVMBlockFrame \<Rightarrow> 'v xVMBlockFrame" where
  "resetBlocks fr = (set_logs [] (set_seqs [] fr))\<lparr>bf_instIndex := [], bf_uniqueID := 0\<rparr>"

definition load_detected ::
  "'v block_env \<Rightarrow> xvmdbg_config \<Rightarrow> CodeBlock list \<times> SequenceExecute keyed \<Rightarrow> 'v xVMBlockFrame
    \<Rightarrow> 'v xVMBlockFrame" where
  "load_detected B cfg d fr =
     flushExecLogs B cfg (flushSeqs B (foldl (\<lambda>fr b. loadSequence B b fr) (set_logs (snd d) fr) (fst d)))"

definition analyserTraceFile ::
  "'v block_env \<Rightarrow> xvmdbg_config \<Rightarrow> wstring \<Rightarrow> 'v xVMBlockFrame \<Rightarrow> 'v xVMBlockFrame" where
  "analyserTraceFile B cfg path fr =
     load_detected B cfg (detect_file B path []) ((set_seqs [] (set_logs [] fr))\<lparr>bf_instIndex := []\<rparr>)"

definition analyserTraceRecords ::
  "'v block_env \<Rightarrow> xvmdbg_config \<Rightarrow> TraceRecordEx list \<Rightarrow> 'v xVMBlockFrame \<Rightarrow> 'v xVMBlockFrame" where
  "analyserTraceRecords B cfg rcs fr =
     (if rcs \<noteq> [] then load_detected B cfg (detect_blocks B rcs (bf_sseq fr)) fr else fr)"

definition detectCodeBlocks ::
  "'v block_env \<Rightarrow> xvmdbg_config \<Rightarrow> InstSequence \<Rightarrow> 'v xVMBlockFrame \<Rightarrow> 'v xVMBlockFrame" where
  "detectCodeBlocks B cfg seq fr = analyserTraceRecords B cfg (map snd (is_nodes seq)) (resetBlocks fr)"

section \<open>Tables do not change what they show\<close>

text \<open>The parts of the frame that are not tables, breakpoints or highlights.\<close>

definition same_data :: "'v xVMBlockFrame \<Rightarrow> 'v xVMBlockFrame \<Rightarrow> bool" where
  "same_data fr fr' \<longleftrightarrow>
     bf_seqs fr' = bf_seqs fr \<and> bf_instIndex fr' = bf_instIndex fr \<and> bf_sseq fr' = bf_sseq fr
     \<and> bf_setpl fr' = bf_setpl fr \<and> bf_uniqueID fr' = bf_uniqueID fr \<and> bf_unqID fr' = bf_unqID fr"

lemma same_data_refl [simp]: "same_data fr fr"
  by (simp add: same_data_def)

lemma same_data_trans: "same_data a b \<Longrightarrow> same_data b c \<Longrightarrow> same_data a c"
  by (simp add: same_data_def)

lemma same_data_foldl:
  assumes "\<And>fr x. same_data fr (f fr x)"
  shows "same_data fr (foldl f fr xs)"
  by (induction xs arbitrary: fr) (auto intro: same_data_trans assms)

lemma same_data_setBreakPoint: "same_data fr (setBreakPoint B ip r fr)"
  by (simp add: setBreakPoint_def same_data_def)

lemma same_data_flushExecLog: "same_data fr (flushExecLog B cfg e fr)"
  by (auto simp: flushExecLog_def Let_def same_data_def setBreakPoint_def split: prod.split)

lemma same_data_flushTemplate: "same_data fr (flushTemplate B e fr)"
  by (auto simp: flushTemplate_def Let_def same_data_def setBreakPoint_def split: prod.split)

lemma same_data_flush:
  "same_data fr (flushSeqs B fr)"
  "same_data fr (flushExecLogs B cfg fr)"
  "same_data fr (flushExecTemplate B fr)"
  "same_data fr (hiLastExecLog B fr)"
proof -
  show "same_data fr (flushSeqs B fr)" by (simp add: flushSeqs_def same_data_def)
  show "same_data fr (flushExecLogs B cfg fr)" unfolding flushExecLogs_def
    by (rule same_data_trans [OF _ same_data_foldl]) (auto simp: same_data_flushExecLog, simp add: same_data_def)
  show "same_data fr (flushExecTemplate B fr)" unfolding flushExecTemplate_def
    by (rule same_data_trans [OF _ same_data_foldl]) (auto simp: same_data_flushTemplate, simp add: same_data_def)
  show "same_data fr (hiLastExecLog B fr)"
    by (auto simp: hiLastExecLog_def setHilightOIP_def same_data_def split: option.split)
qed

lemma flush_keeps [simp]:
  "bf_seqs (flushSeqs B fr) = bf_seqs fr" "bf_sseq (flushSeqs B fr) = bf_sseq fr"
  "bf_setpl (flushSeqs B fr) = bf_setpl fr" "bf_instIndex (flushSeqs B fr) = bf_instIndex fr"
  "bf_seqs (flushExecLogs B cfg fr) = bf_seqs fr" "bf_sseq (flushExecLogs B cfg fr) = bf_sseq fr"
  "bf_setpl (flushExecLogs B cfg fr) = bf_setpl fr" "bf_instIndex (flushExecLogs B cfg fr) = bf_instIndex fr"
  "bf_seqs (flushExecTemplate B fr) = bf_seqs fr" "bf_sseq (flushExecTemplate B fr) = bf_sseq fr"
  "bf_setpl (flushExecTemplate B fr) = bf_setpl fr" "bf_instIndex (flushExecTemplate B fr) = bf_instIndex fr"
  "bf_seqs (flushExecLog B cfg e fr) = bf_seqs fr" "bf_sseq (flushExecLog B cfg e fr) = bf_sseq fr"
  "bf_setpl (flushExecLog B cfg e fr) = bf_setpl fr" "bf_instIndex (flushExecLog B cfg e fr) = bf_instIndex fr"
  using same_data_flush [of fr B] same_data_flushExecLog [of fr B cfg e] by (simp_all add: same_data_def)

end
