(* ===== verification/BlockTrace.thy ===== *)
theory BlockTrace
  imports Blocks
begin

text \<open>
  Tracing code blocks: where blocks meet, cutting them there (\<open>conciseSequences\<close>, \<open>conciseSequences1\<close>), blocks of a
  table of addresses (\<open>addBlockEntries\<close>), finding the dispatch jump of a virtual machine and its handlers
  (\<open>detectOPBranch\<close>, \<open>traceOPBranch\<close>), and the breakpoints at the ends of blocks.
\<close>

section \<open>Where blocks meet\<close>

definition rips :: "CodeBlock \<Rightarrow> addr list" where
  "rips b = map (\<lambda>tr. tr_rip (tx_ctx1 tr)) (records b)"

definition getSequenceCommAddr :: "CodeBlock \<Rightarrow> CodeBlock \<Rightarrow> addr" where
  "getSequenceCommAddr seq1 seq2 =
     (case find (\<lambda>a. list_ex (\<lambda>a2. a = a2) (rips seq2)) (rips seq1) of None \<Rightarrow> 0 | Some a \<Rightarrow> a)"

definition count_addr :: "addr \<Rightarrow> (addr, nat) index_map \<Rightarrow> (addr, nat) index_map" where
  "count_addr a refc =
     (if a = 0 then refc else map (\<lambda>(k, n). (k, if k = a then n + 1 else n)) (im_insert a 0 refc))"

fun count_common :: "nat \<Rightarrow> CodeBlock list \<Rightarrow> (addr, nat) index_map \<Rightarrow> (addr, nat) index_map" where
  "count_common forc (b # b2 # bs) refc =
     (let refc' = foldl (\<lambda>m b'. count_addr (getSequenceCommAddr b b') m) refc (b2 # bs)
      in if 5 < forc then refc' else count_common (forc + 1) (b2 # bs) refc')"
| "count_common forc _ refc = refc"

text \<open>The end of the blocks is the last entry of the map.\<close>

definition block_end :: "CodeBlock list \<Rightarrow> addr" where
  "block_end seqs = (let refc = count_common 0 seqs [] in if refc = [] then 0 else fst (last refc))"

definition cut_at :: "(TraceRecordEx \<Rightarrow> bool) \<Rightarrow> CodeBlock \<Rightarrow> CodeBlock" where
  "cut_at P b =
     b\<lparr>cb_insts := (cb_insts b)\<lparr>is_nodes := takeWhile (\<lambda>e. \<not> P (snd e)) (is_nodes (cb_insts b))\<rparr>\<rparr>"

definition concise_one :: "'v block_env \<Rightarrow> addr \<Rightarrow> 'v xVMBlockFrame \<Rightarrow> CodeBlock \<Rightarrow> 'v xVMBlockFrame" where
  "concise_one B blockEnd fr seq =
     (let seq1 = seq\<lparr>cb_refc := 0, cb_seqID := bf_unqID fr\<rparr>;
          seq2 = (if blockEnd \<noteq> 0 then cut_at (\<lambda>tr. tr_rip (tx_ctx1 tr) = blockEnd) seq1 else seq1)
      in loadSequence B seq2 (fr\<lparr>bf_unqID := bf_unqID fr + 1\<rparr>))"

definition conciseSequences :: "'v block_env \<Rightarrow> CodeBlock list \<Rightarrow> 'v xVMBlockFrame \<Rightarrow> 'v xVMBlockFrame" where
  "conciseSequences B seqs fr = foldl (concise_one B (block_end seqs)) fr seqs"

text \<open>
  The other way: a block ends at the first instruction that another block has too, if a test of the places holds. The
  loop over the places of the instruction has a counter \<open>i\<close> of its own, which hides that of the instructions.
\<close>

definition inst_places :: "CodeBlock list \<Rightarrow> (addr \<times> int32 \<times> nat) list" where
  "inst_places seqs =
     foldl (\<lambda>idx b. foldl (\<lambda>idx (i, a). mm_insert a (cb_seqID b, i) idx) idx (enumerate 0 (rips b))) [] seqs"

definition ends_block :: "(addr \<times> int32 \<times> nat) list \<Rightarrow> int32 \<Rightarrow> TraceRecordEx \<Rightarrow> bool" where
  "ends_block idx seqID tr \<longleftrightarrow>
     (let a = tr_rip (tx_ctx1 tr); nc = mm_count a idx
      in 1 < nc \<and> list_ex (\<lambda>(i, _, sid, iid). sid \<noteq> seqID \<and> iid \<le> i) (enumerate 0 (take nc (mm_find a idx))))"

definition conciseSequences1 :: "CodeBlock keyed \<Rightarrow> CodeBlock keyed" where
  "conciseSequences1 seqs =
     (let idx = inst_places (map snd seqs)
      in map (\<lambda>(k, b). (k, cut_at (ends_block idx (cb_seqID b)) b)) seqs)"

section \<open>Running the tracing CPU\<close>

primrec run_steps :: "'v block_env \<Rightarrow> nat \<Rightarrow> 'v xVMDebugCPU \<Rightarrow> 'v xVMDebugCPU" where
  "run_steps B 0 c = c"
| "run_steps B (Suc n) c =
     (case vm_step B c of (r, c1) \<Rightarrow> if r = VCPU_LOOPRET_NORMAL then run_steps B n c1 else c1)"

definition pre_lines :: "xvmdbg_config \<Rightarrow> nat" where
  "pre_lines cfg = nat (sint (maxPreExecLines cfg))"

definition setDobMode :: "vmexec_dob \<Rightarrow> 'v xVMDebugCPU \<Rightarrow> 'v xVMDebugCPU" where
  "setDobMode m c = c\<lparr>c_dobMode := m\<rparr>"

definition setRip :: "addr \<Rightarrow> 'v xVMDebugCPU \<Rightarrow> 'v xVMDebugCPU" where
  "setRip a c = c\<lparr>c_RIP := a\<rparr>"

text \<open>A block for an address: the trace from there.\<close>

definition trace_block ::
  "'v block_env \<Rightarrow> xvmdbg_config \<Rightarrow> CONTEXT \<Rightarrow> addr \<Rightarrow> int32 \<times> 'v xVMDebugCPU \<times> 'v xVMBlockFrame
    \<Rightarrow> fault + int32 \<times> 'v xVMDebugCPU \<times> 'v xVMBlockFrame" where
  "trace_block B cfg ctx a st =
     (case st of (seqID, c, fr) \<Rightarrow>
        (let c1 = run_steps B (pre_lines cfg)
                    (setRip a (setDobMode vmexec_dob_trace (initTrace (iat_cpu B) ctx (init_r3 B None c))))
         in bindF (emptySeqID seqID fr) (\<lambda>k.
              Inr (k, c1, put_block B k ((cpu_block B c1)\<lparr>cb_seqID := k, cb_entry := a\<rparr>) fr))))"

fun table_words :: "byte list \<Rightarrow> addr list" where
  "table_words (a # b # c # d # bs) = le_word [a, b, c, d] # table_words bs"
| "table_words _ = []"

definition addBlockEntries ::
  "'v block_env \<Rightarrow> xvmdbg_config \<Rightarrow> addr \<Rightarrow> 32 word \<Rightarrow> 'v xVMBlockFrame \<Rightarrow> fault + 'v xVMBlockFrame" where
  "addBlockEntries B cfg a nbytes fr =
     (case cpu_context B of
        None \<Rightarrow> Inr fr
      | Some ctx \<Rightarrow>
          (let n = unat nbytes div 4; (nred, buf) = dbg_read B a (junk B (n * 4))
           in bindF (if nred = int (n * 4) then
                       (let addrs = foldl (\<lambda>m w. im_insert w w m) [] (table_words buf)
                        in bindF (foldF (trace_block B cfg ctx) (map fst addrs) (0, new_cpu B, fr)) (\<lambda>(_, _, fr1).
                             Inr (fr1\<lparr>bf_seqs := conciseSequences1 (bf_seqs fr1)\<rparr>)))
                     else Inr fr) (\<lambda>fr1. Inr (flushSeqs B fr1))))"

section \<open>The dispatch jump\<close>

text \<open>The handlers that are found are kept by their address, as traces.\<close>

type_synonym handlers = "CodeBlock keyed"

text \<open>The lines up to the dispatch jump: the number of turns, whether the jump was reached, and the CPU.\<close>

fun run_to_jump :: "'v block_env \<Rightarrow> addr \<Rightarrow> nat \<Rightarrow> nat \<Rightarrow> 'v xVMDebugCPU \<Rightarrow> nat \<times> bool \<times> 'v xVMDebugCPU" where
  "run_to_jump B jmp n 0 c = (n, False, c)"
| "run_to_jump B jmp n (Suc m) c =
     (if c_RIP c = jmp then (n, True, snd (vm_step B c))
      else case vm_step B c of (r, c1) \<Rightarrow>
        if r = VCPU_LOOPRET_NORMAL then run_to_jump B jmp (n + 1) m c1 else (n, False, c1))"

definition traceOPBranch ::
  "'v block_env \<Rightarrow> xvmdbg_config \<Rightarrow> addr \<Rightarrow> addr \<Rightarrow> handlers \<Rightarrow> 'v xVMDebugCPU
    \<Rightarrow> bool \<times> handlers \<times> 'v xVMDebugCPU" where
  "traceOPBranch B cfg jmp opEntry seqs c =
     (if opEntry \<in> fst ` set seqs then (True, seqs, c)
      else
        (let (n, reached, c1) = run_to_jump B jmp 0 (pre_lines cfg) (setRip opEntry (setDobMode vmexec_dob_trace c))
         in if reached \<or> 10 < n \<and> dbg_memory B opEntry = dbg_memory B jmp
            then (True, kl_set (seq_place B) opEntry (cpu_block B c1) seqs, c1)
            else (False, seqs, c1)))"

text \<open>Both CPUs from the start; the second one reads the table at another offset.\<close>

definition start_two ::
  "'v block_env \<Rightarrow> CONTEXT \<Rightarrow> addr \<Rightarrow> 32 word \<Rightarrow> 'v xVMDebugCPU \<times> 'v xVMDebugCPU \<Rightarrow> 'v xVMDebugCPU \<times> 'v xVMDebugCPU"
  where
  "start_two B ctx rip delta cs =
     (case cs of (c1, c2) \<Rightarrow>
        (setRip rip (initPureTrace (iat_cpu B) ctx c1),
         setOffsetDelta delta (setDobMode vmexec_dob_oftcheate (setRip rip (initPureTrace (iat_cpu B) ctx c2)))))"

definition uncheat :: "'v xVMDebugCPU \<Rightarrow> 'v xVMDebugCPU" where
  "uncheat c = setDobMode vmexec_dob_puretrace (setOffsetDelta 0 c)"

text \<open>
  Entries of the table are compared with the first one until something differs: the result (\<open>-1\<close>: it cannot be
  traced), the number of the entry at which the loop ended, and the CPUs.
\<close>

fun compare_entries ::
  "'v block_env \<Rightarrow> CONTEXT \<Rightarrow> addr \<Rightarrow> nat list \<Rightarrow> addr \<Rightarrow> 'v xVMDebugCPU \<times> 'v xVMDebugCPU
    \<Rightarrow> addr \<times> nat \<times> 'v xVMDebugCPU \<times> 'v xVMDebugCPU" where
  "compare_entries B ctx rip [] jmp cs = (jmp, 100, cs)"
| "compare_entries B ctx rip (k # ks) jmp cs =
     (case start_two B ctx rip (of_nat (k * 4)) cs of (c1, c2) \<Rightarrow>
       (let (r1, c1') = vm_step B c1; (r2, c2') = vm_step B c2;
            c2'' = (if c_dobMode c2' = vmexec_dob_oftcheate then uncheat c2' else c2')
        in if r1 \<noteq> r2 then (-1, k, c1', c2'')
           else if c_RIP c1' \<noteq> c_RIP c2'' then (rip, k, c1', c2'')
           else if get_regs c1' \<noteq> get_regs c2'' then (jmp, k, c1', c2'')
           else compare_entries B ctx rip ks jmp (c1', c2'')))"

text \<open>Then both run on until they part.\<close>

fun run_apart :: "'v block_env \<Rightarrow> nat \<Rightarrow> 'v xVMDebugCPU \<times> 'v xVMDebugCPU \<Rightarrow> addr \<times> 'v xVMDebugCPU" where
  "run_apart B 0 cs = (0, snd cs)"
| "run_apart B (Suc n) cs =
     (case cs of (c1, c2) \<Rightarrow>
       (let lastIP = c_RIP c1; (r1, c1') = vm_step B c1; (r2, c2') = vm_step B (set_eflags B (force_flags B c1) c2)
        in if r1 \<noteq> r2 then (0, c2')
           else if c_RIP c1' \<noteq> c_RIP c2' then (lastIP, c2')
           else run_apart B n (c1', c2')))"

definition find_branch ::
  "'v block_env \<Rightarrow> xvmdbg_config \<Rightarrow> CONTEXT \<Rightarrow> addr \<Rightarrow> addr \<Rightarrow> 'v xVMDebugCPU \<times> 'v xVMDebugCPU
    \<Rightarrow> addr \<times> 'v xVMDebugCPU" where
  "find_branch B cfg ctx rip jmp0 cs =
     (let (jmp, k, cs1) = compare_entries B ctx rip [1..<100] jmp0 cs
      in if jmp = 0 then
           (let (c1, c2) = start_two B ctx rip (of_nat (k * 4)) cs1
            in run_apart B (pre_lines cfg) (snd (vm_step B c1), uncheat (snd (vm_step B c2))))
         else (if jmp = -1 then 0 else jmp, snd cs1))"

text \<open>The address the jump goes to, or zero.\<close>

fun run_entry :: "'v block_env \<Rightarrow> addr \<Rightarrow> nat \<Rightarrow> 'v xVMDebugCPU \<Rightarrow> addr \<times> 'v xVMDebugCPU" where
  "run_entry B jmp 0 c = (0, c)"
| "run_entry B jmp (Suc n) c =
     (case vm_step B c of (r, c1) \<Rightarrow>
        if c_RIP c = jmp then (c_RIP c1, c1)
        else if r \<noteq> VCPU_LOOPRET_NORMAL then (0, c1) else run_entry B jmp n c1)"

text \<open>The entries before and after the first one in turn: \<open>0, 1, -1, 2, -2, \<dots>\<close>\<close>

definition table_index :: "nat \<Rightarrow> int" where
  "table_index i = (if even i then - int (i div 2) else int (i div 2) + 1)"

definition try_entry ::
  "'v block_env \<Rightarrow> xvmdbg_config \<Rightarrow> CONTEXT \<Rightarrow> addr \<Rightarrow> addr \<Rightarrow> handlers \<times> 'v xVMDebugCPU \<Rightarrow> nat
    \<Rightarrow> handlers \<times> 'v xVMDebugCPU" where
  "try_entry B cfg ctx rip jmp st i =
     (case st of (seqs, c) \<Rightarrow>
       (let c0 = setOffsetDelta (of_int (table_index i * 4)) (setDobMode vmexec_dob_oftcheate
                   (setRip rip (initPureTrace (iat_cpu B) ctx (init_r3 B (Some False) c))));
            c1 = uncheat (snd (vm_step B c0));
            e1 = (if rip = jmp then c_RIP c1 else 0);
            (opEntry, c2) = (if e1 = 0 then run_entry B jmp (pre_lines cfg) c1 else (e1, c1))
        in if opEntry \<noteq> 0 \<and> 0x10000 \<le> sint opEntry
           then (case traceOPBranch B cfg jmp opEntry seqs c2 of (_, seqs', c3) \<Rightarrow> (seqs', c3))
           else (seqs, c2)))"

text \<open>The jump, or zero, and the frame with the blocks of the handlers.\<close>

definition detectOPBranch ::
  "'v block_env \<Rightarrow> xvmdbg_config \<Rightarrow> addr \<Rightarrow> 'v xVMBlockFrame \<Rightarrow> addr \<times> 'v xVMBlockFrame" where
  "detectOPBranch B cfg rip fr =
     (let (nlen, buf) = dbg_read B rip (junk B 16)
      in if nlen \<noteq> 16 then (0, fr)
         else case cpu_context B of
             None \<Rightarrow> (0, fr)
           | Some ctx \<Rightarrow>
               (let c1 = setRip rip (setDobMode vmexec_dob_lastmemac
                           (initPureTrace (iat_cpu B) ctx (init_r3 B None (new_cpu B))));
                    c1' = snd (vm_step B c1)
                in if m_lastAccessAddr c1' = 0 \<or> m_lastAccessSize c1' \<noteq> 4 then (0, fr)
                   else
                     (let jmp0 = (if c_RIP c1' \<noteq> rip + of_int (ud_length B buf rip) then rip else 0);
                          (jmp, c2) = find_branch B cfg ctx rip jmp0 (c1', new_cpu B)
                      in if jmp = 0 then (0, fr)
                         else (let seqs = fst (foldl (try_entry B cfg ctx rip jmp) ([], c2) [0..<600])
                               in (jmp, flushSeqs B (conciseSequences B (map snd seqs) fr))))))"

section \<open>Breakpoints at the ends of blocks\<close>

text \<open>What is done to the debuggee.\<close>

datatype bp_call = Remove_oneshot addr | Set_oneshot addr | Enable_bp addr | Set_manual addr | Run

definition step_block ::
  "'v block_env \<Rightarrow> bp_call list \<times> 'v xVMBlockFrame \<Rightarrow> int32 \<Rightarrow> bp_call list \<times> 'v xVMBlockFrame" where
  "step_block B st seqID =
     (case st of (out, fr) \<Rightarrow>
        (case findSeq seqID fr of
           None \<Rightarrow> (out, fr)
         | Some b \<Rightarrow>
             if records b = [] then (out, fr)
             else (let a = tr_rip (tx_ctx1 (last (records b)))
                   in if set_int3 B a = 0
                      then (out @ [Set_oneshot a, Enable_bp a], fr\<lparr>bf_shotBPs := bf_shotBPs fr @ [a]\<rparr>)
                      else (out @ [Set_oneshot a], fr))))"

definition stepOverBlock :: "'v block_env \<Rightarrow> 'v xVMBlockFrame \<Rightarrow> bp_call list \<times> 'v xVMBlockFrame" where
  "stepOverBlock B fr =
     (if bf_hilSeqs fr = [] then ([], fr)
      else (let (out, fr1) = foldl (step_block B)
                  (map Remove_oneshot (bf_shotBPs fr), fr\<lparr>bf_shotBPs := []\<rparr>) (bf_hilSeqs fr)
            in (if bf_shotBPs fr1 \<noteq> [] then out @ [Run] else out, fr1)))"

definition setBranchingRip :: "'v block_env \<Rightarrow> addr \<Rightarrow> 'v xVMBlockFrame \<Rightarrow> bp_call list \<times> 'v xVMBlockFrame" where
  "setBranchingRip B rip fr =
     (if rip \<in> set (bf_brIPs fr) then ([], fr)
      else ([Set_manual rip], if set_int3 B rip = 0 then fr\<lparr>bf_brIPs := bf_brIPs fr @ [rip]\<rparr> else fr))"

section \<open>Following the debuggee\<close>

text \<open>
  The first row of a block; its number is the selection. What \<open>syncByRip\<close> does last, to select the row of the address
  in the trace view, changes nothing that is kept here.
\<close>

fun find_row :: "'v xVMBlockFrame \<Rightarrow> int32 \<Rightarrow> nat \<Rightarrow> seq_info keyed \<Rightarrow> fault + nat option" where
  "find_row fr seqID n [] = Inr None"
| "find_row fr seqID n (r # rs) =
     bindF (row_block fr (snd r)) (\<lambda>(_, b).
       if cb_seqID b = seqID then Inr (Some n) else find_row fr seqID (n + 1) rs)"

definition syncByRip :: "addr \<Rightarrow> 'v xVMBlockFrame \<Rightarrow> fault + nat option \<times> 'v xVMBlockFrame" where
  "syncByRip rip fr =
     (if \<not> bf_hFrame fr then Inr (None, fr)
      else if bf_skipNext fr then Inr (None, fr\<lparr>bf_skipNext := False\<rparr>)
      else
        (let hil = map snd (takeWhile (\<lambda>e. fst e = rip) (mm_find rip (bf_instIndex fr)));
             fr1 = fr\<lparr>bf_lastRip := rip, bf_hilSeqs := hil\<rparr>
         in case find (\<lambda>k. k \<noteq> -1) hil of
              None \<Rightarrow> Inr (None, fr1)
            | Some k \<Rightarrow> bindF (find_row fr1 k 0 (bf_blocks fr1)) (\<lambda>n. Inr (n, fr1))))"

definition isHilSeq :: "int32 \<Rightarrow> 'v xVMBlockFrame \<Rightarrow> bool" where
  "isHilSeq seqID fr \<longleftrightarrow> list_ex (\<lambda>k. k = seqID) (bf_hilSeqs fr)"

definition syncSequenceSeqID :: "int32 \<Rightarrow> 'v xVMBlockFrame \<Rightarrow> fault + nat option" where
  "syncSequenceSeqID seqID fr = find_row fr seqID 0 (bf_blocks fr)"

text \<open>
  The context of a thread: the one OllyDbg knows, or the thread is opened, and then its context is read through the
  pointer that may be null.
\<close>

definition exec_context :: "'v block_env \<Rightarrow> 32 word \<Rightarrow> fault + CONTEXT option" where
  "exec_context B tid =
     (case (case dbg_thread B tid of None \<Rightarrow> None | Some h \<Rightarrow> thread_context B h) of
        Some ctx \<Rightarrow> Inr (Some ctx)
      | None \<Rightarrow>
          if \<not> open_thread B tid then Inr None
          else case dbg_thread B tid of None \<Rightarrow> Inl Null_deref | Some h \<Rightarrow> Inr (thread_context B h))"

definition blockPreExecute ::
  "'v block_env \<Rightarrow> 32 word \<Rightarrow> addr \<Rightarrow> 'v xVMBlockFrame \<Rightarrow> fault + 'v xVMBlockFrame" where
  "blockPreExecute B tid rip fr =
     bindF (exec_context B tid) (\<lambda>ctx. case ctx of None \<Rightarrow> Inr fr
       | Some cx \<Rightarrow>
           (let (r, c) = vm_step B (setRip rip (initTrace (iat_cpu B) cx (bf_rcs fr))); fr1 = fr\<lparr>bf_rcs := c\<rparr>
            in if r \<noteq> VCPU_LOOPRET_NORMAL then Inr fr1
               else (let fr2 = fr1\<lparr>bf_unqID := bf_unqID fr1 + 1,
                               bf_logs := kl_set (row_place B) (bf_unqID fr1)
                                 \<lparr>lr_selected = False, lr_entry = c_RIP c, lr_se = None\<rparr> (bf_logs fr1)\<rparr>
                     in bindF (syncByRip (c_RIP c) fr2) (\<lambda>(_, fr3). Inr (fr3\<lparr>bf_skipNext := True\<rparr>)))))"

record debug_exception =
  dx_thread :: "32 word"
  dx_first :: bool
  dx_code :: "32 word"
  dx_addr :: addr

definition processExceptionEvent ::
  "'v block_env \<Rightarrow> debug_exception \<Rightarrow> 'v xVMBlockFrame \<Rightarrow> fault + 'v xVMBlockFrame" where
  "processExceptionEvent B ex fr =
     (if dx_first ex \<and> (dx_code ex = 0x80000004 \<or> dx_code ex = 0x80000003) \<and> dx_addr ex \<in> set (bf_brIPs fr)
      then blockPreExecute B (dx_thread ex) (dx_addr ex) fr else Inr fr)"

end
