(* ===== verification/BlockFile.thy ===== *)
theory BlockFile
  imports BlockTrace Packets
begin

text \<open>
  The blocks, logs and the template as a file (\<open>saveBlocks\<close>, \<open>loadBlocks\<close>): a packet with a packet for every
  block, and the bytes of the logs and of the template. The file is its content.
\<close>

section \<open>Bytes of the structures\<close>

datatype block_vid =
    block_vid_refc | block_vid_seqid | block_vid_flags | block_vid_uuid | block_vid_entry | block_vid_comment
  | block_vid_pattern | block_vid_record | block_vid_sequence | block_vid_seqexec | block_vid_tpl

type_synonym 'p block_packet = "(block_vid, 'p) npacket"

text \<open>
  The structures of the emulator library are written as they are in memory: their bytes, how they are read, and their
  sizes. \<open>opexec_tpl\<close> is five words.
\<close>

record struct_bytes =
  rec_raw :: "TraceRecordEx \<Rightarrow> cbyte list"
  raw_rec :: "cbyte list \<Rightarrow> TraceRecordEx"
  SZ_REC :: nat
  exec_raw :: "SequenceExecute \<Rightarrow> cbyte list"
  raw_exec :: "cbyte list \<Rightarrow> SequenceExecute"
  SZ_EXEC :: nat

definition tpl_raw :: "opexec_tpl \<Rightarrow> cbyte list" where
  "tpl_raw t =
     le_bytes (tp_ip t) @ le_bytes (tp_seqid t) @ le_bytes (tp_entry t) @ le_bytes (tp_uuid t) @ le_bytes (tp_flags t)"

definition raw_tpl :: "cbyte list \<Rightarrow> opexec_tpl" where
  "raw_tpl bs =
     \<lparr>tp_ip = le_word bs, tp_seqid = le_word (drop 4 bs), tp_entry = le_word (drop 8 bs),
      tp_uuid = le_word (drop 12 bs), tp_flags = le_word (drop 16 bs)\<rparr>"

text \<open>What comes back from its bytes.\<close>

definition rec_ok :: "struct_bytes \<Rightarrow> TraceRecordEx \<Rightarrow> bool" where
  "rec_ok Y tr \<longleftrightarrow> length (rec_raw Y tr) = SZ_REC Y \<and> raw_rec Y (rec_raw Y tr) = tr"

definition exec_ok :: "struct_bytes \<Rightarrow> SequenceExecute \<Rightarrow> bool" where
  "exec_ok Y se \<longleftrightarrow> length (exec_raw Y se) = SZ_EXEC Y \<and> raw_exec Y (exec_raw Y se) = se"

lemma le_bytes_len [simp]: "length (le_bytes w) = 4"
  by (simp add: le_bytes_def)

lemma raw_tpl_raw [simp]: "raw_tpl (tpl_raw t) = t" "length (tpl_raw t) = 20"
proof -
  have "le_word (le_bytes w) = w" for w using le_word_le_bytes [of w "[]"] by simp
  then show "raw_tpl (tpl_raw t) = t" by (cases t) (simp add: raw_tpl_def tpl_raw_def le_word_le_bytes)
qed (simp add: tpl_raw_def)

section \<open>Writing\<close>

definition block_fields :: "struct_bytes \<Rightarrow> CodeBlock \<Rightarrow> (block_vid \<times> pk_val) list" where
  "block_fields Y b =
     [(block_vid_refc, PInt (cb_refc b)), (block_vid_seqid, PInt (cb_seqID b)), (block_vid_flags, PInt (cb_flags b)),
      (block_vid_uuid, PInt (cb_uuid b)), (block_vid_entry, PInt64 (ucast (cb_entry b))),
      (block_vid_comment, PWStr (cb_comment b)), (block_vid_pattern, PWStr (cb_pattern b))]
     @ map (\<lambda>tr. (block_vid_record, PBin (rec_raw Y tr))) (records b)"

definition blocks_fields :: "'p block_packet \<Rightarrow> struct_bytes \<Rightarrow> 'v xVMBlockFrame \<Rightarrow> (block_vid \<times> pk_val) list" where
  "blocks_fields N Y fr =
     map (\<lambda>(k, b). (block_vid_sequence, PBin (np_write N (block_fields Y b)))) (bf_seqs fr)
     @ map (\<lambda>(k, se). (block_vid_seqexec, PBin (exec_raw Y se))) (bf_sseq fr)
     @ map (\<lambda>(k, t). (block_vid_tpl, PBin (tpl_raw t))) (bf_setpl fr)"

definition saveBlocks :: "'p block_packet \<Rightarrow> struct_bytes \<Rightarrow> 'v xVMBlockFrame \<Rightarrow> cbyte list" where
  "saveBlocks N Y fr = np_write N (blocks_fields N Y fr)"

section \<open>Reading\<close>

definition load_record :: "struct_bytes \<Rightarrow> InstSequence \<Rightarrow> block_vid \<times> cbyte list \<Rightarrow> InstSequence" where
  "load_record Y is n =
     (if fst n = block_vid_record \<and> length (snd n) = SZ_REC Y then push_back (raw_rec Y (snd n)) is else is)"

definition load_block :: "'v block_env \<Rightarrow> 'p block_packet \<Rightarrow> struct_bytes \<Rightarrow> cbyte list \<Rightarrow> CodeBlock" where
  "load_block B N Y bytes =
     (let p = np_parse N bytes
      in (new_block B)\<lparr>cb_seqID := np_getInt N p block_vid_seqid (Some (-1)),
           cb_refc := np_getInt N p block_vid_refc (Some 0), cb_flags := np_getInt N p block_vid_flags (Some 0),
           cb_entry := ucast (np_getLongLong N p block_vid_entry),
           cb_pattern := np_getWString N p block_vid_pattern, cb_comment := np_getWString N p block_vid_comment,
           cb_uuid := np_getInt N p block_vid_uuid (Some (-1)),
           cb_insts := foldl (load_record Y) (cb_insts (new_block B)) (np_nodes N p)\<rparr>)"

text \<open>A node is read as the structure its id says; reading past it is a fault.\<close>

definition load_node ::
  "'v block_env \<Rightarrow> 'p block_packet \<Rightarrow> struct_bytes \<Rightarrow> block_vid \<times> cbyte list \<Rightarrow> 'v xVMBlockFrame
    \<Rightarrow> fault + 'v xVMBlockFrame" where
  "load_node B N Y n fr =
     (case fst n of
        block_vid_sequence \<Rightarrow> Inr (loadSequence B (load_block B N Y (snd n)) fr)
      | block_vid_seqexec \<Rightarrow>
          if length (snd n) < SZ_EXEC Y then Inl Array_overflow
          else Inr (fr\<lparr>bf_sseq := kl_set (seq_place B) (of_nat (length (bf_sseq fr))) (raw_exec Y (snd n)) (bf_sseq fr)\<rparr>)
      | block_vid_tpl \<Rightarrow>
          if length (snd n) < 20 then Inl Array_overflow
          else Inr (fr\<lparr>bf_setpl := kl_set (seq_place B) (tp_ip (raw_tpl (snd n))) (raw_tpl (snd n)) (bf_setpl fr)\<rparr>)
      | _ \<Rightarrow> Inr fr)"

definition empty_blocks :: "'v xVMBlockFrame \<Rightarrow> 'v xVMBlockFrame" where
  "empty_blocks fr = (set_tpls [] (set_logs [] (set_seqs [] fr)))\<lparr>bf_instIndex := [], bf_bps := []\<rparr>"

definition loadBlocks ::
  "'v block_env \<Rightarrow> xvmdbg_config \<Rightarrow> 'p block_packet \<Rightarrow> struct_bytes \<Rightarrow> 'p \<Rightarrow> 'v xVMBlockFrame
    \<Rightarrow> fault + int \<times> 'v xVMBlockFrame" where
  "loadBlocks B cfg N Y pk fr =
     bindF (foldF (load_node B N Y) (np_nodes N pk) (empty_blocks fr)) (\<lambda>fr1.
       Inr (0, flushExecTemplate B (flushExecLogs B cfg (flushSeqs B fr1))))"

definition loadBlocksFile ::
  "'v block_env \<Rightarrow> xvmdbg_config \<Rightarrow> 'p block_packet \<Rightarrow> struct_bytes \<Rightarrow> cbyte list \<Rightarrow> 'v xVMBlockFrame
    \<Rightarrow> fault + int \<times> 'v xVMBlockFrame" where
  "loadBlocksFile B cfg N Y bytes fr =
     (if bytes = [] then Inr (-1, fr) else loadBlocks B cfg N Y (np_parse N bytes) fr)"

section \<open>A file comes back\<close>

text \<open>New keys go to the end of a list.\<close>

definition at_end :: "(int32 \<Rightarrow> int32 list \<Rightarrow> nat) \<Rightarrow> bool" where
  "at_end place \<longleftrightarrow> (\<forall>k ks. k \<notin> set ks \<longrightarrow> place k ks = length ks)"

lemma kl_set_end: "at_end place \<Longrightarrow> k \<notin> fst ` set xs \<Longrightarrow> kl_set place k v xs = xs @ [(k, v)]"
  unfolding at_end_def kl_set_def Let_def by (simp add: set_map [symmetric] del: set_map)

text \<open>A block whose records are numbered anew.\<close>

definition renumbered :: "'v block_env \<Rightarrow> CodeBlock \<Rightarrow> CodeBlock" where
  "renumbered B b = b\<lparr>cb_insts := foldl (\<lambda>is tr. push_back tr is) (cb_insts (new_block B)) (records b)\<rparr>"

lemma records_push: "map snd (is_nodes (foldl (\<lambda>is tr. push_back tr is) is rs)) = map snd (is_nodes is) @ rs"
  by (induction rs arbitrary: "is") (simp_all add: push_back_def)

lemma renumbered_simps [simp]:
  "cb_seqID (renumbered B b) = cb_seqID b"
  "is_nodes (cb_insts (new_block B)) = [] \<Longrightarrow> records (renumbered B b) = records b"
  by (simp_all add: renumbered_def records_def records_push)

lemma load_block_fields:
  assumes "npacket_laws N" "list_all (rec_ok Y) (records b)"
  shows "load_block B N Y (np_write N (block_fields Y b)) = renumbered B b"
proof -
  let ?fs = "block_fields Y b" let ?p = "np_parse N (np_write N ?fs)"
  have f: "map_of ?fs block_vid_refc = Some (PInt (cb_refc b))" "map_of ?fs block_vid_seqid = Some (PInt (cb_seqID b))"
    "map_of ?fs block_vid_flags = Some (PInt (cb_flags b))" "map_of ?fs block_vid_uuid = Some (PInt (cb_uuid b))"
    "map_of ?fs block_vid_entry = Some (PInt64 (ucast (cb_entry b)))"
    "map_of ?fs block_vid_comment = Some (PWStr (cb_comment b))"
    "map_of ?fs block_vid_pattern = Some (PWStr (cb_pattern b))"
    by (simp_all add: block_fields_def)
  have skip: "foldl (load_record Y) is ns = foldl (load_record Y) is (filter (\<lambda>n. fst n = block_vid_record) ns)" for "is" ns
    by (induction ns arbitrary: "is") (simp_all add: load_record_def)
  have b: "map snd (filter (\<lambda>n. fst n = block_vid_record) (np_nodes N ?p)) = np_bins block_vid_record ?fs"
    by (rule np_nodes_of [OF assms(1)]) (auto simp: block_fields_def)
  have "np_bins block_vid_record (map (\<lambda>tr. (block_vid_record, PBin (rec_raw Y tr))) rs) = map (rec_raw Y) rs" for rs
    by (induction rs) (simp_all add: np_bins_def)
  then have r: "np_bins block_vid_record ?fs = map (rec_raw Y) (records b)"
    by (simp add: block_fields_def np_bins_def)
  have pick: "filter (\<lambda>n. fst n = k) ns = map (Pair k) (map snd (filter (\<lambda>n. fst n = k) ns))"
    for k and ns :: "(block_vid \<times> cbyte list) list" by (induction ns) (auto simp: prod_eq_iff)
  have n: "filter (\<lambda>n. fst n = block_vid_record) (np_nodes N ?p)
      = map (\<lambda>tr. (block_vid_record, rec_raw Y tr)) (records b)"
    by (subst pick) (simp add: b r comp_def)
  have "foldl (load_record Y) is (map (\<lambda>tr. (block_vid_record, rec_raw Y tr)) rs) = foldl (\<lambda>is tr. push_back tr is) is rs"
    if "list_all (rec_ok Y) rs" for "is" rs
    using that by (induction rs arbitrary: "is") (simp_all add: load_record_def rec_ok_def)
  then have i: "foldl (load_record Y) (cb_insts (new_block B)) (np_nodes N ?p)
      = foldl (\<lambda>is tr. push_back tr is) (cb_insts (new_block B)) (records b)"
    unfolding skip [of _ "np_nodes N ?p"] n using assms(2) by blast
  show ?thesis
    unfolding load_block_def Let_def i
    by (simp add: np_read [OF assms(1)] f renumbered_def)
qed

lemma foldF_Inr: "(\<And>x s. x \<in> set xs \<Longrightarrow> f x s = Inr (g s x)) \<Longrightarrow> foldF f xs s = Inr (foldl g s xs)"
  by (induction xs arbitrary: s) simp_all

lemma loadSequence_seqs:
  assumes "at_end (seq_place B)" "distinct (map fst (bf_seqs fr) @ map cb_seqID bs)"
  shows "bf_seqs (foldl (\<lambda>fr b. loadSequence B b fr) fr bs) = bf_seqs fr @ map (\<lambda>b. (cb_seqID b, b)) bs"
  using assms(2)
proof (induction bs arbitrary: fr)
  case (Cons b bs)
  have "bf_seqs (loadSequence B b fr) = bf_seqs fr @ [(cb_seqID b, b)]"
    using Cons.prems by (simp add: loadSequence_def put_block_def kl_set_end [OF assms(1)] flip: set_map)
  then show ?case using Cons by simp
qed simp

lemma loadSequence_logs:
  "bf_sseq (foldl (\<lambda>fr b. loadSequence B b fr) fr bs) = bf_sseq fr
    \<and> bf_setpl (foldl (\<lambda>fr b. loadSequence B b fr) fr bs) = bf_setpl fr"
  by (induction bs arbitrary: fr) (simp_all add: loadSequence_def put_block_def)

lemma load_seq_nodes:
  assumes "npacket_laws N" "list_all (\<lambda>(k, b). list_all (rec_ok Y) (records b)) xs"
  shows "foldF (load_node B N Y) (map (\<lambda>(k, b). (block_vid_sequence, np_write N (block_fields Y b))) xs) fr
    = Inr (foldl (\<lambda>fr b. loadSequence B b fr) fr (map (\<lambda>(k, b). renumbered B b) xs))"
  using assms(2)
proof (induction xs arbitrary: fr)
  case (Cons e xs)
  obtain k b where e: "e = (k, b)" by (cases e)
  have "load_block B N Y (np_write N (block_fields Y b)) = renumbered B b"
    using Cons.prems e by (intro load_block_fields [OF assms(1)]) simp
  then show ?case using Cons e by (simp add: load_node_def)
qed simp

lemma load_exec_nodes:
  assumes "list_all (exec_ok Y) (map snd xs)" "at_end (seq_place B)"
    and "map fst (bf_sseq fr) = map of_nat [0..<length (bf_sseq fr)]"
    and "length (bf_sseq fr) + length xs < 2 ^ 32"
  shows "foldF (load_node B N Y) (map (\<lambda>(k, se). (block_vid_seqexec, exec_raw Y se)) xs) fr
    = Inr (fr\<lparr>bf_sseq := bf_sseq fr
        @ zip (map of_nat [length (bf_sseq fr)..<length (bf_sseq fr) + length xs]) (map snd xs)\<rparr>)"
  using assms(1,3,4)
proof (induction xs arbitrary: fr)
  case (Cons e xs)
  obtain k se where e: "e = (k, se)" by (cases e)
  let ?n = "length (bf_sseq fr)"
  let ?fr = "fr\<lparr>bf_sseq := bf_sseq fr @ [(of_nat ?n, se)]\<rparr>"
  have new: "(of_nat ?n :: int32) \<notin> fst ` set (bf_sseq fr)"
  proof
    assume "(of_nat ?n :: int32) \<in> fst ` set (bf_sseq fr)"
    then have "(of_nat ?n :: int32) \<in> set (map of_nat [0..<?n])" by (simp only: set_map [symmetric] Cons.prems(2))
    then obtain j where j: "j < ?n" "(of_nat ?n :: int32) = of_nat j" by auto
    have "?n < 2 ^ LENGTH(32)" "j < 2 ^ LENGTH(32)" using Cons.prems(3) j(1) by simp_all
    then have "?n = j" using arg_cong [OF j(2), of unat] by (simp add: unat_of_nat)
    then show False using j(1) by simp
  qed
  have "load_node B N Y (block_vid_seqexec, exec_raw Y se) fr = Inr ?fr"
    using Cons.prems(1) e by (simp add: load_node_def exec_ok_def kl_set_end [OF assms(2) new])
  moreover have "foldF (load_node B N Y) (map (\<lambda>(k, se). (block_vid_seqexec, exec_raw Y se)) xs) ?fr
      = Inr (?fr\<lparr>bf_sseq := bf_sseq ?fr
        @ zip (map of_nat [length (bf_sseq ?fr)..<length (bf_sseq ?fr) + length xs]) (map snd xs)\<rparr>)"
    using Cons.prems e by (intro Cons.IH) simp_all
  moreover have "[?n..<?n + length (e # xs)] = ?n # [Suc ?n..<Suc ?n + length xs]"
    by (subst upt_conv_Cons) simp_all
  ultimately show ?case using e by (simp del: upt_Suc)
qed simp

lemma load_tpl_nodes:
  assumes "at_end (seq_place B)" "distinct (map fst (bf_setpl fr @ xs))" "list_all (\<lambda>(k, t). tp_ip t = k) xs"
  shows "foldF (load_node B N Y) (map (\<lambda>(k, t). (block_vid_tpl, tpl_raw t)) xs) fr
    = Inr (fr\<lparr>bf_setpl := bf_setpl fr @ xs\<rparr>)"
  using assms(2,3)
proof (induction xs arbitrary: fr)
  case (Cons e xs)
  obtain k t where e: "e = (k, t)" by (cases e)
  let ?fr = "fr\<lparr>bf_setpl := bf_setpl fr @ [(k, t)]\<rparr>"
  have new: "k \<notin> fst ` set (bf_setpl fr)" using Cons.prems(1) e by simp
  have "load_node B N Y (block_vid_tpl, tpl_raw t) fr = Inr ?fr"
    using Cons.prems(2) e by (simp add: load_node_def kl_set_end [OF assms(1) new])
  moreover have "foldF (load_node B N Y) (map (\<lambda>(k, t). (block_vid_tpl, tpl_raw t)) xs) ?fr
      = Inr (?fr\<lparr>bf_setpl := bf_setpl ?fr @ xs\<rparr>)"
    using Cons.prems e by (intro Cons.IH) simp_all
  ultimately show ?case using e by simp
qed simp

definition block_ids :: "CodeBlock keyed \<Rightarrow> bool" where
  "block_ids xs \<longleftrightarrow> distinct (map fst xs) \<and> list_all (\<lambda>(k, b). cb_seqID b = k) xs"

definition template_ids :: "opexec_tpl keyed \<Rightarrow> bool" where
  "template_ids xs \<longleftrightarrow> distinct (map fst xs) \<and> list_all (\<lambda>(k, t). tp_ip t = k) xs"

text \<open>What the structures of a frame must be like to come back from their bytes.\<close>

definition blocks_storable :: "struct_bytes \<Rightarrow> 'v xVMBlockFrame \<Rightarrow> bool" where
  "blocks_storable Y fr \<longleftrightarrow>
     list_all (\<lambda>(k, b). list_all (rec_ok Y) (records b)) (bf_seqs fr)
     \<and> list_all (exec_ok Y) (map snd (bf_sseq fr)) \<and> length (bf_sseq fr) < 2 ^ 32"

lemma saved_blocks_loaded:
  assumes "npacket_laws N" "at_end (seq_place B)" "block_ids (bf_seqs fr)" "template_ids (bf_setpl fr)"
    and "blocks_storable Y fr" "bf_seqs fr \<noteq> [] \<or> bf_sseq fr \<noteq> [] \<or> bf_setpl fr \<noteq> []"
  shows "\<exists>fr1. loadBlocksFile B cfg N Y (saveBlocks N Y fr) fr0 = Inr (0, fr1)
    \<and> bf_seqs fr1 = map (\<lambda>(k, b). (k, renumbered B b)) (bf_seqs fr)
    \<and> bf_sseq fr1 = zip (map of_nat [0..<length (bf_sseq fr)]) (map snd (bf_sseq fr))
    \<and> bf_setpl fr1 = bf_setpl fr"
proof -
  let ?S = "map (\<lambda>(k, b). (block_vid_sequence, np_write N (block_fields Y b))) (bf_seqs fr)"
  let ?E = "map (\<lambda>(k, se). (block_vid_seqexec, exec_raw Y se)) (bf_sseq fr)"
  let ?T = "map (\<lambda>(k, t). (block_vid_tpl, tpl_raw t)) (bf_setpl fr)"
  have "blocks_fields N Y fr \<noteq> []" using assms(6) by (simp add: blocks_fields_def)
  then have ne: "saveBlocks N Y fr \<noteq> []" unfolding saveBlocks_def by (rule np_write_nonempty [OF assms(1)])
  have n: "np_nodes N (np_parse N (saveBlocks N Y fr)) = (?S @ ?E) @ ?T"
    unfolding saveBlocks_def
    by (subst np_nodes_all [OF assms(1)]) (auto simp: blocks_fields_def the_bin_def)
  let ?bs = "map (\<lambda>(k, b). renumbered B b) (bf_seqs fr)"
  let ?f1 = "foldl (\<lambda>fr b. loadSequence B b fr) (empty_blocks fr0) ?bs"
  have e0: "bf_seqs (empty_blocks fr0) = []" "bf_sseq (empty_blocks fr0) = []" "bf_setpl (empty_blocks fr0) = []"
    by (simp_all add: empty_blocks_def set_tpls_def set_logs_def set_seqs_def)
  have ids: "map cb_seqID ?bs = map fst (bf_seqs fr)" and keyed: "map (\<lambda>b. (cb_seqID b, b)) ?bs
      = map (\<lambda>(k, b). (k, renumbered B b)) (bf_seqs fr)"
    using assms(3) by (auto simp: block_ids_def list_all_iff)
  have f1: "bf_seqs ?f1 = map (\<lambda>(k, b). (k, renumbered B b)) (bf_seqs fr)"
    using loadSequence_seqs [OF assms(2), of "empty_blocks fr0" ?bs] assms(3)
    by (simp add: e0 ids keyed block_ids_def del: map_map)
  have l1: "bf_sseq ?f1 = []" "bf_setpl ?f1 = []"
    using loadSequence_logs [of B "empty_blocks fr0" ?bs] by (simp_all add: e0)
  let ?f2 = "?f1\<lparr>bf_sseq := zip (map of_nat [0..<length (bf_sseq fr)]) (map snd (bf_sseq fr))\<rparr>"
  let ?f3 = "?f2\<lparr>bf_setpl := bf_setpl fr\<rparr>"
  have "foldF (load_node B N Y) ?S (empty_blocks fr0) = Inr ?f1"
    using assms(5) by (intro load_seq_nodes [OF assms(1)]) (simp add: blocks_storable_def)
  moreover have "foldF (load_node B N Y) ?E ?f1 = Inr ?f2"
    using load_exec_nodes [of Y "bf_sseq fr" B ?f1 N] assms(2,5) l1 by (simp add: blocks_storable_def)
  moreover have "foldF (load_node B N Y) ?T ?f2 = Inr ?f3"
    using load_tpl_nodes [of B ?f2 "bf_setpl fr" N Y] assms(2,4) l1 by (simp add: template_ids_def)
  ultimately have "foldF (load_node B N Y) ((?S @ ?E) @ ?T) (empty_blocks fr0) = Inr ?f3"
    by (simp only: foldF_append bindF_simps)
  then show ?thesis using ne f1 by (simp add: loadBlocksFile_def loadBlocks_def n flush_keeps)
qed

end
