(* ===== verification/BlockMenu.thy ===== *)
theory BlockMenu
  imports BlockFile Deobfuscate PatternParse
begin

text \<open>
  The commands of the block window: editing blocks, running patterns over them, the keys and menus of its tables, and
  what the monitor in the debuggee sends (\<open>xvmblockframe.cpp\<close>, the notices in \<open>ollydbg2_plugin.cpp\<close>).
\<close>

section \<open>Patterns on all blocks\<close>

text \<open>The parameters of the pattern engine; \<open>pt_next0\<close> is what \<open>next\<close> gives for a null pointer.\<close>

record pattern_env =
  pt_x86 :: x86_env
  pt_parse :: parse_env
  pt_delete :: "32 word"
  pt_next0 :: "fault + nat option"

definition pattern_round ::
  "pattern_env \<Rightarrow> patternEngine \<times> InstSequence \<Rightarrow> (int, patternEngine \<times> InstSequence) outcome" where
  "pattern_round T st =
     bindS (doDeObfuscatePattern (pt_x86 T) (pt_delete T) (pt_next0 T) (fst st) (snd st) False) (\<lambda>n1 st1.
       bindS (doDeObfuscatePattern (pt_x86 T) (pt_delete T) (pt_next0 T) (fst st1) (snd st1) True) (\<lambda>n2 st2.
         Inr (n1 + n2, st2)))"

text \<open>\<open>left\<close> is how many more rounds the counter allows after this one.\<close>

primrec pattern_rounds ::
  "pattern_env \<Rightarrow> nat \<Rightarrow> patternEngine \<times> InstSequence \<Rightarrow> (int, patternEngine \<times> InstSequence) outcome" where
  "pattern_rounds T 0 st = pattern_round T st"
| "pattern_rounds T (Suc left) st =
     bindS (pattern_round T st) (\<lambda>n st1.
       if 0 < n then bindS (pattern_rounds T left st1) (\<lambda>m st2. Inr (n + m, st2)) else Inr (n, st1))"

definition pattern_block ::
  "pattern_env \<Rightarrow> int32 \<times> CodeBlock \<Rightarrow> int \<times> patternEngine \<times> CodeBlock keyed
    \<Rightarrow> fault + int \<times> patternEngine \<times> CodeBlock keyed" where
  "pattern_block T e st =
     (case (e, st) of ((k, b), (nc, eng, out)) \<Rightarrow>
        bindF (pattern_rounds T 201 (eng, cb_insts b)) (\<lambda>(n, eng', is).
          Inr (nc + n, eng', out @ [(k, b\<lparr>cb_insts := is\<rparr>)])))"

definition new_engine :: patternEngine where
  "new_engine = \<lparr>pe_patterns = [], pe_seqList = None\<rparr>"

text \<open>The number of records that were found to be junk, and the frame.\<close>

definition runPatternAsmOnAllBlocks ::
  "'v block_env \<Rightarrow> pattern_env \<Rightarrow> string \<Rightarrow> 'v xVMBlockFrame \<Rightarrow> fault + int \<times> 'v xVMBlockFrame" where
  "runPatternAsmOnAllBlocks B T script fr =
     bindF (loadPatternFromFile (pt_parse T) new_engine script) (\<lambda>(_, eng).
       bindF (foldF (pattern_block T) (bf_seqs fr) (0, eng, [])) (\<lambda>(nc, _, xs).
         Inr (nc, flushSeqs B (fr\<lparr>bf_seqs := xs\<rparr>))))"

definition label_block :: "'v block_env \<Rightarrow> patternSequence option \<Rightarrow> CodeBlock \<Rightarrow> CodeBlock" where
  "label_block B p b =
     (case p of None \<Rightarrow> b
      | Some s \<Rightarrow> b\<lparr>cb_comment := wide_string B (ps_comment s), cb_pattern := wide_string B (ps_pattern s),
                    cb_uuid := word_of_int (ps_uuid s)\<rparr>)"

definition dna_block ::
  "'v block_env \<Rightarrow> pattern_env \<Rightarrow> int32 \<times> CodeBlock \<Rightarrow> patternEngine \<times> CodeBlock keyed
    \<Rightarrow> fault + patternEngine \<times> CodeBlock keyed" where
  "dna_block B T e st =
     (case (e, st) of ((k, b), (eng, out)) \<Rightarrow>
        bindS (matchCodeDNA (pt_x86 T) eng (cb_insts b) False) (\<lambda>pid1 eng1.
          bindS (if pid1 < 0 then matchCodeDNA (pt_x86 T) eng1 (cb_insts b) True else Inr (pid1, eng1)) (\<lambda>pid eng2.
            Inr (eng2, out @ [(k, if 0 \<le> pid then label_block B (getPattern eng2 pid) b else b)]))))"

definition runCodeDNAOnAllBlocks ::
  "'v block_env \<Rightarrow> pattern_env \<Rightarrow> string \<Rightarrow> 'v xVMBlockFrame \<Rightarrow> fault + 'v xVMBlockFrame" where
  "runCodeDNAOnAllBlocks B T script fr =
     bindF (loadPatternFromFile (pt_parse T) new_engine script) (\<lambda>(_, eng).
       bindF (foldF (dna_block B T) (bf_seqs fr) (eng, [])) (\<lambda>(_, xs).
         Inr (flushSeqs B (fr\<lparr>bf_seqs := xs\<rparr>))))"

section \<open>Editing\<close>

text \<open>
  The text of a block is copied to a buffer of \<open>TEXTLEN\<close> characters, which the user changes; \<open>None\<close> is a
  dialog that was left.
\<close>

definition edit_block ::
  "'v block_env \<Rightarrow> (CodeBlock \<Rightarrow> wstring) \<Rightarrow> (wstring \<Rightarrow> CodeBlock \<Rightarrow> CodeBlock) \<Rightarrow> wstring option
    \<Rightarrow> (32 word \<times> seq_info) option \<Rightarrow> 'v xVMBlockFrame \<Rightarrow> fault + 'v xVMBlockFrame" where
  "edit_block B old new answer r fr =
     (case r of None \<Rightarrow> Inr fr
      | Some (a, row) \<Rightarrow>
          bindF (row_block fr row) (\<lambda>(k, b).
            if TEXTLEN B \<le> length (old b) then Inl Array_overflow
            else case answer of None \<Rightarrow> Inr fr | Some s \<Rightarrow> Inr (upd_block k (new s) fr)))"

definition setSelectedBlockComment ::
  "'v block_env \<Rightarrow> wstring option \<Rightarrow> (32 word \<times> seq_info) option \<Rightarrow> 'v xVMBlockFrame \<Rightarrow> fault + 'v xVMBlockFrame" where
  "setSelectedBlockComment B = edit_block B cb_comment (\<lambda>s b. b\<lparr>cb_comment := s\<rparr>)"

definition setSelectedBlockPattern ::
  "'v block_env \<Rightarrow> wstring option \<Rightarrow> (32 word \<times> seq_info) option \<Rightarrow> 'v xVMBlockFrame \<Rightarrow> fault + 'v xVMBlockFrame" where
  "setSelectedBlockPattern B = edit_block B cb_pattern (\<lambda>s b. b\<lparr>cb_pattern := s\<rparr>)"

definition setSelectedBlockUUID ::
  "'v block_env \<Rightarrow> wstring option \<Rightarrow> (32 word \<times> seq_info) option \<Rightarrow> 'v xVMBlockFrame \<Rightarrow> fault + 'v xVMBlockFrame" where
  "setSelectedBlockUUID B answer r fr =
     (case r of None \<Rightarrow> Inr fr
      | Some (a, row) \<Rightarrow>
          bindF (row_block fr row) (\<lambda>(k, b).
            case answer of None \<Rightarrow> Inr fr
            | Some s \<Rightarrow> Inr (flushSeqs B (upd_block (cb_seqID b) (\<lambda>b. b\<lparr>cb_uuid := wcstol B s\<rparr>) fr))))"

text \<open>The instructions of the trace view go back to the block they came from.\<close>

definition syncSequenceBack :: "int32 \<Rightarrow> 'v xVMBlockFrame \<Rightarrow> bool \<times> 'v xVMBlockFrame" where
  "syncSequenceBack seqID fr =
     (findSeq seqID fr \<noteq> None, upd_block seqID (\<lambda>b. b\<lparr>cb_insts := cb_insts (rcs_block fr)\<rparr>) fr)"

section \<open>Selections\<close>

definition map_rows :: "('r \<Rightarrow> 'r) \<Rightarrow> 'r keyed \<Rightarrow> 'r keyed" where
  "map_rows f rows = map (\<lambda>(a, r). (a, f r)) rows"

definition clearSeqsSelection :: "'v xVMBlockFrame \<Rightarrow> 'v xVMBlockFrame" where
  "clearSeqsSelection fr = fr\<lparr>bf_blocks := map_rows (\<lambda>r. r\<lparr>sr_selected := False\<rparr>) (bf_blocks fr)\<rparr>"

definition select_rows :: "int \<Rightarrow> int \<Rightarrow> seq_info keyed \<Rightarrow> seq_info keyed" where
  "select_rows lo hi rows =
     map (\<lambda>(i, a, r). (a, if lo \<le> int i \<and> int i \<le> hi then r\<lparr>sr_selected := True\<rparr> else r)) (enumerate 0 rows)"

definition toggle_seq_row :: "32 word \<Rightarrow> seq_info keyed \<Rightarrow> seq_info keyed" where
  "toggle_seq_row a rows = map (\<lambda>(k, r). (k, if k = a then r\<lparr>sr_selected := \<not> sr_selected r\<rparr> else r)) rows"

definition xvm_blocks_block_sel_func ::
  "bool \<Rightarrow> bool \<Rightarrow> int \<Rightarrow> 'v xVMBlockFrame \<Rightarrow> fault + 'v xVMBlockFrame" where
  "xvm_blocks_block_sel_func shift ctrl at fr =
     (case row_at at (bf_blocks fr) of
        None \<Rightarrow> Inr fr
      | Some (a, row) \<Rightarrow>
          (let fr1 =
             (if shift then
                (let fr0 = clearSeqsSelection fr; l = bf_lastsel fr
                 in if l \<noteq> -1 then fr0\<lparr>bf_blocks := select_rows (min l at) (max l at) (bf_blocks fr0)\<rparr>
                    else fr0)
              else if ctrl then fr\<lparr>bf_blocks := toggle_seq_row a (bf_blocks fr)\<rparr>
              else fr)\<lparr>bf_lastsel := at\<rparr>
           in bindF (row_block fr1 row) (\<lambda>(k, b). Inr (flushSeq (cb_seqID b) fr1))))"

definition toggle_flag :: "32 word \<Rightarrow> 32 word \<Rightarrow> 32 word" where
  "toggle_flag m flags = (if has flags m then flags AND NOT m else flags OR m)"

definition moniter_row ::
  "'v block_env \<Rightarrow> 32 word \<times> seq_info \<Rightarrow> 'v xVMBlockFrame \<Rightarrow> fault + 'v xVMBlockFrame" where
  "moniter_row B r fr =
     (if sr_selected (snd r) then
        bindF (row_block fr (snd r)) (\<lambda>(k, b).
          Inr (upd_block k (\<lambda>b. b\<lparr>cb_flags := toggle_flag (INSTSEQ_FLAG_MONITER B) (cb_flags b)\<rparr>) fr))
      else Inr fr)"

definition moniterSelectedEntries :: "'v block_env \<Rightarrow> 'v xVMBlockFrame \<Rightarrow> fault + 'v xVMBlockFrame" where
  "moniterSelectedEntries B fr =
     bindF (foldF (moniter_row B) (bf_blocks fr) fr) (\<lambda>fr1. Inr (flushSeqs B fr1))"

definition select_log ::
  "'v xVMBlockFrame \<Rightarrow> int32 \<Rightarrow> 32 word \<times> opexec_info \<Rightarrow> opexec_info keyed \<Rightarrow> fault + opexec_info keyed" where
  "select_log fr seqid r out =
     bindF (row_log fr (snd r)) (\<lambda>(_, se). Inr (out @ [(fst r, (snd r)\<lparr>lr_selected := (se_seqid se = seqid)\<rparr>)]))"

definition selectLogsBySeqID :: "int32 \<Rightarrow> 'v xVMBlockFrame \<Rightarrow> fault + 'v xVMBlockFrame" where
  "selectLogsBySeqID seqid fr =
     bindF (foldF (select_log fr seqid) (bf_logs fr) []) (\<lambda>rows. Inr (fr\<lparr>bf_logs := rows\<rparr>))"

definition hideSelectedLogs :: "'v block_env \<Rightarrow> xvmdbg_config \<Rightarrow> 'v xVMBlockFrame \<Rightarrow> 'v xVMBlockFrame" where
  "hideSelectedLogs B cfg fr =
     flushExecLogs B cfg (foldl (\<lambda>fr (a, r). if lr_selected r
         then upd_log a (\<lambda>se. se\<lparr>se_flags := toggle_flag (SEQEXEC_FLAG_HIDDEN B) (se_flags se)\<rparr>) fr else fr)
       fr (bf_logs fr))"

section \<open>Keys and double clicks\<close>

datatype block_key = Key_semicolon | Key_R | Key_C | Key_M | Key_H | Key_other

definition xvm_blocks_block_key ::
  "'v block_env \<Rightarrow> block_key \<Rightarrow> wstring option \<Rightarrow> int \<Rightarrow> 'v xVMBlockFrame \<Rightarrow> fault + 'v xVMBlockFrame" where
  "xvm_blocks_block_key B key answer sel fr =
     (case key of
        Key_semicolon \<Rightarrow> setSelectedBlockComment B answer (row_at sel (bf_blocks fr)) fr
      | Key_R \<Rightarrow> Inr (calcBlockExecReference B fr)
      | Key_C \<Rightarrow> Inr (clearSeqsSelection fr)
      | Key_M \<Rightarrow> moniterSelectedEntries B fr
      | _ \<Rightarrow> Inr fr)"

definition xvm_blocks_block_dblclk :: "int \<Rightarrow> 'v xVMBlockFrame \<Rightarrow> 'v xVMBlockFrame" where
  "xvm_blocks_block_dblclk sel fr =
     (case row_at sel (bf_blocks fr) of None \<Rightarrow> fr
      | Some (a, r) \<Rightarrow> fr\<lparr>bf_blocks := toggle_seq_row a (bf_blocks fr)\<rparr>)"

definition xvm_blocks_bklogs_key ::
  "'v block_env \<Rightarrow> xvmdbg_config \<Rightarrow> block_key \<Rightarrow> 'v xVMBlockFrame \<Rightarrow> 'v xVMBlockFrame" where
  "xvm_blocks_bklogs_key B cfg key fr = (if key = Key_H then hideSelectedLogs B cfg fr else fr)"

definition xvm_blocks_bklogs_dblclk ::
  "'v block_env \<Rightarrow> int \<Rightarrow> 'v xVMBlockFrame \<Rightarrow> fault + 'v xVMBlockFrame" where
  "xvm_blocks_bklogs_dblclk B sel fr =
     (case row_at sel (bf_logs fr) of None \<Rightarrow> Inr fr
      | Some (a, r) \<Rightarrow>
          bindF (row_log fr r) (\<lambda>(k, se).
            Inr (setBreakPoint B (se_ip se) (has (se_flags se) (SEQEXEC_FLAG_BREAK B))
                  (upd_log k (\<lambda>se. se\<lparr>se_flags := toggle_flag (SEQEXEC_FLAG_BREAK B) (se_flags se)\<rparr>) fr))))"

definition xvm_template_dblclk :: "'v block_env \<Rightarrow> int \<Rightarrow> 'v xVMBlockFrame \<Rightarrow> fault + 'v xVMBlockFrame" where
  "xvm_template_dblclk B sel fr =
     (case row_at sel (bf_tpls fr) of None \<Rightarrow> Inr fr
      | Some (a, r) \<Rightarrow>
          bindF (row_tpl fr r) (\<lambda>(k, t).
            Inr (setBreakPoint B (tp_ip t) (has (tp_flags t) (SEQEXEC_FLAG_BREAK B))
                  (fr\<lparr>bf_setpl := kl_upd k (t\<lparr>tp_flags := toggle_flag (SEQEXEC_FLAG_BREAK B) (tp_flags t)\<rparr>)
                                    (bf_setpl fr)\<rparr>))))"

text \<open>With the control key a log is selected; with the alternate key its block is.\<close>

definition xvm_blocks_bklogs_sel_func ::
  "bool \<Rightarrow> bool \<Rightarrow> int \<Rightarrow> 'v xVMBlockFrame \<Rightarrow> fault + nat option \<times> 'v xVMBlockFrame" where
  "xvm_blocks_bklogs_sel_func alt ctrl at fr =
     (case row_at at (bf_logs fr) of None \<Rightarrow> Inr (None, fr)
      | Some (a, r) \<Rightarrow>
          bindF (if alt then bindF (row_log fr r) (\<lambda>(_, se). syncSequenceSeqID (se_seqid se) fr) else Inr None) (\<lambda>n.
            Inr (n, if ctrl then fr\<lparr>bf_logs := map (\<lambda>(k, q). (k, if k = a then q\<lparr>lr_selected := \<not> lr_selected q\<rparr> else q))
                                      (bf_logs fr)\<rparr> else fr)))"

section \<open>The menu\<close>

datatype xvm_blockexec_menus =
    xvm_blockexec_menu_load | xvm_blockexec_menu_save | xvm_blockexec_menu_analyserrecords
  | xvm_blockexec_menu_stepover | xvm_blockexec_menu_comment | xvm_blockexec_menu_app
  | xvm_blockexec_menu_syncbackrcs | xvm_blockexec_menu_filter | xvm_blockexec_menu_selbklogs
  | xvm_blockexec_menu_exportext | xvm_blockexec_menu_pattern | xvm_blockexec_menu_dna | xvm_blockexec_menu_setuuid
  | xvm_blockexec_menu_clearlogs | xvm_blockexec_menu_template | xvm_blockexec_menu_setpattern

text \<open>
  What the user chose before a command runs, if anything: the selected row, the content or the path of a file, a text.
  The result may have the content of a file to write, or calls to the debuggee.
\<close>

record block_choice =
  bc_sel :: int
  bc_file :: "cbyte list option"
  bc_path :: "wstring option"
  bc_script :: "string option"
  bc_text :: "wstring option"

datatype block_out = No_out | File_out "cbyte list" | Calls_out "bp_call list"

definition sel_block :: "int \<Rightarrow> (CodeBlock \<Rightarrow> 'v xVMBlockFrame \<Rightarrow> fault + 'v xVMBlockFrame) \<Rightarrow> 'v xVMBlockFrame
    \<Rightarrow> fault + 'v xVMBlockFrame" where
  "sel_block sel f fr =
     (case row_at sel (bf_blocks fr) of None \<Rightarrow> Inr fr | Some (a, r) \<Rightarrow> bindF (row_block fr r) (\<lambda>(k, b). f b fr))"

definition Block_Table_MenuProc ::
  "'v block_env \<Rightarrow> xvmdbg_config \<Rightarrow> 'p block_packet \<Rightarrow> struct_bytes \<Rightarrow> pattern_env \<Rightarrow> block_choice
    \<Rightarrow> xvm_blockexec_menus \<Rightarrow> 'v xVMBlockFrame \<Rightarrow> fault + block_out \<times> 'v xVMBlockFrame" where
  "Block_Table_MenuProc B cfg N Y T ch index fr =
     (let out = (\<lambda>m. bindF m (\<lambda>fr'. Inr (No_out, fr'))); row = row_at (bc_sel ch) (bf_blocks fr)
      in case index of
           xvm_blockexec_menu_load \<Rightarrow>
             (case bc_file ch of None \<Rightarrow> Inr (No_out, fr)
              | Some bytes \<Rightarrow> out (bindF (loadBlocksFile B cfg N Y bytes fr) (\<lambda>(_, fr'). Inr fr')))
         | xvm_blockexec_menu_save \<Rightarrow>
             (case bc_path ch of None \<Rightarrow> Inr (No_out, fr) | Some _ \<Rightarrow> Inr (File_out (saveBlocks N Y fr), fr))
         | xvm_blockexec_menu_analyserrecords \<Rightarrow>
             (case bc_path ch of None \<Rightarrow> Inr (No_out, fr) | Some p \<Rightarrow> Inr (No_out, analyserTraceFile B cfg p fr))
         | xvm_blockexec_menu_stepover \<Rightarrow> (let (calls, fr') = stepOverBlock B fr in Inr (Calls_out calls, fr'))
         | xvm_blockexec_menu_comment \<Rightarrow> out (setSelectedBlockComment B (bc_text ch) row fr)
         | xvm_blockexec_menu_setpattern \<Rightarrow> out (setSelectedBlockPattern B (bc_text ch) row fr)
         | xvm_blockexec_menu_setuuid \<Rightarrow> out (setSelectedBlockUUID B (bc_text ch) row fr)
         | xvm_blockexec_menu_syncbackrcs \<Rightarrow>
             out (sel_block (bc_sel ch) (\<lambda>b fr. Inr (snd (syncSequenceBack (cb_seqID b) fr))) fr)
         | xvm_blockexec_menu_selbklogs \<Rightarrow> out (sel_block (bc_sel ch) (\<lambda>b fr. selectLogsBySeqID (cb_seqID b) fr) fr)
         | xvm_blockexec_menu_clearlogs \<Rightarrow> Inr (No_out, clearSeqExecLogs B cfg fr)
         | xvm_blockexec_menu_pattern \<Rightarrow>
             (case bc_script ch of None \<Rightarrow> Inr (No_out, fr)
              | Some s \<Rightarrow> out (bindF (runPatternAsmOnAllBlocks B T s fr) (\<lambda>(_, fr'). Inr fr')))
         | xvm_blockexec_menu_dna \<Rightarrow>
             (case bc_script ch of None \<Rightarrow> Inr (No_out, fr) | Some s \<Rightarrow> out (runCodeDNAOnAllBlocks B T s fr))
         | xvm_blockexec_menu_template \<Rightarrow> Inr (No_out, exportExecLogsToTemplate B fr)
         | _ \<Rightarrow> Inr (No_out, fr))"

text \<open>Showing hidden logs, or not.\<close>

definition Log_Filter_MenuProc ::
  "'v block_env \<Rightarrow> xvmdbg_config \<Rightarrow> 'v xVMBlockFrame \<Rightarrow> xvmdbg_config \<times> 'v xVMBlockFrame" where
  "Log_Filter_MenuProc B cfg fr =
     (let cfg' = cfg\<lparr>bkopt_filter := toggle_flag (bkopt_flags_showhidden B) (bkopt_filter cfg)\<rparr>
      in (cfg', flushAllExecLogs B cfg' fr))"

section \<open>What the monitor sends\<close>

text \<open>A log as it comes: its bytes, which are read without a look at their number, except for a single log.\<close>

definition notice_bklogs ::
  "'v block_env \<Rightarrow> xvmdbg_config \<Rightarrow> struct_bytes \<Rightarrow> cbyte list list \<Rightarrow> 'v xVMBlockFrame \<Rightarrow> fault + 'v xVMBlockFrame" where
  "notice_bklogs B cfg Y logs fr =
     bindF (removeLastTempExecLogs B fr) (\<lambda>fr1.
       bindF (foldF (\<lambda>bs (sid, fr). if length bs < SZ_EXEC Y then Inl Array_overflow
                       else addBlockExecLog B cfg (raw_exec Y bs) (sid + 1) fr) logs (0, fr1)) (\<lambda>(_, fr2).
         Inr (hiLastExecLog B fr2)))"

definition notice_bkexec ::
  "'v block_env \<Rightarrow> xvmdbg_config \<Rightarrow> struct_bytes \<Rightarrow> cbyte list option \<Rightarrow> 'v xVMBlockFrame \<Rightarrow> fault + 'v xVMBlockFrame" where
  "notice_bkexec B cfg Y log fr =
     bindF (removeLastTempExecLogs B fr) (\<lambda>fr1.
       case log of None \<Rightarrow> Inr fr1
       | Some bs \<Rightarrow>
           if length bs = SZ_EXEC Y
           then bindF (addBlockExecLog B cfg (raw_exec Y bs) (-1) fr1) (\<lambda>(_, fr2). Inr (hiLastExecLog B fr2))
           else Inr fr1)"

record block_notice =
  bn_id :: int32
  bn_address :: "64 word"
  bn_uuid :: int32
  bn_flags :: int32
  bn_pattern :: wstring
  bn_comment :: wstring

text \<open>The number of the block is sent back.\<close>

definition notice_mkcodebk ::
  "'v block_env \<Rightarrow> block_notice \<Rightarrow> 'v xVMBlockFrame \<Rightarrow> fault + int32 \<times> 'v xVMBlockFrame" where
  "notice_mkcodebk B n fr =
     (let entry = ucast (bn_address n) :: addr
      in if entry = 0 then Inr (bn_id n, fr)
         else bindF (ensureSequence B (bn_id n) entry fr) (\<lambda>(k, fr1).
                Inr (k, flushSeqs B (upd_block k (\<lambda>b. b\<lparr>cb_uuid := bn_uuid n, cb_flags := bn_flags n,
                       cb_pattern := bn_pattern n, cb_comment := bn_comment n\<rparr>) fr1))))"

definition setDbgMode :: "int32 \<Rightarrow> 'v xVMBlockFrame \<Rightarrow> 'v xVMBlockFrame" where
  "setDbgMode mode fr = fr\<lparr>bf_dbgmode := mode\<rparr>"

definition VMDebug_BlockAddSeq :: "'v block_env \<Rightarrow> CodeBlock \<Rightarrow> 'v xVMBlockFrame \<Rightarrow> 'v xVMBlockFrame" where
  "VMDebug_BlockAddSeq B seq fr = flushSeqs B (loadSequence B seq fr)"

definition VMDebug_AddtoBlockEntries ::
  "'v block_env \<Rightarrow> xvmdbg_config \<Rightarrow> addr \<Rightarrow> addr \<Rightarrow> 'v xVMBlockFrame \<Rightarrow> fault + 'v xVMBlockFrame" where
  "VMDebug_AddtoBlockEntries B cfg sel0 sel1 fr =
     (if sint (sel1 - sel0) \<le> 0 then Inr fr else addBlockEntries B cfg sel0 (sel1 - sel0) fr)"

end
