(* ===== verification/BlockState.thy ===== *)
theory BlockState
  imports BlockMenu
begin

text \<open>
  The block window as a state machine: what holds in every state that its commands, the debuggee's events and the
  monitor's notices reach.
\<close>

section \<open>The invariant\<close>

definition ptr_ok :: "'k set \<Rightarrow> 'k option \<Rightarrow> bool" where
  "ptr_ok ks p \<longleftrightarrow> (case p of None \<Rightarrow> True | Some k \<Rightarrow> k \<in> ks)"

definition table_ok :: "('r \<Rightarrow> 'k option) \<Rightarrow> 'k set \<Rightarrow> 'r keyed \<Rightarrow> bool" where
  "table_ok ptr ks rows \<longleftrightarrow> distinct (map fst rows) \<and> list_all (\<lambda>(a, r). ptr_ok ks (ptr r)) rows"

text \<open>
  Blocks are filed under their numbers, templates and breakpoints under their addresses, logs under different
  numbers; a row points to an element that is there, or is known to point to none.
\<close>

definition block_ok :: "'v xVMBlockFrame \<Rightarrow> bool" where
  "block_ok fr \<longleftrightarrow>
     block_ids (bf_seqs fr) \<and> distinct (map fst (bf_sseq fr)) \<and> template_ids (bf_setpl fr)
     \<and> distinct (map fst (bf_bps fr)) \<and> list_all (\<lambda>(k, ip). ip = k) (bf_bps fr)
     \<and> table_ok sr_is (fst ` set (bf_seqs fr)) (bf_blocks fr)
     \<and> table_ok lr_se (fst ` set (bf_sseq fr)) (bf_logs fr)
     \<and> table_ok pr_tpl (fst ` set (bf_setpl fr)) (bf_tpls fr)"

text \<open>What is relied on of the analysis of traces: it numbers the logs.\<close>

definition detects :: "'v block_env \<Rightarrow> bool" where
  "detects B \<longleftrightarrow>
     (\<forall>rcs l. distinct (map fst l) \<longrightarrow> distinct (map fst (snd (detect_blocks B rcs l))))
     \<and> (\<forall>p l. distinct (map fst l) \<longrightarrow> distinct (map fst (snd (detect_file B p l))))"

section \<open>Keyed lists and tables\<close>

lemma kl_upd_set: "kl_upd k v xs = map (\<lambda>e. if fst e = k then (k, v) else e) xs"
  by (auto simp: kl_upd_def)

lemma kl_upd_all:
  "list_all (\<lambda>(j, w). P j w) xs \<Longrightarrow> P k v \<Longrightarrow> list_all (\<lambda>(j, w). P j w) (kl_upd k v xs)"
  by (induction xs) (auto simp: kl_upd_def)

lemma kl_set_all:
  assumes "list_all (\<lambda>(j, w). P j w) xs" "P k v"
  shows "list_all (\<lambda>(j, w). P j w) (kl_set place k v xs)"
proof (cases "k \<in> fst ` set xs")
  case True
  then show ?thesis using kl_upd_all [OF assms] by (simp add: kl_set_def)
next
  case False
  then have "set (kl_set place k v xs) = insert (k, v) (set xs)"
    by (simp add: kl_set_def Let_def set_kl_insert del: set_append)
  then show ?thesis using assms by (simp add: list_all_iff)
qed

lemma block_ids_set: "block_ids xs \<Longrightarrow> cb_seqID b = k \<Longrightarrow> block_ids (kl_set place k b xs)"
  unfolding block_ids_def using kl_set_all [of "\<lambda>k b. cb_seqID b = k"] by auto

lemma block_ids_upd: "block_ids xs \<Longrightarrow> cb_seqID b = k \<Longrightarrow> block_ids (kl_upd k b xs)"
  unfolding block_ids_def using kl_upd_all [of "\<lambda>k b. cb_seqID b = k"] by auto

lemma block_ids_find: "block_ids xs \<Longrightarrow> map_of xs k = Some b \<Longrightarrow> cb_seqID b = k"
  by (auto simp: block_ids_def list_all_iff dest!: map_of_SomeD)

lemma template_ids_set: "template_ids xs \<Longrightarrow> tp_ip t = k \<Longrightarrow> template_ids (kl_set place k t xs)"
  unfolding template_ids_def using kl_set_all [of "\<lambda>k t. tp_ip t = k"] by auto

lemma template_ids_upd: "template_ids xs \<Longrightarrow> tp_ip t = k \<Longrightarrow> template_ids (kl_upd k t xs)"
  unfolding template_ids_def using kl_upd_all [of "\<lambda>k t. tp_ip t = k"] by auto

lemma table_ok_Nil [simp]: "table_ok ptr ks []"
  by (simp add: table_ok_def)

lemma table_ok_ptr: "table_ok ptr ks rows \<Longrightarrow> (a, r) \<in> set rows \<Longrightarrow> ptr r = Some k \<Longrightarrow> k \<in> ks"
  by (auto simp: table_ok_def list_all_iff ptr_ok_def split: option.splits dest!: bspec)

lemma table_ok_mono: "table_ok ptr ks rows \<Longrightarrow> ks \<subseteq> ks' \<Longrightarrow> table_ok ptr ks' rows"
  unfolding table_ok_def ptr_ok_def list_all_iff by (fastforce split: option.splits)

lemma table_ok_set: "table_ok ptr ks rows \<Longrightarrow> ptr_ok ks (ptr r) \<Longrightarrow> table_ok ptr ks (kl_set place a r rows)"
  unfolding table_ok_def using kl_set_all [of "\<lambda>a r. ptr_ok ks (ptr r)"] by auto

lemma table_ok_live:
  assumes "distinct (map fst rows)" "\<And>r. ptr (f r) = live ks (ptr r)"
  shows "table_ok ptr ks (map (\<lambda>(a, r). (a, f r)) rows)"
  using assms by (auto simp: table_ok_def list_all_iff ptr_ok_def live_def comp_def case_prod_beta split: option.splits)

lemma table_ok_rows:
  assumes "table_ok ptr ks rows" "map fst rows' = map fst rows" "map (ptr \<circ> snd) rows' = map (ptr \<circ> snd) rows"
  shows "table_ok ptr ks rows'"
proof -
  have "list_all (ptr_ok ks) (map (ptr \<circ> snd) rows')"
    unfolding assms(3) using assms(1) by (auto simp: table_ok_def list_all_iff)
  then show ?thesis using assms(1,2) by (auto simp: table_ok_def list_all_iff)
qed

lemma table_ok_foldl:
  assumes "table_ok ptr ks rows" "\<And>x. x \<in> set xs \<Longrightarrow> ptr_ok ks (ptr (f x))"
  shows "table_ok ptr ks (foldl (\<lambda>rows x. kl_set place (a x) (f x) rows) rows xs)"
  using assms by (induction xs arbitrary: rows) (simp_all add: table_ok_set)

section \<open>Changing one part of the frame\<close>

lemma block_ok_other [simp]:
  "block_ok (fr\<lparr>bf_hFrame := h\<rparr>) = block_ok fr" "block_ok (fr\<lparr>bf_instIndex := ix\<rparr>) = block_ok fr"
  "block_ok (fr\<lparr>bf_hilSeqs := hs\<rparr>) = block_ok fr" "block_ok (fr\<lparr>bf_lastRip := a\<rparr>) = block_ok fr"
  "block_ok (fr\<lparr>bf_shotBPs := as\<rparr>) = block_ok fr" "block_ok (fr\<lparr>bf_brIPs := as\<rparr>) = block_ok fr"
  "block_ok (fr\<lparr>bf_hiOIP := a\<rparr>) = block_ok fr" "block_ok (fr\<lparr>bf_skipNext := h\<rparr>) = block_ok fr"
  "block_ok (fr\<lparr>bf_lastsel := i\<rparr>) = block_ok fr" "block_ok (fr\<lparr>bf_dbgmode := m\<rparr>) = block_ok fr"
  "block_ok (fr\<lparr>bf_unqID := m\<rparr>) = block_ok fr" "block_ok (fr\<lparr>bf_uniqueID := m\<rparr>) = block_ok fr"
  "block_ok (fr\<lparr>bf_rcs := c\<rparr>) = block_ok fr" "block_ok (fr\<lparr>bf_rcs_tag := b\<rparr>) = block_ok fr"
  by (simp_all add: block_ok_def)

lemma block_ok_seqs:
  "block_ok fr \<Longrightarrow> block_ids xs \<Longrightarrow> fst ` set (bf_seqs fr) \<subseteq> fst ` set xs \<Longrightarrow> block_ok (fr\<lparr>bf_seqs := xs\<rparr>)"
  by (auto simp: block_ok_def intro: table_ok_mono)

lemma block_ok_sseq:
  "block_ok fr \<Longrightarrow> distinct (map fst xs) \<Longrightarrow> fst ` set (bf_sseq fr) \<subseteq> fst ` set xs \<Longrightarrow> block_ok (fr\<lparr>bf_sseq := xs\<rparr>)"
  by (auto simp: block_ok_def intro: table_ok_mono)

lemma block_ok_setpl:
  "block_ok fr \<Longrightarrow> template_ids xs \<Longrightarrow> fst ` set (bf_setpl fr) \<subseteq> fst ` set xs \<Longrightarrow> block_ok (fr\<lparr>bf_setpl := xs\<rparr>)"
  by (auto simp: block_ok_def intro: table_ok_mono)

lemma block_okD:
  "block_ok fr \<Longrightarrow> block_ids (bf_seqs fr)" "block_ok fr \<Longrightarrow> distinct (map fst (bf_sseq fr))"
  "block_ok fr \<Longrightarrow> template_ids (bf_setpl fr)"
  by (simp_all add: block_ok_def)

lemma block_ok_add_log: "block_ok fr \<Longrightarrow> block_ok (fr\<lparr>bf_sseq := kl_set p k se (bf_sseq fr)\<rparr>)"
  by (rule block_ok_sseq) (simp_all add: block_okD kl_set_keys subset_insertI)

lemma block_ok_add_tpl: "block_ok fr \<Longrightarrow> tp_ip t = k \<Longrightarrow> block_ok (fr\<lparr>bf_setpl := kl_set p k t (bf_setpl fr)\<rparr>)"
  by (rule block_ok_setpl) (simp_all add: block_okD kl_set_keys subset_insertI template_ids_set)

lemma block_ok_tables:
  "block_ok fr \<Longrightarrow> table_ok sr_is (fst ` set (bf_seqs fr)) rows \<Longrightarrow> block_ok (fr\<lparr>bf_blocks := rows\<rparr>)"
  "block_ok fr \<Longrightarrow> table_ok lr_se (fst ` set (bf_sseq fr)) logs \<Longrightarrow> block_ok (fr\<lparr>bf_logs := logs\<rparr>)"
  "block_ok fr \<Longrightarrow> table_ok pr_tpl (fst ` set (bf_setpl fr)) tpls \<Longrightarrow> block_ok (fr\<lparr>bf_tpls := tpls\<rparr>)"
  by (simp_all add: block_ok_def)

lemma block_ok_set_seqs: "block_ok fr \<Longrightarrow> block_ids xs \<Longrightarrow> block_ok (set_seqs xs fr)"
  unfolding block_ok_def set_seqs_def using table_ok_live [of "bf_blocks fr" sr_is _ "fst ` set xs"]
  by (simp add: table_ok_def)

lemma block_ok_set_logs: "block_ok fr \<Longrightarrow> distinct (map fst xs) \<Longrightarrow> block_ok (set_logs xs fr)"
  unfolding block_ok_def set_logs_def using table_ok_live [of "bf_logs fr" lr_se _ "fst ` set xs"]
  by (simp add: table_ok_def)

lemma block_ok_set_tpls: "block_ok fr \<Longrightarrow> template_ids xs \<Longrightarrow> block_ok (set_tpls xs fr)"
  unfolding block_ok_def set_tpls_def using table_ok_live [of "bf_tpls fr" pr_tpl _ "fst ` set xs"]
  by (simp add: table_ok_def)

lemma block_ids_Nil [simp]: "block_ids []" and template_ids_Nil [simp]: "template_ids []"
  by (simp_all add: block_ids_def template_ids_def)

lemma block_ok_new: "block_ok (new_block_frame B rip oip)"
  by (simp add: block_ok_def new_block_frame_def)

section \<open>Blocks.thy\<close>

lemma put_block_ok: "block_ok fr \<Longrightarrow> cb_seqID b = k \<Longrightarrow> block_ok (put_block B k b fr)"
  unfolding put_block_def
  by (rule block_ok_seqs) (auto simp: block_ok_def kl_set_keys intro!: block_ids_set)

lemma loadSequence_ok: "block_ok fr \<Longrightarrow> block_ok (loadSequence B b fr)"
  by (simp add: loadSequence_def put_block_ok)

lemma foldl_ok: "(\<And>fr x. x \<in> set xs \<Longrightarrow> I fr \<Longrightarrow> I (f fr x)) \<Longrightarrow> I fr \<Longrightarrow> I (foldl f fr xs)"
  by (induction xs arbitrary: fr) simp_all

lemma kl_upd_fsts [simp]: "fst ` set (kl_upd k v xs) = fst ` set xs"
  using arg_cong [OF kl_upd_fst [of k v xs], of set] by (simp only: set_map)

lemma upd_block_ok:
  assumes "block_ok fr" "\<And>b. cb_seqID (f b) = cb_seqID b"
  shows "block_ok (upd_block k f fr)"
proof (cases "findSeq k fr")
  case (Some b)
  have "cb_seqID b = k"
    using Some assms(1) by (auto simp: findSeq_def block_ok_def intro: block_ids_find)
  then have "block_ids (kl_upd k (f b) (bf_seqs fr))"
    using assms by (intro block_ids_upd) (auto simp: block_ok_def)
  then show ?thesis using Some block_ok_seqs [OF assms(1)] by (simp add: upd_block_def)
qed (use assms in \<open>simp add: upd_block_def\<close>)

lemma upd_log_ok: "block_ok fr \<Longrightarrow> block_ok (upd_log k f fr)"
  unfolding upd_log_def by (auto split: option.split intro!: block_ok_sseq simp: block_ok_def)

lemma setBreakPoint_ok: "block_ok fr \<Longrightarrow> block_ok (setBreakPoint B ip r fr)"
  using kl_set_all [of "\<lambda>k ip. ip = k" "bf_bps fr" ip ip "seq_place B"]
  by (auto simp: setBreakPoint_def block_ok_def list_all_iff distinct_map_filter)

lemma flushSeqs_ok:
  assumes "block_ok fr"
  shows "block_ok (flushSeqs B fr)"
proof -
  have "table_ok sr_is (fst ` set (bf_seqs fr))
      (foldl (\<lambda>rows x. kl_set (row_place B) (of_nat (fst x)) \<lparr>sr_selected = False, sr_is = Some (snd x)\<rparr> rows) []
        (enumerate 1 (map fst (bf_seqs fr))))"
    by (rule table_ok_foldl) (auto simp: ptr_ok_def enumerate_eq_zip dest!: set_zip_rightD)
  then show ?thesis unfolding flushSeqs_def case_prod_beta by (rule block_ok_tables(1) [OF assms])
qed

lemma flushSeq_ok: "block_ok fr \<Longrightarrow> block_ok (flushSeq k fr)"
  by (simp add: flushSeq_def split: option.split)

lemma flushExecLog_ok:
  assumes "block_ok fr" "fst e \<in> fst ` set (bf_sseq fr)"
  shows "block_ok (flushExecLog B cfg e fr)"
proof -
  obtain k se where e: "e = (k, se)" by (cases e)
  let ?f = "if has (se_flags se) (SEQEXEC_FLAG_BREAK B) then setBreakPoint B (se_ip se) False fr else fr"
  have "block_ok ?f" using assms(1) by (simp add: setBreakPoint_ok)
  moreover have "bf_sseq ?f = bf_sseq fr" by (simp add: setBreakPoint_def)
  ultimately have f: "block_ok ?f" "bf_sseq ?f = bf_sseq fr" .
  have "block_ok (?f\<lparr>bf_logs := kl_set (row_place B) k \<lparr>lr_selected = False, lr_entry = en, lr_se = Some k\<rparr> (bf_logs ?f)\<rparr>)"
    for en
    using f assms(2) e by (intro block_ok_tables(2) table_ok_set) (auto simp: block_ok_def ptr_ok_def)
  then show ?thesis using assms(1) unfolding e flushExecLog_def Let_def by simp
qed

lemma flushExecLogs_ok:
  assumes "block_ok fr"
  shows "block_ok (flushExecLogs B cfg fr)"
proof -
  have "block_ok (foldl (\<lambda>fr e. flushExecLog B cfg e fr) g xs)"
    if "block_ok g" "fst ` set xs \<subseteq> fst ` set (bf_sseq g)" for g :: "'a xVMBlockFrame" and xs
    using that by (induction xs arbitrary: g) (simp_all add: flushExecLog_ok)
  then show ?thesis unfolding flushExecLogs_def using block_ok_tables(2) [OF assms, of "[]"] by simp
qed

lemma hiLastExecLog_ok: "block_ok fr \<Longrightarrow> block_ok (hiLastExecLog B fr)"
  by (auto simp: hiLastExecLog_def setHilightOIP_def split: option.split)

lemma flushTemplate_ok:
  assumes "block_ok fr" "fst (snd e) \<in> fst ` set (bf_setpl fr)"
  shows "block_ok (flushTemplate B e fr) \<and> bf_setpl (flushTemplate B e fr) = bf_setpl fr"
proof -
  obtain i k t where e: "e = (i, k, t)" by (cases e)
  let ?f = "if has (tp_flags t) (SEQEXEC_FLAG_BREAK B) then setBreakPoint B (tp_ip t) False fr else fr"
  have "block_ok ?f" using assms(1) by (simp add: setBreakPoint_ok)
  moreover have "bf_setpl ?f = bf_setpl fr" by (simp add: setBreakPoint_def)
  ultimately have f: "block_ok ?f" "bf_setpl ?f = bf_setpl fr" .
  have "block_ok (?f\<lparr>bf_tpls := kl_set (row_place B) (of_nat i) \<lparr>pr_selected = False, pr_tpl = Some k\<rparr> (bf_tpls ?f)\<rparr>)"
    using f assms(2) e by (intro block_ok_tables(3) table_ok_set) (auto simp: block_ok_def ptr_ok_def)
  then show ?thesis using f unfolding e flushTemplate_def Let_def by simp
qed

lemma flushExecTemplate_ok:
  assumes "block_ok fr"
  shows "block_ok (flushExecTemplate B fr)"
proof -
  have "block_ok (foldl (\<lambda>fr e. flushTemplate B e fr) g xs)"
    if "block_ok g" "\<forall>e \<in> set xs. fst (snd e) \<in> fst ` set (bf_setpl g)" for g :: "'a xVMBlockFrame" and xs
    using that by (induction xs arbitrary: g) (simp_all add: flushTemplate_ok)
  moreover have "\<forall>e \<in> set (enumerate 0 (bf_setpl fr)). fst (snd e) \<in> fst ` set (bf_setpl fr)"
    by (auto simp: enumerate_eq_zip dest!: set_zip_rightD intro: rev_image_eqI)
  ultimately show ?thesis unfolding flushExecTemplate_def
    using block_ok_tables(3) [OF assms, of "[]"] by simp
qed

lemma exec_var_ok: "block_ok (snd st) \<Longrightarrow> block_ok (snd (exec_var B st i))"
  by (cases st) (auto simp: exec_var_def Let_def upd_block_ok split: sevar_type.split)

lemma addBlockExecLog_ok:
  assumes "block_ok fr" "addBlockExecLog B cfg se start fr = Inr (sid, fr')"
  shows "block_ok fr'"
proof -
  obtain se1 fr1 where f: "foldl (exec_var B) (se, fr) [0..<length (se_vars se)] = (se1, fr1)" by fastforce
  have "block_ok fr1"
    using foldl_ok [of "[0..<length (se_vars se)]" "\<lambda>st. block_ok (snd st)" "exec_var B" "(se, fr)"] assms(1) f
    by (simp add: exec_var_ok)
  moreover obtain fr2 where e: "emptyExecLogID start fr1 = Inr (sid, fr2)"
      "fr' = flushExecLog B cfg (sid, se1) (fr2\<lparr>bf_sseq := kl_set (seq_place B) sid se1 (bf_sseq fr2)\<rparr>)"
    using assms(2) f unfolding addBlockExecLog_def by (auto simp: bindF_Inr_eq)
  ultimately have fr2: "block_ok fr2"
    by (auto simp: emptyExecLogID_def Let_def bindF_Inr_eq split: if_splits)
  have "block_ok (fr2\<lparr>bf_sseq := kl_set (seq_place B) sid se1 (bf_sseq fr2)\<rparr>)"
    using fr2 by (intro block_ok_sseq) (auto simp: block_ok_def kl_set_keys)
  then show ?thesis unfolding e(2) by (intro flushExecLog_ok) (simp_all add: kl_set_keys)
qed

lemma distinct_filter_fst: "distinct (map fst xs) \<Longrightarrow> distinct (map fst (filter P xs))"
  by (rule distinct_map_filter)

text \<open>Only temporary logs are removed.\<close>

definition rid_of :: "(SequenceExecute \<Rightarrow> bool) \<Rightarrow> SequenceExecute keyed \<Rightarrow> SequenceExecute keyed \<Rightarrow> bool" where
  "rid_of P xs ys \<longleftrightarrow>
     (distinct (map fst xs) \<longrightarrow> distinct (map fst ys) \<and> set ys \<subseteq> set xs \<and> (\<forall>e \<in> set xs. e \<in> set ys \<or> P (snd e)))"

lemma rid_of_refl [simp]: "rid_of P xs xs"
  by (simp add: rid_of_def)

lemma rid_of_key:
  assumes "rid_of P (filter (\<lambda>e. fst e \<noteq> k) xs) ys" "map_of xs k = Some se" "P se"
  shows "rid_of P xs ys"
proof -
  have "P (snd e)" if "e \<in> set xs" "fst e = k" "distinct (map fst xs)" for e
  proof -
    have "(k, snd e) \<in> set xs" using that(1,2) by (metis prod.collapse)
    then show ?thesis using that(3) assms(2,3) map_of_is_SomeI by fastforce
  qed
  then have k: "P b" if "(k, b) \<in> set xs" "distinct (map fst xs)" for b using that by (metis fst_conv snd_conv)
  show ?thesis unfolding rid_of_def
  proof (intro impI conjI ballI)
    assume d: "distinct (map fst xs)"
    then have r: "distinct (map fst ys)" "set ys \<subseteq> set (filter (\<lambda>e. fst e \<noteq> k) xs)"
        "\<forall>e \<in> set (filter (\<lambda>e. fst e \<noteq> k) xs). e \<in> set ys \<or> P (snd e)"
      using assms(1) unfolding rid_of_def by (simp_all add: distinct_filter_fst)
    show "distinct (map fst ys)" "set ys \<subseteq> set xs" using r by auto
    show "e \<in> set ys \<or> P (snd e)" if "e \<in> set xs" for e
    proof (cases "fst e = k")
      case True
      then have "(k, snd e) \<in> set xs" using that by (metis prod.collapse)
      then show ?thesis using k d by blast
    next
      case False
      then have "e \<in> set (filter (\<lambda>e. fst e \<noteq> k) xs)" using that by simp
      then show ?thesis using r(3) by blast
    qed
  qed
qed

lemma last_temp_loop_removes:
  "last_temp_loop B p xs = Inr ys \<Longrightarrow> rid_of (\<lambda>se. has (se_flags se) (SEQEXEC_FLAG_TEMP B)) xs ys"
proof (induction B p xs arbitrary: ys rule: last_temp_loop.induct)
  case (1 B p xs)
  note r = "1.prems" [unfolded last_temp_loop.simps [of B p xs]]
  show ?case
  proof (cases p)
    case (Some k)
    then obtain se where se: "map_of xs k = Some se" using r by (cases "map_of xs k") auto
    show ?thesis
    proof (cases "has (se_flags se) (SEQEXEC_FLAG_TEMP B)")
      case True
      let ?xs = "filter (\<lambda>e. fst e \<noteq> k) xs"
      obtain q where "last_temp_loop B q ?xs = Inr ys"
          "rid_of (\<lambda>se. has (se_flags se) (SEQEXEC_FLAG_TEMP B)) ?xs ys"
        using r Some se True "1.IH"
        by (cases "key_after (map fst xs) k"; cases "prev_null B (map fst ?xs)") (auto simp: Let_def)
      then show ?thesis using rid_of_key se True by blast
    qed (use r Some se in simp)
  qed (use r in simp)
qed

lemma removeLastTempExecLogs_ok:
  assumes "block_ok fr" "removeLastTempExecLogs B fr = Inr fr'"
  shows "block_ok fr'"
proof -
  obtain p xs where x: "last_temp_loop B p (bf_sseq fr) = Inr xs" "fr' = set_logs xs fr"
    using assms(2) by (auto simp: removeLastTempExecLogs_def bindF_Inr_eq)
  have "distinct (map fst (bf_sseq fr))" using assms(1) by (simp add: block_ok_def)
  then have "distinct (map fst xs)" using last_temp_loop_removes [OF x(1)] by (simp add: rid_of_def)
  then show ?thesis unfolding x(2) by (rule block_ok_set_logs [OF assms(1)])
qed

lemma removeTempExecLogs_ok: "block_ok fr \<Longrightarrow> block_ok (removeTempExecLogs B fr)"
  unfolding removeTempExecLogs_def using distinct_filter_fst [of "bf_sseq fr"]
  by (intro block_ok_set_logs) (auto simp only: block_ok_def)

lemma map_vals_keys: "map fst (map (\<lambda>(k, b). (k, f k b)) xs) = map fst xs"
  by (induction xs) auto

lemma block_ids_map:
  assumes "block_ids xs" "\<And>k b. cb_seqID (f k b) = cb_seqID b"
  shows "block_ids (map (\<lambda>(k, b). (k, f k b)) xs)"
  using assms unfolding block_ids_def map_vals_keys by (auto simp: list_all_iff)

lemma block_ok_map:
  assumes "block_ok fr" "\<And>k b. cb_seqID (f k b) = cb_seqID b"
  shows "block_ok (fr\<lparr>bf_seqs := map (\<lambda>(k, b). (k, f k b)) (bf_seqs fr)\<rparr>)"
proof (rule block_ok_seqs [OF assms(1) block_ids_map])
  show "block_ids (bf_seqs fr)" using assms(1) by (simp add: block_ok_def)
  show "fst ` set (bf_seqs fr) \<subseteq> fst ` set (map (\<lambda>(k, b). (k, f k b)) (bf_seqs fr))"
    by (simp only: set_map [symmetric] map_vals_keys order_refl)
qed (rule assms(2))

lemma calcBlockExecReference_ok:
  assumes "block_ok fr"
  shows "block_ok (calcBlockExecReference B fr)"
proof -
  have "block_ok (foldl (\<lambda>fr e. upd_block (se_seqid (snd e)) (\<lambda>b. b\<lparr>cb_refc := cb_refc b + 1\<rparr>) fr) fr' xs)"
    if "block_ok fr'" for fr' :: "'a xVMBlockFrame" and xs :: "SequenceExecute keyed"
    using that by (induction xs arbitrary: fr') (simp_all add: upd_block_ok)
  from this [of "resetBlocksReference fr"] show ?thesis
    unfolding calcBlockExecReference_def case_prod_beta
    by (intro flushSeqs_ok) (simp add: resetBlocksReference_def block_ok_map [OF assms])
qed

lemma exportExecLogsToTemplate_ok:
  assumes "block_ok fr"
  shows "block_ok (exportExecLogsToTemplate B fr)"
proof -
  have "template_ids (foldl (\<lambda>ts (k, se). if has (se_flags se) (SEQEXEC_FLAG_TEMP B) then ts
      else kl_set (seq_place B) (se_ip se) (template_of B fr se) ts) ts xs)" if "template_ids ts" for ts xs
    using that
  proof (induction xs arbitrary: ts)
    case (Cons e xs)
    have "template_ids (kl_set (seq_place B) (se_ip (snd e)) (template_of B fr (snd e)) ts)"
      using Cons.prems by (rule template_ids_set) (simp add: template_of_def)
    then show ?case using Cons by (simp add: case_prod_beta)
  qed simp
  from this [of "[]"] show ?thesis unfolding exportExecLogsToTemplate_def
    by (intro flushExecTemplate_ok block_ok_set_tpls [OF assms]) simp
qed

lemma resetBlocks_ok: "block_ok fr \<Longrightarrow> block_ok (resetBlocks fr)"
  by (simp add: resetBlocks_def block_ok_set_logs block_ok_set_seqs)

lemma loadSequences_ok: "block_ok fr \<Longrightarrow> block_ok (foldl (\<lambda>fr b. loadSequence B b fr) fr bs)"
  by (induction bs arbitrary: fr) (simp_all add: loadSequence_ok)

lemma load_detected_ok: "block_ok fr \<Longrightarrow> distinct (map fst (snd d)) \<Longrightarrow> block_ok (load_detected B cfg d fr)"
  by (simp add: load_detected_def flushExecLogs_ok flushSeqs_ok loadSequences_ok block_ok_set_logs)

lemma analyserTraceFile_ok: "block_ok fr \<Longrightarrow> detects B \<Longrightarrow> block_ok (analyserTraceFile B cfg p fr)"
  unfolding analyserTraceFile_def
  by (rule load_detected_ok) (simp_all add: block_ok_set_logs block_ok_set_seqs detects_def)

lemma analyserTraceRecords_ok: "block_ok fr \<Longrightarrow> detects B \<Longrightarrow> block_ok (analyserTraceRecords B cfg rcs fr)"
  unfolding analyserTraceRecords_def by (auto simp: detects_def block_ok_def [of fr] intro!: load_detected_ok)

lemma detectCodeBlocks_ok: "block_ok fr \<Longrightarrow> detects B \<Longrightarrow> block_ok (detectCodeBlocks B cfg seq fr)"
  by (simp add: detectCodeBlocks_def analyserTraceRecords_ok resetBlocks_ok)

section \<open>BlockTrace.thy\<close>

lemma cut_at_simps [simp]: "cb_seqID (cut_at P b) = cb_seqID b"
  by (simp add: cut_at_def)

lemma conciseSequences_ok: "block_ok fr \<Longrightarrow> block_ok (conciseSequences B seqs fr)"
  unfolding conciseSequences_def
  by (rule foldl_ok) (simp_all add: concise_one_def Let_def loadSequence_ok)

lemma trace_block_ok: "block_ok (snd (snd st)) \<Longrightarrow> trace_block B cfg ctx a st = Inr st' \<Longrightarrow> block_ok (snd (snd st'))"
  by (cases st) (auto simp: trace_block_def Let_def bindF_Inr_eq put_block_ok)

lemma addBlockEntries_ok:
  assumes "block_ok fr" "addBlockEntries B cfg a n fr = Inr fr'"
  shows "block_ok fr'"
proof -
  have entries: "block_ok fr1" if "foldF (trace_block B cfg ctx) as (0, c, fr) = Inr (k, c', fr1)"
    for ctx as c k c' and fr1 :: "'a xVMBlockFrame"
    by (rule foldF_invariant [OF that, of "\<lambda>st. block_ok (snd (snd st))", simplified])
      (use assms(1) trace_block_ok in fastforce)+
  have "block_ok (fr1\<lparr>bf_seqs := conciseSequences1 (bf_seqs fr1)\<rparr>)" if "block_ok fr1" for fr1 :: "'a xVMBlockFrame"
    unfolding conciseSequences1_def Let_def using block_ok_map [OF that] by simp
  then show ?thesis using assms entries
    unfolding addBlockEntries_def
    by (auto simp: Let_def bindF_Inr_eq flushSeqs_ok split: option.splits prod.splits if_splits)
qed

lemma detectOPBranch_ok:
  assumes "block_ok fr"
  shows "block_ok (snd (detectOPBranch B cfg rip fr))"
  using assms unfolding detectOPBranch_def Let_def
  by (auto simp: flushSeqs_ok conciseSequences_ok split: prod.split option.split)

lemma step_block_ok: "block_ok (snd st) \<Longrightarrow> block_ok (snd (step_block B st k))"
  by (cases st) (simp add: step_block_def Let_def split: option.split)

lemma stepOverBlock_ok: "block_ok fr \<Longrightarrow> block_ok (snd (stepOverBlock B fr))"
  using foldl_ok [of "bf_hilSeqs fr" "\<lambda>st. block_ok (snd st)" "step_block B"
      "(map Remove_oneshot (bf_shotBPs fr), fr\<lparr>bf_shotBPs := []\<rparr>)"]
  by (simp add: stepOverBlock_def step_block_ok case_prod_beta Let_def)

lemma setBranchingRip_ok: "block_ok fr \<Longrightarrow> block_ok (snd (setBranchingRip B rip fr))"
  by (simp add: setBranchingRip_def)

lemma syncByRip_ok: "block_ok fr \<Longrightarrow> syncByRip rip fr = Inr (n, fr') \<Longrightarrow> block_ok fr'"
  by (auto simp: syncByRip_def Let_def bindF_Inr_eq split: if_splits option.splits)

lemma blockPreExecute_ok:
  assumes "block_ok fr" "blockPreExecute B tid rip fr = Inr fr'"
  shows "block_ok fr'"
proof -
  have "block_ok (fr1\<lparr>bf_logs := kl_set (row_place B) k \<lparr>lr_selected = False, lr_entry = a, lr_se = None\<rparr> (bf_logs fr1)\<rparr>)"
    if "block_ok fr1" for k a and fr1 :: "'a xVMBlockFrame"
    using that by (intro block_ok_tables(2) table_ok_set) (auto simp: block_ok_def ptr_ok_def)
  note row = this
  show ?thesis
  proof (cases "exec_context B tid")
    case (Inr ctx)
    show ?thesis
    proof (cases ctx)
      case (Some cx)
      obtain r c where v: "vm_step B (setRip rip (initTrace (iat_cpu B) cx (bf_rcs fr))) = (r, c)" by fastforce
      show ?thesis
      proof (cases "r = VCPU_LOOPRET_NORMAL")
        case True
        then obtain n fr3 where f: "fr' = fr3\<lparr>bf_skipNext := True\<rparr>" "syncByRip (c_RIP c)
            (fr\<lparr>bf_rcs := c, bf_unqID := bf_unqID fr + 1, bf_logs := kl_set (row_place B) (bf_unqID fr)
              \<lparr>lr_selected = False, lr_entry = c_RIP c, lr_se = None\<rparr> (bf_logs fr)\<rparr>) = Inr (n, fr3)"
          using assms(2) Inr Some v by (auto simp: blockPreExecute_def Let_def bindF_Inr_eq)
        have "block_ok (fr\<lparr>bf_rcs := c, bf_unqID := bf_unqID fr + 1\<rparr>)" using assms(1) by simp
        from row [OF this] show ?thesis using f syncByRip_ok by fastforce
      qed (use assms Inr Some v in \<open>auto simp: blockPreExecute_def Let_def\<close>)
    qed (use assms Inr in \<open>simp add: blockPreExecute_def\<close>)
  qed (use assms in \<open>simp add: blockPreExecute_def\<close>)
qed

lemma processExceptionEvent_ok: "block_ok fr \<Longrightarrow> processExceptionEvent B ex fr = Inr fr' \<Longrightarrow> block_ok fr'"
  by (auto simp: processExceptionEvent_def blockPreExecute_ok split: if_splits)

section \<open>BlockFile.thy and BlockMenu.thy\<close>

lemma load_node_ok:
  assumes "block_ok fr" "load_node B N Y n fr = Inr fr'"
  shows "block_ok fr'"
  using assms unfolding load_node_def
  by (cases "fst n") (auto simp: loadSequence_ok block_ok_add_log block_ok_add_tpl split: if_splits)

lemma loadBlocks_ok:
  assumes "block_ok fr" "loadBlocks B cfg N Y pk fr = Inr (r, fr')"
  shows "block_ok fr'"
proof -
  obtain fr1 where f: "foldF (load_node B N Y) (np_nodes N pk) (empty_blocks fr) = Inr fr1"
      "fr' = flushExecTemplate B (flushExecLogs B cfg (flushSeqs B fr1))"
    using assms(2) by (auto simp: loadBlocks_def bindF_Inr_eq)
  have "block_ok (set_tpls [] (set_logs [] (set_seqs [] fr)))"
    by (simp add: block_ok_set_tpls block_ok_set_logs block_ok_set_seqs assms(1))
  then have "block_ok (empty_blocks fr)" by (simp add: empty_blocks_def block_ok_def)
  then have "block_ok fr1" using foldF_invariant [OF f(1), of block_ok] load_node_ok by blast
  then show ?thesis unfolding f(2) by (simp add: flushExecTemplate_ok flushExecLogs_ok flushSeqs_ok)
qed

lemma loadBlocksFile_ok: "block_ok fr \<Longrightarrow> loadBlocksFile B cfg N Y bytes fr = Inr (r, fr') \<Longrightarrow> block_ok fr'"
  by (auto simp: loadBlocksFile_def loadBlocks_ok split: if_splits)

text \<open>A run over the blocks that builds their list anew.\<close>

definition rebuilt :: "CodeBlock keyed \<Rightarrow> CodeBlock keyed \<Rightarrow> bool" where
  "rebuilt xs ys \<longleftrightarrow> list_all2 (\<lambda>(k, b) (k', b'). k' = k \<and> cb_seqID b' = cb_seqID b) xs ys"

lemma rebuilt_ids: "rebuilt xs ys \<Longrightarrow> map fst ys = map fst xs \<and> (block_ids xs \<longrightarrow> block_ids ys)"
proof -
  assume r: "rebuilt xs ys"
  then have k: "map fst ys = map fst xs" unfolding rebuilt_def by (induction rule: list_all2_induct) auto
  have "list_all (\<lambda>(k, b). cb_seqID b = k) xs \<longrightarrow> list_all (\<lambda>(k, b). cb_seqID b = k) ys"
    using r unfolding rebuilt_def by (induction rule: list_all2_induct) auto
  then show ?thesis using k by (simp add: block_ids_def)
qed

lemma block_ok_rebuilt:
  assumes "block_ok fr" "rebuilt (bf_seqs fr) xs"
  shows "block_ok (fr\<lparr>bf_seqs := xs\<rparr>)"
proof (rule block_ok_seqs [OF assms(1)])
  show "block_ids xs" using assms rebuilt_ids by (auto simp: block_ok_def)
  have "map fst xs = map fst (bf_seqs fr)" using rebuilt_ids [OF assms(2)] by simp
  then show "fst ` set (bf_seqs fr) \<subseteq> fst ` set xs" by (metis list.set_map order_refl)
qed

lemma rebuilt_fold:
  assumes "foldF f xs st = Inr st'"
    and "\<And>e st st'. f e st = Inr st' \<Longrightarrow> \<exists>e'. out st' = out st @ [e'] \<and> rebuilt [e] [e']"
  shows "\<exists>ys. out st' = out st @ ys \<and> rebuilt xs ys"
  using assms(1)
proof (induction xs arbitrary: st)
  case (Cons e xs)
  obtain s where s: "f e st = Inr s" "foldF f xs s = Inr st'" using Cons.prems by (auto simp: bindF_Inr_eq)
  obtain e' where e: "out s = out st @ [e']" "rebuilt [e] [e']" using assms(2) [OF s(1)] by blast
  obtain ys where y: "out st' = out s @ ys" "rebuilt xs ys" using Cons.IH [OF s(2)] by blast
  show ?case using e y by (intro exI [of _ "e' # ys"]) (simp add: rebuilt_def)
qed (simp add: rebuilt_def)

lemma runPatternAsm_ok:
  assumes "block_ok fr" "runPatternAsmOnAllBlocks B T script fr = Inr (n, fr')"
  shows "block_ok fr'"
proof -
  obtain eng nc eng' xs where f: "foldF (pattern_block T) (bf_seqs fr) (0, eng, []) = Inr (nc, eng', xs)"
      "fr' = flushSeqs B (fr\<lparr>bf_seqs := xs\<rparr>)"
    using assms(2) by (auto simp: runPatternAsmOnAllBlocks_def bindF_Inr_eq)
  have "\<exists>e'. snd (snd st') = snd (snd st) @ [e'] \<and> rebuilt [e] [e']" if "pattern_block T e st = Inr st'" for e st st'
    using that by (cases e; cases st) (auto simp: pattern_block_def bindF_Inr_eq rebuilt_def)
  from rebuilt_fold [OF f(1), of "\<lambda>st. snd (snd st)", OF this] have "rebuilt (bf_seqs fr) xs" by simp
  then show ?thesis unfolding f(2) by (intro flushSeqs_ok block_ok_rebuilt [OF assms(1)])
qed

lemma label_block_id [simp]: "cb_seqID (label_block B p b) = cb_seqID b"
  by (simp add: label_block_def split: option.split)

lemma runCodeDNA_ok:
  assumes "block_ok fr" "runCodeDNAOnAllBlocks B T script fr = Inr fr'"
  shows "block_ok fr'"
proof -
  obtain eng eng' xs where f: "foldF (dna_block B T) (bf_seqs fr) (eng, []) = Inr (eng', xs)"
      "fr' = flushSeqs B (fr\<lparr>bf_seqs := xs\<rparr>)"
    using assms(2) by (auto simp: runCodeDNAOnAllBlocks_def bindF_Inr_eq)
  have "\<exists>e'. snd st' = snd st @ [e'] \<and> rebuilt [e] [e']" if "dna_block B T e st = Inr st'" for e st st'
    using that by (cases e; cases st) (auto simp: dna_block_def bindS_Inr_eq rebuilt_def)
  from rebuilt_fold [OF f(1), of snd, OF this] have "rebuilt (bf_seqs fr) xs" by simp
  then show ?thesis unfolding f(2) by (intro flushSeqs_ok block_ok_rebuilt [OF assms(1)])
qed

lemma edit_block_ok:
  assumes "block_ok fr" "edit_block B old new answer r fr = Inr fr'" "\<And>s b. cb_seqID (new s b) = cb_seqID b"
  shows "block_ok fr'"
  using assms by (auto simp: edit_block_def bindF_Inr_eq split: option.splits if_splits intro!: upd_block_ok)

lemma setSelected_ok:
  "block_ok fr \<Longrightarrow> setSelectedBlockComment B answer r fr = Inr fr' \<Longrightarrow> block_ok fr'"
  "block_ok fr \<Longrightarrow> setSelectedBlockPattern B answer r fr = Inr fr' \<Longrightarrow> block_ok fr'"
  "block_ok fr \<Longrightarrow> setSelectedBlockUUID B answer r fr = Inr fr' \<Longrightarrow> block_ok fr'"
proof -
  assume a: "block_ok fr"
  show "setSelectedBlockComment B answer r fr = Inr fr' \<Longrightarrow> block_ok fr'"
    unfolding setSelectedBlockComment_def by (erule edit_block_ok [OF a]) simp
  show "setSelectedBlockPattern B answer r fr = Inr fr' \<Longrightarrow> block_ok fr'"
    unfolding setSelectedBlockPattern_def by (erule edit_block_ok [OF a]) simp
  show "setSelectedBlockUUID B answer r fr = Inr fr' \<Longrightarrow> block_ok fr'"
    using a by (auto simp: setSelectedBlockUUID_def bindF_Inr_eq split: option.splits intro!: upd_block_ok flushSeqs_ok)
qed

lemma syncSequenceBack_ok: "block_ok fr \<Longrightarrow> block_ok (snd (syncSequenceBack k fr))"
  by (simp add: syncSequenceBack_def upd_block_ok)

lemma clearSeqsSelection_ok: "block_ok fr \<Longrightarrow> block_ok (clearSeqsSelection fr)"
  unfolding clearSeqsSelection_def
  by (rule block_ok_tables(1), assumption, rule table_ok_rows [of _ _ "bf_blocks fr"])
    (auto simp: block_ok_def map_rows_def)

lemma toggle_rows_ok: "block_ok fr \<Longrightarrow> block_ok (fr\<lparr>bf_blocks := toggle_seq_row a (bf_blocks fr)\<rparr>)"
  by (rule block_ok_tables(1), assumption, rule table_ok_rows [of _ _ "bf_blocks fr"])
    (auto simp: block_ok_def toggle_seq_row_def)

lemma select_rows_same:
  "map fst (select_rows lo hi rows) = map fst rows" "map (sr_is \<circ> snd) (select_rows lo hi rows) = map (sr_is \<circ> snd) rows"
  by (auto simp: select_rows_def enumerate_eq_zip comp_def case_prod_beta map_zip_map2 intro!: nth_equalityI)

lemma select_rows_ok: "block_ok fr \<Longrightarrow> block_ok (fr\<lparr>bf_blocks := select_rows lo hi (bf_blocks fr)\<rparr>)"
  by (rule block_ok_tables(1), assumption, rule table_ok_rows [of _ _ "bf_blocks fr"])
    (auto simp: block_ok_def select_rows_same)

lemma sel_func_block_ok: "block_ok fr \<Longrightarrow> xvm_blocks_block_sel_func shift ctrl at fr = Inr fr' \<Longrightarrow> block_ok fr'"
  by (auto simp: xvm_blocks_block_sel_func_def Let_def bindF_Inr_eq flushSeq_ok clearSeqsSelection_ok toggle_rows_ok
      split: option.splits if_splits intro!: flushSeq_ok select_rows_ok)

lemma moniterSelectedEntries_ok:
  assumes "block_ok fr" "moniterSelectedEntries B fr = Inr fr'"
  shows "block_ok fr'"
proof -
  obtain fr1 where f: "foldF (moniter_row B) (bf_blocks fr) fr = Inr fr1" "fr' = flushSeqs B fr1"
    using assms(2) by (auto simp: moniterSelectedEntries_def bindF_Inr_eq)
  have "block_ok fr1" using f(1)
    by (rule foldF_invariant) (use assms(1) in \<open>auto simp: moniter_row_def bindF_Inr_eq upd_block_ok split: if_splits\<close>)
  then show ?thesis unfolding f(2) by (rule flushSeqs_ok)
qed

lemma selectLogs_ok:
  assumes "block_ok fr" "selectLogsBySeqID k fr = Inr fr'"
  shows "block_ok fr'"
proof -
  have r: "foldF (select_log fr k) xs out = Inr rows \<Longrightarrow>
      map fst rows = map fst out @ map fst xs \<and> map (lr_se \<circ> snd) rows = map (lr_se \<circ> snd) out @ map (lr_se \<circ> snd) xs"
    for xs out rows
    by (induction xs arbitrary: out) (auto simp: select_log_def bindF_Inr_eq)
  obtain rows where f: "foldF (select_log fr k) (bf_logs fr) [] = Inr rows" "fr' = fr\<lparr>bf_logs := rows\<rparr>"
    using assms(2) by (auto simp: selectLogsBySeqID_def bindF_Inr_eq)
  have t: "table_ok lr_se (fst ` set (bf_sseq fr)) (bf_logs fr)" using assms(1) by (simp add: block_ok_def)
  have "table_ok lr_se (fst ` set (bf_sseq fr)) rows"
    by (rule table_ok_rows [OF t]) (use r [OF f(1)] in simp_all)
  then show ?thesis unfolding f(2) by (rule block_ok_tables(2) [OF assms(1)])
qed

lemma hideSelectedLogs_ok:
  assumes "block_ok fr"
  shows "block_ok (hideSelectedLogs B cfg fr)"
proof -
  have "block_ok (foldl (\<lambda>fr e. if lr_selected (snd e) then upd_log (fst e) f fr else fr) g rows)" if "block_ok g"
    for f and g :: "'a xVMBlockFrame" and rows
    using that by (induction rows arbitrary: g) (simp_all add: upd_log_ok)
  then show ?thesis unfolding hideSelectedLogs_def case_prod_beta using assms by (intro flushExecLogs_ok) blast
qed

lemma dblclk_ok:
  "block_ok fr \<Longrightarrow> block_ok (xvm_blocks_block_dblclk i fr)"
  "block_ok fr \<Longrightarrow> xvm_blocks_bklogs_dblclk B i fr = Inr fr' \<Longrightarrow> block_ok fr'"
  "block_ok fr \<Longrightarrow> xvm_template_dblclk B i fr = Inr fr' \<Longrightarrow> block_ok fr'"
proof -
  assume a: "block_ok fr"
  show "block_ok (xvm_blocks_block_dblclk i fr)"
    using a by (auto simp: xvm_blocks_block_dblclk_def toggle_rows_ok split: option.split)
  show "xvm_blocks_bklogs_dblclk B i fr = Inr fr' \<Longrightarrow> block_ok fr'"
    using a by (auto simp: xvm_blocks_bklogs_dblclk_def bindF_Inr_eq setBreakPoint_ok upd_log_ok split: option.splits)
  have "block_ok (fr\<lparr>bf_setpl := kl_upd k (t\<lparr>tp_flags := w\<rparr>) (bf_setpl fr)\<rparr>)" if "map_of (bf_setpl fr) k = Some t" for k t w
  proof (rule block_ok_setpl [OF a])
    have "tp_ip t = k" using that a by (auto simp: block_ok_def template_ids_def list_all_iff dest!: map_of_SomeD)
    then show "template_ids (kl_upd k (t\<lparr>tp_flags := w\<rparr>) (bf_setpl fr))"
      using a by (intro template_ids_upd) (simp_all add: block_okD)
  qed simp
  then show "xvm_template_dblclk B i fr = Inr fr' \<Longrightarrow> block_ok fr'"
    using a by (auto simp: xvm_template_dblclk_def row_tpl_def bindF_Inr_eq split: option.splits intro!: setBreakPoint_ok)
qed

lemma toggle_logs_ok:
  "block_ok fr \<Longrightarrow>
    block_ok (fr\<lparr>bf_logs := map (\<lambda>(k, q). (k, if k = a then q\<lparr>lr_selected := \<not> lr_selected q\<rparr> else q)) (bf_logs fr)\<rparr>)"
  by (rule block_ok_tables(2), assumption, rule table_ok_rows [of _ _ "bf_logs fr"]) (auto simp: block_ok_def)

lemma bklogs_sel_func_ok: "block_ok fr \<Longrightarrow> xvm_blocks_bklogs_sel_func alt ctrl at fr = Inr (n, fr') \<Longrightarrow> block_ok fr'"
  by (auto simp: xvm_blocks_bklogs_sel_func_def bindF_Inr_eq toggle_logs_ok split: option.splits if_splits)

lemma ensureSequence_ok: "block_ok fr \<Longrightarrow> ensureSequence B k a fr = Inr (j, fr') \<Longrightarrow> block_ok fr'"
  by (auto simp: ensureSequence_def bindF_Inr_eq split: option.splits intro!: put_block_ok)

lemma notice_mkcodebk_ok: "block_ok fr \<Longrightarrow> notice_mkcodebk B n fr = Inr (j, fr') \<Longrightarrow> block_ok fr'"
  by (auto simp: notice_mkcodebk_def Let_def bindF_Inr_eq ensureSequence_ok split: if_splits
      intro!: flushSeqs_ok upd_block_ok)

lemma notice_bkexec_ok:
  assumes "block_ok fr" "notice_bkexec B cfg Y l fr = Inr fr'"
  shows "block_ok fr'"
proof -
  obtain fr1 where f: "removeLastTempExecLogs B fr = Inr fr1" using assms(2) by (auto simp: notice_bkexec_def bindF_Inr_eq)
  then have "block_ok fr1" using removeLastTempExecLogs_ok assms(1) by blast
  then show ?thesis using assms(2) f addBlockExecLog_ok hiLastExecLog_ok
    by (fastforce simp: notice_bkexec_def bindF_Inr_eq split: option.splits if_splits)
qed

lemma notice_bklogs_ok:
  assumes "block_ok fr" "notice_bklogs B cfg Y ls fr = Inr fr'"
  shows "block_ok fr'"
proof -
  let ?f = "\<lambda>bs (sid, fr). if length bs < SZ_EXEC Y then Inl Array_overflow else addBlockExecLog B cfg (raw_exec Y bs) (sid + 1) fr"
  obtain fr1 sid fr2 where f: "removeLastTempExecLogs B fr = Inr fr1" "foldF ?f ls (0, fr1) = Inr (sid, fr2)"
      "fr' = hiLastExecLog B fr2"
    using assms(2) by (auto simp: notice_bklogs_def bindF_Inr_eq)
  have "block_ok (snd (sid, fr2))" using f(2)
    by (rule foldF_invariant)
      (use removeLastTempExecLogs_ok [OF assms(1) f(1)] addBlockExecLog_ok in \<open>auto split: if_splits prod.splits\<close>)
  then show ?thesis unfolding f(3) by (simp add: hiLastExecLog_ok)
qed

lemma menu_block_ok:
  assumes ok: "block_ok fr" "detects B" and r: "Block_Table_MenuProc B cfg N Y T ch m fr = Inr (out, fr')"
  shows "block_ok fr'"
proof (cases m)
  case xvm_blockexec_menu_load
  then show ?thesis using r ok(1) loadBlocksFile_ok
    by (auto simp: Block_Table_MenuProc_def bindF_Inr_eq split: option.splits)
next
  case xvm_blockexec_menu_save
  then show ?thesis using r ok(1) by (auto simp: Block_Table_MenuProc_def split: option.splits)
next
  case xvm_blockexec_menu_analyserrecords
  then show ?thesis using r ok analyserTraceFile_ok by (auto simp: Block_Table_MenuProc_def split: option.splits)
next
  case xvm_blockexec_menu_stepover
  then show ?thesis using r stepOverBlock_ok [OF ok(1), of B] by (auto simp: Block_Table_MenuProc_def split: prod.splits)
next
  case xvm_blockexec_menu_syncbackrcs
  then show ?thesis using r ok(1) syncSequenceBack_ok
    by (auto simp: Block_Table_MenuProc_def sel_block_def bindF_Inr_eq split: option.splits)
next
  case xvm_blockexec_menu_selbklogs
  then show ?thesis using r ok(1) selectLogs_ok
    by (auto simp: Block_Table_MenuProc_def sel_block_def bindF_Inr_eq split: option.splits)
next
  case xvm_blockexec_menu_clearlogs
  then show ?thesis using r flushExecLogs_ok [OF block_ok_set_logs [OF ok(1), of "[]"]]
    by (auto simp: Block_Table_MenuProc_def clearSeqExecLogs_def)
next
  case xvm_blockexec_menu_pattern
  then show ?thesis using r ok(1) runPatternAsm_ok
    by (auto simp: Block_Table_MenuProc_def bindF_Inr_eq split: option.splits)
next
  case xvm_blockexec_menu_dna
  then show ?thesis using r ok(1) runCodeDNA_ok
    by (auto simp: Block_Table_MenuProc_def bindF_Inr_eq split: option.splits)
qed (use r ok(1) setSelected_ok exportExecLogsToTemplate_ok in \<open>auto simp: Block_Table_MenuProc_def bindF_Inr_eq\<close>)

section \<open>Steps\<close>

text \<open>
  What happens to the window: commands of its user and of the plugin, the debuggee's events, and notices of the monitor.
  Every step may find another environment and other settings.
\<close>

inductive block_step ::
  "'p block_packet \<Rightarrow> struct_bytes \<Rightarrow> pattern_env \<Rightarrow> 'v xVMBlockFrame \<Rightarrow> 'v xVMBlockFrame \<Rightarrow> bool" for N Y T where
  bs_show: "block_step N Y T fr (fr\<lparr>bf_hFrame := True\<rparr>)"
| bs_hide: "block_step N Y T fr (reset_frame fr)"
| bs_menu: "detects B \<Longrightarrow> Block_Table_MenuProc B cfg N Y T ch m fr = Inr (out, fr') \<Longrightarrow> block_step N Y T fr fr'"
| bs_filter: "Log_Filter_MenuProc B cfg fr = (cfg', fr') \<Longrightarrow> block_step N Y T fr fr'"
| bs_key: "xvm_blocks_block_key B key answer sel fr = Inr fr' \<Longrightarrow> block_step N Y T fr fr'"
| bs_logs_key: "block_step N Y T fr (xvm_blocks_bklogs_key B cfg key fr)"
| bs_click: "block_step N Y T fr (xvm_blocks_block_dblclk sel fr)"
| bs_logs_click: "xvm_blocks_bklogs_dblclk B sel fr = Inr fr' \<Longrightarrow> block_step N Y T fr fr'"
| bs_tpl_click: "xvm_template_dblclk B sel fr = Inr fr' \<Longrightarrow> block_step N Y T fr fr'"
| bs_select: "xvm_blocks_block_sel_func shift ctrl sel fr = Inr fr' \<Longrightarrow> block_step N Y T fr fr'"
| bs_logs_select: "xvm_blocks_bklogs_sel_func alt ctrl sel fr = Inr (n, fr') \<Longrightarrow> block_step N Y T fr fr'"
| bs_blocks: "loadBlocks B cfg N Y pk fr = Inr (r, fr') \<Longrightarrow> block_step N Y T fr fr'"
| bs_bklogs: "notice_bklogs B cfg Y logs fr = Inr fr' \<Longrightarrow> block_step N Y T fr fr'"
| bs_bkexec: "notice_bkexec B cfg Y log fr = Inr fr' \<Longrightarrow> block_step N Y T fr fr'"
| bs_mkcodebk: "notice_mkcodebk B n fr = Inr (k, fr') \<Longrightarrow> block_step N Y T fr fr'"
| bs_mode: "block_step N Y T fr (setDbgMode mode fr)"
| bs_trace: "detects B \<Longrightarrow> block_step N Y T fr (detectCodeBlocks B cfg seq fr)"
| bs_add: "block_step N Y T fr (VMDebug_BlockAddSeq B seq fr)"
| bs_sync: "syncByRip rip fr = Inr (n, fr') \<Longrightarrow> block_step N Y T fr fr'"
| bs_branching: "block_step N Y T fr (snd (setBranchingRip B rip fr))"
| bs_event: "processExceptionEvent B ex fr = Inr fr' \<Longrightarrow> block_step N Y T fr fr'"
| bs_detect: "block_step N Y T fr (snd (detectOPBranch B cfg rip fr))"
| bs_entries: "VMDebug_AddtoBlockEntries B cfg sel0 sel1 fr = Inr fr' \<Longrightarrow> block_step N Y T fr fr'"

inductive block_reachable ::
  "'p block_packet \<Rightarrow> struct_bytes \<Rightarrow> pattern_env \<Rightarrow> 'v xVMBlockFrame \<Rightarrow> bool" for N Y T where
  br_new: "block_reachable N Y T (new_block_frame B rip oip)"
| br_step: "block_reachable N Y T fr \<Longrightarrow> block_step N Y T fr fr' \<Longrightarrow> block_reachable N Y T fr'"

lemma block_step_ok:
  assumes "block_step N Y T fr fr'" "block_ok fr"
  shows "block_ok fr'"
  using assms(1)
proof (cases rule: block_step.cases)
  case (bs_menu B cfg ch m out)
  then show ?thesis using menu_block_ok assms(2) by blast
next
  case (bs_filter B cfg cfg')
  then show ?thesis using hiLastExecLog_ok [OF flushExecLogs_ok [OF assms(2)]]
    by (auto simp: Log_Filter_MenuProc_def Let_def flushAllExecLogs_def)
next
  case (bs_key B key answer sel)
  then show ?thesis using assms(2) setSelected_ok calcBlockExecReference_ok clearSeqsSelection_ok moniterSelectedEntries_ok
    by (cases key) (auto simp: xvm_blocks_block_key_def)
next
  case (bs_logs_key B cfg key)
  then show ?thesis using assms(2) hideSelectedLogs_ok [OF assms(2), of B cfg] by (simp add: xvm_blocks_bklogs_key_def)
next
  case (bs_entries B cfg sel0 sel1)
  then show ?thesis using assms(2) addBlockEntries_ok by (auto simp: VMDebug_AddtoBlockEntries_def split: if_splits)
next
  case (bs_event B ex)
  then show ?thesis using processExceptionEvent_ok [OF assms(2)] by blast
next
  case (bs_bklogs B cfg logs)
  then show ?thesis using notice_bklogs_ok [OF assms(2)] by blast
next
  case (bs_bkexec B cfg log)
  then show ?thesis using notice_bkexec_ok [OF assms(2)] by blast
next
  case (bs_mkcodebk B n k)
  then show ?thesis using notice_mkcodebk_ok [OF assms(2)] by blast
next
  case (bs_blocks B cfg pk r)
  then show ?thesis by (rule loadBlocks_ok [OF assms(2)])
next
  case (bs_trace B cfg seq)
  then show ?thesis using detectCodeBlocks_ok [OF assms(2)] by simp
next
  case (bs_sync rip n)
  then show ?thesis using syncByRip_ok [OF assms(2)] by blast
next
  case (bs_select shift ctrl sel)
  then show ?thesis using sel_func_block_ok [OF assms(2)] by blast
next
  case (bs_logs_select alt ctrl sel n)
  then show ?thesis using bklogs_sel_func_ok [OF assms(2)] by blast
next
  case (bs_logs_click B sel)
  then show ?thesis using dblclk_ok(2) [OF assms(2)] by blast
next
  case (bs_tpl_click B sel)
  then show ?thesis using dblclk_ok(3) [OF assms(2)] by blast
qed (use assms(2) in \<open>simp_all add: reset_frame_def setDbgMode_def dblclk_ok(1) VMDebug_BlockAddSeq_def flushSeqs_ok
      loadSequence_ok setBranchingRip_ok detectOPBranch_ok\<close>)

lemma block_reachable_ok: "block_reachable N Y T fr \<Longrightarrow> block_ok fr"
  by (induction rule: block_reachable.induct) (simp_all add: block_ok_new block_step_ok)

end
