(* ===== verification/BlockFacts.thy ===== *)
theory BlockFacts
  imports BlockState
begin

text \<open>
  What the block window's operations do: numbers that are free, logs that are kept, the blocks an address belongs to,
  where blocks are cut, and rows that outlive their logs.
\<close>

section \<open>Free numbers\<close>

lemma free_from_end:
  assumes "i + of_nat n \<notin> set ks" "\<And>m. m < n \<Longrightarrow> i + of_nat m \<in> set ks"
  shows "free_from ks i = Some (i + of_nat n)"
  using assms
proof (induction n arbitrary: i)
  case 0
  then show ?case by (simp add: free_from.simps)
next
  case (Suc n)
  have "i \<in> set ks" using Suc.prems(2) [of 0] by simp
  moreover have "free_from ks (i + 1) = Some (i + 1 + of_nat n)"
  proof (rule Suc.IH)
    show "i + 1 + of_nat n \<notin> set ks" using Suc.prems(1) by (simp add: ac_simps)
    show "i + 1 + of_nat m \<in> set ks" if "m < n" for m using Suc.prems(2) [of "Suc m"] that by (simp add: ac_simps)
  qed
  ultimately show ?case by (simp add: free_from.simps [of ks i] ac_simps)
qed

lemma some_free:
  fixes i :: int32
  assumes "length ks < 2 ^ 32"
  shows "\<exists>n. i + of_nat n \<notin> set ks"
proof (rule ccontr)
  assume "\<not> ?thesis"
  then have "w \<in> set ks" for w :: int32
  proof -
    have "i + of_nat (unat (w - i)) = w" by simp
    then show ?thesis using \<open>\<not> (\<exists>n. i + of_nat n \<notin> set ks)\<close> by metis
  qed
  then have "card (UNIV :: int32 set) \<le> length ks" by (metis UNIV_eq_I card_length)
  moreover have "card (UNIV :: int32 set) = 2 ^ 32" by (simp add: card_word)
  ultimately show False using assms by linarith
qed

text \<open>The first number from the start that is not taken.\<close>

lemma first_free_least:
  fixes old :: int32
  assumes "length ks < 2 ^ 32" and s_def: "s = (if sint old < 0 then 0 else old)"
  shows "\<exists>n. first_free ks old = Inr (s + of_nat n) \<and> s + of_nat n \<notin> set ks \<and> (\<forall>m < n. s + of_nat m \<in> set ks)"
proof -
  let ?n = "LEAST n. s + of_nat n \<notin> set ks"
  have f: "s + of_nat ?n \<notin> set ks" using LeastI_ex [OF some_free [OF assms(1), of s]] .
  have l: "s + of_nat m \<in> set ks" if "m < ?n" for m using not_less_Least [OF that] by simp
  have "free_from ks s = Some (s + of_nat ?n)" using free_from_end [OF f l] .
  then have "first_free ks old = Inr (s + of_nat ?n)" by (simp only: first_free_def s_def [symmetric] option.case)
  then show ?thesis using f l by blast
qed

lemma emptyExecLogID_free:
  assumes "length (bf_sseq fr) < 2 ^ 32"
  shows "\<exists>k fr'. emptyExecLogID old fr = Inr (k, fr') \<and> k \<notin> fst ` set (bf_sseq fr) \<and> same_data (fr\<lparr>bf_uniqueID := bf_uniqueID fr'\<rparr>) fr'"
proof -
  obtain k where k: "first_free (map fst (bf_sseq fr)) old = Inr k" "k \<notin> fst ` set (bf_sseq fr)"
    using first_free_least [of "map fst (bf_sseq fr)" _ old] assms by (auto simp flip: set_map)
  then show ?thesis by (auto simp: emptyExecLogID_def Let_def same_data_def simp flip: set_map)
qed

section \<open>Logs\<close>

text \<open>The log that is filed: what it asked for is done.\<close>

definition settled :: "SequenceExecute \<Rightarrow> SequenceExecute" where
  "settled se =
     se\<lparr>se_vars := map (\<lambda>v. if sv_type v \<in> {sevar_setuuid, sevar_setcomment, sevar_setpattern}
                           then v\<lparr>sv_type := sevar_none\<rparr> else v) (se_vars se)\<rparr>"

lemma exec_vars_log:
  "fst (foldl (exec_var B) (se, fr) [n..<n + m]) =
     se\<lparr>se_vars := take n (se_vars se) @ map (\<lambda>v. if sv_type v \<in> {sevar_setuuid, sevar_setcomment, sevar_setpattern}
         then v\<lparr>sv_type := sevar_none\<rparr> else v) (take m (drop n (se_vars se))) @ drop (n + m) (se_vars se)\<rparr>"
  if "n + m \<le> length (se_vars se)"
  using that
proof (induction m arbitrary: n se fr)
  case (Suc m)
  let ?f = "\<lambda>v. if sv_type v \<in> {sevar_setuuid, sevar_setcomment, sevar_setpattern} then v\<lparr>sv_type := sevar_none\<rparr> else v"
  obtain se1 fr1 where s: "exec_var B (se, fr) n = (se1, fr1)" by fastforce
  have se1: "se1 = se\<lparr>se_vars := (se_vars se)[n := ?f (se_vars se ! n)]\<rparr>"
    using s by (auto simp: exec_var_def Let_def split: sevar_type.splits)
  have r: "[n..<n + Suc m] = n # [Suc n..<Suc n + m]" by (subst upt_conv_Cons) simp_all
  have d: "take (Suc m) (drop n (se_vars se)) = se_vars se ! n # take m (drop (Suc n) (se_vars se))"
    using Suc.prems by (simp add: take_Suc_conv_app_nth Cons_nth_drop_Suc [symmetric])
  have t: "take (Suc n) ((se_vars se)[n := x]) = take n (se_vars se) @ [x]" for x
    using Suc.prems by (simp add: take_Suc_conv_app_nth)
  have "Suc n + m \<le> length (se_vars se1)" using Suc.prems se1 by simp
  from Suc.IH [OF this, of fr1] show ?case
    unfolding r by (simp add: s se1 d t del: upt_Suc)
qed simp

lemma exec_vars_data:
  "bf_sseq (snd (foldl (exec_var B) (se, fr) is)) = bf_sseq fr"
proof (induction "is" arbitrary: se fr)
  case (Cons i "is")
  obtain se1 fr1 where s: "exec_var B (se, fr) i = (se1, fr1)" by fastforce
  have "bf_sseq fr1 = bf_sseq fr"
    using s by (auto simp: exec_var_def Let_def upd_block_def split: sevar_type.splits option.splits)
  then show ?case using Cons.IH [of se1 fr1] by (simp add: s)
qed simp

text \<open>Adding a log does not fail and takes no other log's place.\<close>

lemma added_log:
  assumes "length (bf_sseq fr) < 2 ^ 32"
  shows "\<exists>sid fr'. addBlockExecLog B cfg se start fr = Inr (sid, fr') \<and> sid \<notin> fst ` set (bf_sseq fr)
    \<and> map_of (bf_sseq fr') = (map_of (bf_sseq fr))(sid \<mapsto> settled se)"
proof -
  obtain se1 fr1 where f: "foldl (exec_var B) (se, fr) [0..<length (se_vars se)] = (se1, fr1)" by fastforce
  have s: "se1 = settled se" "bf_sseq fr1 = bf_sseq fr"
    using exec_vars_log [of 0 "length (se_vars se)" se B fr] exec_vars_data [of B se fr "[0..<length (se_vars se)]"] f
    by (simp_all add: settled_def)
  obtain sid fr2 where e: "emptyExecLogID start fr1 = Inr (sid, fr2)" "sid \<notin> fst ` set (bf_sseq fr1)"
      "same_data (fr1\<lparr>bf_uniqueID := bf_uniqueID fr2\<rparr>) fr2"
    using emptyExecLogID_free [of fr1 start] assms s by auto
  then have d: "bf_sseq fr2 = bf_sseq fr" using s by (simp add: same_data_def)
  show ?thesis
    by (intro exI [of _ sid] exI [of _ "flushExecLog B cfg (sid, se1) (fr2\<lparr>bf_sseq := kl_set (seq_place B) sid se1 (bf_sseq fr2)\<rparr>)"])
      (use e f s d in \<open>simp add: addBlockExecLog_def\<close>)
qed

text \<open>A temporary log that is removed leaves its row, which points to nothing; selecting logs then reads it.\<close>

lemma select_dangling:
  assumes "(a, r) \<in> set rows" "lr_se r = None"
  shows "foldF (select_log fr k) rows out = Inl Null_deref \<or> (\<exists>f. foldF (select_log fr k) rows out = Inl f)"
  using assms
proof (induction rows arbitrary: out)
  case (Cons q rows)
  show ?case
  proof (cases "q = (a, r)")
    case True
    then show ?thesis using Cons.prems(2) by (simp add: select_log_def row_log_def)
  next
    case False
    then show ?thesis using Cons by (cases "select_log fr k q out") auto
  qed
qed simp

lemma select_log_fault: "select_log fr k q out = Inl f \<Longrightarrow> f = Null_deref"
  by (auto simp: select_log_def row_log_def bindF_def split: option.splits sum.splits)

lemma select_fault: "foldF (select_log fr k) rows out = Inl f \<Longrightarrow> f = Null_deref"
proof (induction rows arbitrary: out)
  case (Cons q rows)
  then show ?case using select_log_fault [of fr k q out] by (cases "select_log fr k q out") auto
qed simp

lemma removed_log_row:
  assumes "block_ok fr" "bf_sseq fr = xs @ [(k, se)]" "has (se_flags se) (SEQEXEC_FLAG_TEMP B)"
    and "(a, r) \<in> set (bf_logs fr)" "lr_se r = Some k" "removeLastTempExecLogs B fr = Inr fr1"
  shows "(a, r\<lparr>lr_se := None\<rparr>) \<in> set (bf_logs fr1)" "selectLogsBySeqID j fr1 = Inl Null_deref"
proof -
  have d: "distinct (map fst (xs @ [(k, se)]))" using assms(1,2) by (simp add: block_ok_def)
  have k: "map_of (xs @ [(k, se)]) k = Some se" using d by (intro map_of_is_SomeI) simp_all
  let ?xs = "filter (\<lambda>e. fst e \<noteq> k) (xs @ [(k, se)])"
  have a: "key_after (map fst (xs @ [(k, se)])) k = None"
  proof -
    have nb: "key_before (k # ks) k = None" if "k \<notin> set ks" for ks
    proof -
      have "key_before (y # ks) k = None" if "k \<notin> set ks" for y
        using that by (induction ks arbitrary: y) auto
      then show ?thesis using that by blast
    qed
    then show ?thesis using d by (simp add: key_after_def flip: set_map rev_map)
  qed
  obtain ys where y: "last_temp_loop B (Some k) (xs @ [(k, se)]) = Inr ys" "fr1 = set_logs ys fr"
    using assms(2,6) by (auto simp: removeLastTempExecLogs_def bindF_Inr_eq)
  obtain q where q: "last_temp_loop B q ?xs = Inr ys"
    using y(1) k a assms(3) unfolding last_temp_loop.simps [of B "Some k"]
    by (auto simp: Let_def split: sum.splits)
  have "distinct (map fst ?xs)" using d by (rule distinct_filter_fst)
  then have "set ys \<subseteq> set ?xs" using last_temp_loop_removes [OF q] unfolding rid_of_def by blast
  then have "k \<notin> fst ` set ys" by auto
  then have "live (fst ` set ys) (lr_se r) = None" using assms(5) by (simp add: live_def)
  moreover have "(a, r\<lparr>lr_se := live (fst ` set ys) (lr_se r)\<rparr>) \<in> set (bf_logs (set_logs ys fr))"
    unfolding set_logs_def using imageI [OF assms(4), of "\<lambda>(a, r). (a, r\<lparr>lr_se := live (fst ` set ys) (lr_se r)\<rparr>)"]
    by simp
  ultimately show row: "(a, r\<lparr>lr_se := None\<rparr>) \<in> set (bf_logs fr1)" unfolding y(2) by simp
  then show "selectLogsBySeqID j fr1 = Inl Null_deref"
    using select_dangling [OF row, of fr1 j "[]"] select_fault [of fr1 j "bf_logs fr1" "[]"]
    by (auto simp: selectLogsBySeqID_def)
qed

section \<open>Blocks of an address\<close>

definition mm_sorted :: "('k::linorder \<times> 'v) list \<Rightarrow> bool" where
  "mm_sorted m \<longleftrightarrow> sorted (map fst m)"

lemma mm_insert_set: "set (mm_insert k v m) = insert (k, v) (set m)"
  by (induction k v m rule: mm_insert.induct) auto

lemma mm_insert_sorted: "mm_sorted m \<Longrightarrow> mm_sorted (mm_insert k v m)"
proof (induction k v m rule: mm_insert.induct)
  case (2 k v e es)
  then show ?case by (auto simp: mm_sorted_def mm_insert_set)
qed (simp add: mm_sorted_def)

lemma mm_range:
  assumes "mm_sorted m"
  shows "takeWhile (\<lambda>e. fst e = k) (mm_find k m) = filter (\<lambda>e. fst e = k) m"
  using assms
proof (induction m)
  case (Cons e m)
  show ?case
  proof (cases "fst e = k")
    case True
    have "takeWhile (\<lambda>e. fst e = k) m = filter (\<lambda>e. fst e = k) m" using Cons.prems True
    proof (induction m)
      case (Cons f m)
      show ?case
      proof (cases "fst f = k")
        case False
        then have "\<forall>g \<in> set m. fst g \<noteq> k" using Cons.prems by (auto simp: mm_sorted_def)
        then show ?thesis using False by simp
      qed (use Cons in \<open>simp add: mm_sorted_def\<close>)
    qed simp
    then show ?thesis using True by (simp add: mm_find_def)
  qed (use Cons in \<open>simp add: mm_find_def mm_sorted_def\<close>)
qed (simp add: mm_find_def)

lemma loadSequence_index:
  assumes "mm_sorted (bf_instIndex fr)"
  shows "mm_sorted (bf_instIndex (loadSequence B b fr))
    \<and> set (bf_instIndex (loadSequence B b fr)) = set (bf_instIndex fr) \<union> {(a, cb_seqID b) | a. a \<in> set (rips b)}"
proof -
  have "mm_sorted (foldl (\<lambda>ix tr. mm_insert (tr_rip (tx_ctx1 tr)) k ix) ix trs)
      \<and> set (foldl (\<lambda>ix tr. mm_insert (tr_rip (tx_ctx1 tr)) k ix) ix trs)
        = set ix \<union> {(a, k) | a. a \<in> (\<lambda>tr. tr_rip (tx_ctx1 tr)) ` set trs}" if "mm_sorted ix" for k ix trs
    using that
  proof (induction trs arbitrary: ix)
    case (Cons tr trs)
    then show ?case using mm_insert_sorted [OF Cons.prems] by (auto simp: mm_insert_set)
  qed simp
  then show ?thesis using assms by (simp add: loadSequence_def put_block_def rips_def)
qed

lemma loaded_index:
  assumes "mm_sorted (bf_instIndex fr)"
  shows "mm_sorted (bf_instIndex (foldl (\<lambda>fr b. loadSequence B b fr) fr bs))
    \<and> set (bf_instIndex (foldl (\<lambda>fr b. loadSequence B b fr) fr bs))
      = set (bf_instIndex fr) \<union> {(a, cb_seqID b) | a b. b \<in> set bs \<and> a \<in> set (rips b)}"
  using assms
proof (induction bs arbitrary: fr)
  case (Cons b bs)
  then show ?case using loadSequence_index [OF Cons.prems, of B b] by auto
qed simp

text \<open>After a trace was analysed, an address highlights the blocks that have an instruction there.\<close>

lemma sync_highlights:
  assumes "mm_sorted (bf_instIndex fr)" "bf_hFrame fr" "\<not> bf_skipNext fr" "syncByRip rip fr = Inr (n, fr')"
  shows "set (bf_hilSeqs fr') = {k. (rip, k) \<in> set (bf_instIndex fr)}"
proof -
  have "bf_hilSeqs fr' = map snd (filter (\<lambda>e. fst e = rip) (bf_instIndex fr))"
    using assms(2-4) mm_range [OF assms(1), of rip]
    by (auto simp: syncByRip_def Let_def bindF_Inr_eq split: option.splits)
  then show ?thesis by force
qed

lemma analysed_index:
  assumes "detect_file B path [] = (bs, ls)"
  shows "mm_sorted (bf_instIndex (analyserTraceFile B cfg path fr))
    \<and> set (bf_instIndex (analyserTraceFile B cfg path fr)) = {(a, cb_seqID b) | a b. b \<in> set bs \<and> a \<in> set (rips b)}"
  using loaded_index [of "set_logs ls ((set_seqs [] (set_logs [] fr))\<lparr>bf_instIndex := []\<rparr>)" B bs] assms
  by (simp add: analyserTraceFile_def load_detected_def mm_sorted_def set_logs_def)

section \<open>Where blocks are cut\<close>

lemma getSequenceCommAddr_spec:
  "getSequenceCommAddr b1 b2 = (case filter (\<lambda>a. a \<in> set (rips b2)) (rips b1) of [] \<Rightarrow> 0 | a # _ \<Rightarrow> a)"
proof -
  have "find (\<lambda>a. a \<in> set ys) xs = (case filter (\<lambda>a. a \<in> set ys) xs of [] \<Rightarrow> None | a # _ \<Rightarrow> Some a)" for xs ys :: "addr list"
    by (induction xs) simp_all
  moreover have "list_ex (\<lambda>a2. a = a2) ys \<longleftrightarrow> a \<in> set ys" for a and ys :: "addr list" by (auto simp: list_ex_iff)
  ultimately show ?thesis unfolding getSequenceCommAddr_def by (simp split: list.split)
qed

lemma count_addr_keys:
  "fst ` set (count_addr a refc) = (if a = 0 then id else insert a) (fst ` set refc)"
proof -
  have "map fst (map (\<lambda>(k, n). (k, if k = a then n + 1 else n)) xs) = map fst xs" for xs :: "(addr, nat) index_map"
    by (induction xs) auto
  then have "fst ` set (map (\<lambda>(k, n). (k, if k = a then n + 1 else n)) xs) = fst ` set xs" for xs :: "(addr, nat) index_map"
    by (metis list.set_map)
  then show ?thesis by (simp add: count_addr_def im_insert_keys)
qed

lemma count_addr_sorted: "im_sorted refc \<Longrightarrow> im_sorted (count_addr a refc)"
proof -
  have "map fst (map (\<lambda>(k, n). (k, if k = a then n + 1 else n)) xs) = map fst xs" for xs :: "(addr, nat) index_map"
    by (induction xs) auto
  then show "im_sorted refc \<Longrightarrow> im_sorted (count_addr a refc)"
    using im_insert_sorted [of refc a 0] by (simp add: count_addr_def im_sorted_def del: map_map)
qed

text \<open>The addresses at which one of the first seven blocks meets a later one.\<close>

definition meetings :: "nat \<Rightarrow> CodeBlock list \<Rightarrow> addr set" where
  "meetings n bs = {getSequenceCommAddr (bs ! i) (bs ! j) | i j. i < j \<and> j < length bs \<and> i < n} - {0}"

lemma count_addrs:
  "im_sorted m \<Longrightarrow> im_sorted (foldl (\<lambda>m b'. count_addr (f b') m) m bs)
    \<and> fst ` set (foldl (\<lambda>m b'. count_addr (f b') m) m bs) = fst ` set m \<union> (f ` set bs - {0})"
  by (induction bs arbitrary: m) (auto simp: count_addr_keys count_addr_sorted)

lemma meetings_Cons:
  "meetings (Suc n) (b # bs) = (getSequenceCommAddr b ` set bs - {0}) \<union> meetings n bs"
proof -
  have "{getSequenceCommAddr ((b # bs) ! i) ((b # bs) ! j) | i j. i < j \<and> j < length (b # bs) \<and> i < Suc n}
      = getSequenceCommAddr b ` set bs \<union> {getSequenceCommAddr (bs ! i) (bs ! j) | i j. i < j \<and> j < length bs \<and> i < n}"
    (is "?L = ?A \<union> ?R")
  proof
    show "?L \<subseteq> ?A \<union> ?R"
    proof
      fix x assume "x \<in> ?L"
      then obtain i j where ij: "x = getSequenceCommAddr ((b # bs) ! i) ((b # bs) ! j)" "i < j" "j < length (b # bs)" "i < Suc n"
        by blast
      then obtain j' where j: "j = Suc j'" "j' < length bs" by (cases j) auto
      show "x \<in> ?A \<union> ?R"
      proof (cases i)
        case 0
        then show ?thesis using ij j by auto
      next
        case (Suc i')
        then have "x = getSequenceCommAddr (bs ! i') (bs ! j')" "i' < j'" "i' < n" using ij j by simp_all
        then show ?thesis using j by blast
      qed
    qed
    show "?A \<union> ?R \<subseteq> ?L"
    proof
      fix x assume "x \<in> ?A \<union> ?R"
      then consider j where "x = getSequenceCommAddr b (bs ! j)" "j < length bs"
        | i j where "x = getSequenceCommAddr (bs ! i) (bs ! j)" "i < j" "j < length bs" "i < n"
        by (auto simp: in_set_conv_nth)
      then show "x \<in> ?L"
      proof cases
        case 1
        then have "x = getSequenceCommAddr ((b # bs) ! 0) ((b # bs) ! Suc j)" "Suc j < length (b # bs)" by simp_all
        then show ?thesis by blast
      next
        case 2
        then have "x = getSequenceCommAddr ((b # bs) ! Suc i) ((b # bs) ! Suc j)" "Suc i < Suc j" "Suc j < length (b # bs)"
          "Suc i < Suc n" by simp_all
        then show ?thesis by blast
      qed
    qed
  qed
  then show ?thesis unfolding meetings_def by blast
qed

lemma count_common_keys:
  assumes "im_sorted m" "forc \<le> 6"
  shows "im_sorted (count_common forc bs m) \<and> fst ` set (count_common forc bs m) = fst ` set m \<union> meetings (7 - forc) bs"
  using assms
proof (induction forc bs m rule: count_common.induct)
  case (1 forc b b2 bs m)
  let ?m = "foldl (\<lambda>m b'. count_addr (getSequenceCommAddr b b') m) m (b2 # bs)"
  have c: "im_sorted ?m" "fst ` set ?m = fst ` set m \<union> (getSequenceCommAddr b ` set (b2 # bs) - {0})"
    using count_addrs [OF "1.prems"(1), of "getSequenceCommAddr b" "b2 # bs"] by auto
  have s: "meetings (7 - forc) (b # b2 # bs) = (getSequenceCommAddr b ` set (b2 # bs) - {0}) \<union> meetings (6 - forc) (b2 # bs)"
    using meetings_Cons [of "6 - forc" b "b2 # bs"] "1.prems"(2) Suc_diff_le [of forc 6] by simp
  show ?case
  proof (cases "5 < forc")
    case True
    then have "meetings (6 - forc) (b2 # bs) = {}" by (auto simp: meetings_def)
    then show ?thesis using True c s by (simp add: Let_def)
  next
    case False
    then have "6 - forc = 7 - (forc + 1)" "forc + 1 \<le> 6" by simp_all
    then show ?thesis using "1.IH" [of ?m] False c s by (simp add: Let_def Un_assoc)
  qed
qed (auto simp: meetings_def)

text \<open>The end is the largest of them, however often blocks meet there.\<close>

lemma block_end_max:
  "block_end bs = (if meetings 7 bs = {} then 0 else Max (meetings 7 bs))"
proof -
  let ?m = "count_common 0 bs []"
  have m: "im_sorted ?m" "fst ` set ?m = meetings 7 bs"
    using count_common_keys [of "[]" 0 bs] by (auto simp: im_sorted_def)
  show ?thesis
  proof (cases "?m = []")
    case True
    then show ?thesis using m(2) by (simp add: block_end_def)
  next
    case False
    have "fst e \<le> fst (last ?m)" if "e \<in> set ?m" for e
    proof -
      have "?m = butlast ?m @ [last ?m]" using False by simp
      then have "sorted_wrt (<) (map fst (butlast ?m) @ [fst (last ?m)])" using m(1) unfolding im_sorted_def
        by (metis list.map(1) list.map(2) map_append)
      moreover have "e \<in> set (butlast ?m) \<or> e = last ?m" using that False by (metis append_butlast_last_id in_set_conv_decomp_last Un_iff set_append set_ConsD empty_iff empty_set)
      ultimately show ?thesis by (auto simp: sorted_wrt_append order_less_imp_le)
    qed
    then have "Max (fst ` set ?m) = fst (last ?m)" using False by (intro Max_eqI) auto
    then show ?thesis using False m(2) by (auto simp: block_end_def Let_def)
  qed
qed

text \<open>The six hundred offsets that are tried are different, and they are those from \<open>-299\<close> to \<open>300\<close>.\<close>

lemma table_index_inj: "inj table_index"
proof (rule injI)
  fix i j assume "table_index i = table_index j"
  then show "i = j" unfolding table_index_def by (cases "even i"; cases "even j") (auto elim!: evenE oddE)
qed

lemma table_index_range: "table_index ` {0..<600} = {-299..300}"
proof
  show "table_index ` {0..<600} \<subseteq> {-299..300}" by (auto simp: table_index_def)
  show "{-299..300} \<subseteq> table_index ` {0..<600}"
  proof
    fix x :: int assume x: "x \<in> {-299..300}"
    show "x \<in> table_index ` {0..<600}"
    proof (cases "x \<le> 0")
      case True
      then have "table_index (nat (- x) * 2) = x" "nat (- x) * 2 < 600" using x by (auto simp: table_index_def)
      then show ?thesis by (metis atLeastLessThan_iff image_eqI zero_le)
    next
      case False
      then have "table_index (nat (x - 1) * 2 + 1) = x" "nat (x - 1) * 2 + 1 < 600" using x by (auto simp: table_index_def)
      then show ?thesis by (metis atLeastLessThan_iff image_eqI zero_le)
    qed
  qed
qed

section \<open>Handlers\<close>

text \<open>A handler as it is filed.\<close>

definition filed_block :: "addr \<Rightarrow> int32 \<Rightarrow> CodeBlock \<Rightarrow> CodeBlock" where
  "filed_block E k b =
     (let b1 = b\<lparr>cb_refc := 0, cb_seqID := k\<rparr> in if E \<noteq> 0 then cut_at (\<lambda>tr. tr_rip (tx_ctx1 tr) = E) b1 else b1)"

lemma concise_one_find:
  "bf_unqID (concise_one B E fr b) = bf_unqID fr + 1"
  "map_of (bf_seqs (concise_one B E fr b)) = (map_of (bf_seqs fr))(bf_unqID fr \<mapsto> filed_block E (bf_unqID fr) b)"
  by (simp_all add: concise_one_def Let_def loadSequence_def put_block_def filed_block_def)

lemma concise_find:
  assumes "length seqs < 2 ^ 32"
  shows "bf_unqID (foldl (concise_one B E) fr seqs) = bf_unqID fr + of_nat (length seqs)
    \<and> (\<forall>i < length seqs. map_of (bf_seqs (foldl (concise_one B E) fr seqs)) (bf_unqID fr + of_nat i)
          = Some (filed_block E (bf_unqID fr + of_nat i) (seqs ! i)))"
  using assms
proof (induction seqs rule: rev_induct)
  case (snoc b bs)
  let ?g = "foldl (concise_one B E) fr bs"
  have u: "bf_unqID ?g = bf_unqID fr + of_nat (length bs)"
    and m: "\<And>i. i < length bs \<Longrightarrow> map_of (bf_seqs ?g) (bf_unqID fr + of_nat i)
      = Some (filed_block E (bf_unqID fr + of_nat i) (bs ! i))"
    using snoc by simp_all
  have ne: "bf_unqID fr + of_nat i \<noteq> bf_unqID ?g" if "i < length bs" for i
  proof
    assume "bf_unqID fr + of_nat i = bf_unqID ?g"
    then have e: "(of_nat i :: int32) = of_nat (length bs)" by (simp add: u)
    have "i < 2 ^ LENGTH(32)" "length bs < 2 ^ LENGTH(32)" using that snoc.prems by simp_all
    then have "i = length bs" using arg_cong [OF e, of unat] by (simp add: unat_of_nat)
    then show False using that by simp
  qed
  have "map_of (bf_seqs (concise_one B E ?g b)) (bf_unqID fr + of_nat i)
      = Some (filed_block E (bf_unqID fr + of_nat i) ((bs @ [b]) ! i))" if "i < length (bs @ [b])" for i
  proof (cases "i < length bs")
    case True
    then show ?thesis using m [OF True] ne [OF True] by (simp add: concise_one_find nth_append)
  next
    case False
    then have "i = length bs" using that by simp
    then show ?thesis using u by (simp add: concise_one_find)
  qed
  then show ?case using u by (simp add: concise_one_find)
qed simp

lemma handlers_filed:
  assumes "length seqs < 2 ^ 32" "i < length seqs"
  shows "findSeq (bf_unqID fr + of_nat i) (conciseSequences B seqs fr)
    = Some (filed_block (block_end seqs) (bf_unqID fr + of_nat i) (seqs ! i))"
  using concise_find [OF assms(1), of B "block_end seqs" fr] assms(2)
  by (simp add: findSeq_def conciseSequences_def)

section \<open>Shared code that is not cut\<close>

lemma mm_take:
  assumes "mm_sorted m"
  shows "take (mm_count k m) (mm_find k m) = filter (\<lambda>e. fst e = k) m"
proof -
  have "mm_find k m = takeWhile (\<lambda>e. fst e = k) (mm_find k m) @ dropWhile (\<lambda>e. fst e = k) (mm_find k m)" by simp
  then have "mm_find k m = filter (\<lambda>e. fst e = k) m @ dropWhile (\<lambda>e. fst e = k) (mm_find k m)"
    by (simp only: mm_range [OF assms])
  then show ?thesis unfolding mm_count_def by (metis append_eq_conv_conj)
qed

lemma foldl_sorted:
  assumes "mm_sorted m" "\<And>m x. mm_sorted m \<Longrightarrow> mm_sorted (f m x)"
  shows "mm_sorted (foldl f m xs)"
  using assms(1) by (induction xs arbitrary: m) (simp_all add: assms(2))

lemma inst_places_sorted: "mm_sorted (inst_places seqs)"
proof -
  have "mm_sorted (foldl (\<lambda>idx (i, a). mm_insert a (k, i) idx) m xs)" if "mm_sorted m"
    for k :: int32 and m and xs :: "(nat \<times> addr) list"
    by (rule foldl_sorted [OF that]) (auto simp: mm_insert_sorted)
  note one = this
  show ?thesis unfolding inst_places_def
  proof (rule foldl_sorted)
    show "mm_sorted ([] :: (addr \<times> int32 \<times> nat) list)" by (simp add: mm_sorted_def)
  qed (rule one)
qed

text \<open>
  The test compares the place of an instruction in the other block with the number of the turn, not with its place in
  this block: an instruction at a late place everywhere ends no block.
\<close>

lemma late_not_end:
  assumes "\<And>sid iid. (tr_rip (tx_ctx1 tr), sid, iid) \<in> set (inst_places seqs)
      \<Longrightarrow> mm_count (tr_rip (tx_ctx1 tr)) (inst_places seqs) \<le> iid"
  shows "\<not> ends_block (inst_places seqs) seqID tr"
proof
  let ?a = "tr_rip (tx_ctx1 tr)" let ?idx = "inst_places seqs"
  assume "ends_block ?idx seqID tr"
  then obtain i x sid iid where e: "(i, x, sid, iid) \<in> set (enumerate 0 (take (mm_count ?a ?idx) (mm_find ?a ?idx)))" "iid \<le> i"
    by (auto simp: ends_block_def Let_def list_ex_iff)
  then have f: "(i, x, sid, iid) \<in> set (enumerate 0 (filter (\<lambda>e. fst e = ?a) ?idx))"
    by (simp only: mm_take [OF inst_places_sorted])
  then have "i < mm_count ?a ?idx" by (auto simp: mm_count_def in_set_enumerate_eq)
  moreover have "(x, sid, iid) \<in> set (filter (\<lambda>e. fst e = ?a) ?idx)"
    using f unfolding enumerate_eq_zip by (rule set_zip_rightD)
  then have "mm_count ?a ?idx \<le> iid" using assms by auto
  ultimately show False using e(2) by simp
qed

lemma late_code_kept:
  assumes "(k, b) \<in> set seqs" "inst_places (map snd seqs) = idx"
    and "\<And>a sid iid. a \<in> set (rips b) \<Longrightarrow> (a, sid, iid) \<in> set idx \<Longrightarrow> 1 < mm_count a idx \<Longrightarrow> mm_count a idx \<le> iid"
  shows "(k, b) \<in> set (conciseSequences1 seqs)"
proof -
  have "\<not> ends_block idx (cb_seqID b) tr" if "tr \<in> set (records b)" for tr
  proof (cases "1 < mm_count (tr_rip (tx_ctx1 tr)) idx")
    case True
    have "tr_rip (tx_ctx1 tr) \<in> set (rips b)" using that by (simp add: rips_def)
    then show ?thesis using assms(3) True late_not_end [of tr "map snd seqs"] unfolding assms(2) by blast
  qed (simp add: ends_block_def Let_def)
  then have "takeWhile (\<lambda>e. \<not> ends_block idx (cb_seqID b) (snd e)) (is_nodes (cb_insts b)) = is_nodes (cb_insts b)"
    by (auto simp: records_def)
  then have "cut_at (ends_block idx (cb_seqID b)) b = b" by (simp add: cut_at_def)
  moreover have "(k, cut_at (ends_block idx (cb_seqID b)) b) \<in> set (conciseSequences1 seqs)"
    unfolding conciseSequences1_def Let_def assms(2)
    using imageI [OF assms(1), of "\<lambda>(k, b). (k, cut_at (ends_block idx (cb_seqID b)) b)"] by simp
  ultimately show ?thesis by simp
qed

text \<open>A value for a block is always taken from the first variable.\<close>

lemma uuid_from_first:
  assumes "map_of (bf_seqs fr) (se_seqid se) = Some b" "sv_type (se_vars se ! i) = sevar_setuuid"
  shows "map_of (bf_seqs (snd (exec_var B (se, fr) i))) (se_seqid se)
    = Some (b\<lparr>cb_uuid := ucast (sv_sqword (se_vars se ! 0))\<rparr>)"
  using assms by (auto simp: exec_var_def Let_def upd_block_def findSeq_def map_of_kl_upd dest: map_of_SomeD intro: rev_image_eqI)

end
