(* ===== verification/IatMenu.thy ===== *)
theory IatMenu
  imports IatState
begin

text \<open>
  The menu, the keys and the selection of the import call window, the commands of the plugin that act on it, and the
  states that they reach. Every command runs in an environment of its own: the debuggee changes between them.
\<close>

section \<open>The menu\<close>

datatype iatcall_menus =
    iatcall_menu_traceseleted | iatcall_menu_traceall | iatcall_menu_filters | iatcall_menu_save
  | iatcall_menu_load | iatcall_menu_showall | iatcall_menu_showknown | iatcall_menu_showcall
  | iatcall_menu_showjmp | iatcall_menu_showcallmem | iatcall_menu_showjmpmem | iatcall_menu_showpushret
  | iatcall_menu_showmemaddr | iatcall_menu_showunknown | iatcall_menu_showsuspect | iatcall_menu_showfaild
  | iatcall_menu_showrtlimit | iatcall_menu_clearall | iatcall_menu_tempfix | iatcall_menu_fixiatcall
  | iatcall_menu_refine

text \<open>The entries that switch one flag.\<close>

fun menu_flag :: "iatcall_menus \<Rightarrow> int32 option" where
  "menu_flag iatcall_menu_showknown = Some IATCF_FLAG_SHOWKNOWN"
| "menu_flag iatcall_menu_showcall = Some IATCF_FLAG_SHOWCALL"
| "menu_flag iatcall_menu_showjmp = Some IATCF_FLAG_SHOWJMP"
| "menu_flag iatcall_menu_showcallmem = Some IATCF_FLAG_SHOWCALLMEM"
| "menu_flag iatcall_menu_showjmpmem = Some IATCF_FLAG_SHOWJMPMEM"
| "menu_flag iatcall_menu_showpushret = Some IATCF_FLAG_SHOWPUSHRET"
| "menu_flag iatcall_menu_showmemaddr = Some IATCF_FLAG_SHOWMEMADDR"
| "menu_flag iatcall_menu_showunknown = Some IATCF_FLAG_SHOWUNKNOWN"
| "menu_flag iatcall_menu_showsuspect = Some IATCF_FLAG_SHOWSUSPECT"
| "menu_flag iatcall_menu_showfaild = Some IATCF_FLAG_SHOWFAILD"
| "menu_flag iatcall_menu_showrtlimit = Some IATCF_FLAG_SHOWRTLIMIT"
| "menu_flag _ = None"

definition menu_checked :: "iatcall_menus \<Rightarrow> 'v xVMIATCallFrame \<Rightarrow> bool" where
  "menu_checked m fr = (case menu_flag m of None \<Rightarrow> False | Some f \<Rightarrow> m_flushFlags fr AND f \<noteq> 0)"

text \<open>
  What a command does besides: bytes written to the debuggee, and a file. The dialog of a file can be left;
  a file that is read is given by its content, one that cannot be read is empty.
\<close>

datatype iat_output = No_output | Writes "(addr \<times> byte list) list" | Saved "cbyte list"

definition IATCalls_Table_MenuProc ::
  "'p iat_packet \<Rightarrow> xvmdbg_config \<Rightarrow> 'v iat_env \<Rightarrow> int32 \<Rightarrow> cbyte list option \<Rightarrow> iatcall_menus
    \<Rightarrow> 'v xVMIATCallFrame \<Rightarrow> fault + iat_output \<times> 'v xVMIATCallFrame" where
  "IATCalls_Table_MenuProc N cfg I jh file m fr =
     (case m of
        iatcall_menu_traceseleted \<Rightarrow> bindF (traceSelected cfg I fr) (\<lambda>fr1. Inr (No_output, fr1))
      | iatcall_menu_traceall \<Rightarrow> bindF (traceAll cfg I fr) (\<lambda>fr1. Inr (No_output, fr1))
      | iatcall_menu_filters \<Rightarrow> Inr (No_output, fr)
      | iatcall_menu_showall \<Rightarrow> Inr (No_output, setFlushFlags I IATCF_FLAG_SHOWALL True False fr)
      | iatcall_menu_clearall \<Rightarrow> Inr (No_output, setFlushFlags I IATCF_FLAG_SHOWALL False False fr)
      | iatcall_menu_save \<Rightarrow>
          (if file = None then Inr (No_output, fr)
           else bindF (saveRecords N I fr) (\<lambda>(bs, fr1). Inr (Saved bs, fr1)))
      | iatcall_menu_load \<Rightarrow>
          (case file of None \<Rightarrow> Inr (No_output, fr) | Some bs \<Rightarrow> Inr (No_output, loadRecords N I jh bs fr))
      | iatcall_menu_tempfix \<Rightarrow> (let (ws, fr1) = tempFixupSelected fr in Inr (Writes ws, fr1))
      | iatcall_menu_fixiatcall \<Rightarrow> (let (ws, fr1) = fixupSelectedCall I fr in Inr (Writes ws, fr1))
      | iatcall_menu_refine \<Rightarrow> Inr (No_output, refineResults I fr)
      | _ \<Rightarrow>
          (case menu_flag m of
             None \<Rightarrow> Inr (No_output, fr)
           | Some f \<Rightarrow> Inr (No_output, setFlushFlags I f (\<not> testFlushFlags f fr) False fr)))"

section \<open>Selection\<close>

definition set_row :: "nat \<Rightarrow> bool \<Rightarrow> 'v xVMIATCallFrame \<Rightarrow> 'v xVMIATCallFrame" where
  "set_row n b fr =
     (if n < length (m_table fr) then fr\<lparr>m_table := (m_table fr)[n := (m_table fr ! n)\<lparr>ic_selected := b\<rparr>]\<rparr> else fr)"

definition toggle_row :: "nat \<Rightarrow> 'v xVMIATCallFrame \<Rightarrow> 'v xVMIATCallFrame" where
  "toggle_row n fr = set_row n (\<not> ic_selected (m_table fr ! n)) fr"

definition clear_rows :: "'v xVMIATCallFrame \<Rightarrow> 'v xVMIATCallFrame" where
  "clear_rows fr = fr\<lparr>m_table := map (\<lambda>r. r\<lparr>ic_selected := False\<rparr>) (m_table fr)\<rparr>"

text \<open>
  A double click and the key C. The table is shown sorted: \<open>view\<close> gives the row that is shown at a place,
  if there is one.
\<close>

definition xvm_iat_calls_func ::
  "(nat \<Rightarrow> nat option) \<Rightarrow> nat option \<Rightarrow> 'v xVMIATCallFrame \<Rightarrow> 'v xVMIATCallFrame" where
  "xvm_iat_calls_func view click fr =
     (case click of
        Some n \<Rightarrow> (case view n of None \<Rightarrow> fr | Some k \<Rightarrow> toggle_row k fr)
      | None \<Rightarrow> clear_rows fr)"

text \<open>
  With shift, the rows from the last selection to this one, by their index in the table and not by the place where
  they are shown; with control, the row alone.
\<close>

definition xvm_iat_calls_sel_func ::
  "(nat \<Rightarrow> nat option) \<Rightarrow> bool \<Rightarrow> bool \<Rightarrow> nat \<Rightarrow> 'v xVMIATCallFrame \<Rightarrow> 'v xVMIATCallFrame" where
  "xvm_iat_calls_sel_func view shift ctrl n fr =
     (case view n of
        None \<Rightarrow> fr
      | Some k \<Rightarrow>
          (let fr1 =
             (if shift then
                (let fr0 = clear_rows fr
                 in if m_lastsel fr \<noteq> -1
                    then fold (\<lambda>i. if 0 \<le> i then set_row (nat i) True else id)
                           [min (m_lastsel fr) (int n)..max (m_lastsel fr) (int n)] fr0
                    else fr0)
              else if ctrl then toggle_row k fr
              else fr)
           in fr1\<lparr>m_lastsel := int n\<rparr>))"

section \<open>Commands of the plugin\<close>

text \<open>For the selection of a dump window, from \<open>sel0\<close> to \<open>sel1\<close>.\<close>

definition VMDebug_AddtoIATCalls :: "'v iat_env \<Rightarrow> addr \<Rightarrow> addr \<Rightarrow> 'v xVMIATCallFrame \<Rightarrow> 'v xVMIATCallFrame" where
  "VMDebug_AddtoIATCalls I sel0 sel1 fr =
     (let size = sint (sel1 + 1 - sel0) in if size \<le> 0 then fr else addArrayToIATCall I sel0 size fr)"

definition VMDebug_SetIAT ::
  "xvmdbg_config \<Rightarrow> 'v iat_env \<Rightarrow> addr \<Rightarrow> addr \<Rightarrow> bool \<Rightarrow> 'v xVMIATCallFrame
    \<Rightarrow> fault + (addr \<times> byte list) list \<times> 'v xVMIATCallFrame" where
  "VMDebug_SetIAT cfg I sel0 sel1 withFix fr =
     (let size = sint (sel1 - sel0) in if size \<le> 0 then Inr ([], fr) else setIATArea cfg I sel0 size withFix fr)"

section \<open>Steps\<close>

text \<open>
  The window after any command, from the window before it, in a debuggee that is as it was or not. What the
  program was compiled with does not change.
\<close>

definition same_layout :: "'v iat_env \<Rightarrow> 'v iat_env \<Rightarrow> bool" where
  "same_layout I J \<longleftrightarrow> SZ_OPCODE I = SZ_OPCODE J \<and> type_code I = type_code J \<and> code_type I = code_type J"

inductive iat_step ::
  "'p iat_packet \<Rightarrow> xvmdbg_config \<Rightarrow> 'v iat_env \<Rightarrow> 'v xVMIATCallFrame \<Rightarrow> 'v xVMIATCallFrame \<Rightarrow> bool" for N cfg J where
  step_find: "same_layout I J \<Longrightarrow> findCalls I a merge fr = Inr fr' \<Longrightarrow> iat_step N cfg J fr fr'"
| step_end: "setEndOfImageForMemaddr I a r fr = Inr fr' \<Longrightarrow> iat_step N cfg J fr fr'"
| step_menu: "same_layout I J \<Longrightarrow> IATCalls_Table_MenuProc N cfg I jh file m fr = Inr (out, fr') \<Longrightarrow> iat_step N cfg J fr fr'"
| step_add: "same_layout I J \<Longrightarrow> iat_step N cfg J fr (VMDebug_AddtoIATCalls I sel0 sel1 fr)"
| step_set: "same_layout I J \<Longrightarrow> VMDebug_SetIAT cfg I sel0 sel1 w fr = Inr (ws, fr') \<Longrightarrow> iat_step N cfg J fr fr'"
| step_key: "iat_step N cfg J fr (xvm_iat_calls_func view click fr)"
| step_select: "iat_step N cfg J fr (xvm_iat_calls_sel_func view shift ctrl n fr)"
| step_reset: "iat_step N cfg J fr (reset_iat fr)"

text \<open>From the new window.\<close>

inductive iat_reachable :: "'p iat_packet \<Rightarrow> xvmdbg_config \<Rightarrow> 'v iat_env \<Rightarrow> 'v xVMIATCallFrame \<Rightarrow> bool" for N cfg J where
  reach_new: "iat_reachable N cfg J new_iat_frame"
| reach_step: "iat_reachable N cfg J fr \<Longrightarrow> iat_step N cfg J fr fr' \<Longrightarrow> iat_reachable N cfg J fr'"

lemma iat_ok_env: "same_layout I J \<Longrightarrow> iat_ok I fr \<longleftrightarrow> iat_ok J fr"
  by (simp add: iat_ok_def code_ok_def type_ok_def same_layout_def)

lemma codes_ok_env: "same_layout I J \<Longrightarrow> codes_ok I \<longleftrightarrow> codes_ok J"
  by (simp add: codes_ok_def type_ok_def same_layout_def)

lemma menu_ok:
  assumes "iat_ok I fr" "IATCalls_Table_MenuProc N cfg I jh file m fr = Inr (out, fr')" and ok: "codes_ok I"
  shows "iat_ok I fr'"
proof (cases m)
  case iatcall_menu_traceseleted
  then show ?thesis using assms(2) traceSelected_ok [OF assms(1) _ ok] by (auto simp: IATCalls_Table_MenuProc_def bindF_Inr_eq)
next
  case iatcall_menu_traceall
  then show ?thesis using assms(2) traceAll_ok [OF assms(1) _ ok] by (auto simp: IATCalls_Table_MenuProc_def bindF_Inr_eq)
next
  case iatcall_menu_save
  then show ?thesis using assms saveRecords_ok [OF assms(1) _ ok, of N]
    by (auto simp: IATCalls_Table_MenuProc_def bindF_Inr_eq split: if_splits)
next
  case iatcall_menu_load
  then show ?thesis using assms loadRecords_ok [OF assms(1) ok] by (auto simp: IATCalls_Table_MenuProc_def split: option.splits)
next
  case iatcall_menu_tempfix
  then show ?thesis using assms fix_selected_ok [OF assms(1), of True]
    by (auto simp: IATCalls_Table_MenuProc_def tempFixupSelected_def split: prod.splits)
next
  case iatcall_menu_fixiatcall
  then show ?thesis using assms iat_ok_list [OF fix_selected_ok [OF assms(1), of False]]
    by (auto simp: IATCalls_Table_MenuProc_def fixupSelectedCall_def split: prod.splits)
qed (use assms in \<open>auto simp: IATCalls_Table_MenuProc_def setFlushFlags_ok refineResults_ok\<close>)

lemma rows_same:
  assumes "iat_ok I fr" "map ic_cmdaddr (m_table fr') = map ic_cmdaddr (m_table fr)"
    "m_calls fr' = m_calls fr" "m_mods fr' = m_mods fr"
  shows "iat_ok I fr'"
proof -
  have "ic_cmdaddr ` set (m_table fr') = ic_cmdaddr ` set (m_table fr)"
    using arg_cong [OF assms(2), of set] by simp
  then show ?thesis using assms by (simp add: iat_ok_def rows_ok_def)
qed

lemma set_row_keeps:
  "map ic_cmdaddr (m_table (set_row n b fr)) = map ic_cmdaddr (m_table fr)"
  "m_calls (set_row n b fr) = m_calls fr" "m_mods (set_row n b fr) = m_mods fr"
  by (auto simp: set_row_def map_update intro: nth_equalityI simp: nth_list_update)

lemma iat_ok_set_row: "iat_ok I fr \<Longrightarrow> iat_ok I (set_row n b fr)"
  using rows_same set_row_keeps by blast

lemma iat_ok_clear_rows: "iat_ok I fr \<Longrightarrow> iat_ok I (clear_rows fr)"
  by (rule rows_same) (simp_all add: clear_rows_def comp_def)

lemma sel_func_ok:
  assumes "iat_ok I fr"
  shows "iat_ok I (xvm_iat_calls_sel_func view shift ctrl n fr)"
proof -
  have last: "iat_ok I (g\<lparr>m_lastsel := l\<rparr>) \<longleftrightarrow> iat_ok I g" for g :: "'a xVMIATCallFrame" and l
    by (simp add: iat_ok_def rows_ok_def)
  have rows: "iat_ok I (fold (\<lambda>i. if 0 \<le> i then set_row (nat i) True else id) is g)" if "iat_ok I g" for "is" :: "int list" and g
    using that by (induction "is" arbitrary: g) (simp_all add: iat_ok_set_row)
  show ?thesis
    using assms rows [OF iat_ok_clear_rows [OF assms]] iat_ok_set_row [OF assms] iat_ok_clear_rows [OF assms]
    by (cases "view n") (simp_all add: xvm_iat_calls_sel_func_def Let_def last toggle_row_def)
qed

lemma iat_step_ok:
  assumes "iat_step N cfg J fr fr'" "iat_ok J fr" "codes_ok J"
  shows "iat_ok J fr'"
  using assms(1)
proof (cases rule: iat_step.cases)
  case (step_find I a merge)
  then show ?thesis using findCalls_ok [of I fr a merge fr'] iat_ok_env [of I J] codes_ok_env [of I J] assms(2,3) by simp
next
  case (step_end I a r)
  then show ?thesis using setEnd_ok [OF assms(2)] by simp
next
  case (step_menu I jh content m out)
  then show ?thesis using menu_ok [of I fr N cfg jh content m out fr'] iat_ok_env [of I J] codes_ok_env [of I J] assms(2,3) by simp
next
  case (step_add I sel0 sel1)
  then show ?thesis using addArray_ok [of I fr] iat_ok_env [of I J] codes_ok_env [of I J] assms(2,3)
    by (simp add: VMDebug_AddtoIATCalls_def Let_def)
next
  case (step_set I sel0 sel1 w ws)
  then show ?thesis using setIATArea_ok [of I fr cfg sel0 _ w ws fr'] iat_ok_env [of I J] codes_ok_env [of I J] assms(2,3)
    by (auto simp: VMDebug_SetIAT_def Let_def split: if_splits)
next
  case (step_key view click)
  then show ?thesis using assms(2) iat_ok_set_row [OF assms(2)] iat_ok_clear_rows [OF assms(2)]
    by (auto simp: xvm_iat_calls_func_def toggle_row_def split: option.split)
next
  case (step_select view shift ctrl n)
  then show ?thesis using sel_func_ok [OF assms(2)] by simp
next
  case step_reset
  then show ?thesis using assms(2) by (simp add: reset_iat_def iat_ok_def rows_ok_def closeCPU_def)
qed

lemma iat_reachable_ok:
  assumes "iat_reachable N cfg I fr" "codes_ok I"
  shows "iat_ok I fr"
  using assms(1) by (induction rule: iat_reachable.induct) (use iat_ok_new iat_step_ok assms(2) in blast)+

end
