(* ===== verification/IatFacts.thy ===== *)
theory IatFacts
  imports IatMenu
begin

text \<open>
  How the commands of the import call window work together: a slot that is given a function is the slot that calls are
  fixed with, and what a trace leaves of an earlier one.
\<close>

section \<open>Slots\<close>

lemma getFuncInfo_upd:
  "getFuncInfo (upd_func mh fh f mods) m g =
     (if m = mh \<and> g = fh then map_option f (getFuncInfo mods m g) else getFuncInfo mods m g)"
  unfolding upd_func_def getFuncInfo_def map_of_map_val
  by (cases "map_of mods m") (auto simp: map_of_map_val option.map_ident)

lemma told_slot:
  assumes "traceIAT cfg I (table_call (a + of_nat (k * 4))) fr = Inr ((True, i), fr1)"
    and "hitIATCallModule I i fr1 = Inr ((Some (mh, fh), i'), fr2)"
    and "fst (dbg_read I p (junk I 4)) = 4" "a + of_nat (k * 4) \<noteq> 0" "mods_ok (m_mods fr)"
  shows "\<exists>fr'. area_entry cfg I a False (k, p) (ws, fr) = Inr (ws, fr')
    \<and> (\<forall>j. known_slot (m_mods fr') j =
         (if ic_modhash j = mh \<and> ic_funchash j = fh then Some (a + of_nat (k * 4)) else known_slot (m_mods fr2) j))"
proof -
  let ?cmd = "a + of_nat (k * 4)" and ?up = "\<lambda>f. f\<lparr>fn_IATRVA := ic_callto i'\<rparr>"
  let ?fr' = "fr2\<lparr>m_mods := upd_func mh fh ?up (m_mods fr2)\<rparr>"
  have k1: "keeps_call (table_call ?cmd) fr i fr1" by (rule traceIAT_kept [OF assms(1)])
  have k2: "keeps_call i fr1 i' fr2" by (rule hit_kept [OF assms(2)])
  have to: "ic_callto i' = ?cmd" using k1 k2 by (simp add: keeps_call_def table_call_def)
  have "mods_ok (m_mods fr1)" using k1 assms(5) by (simp add: keeps_call_def)
  then obtain f where f: "getFuncInfo (m_mods fr2) mh fh = Some f"
    using hit_files [OF assms(2)] by blast
  have "area_entry cfg I a False (k, p) (ws, fr) = Inr (ws, ?fr')"
    using assms(1-3) by (simp add: area_entry_def Let_def)
  moreover have "known_slot (m_mods ?fr') j =
      (if ic_modhash j = mh \<and> ic_funchash j = fh then Some ?cmd else known_slot (m_mods fr2) j)" for j
    using f to assms(4) by (auto simp: known_slot_def getFuncInfo_upd)
  ultimately show ?thesis by blast
qed

text \<open>A call through memory whose function has a slot is fixed by a call through that slot.\<close>

lemma slot_fix:
  assumes "known_slot mods i = Some slot" "ic_calltype i = iatcall_callmem" "ic_retaddr i = ic_cmdaddr i + 6"
  shows "fixIATCall mods False i
    = (True, [(ic_cmdaddr i, [0xFF, 0x15] @ le_bytes slot)], i\<lparr>ic_fixedState := fixed_realmode\<rparr>)"
  using assms by (simp add: fixIATCall_def fix_callmem_def slot_code_def)

text \<open>A jump is fixed by six bytes.\<close>

lemma slot_jmp:
  assumes "known_slot mods i = Some slot" "ic_calltype i = iatcall_jmp" "\<not> ic_hasHead i"
  shows "fixIATCall mods False i
    = (True, [(ic_cmdaddr i, [0xFF, 0x25] @ le_bytes slot)], i\<lparr>ic_fixedState := fixed_realmode\<rparr>)"
  using assms by (simp add: fixIATCall_def fix_jmp_def fix_at_def slot_code_def)

section \<open>Tracing again\<close>

text \<open>An emulator that gives up leaves the target of an earlier trace, and the trace succeeds.\<close>

lemma stale_target:
  assumes "traceIAT cfg I i fr = Inr ((ok, i'), fr')" "ic_calltype i \<noteq> iatcall_memaddr" "ic_result_addr i \<noteq> 0"
    and "\<forall>c. \<exists>n c'. vm_step I c = (VCPU_LOOPRET_other n, c')"
  shows "ok \<and> ic_result_addr i' = ic_result_addr i"
proof -
  have loop: "ic_result_addr j = ic_result_addr i" 
    if l: "trace_loop cfg I t n i g = Inr (j, h)" for t n i g j h
  proof (cases n)
    case 0
    then show ?thesis using l by simp
  next
    case (Suc m)
    then obtain c where c: "m_vcpu g = Some c" using l by (auto split: option.splits)
    obtain n c' where "vm_step I c = (VCPU_LOOPRET_other n, c')" using assms(4) by blast
    then show ?thesis using l Suc c by (auto simp: Let_def split: if_splits)
  qed
  let ?i = "i\<lparr>ic_rtflags := ic_rtflags i AND IATCALL_FLAG_KEEPMARK_MASK I OR IATCALL_FLAG_REACHLIMIT I\<rparr>"
  have "trace_from cfg I (traceIAT cfg I) (ic_cmdaddr i) i fr = Inr ((ok, i'), fr')"
    using assms(1,2) traceIAT_unfold [of cfg I i fr] by (simp add: traceIAT_with_def)
  then obtain c j h where t: "trace_loop cfg I (traceIAT cfg I) (nat (sint (maxIATTraceLines cfg))) ?i
        (fr\<lparr>m_vcpu := Some (initIATrace (iat_cpu I) (ic_cmdaddr i) (init_r3 I (Some False) c))\<rparr>) = Inr (j, h)"
      "file_result I j h = Inr ((ok, i'), fr')"
    by (auto simp: trace_from_def bindS_Inr_eq split: option.splits)
  have j: "ic_result_addr j = ic_result_addr i" using loop [OF t(1)] by simp
  then obtain r where hit: "hitIATCallModule I j h = Inr ((r, i'), fr')" "ok = (ic_result_addr i' \<noteq> 0)"
    using t(2) assms(3) by (auto simp: file_result_def bindS_Inr_eq)
  have "ic_result_addr i' = ic_result_addr j" using hit_result [OF hit(1)] by simp
  then show ?thesis using hit(2) j assms(3) by simp
qed

section \<open>Records\<close>

text \<open>What is saved is loaded, in any window.\<close>

lemma saved_is_loaded:
  assumes "npacket_laws N" "codes_ok I" "iat_ok I fr" "saveRecords N I fr = Inr (data, fr1)"
  shows "iat_ok I (loadRecords N I jh data fr0) \<or> \<not> iat_ok I fr0"
    and "m_mods (loadRecords N I jh data fr0) = map (\<lambda>(k, m). (k, loaded_module jh m)) (m_mods fr1)"
    and "map_option saved_part (map_of (m_calls (loadRecords N I jh data fr0)) a)
      = map_option saved_part (map_of (m_calls fr1) a)"
proof -
  have s: "iat_ok I fr1" "data = np_write N (file_fields N I fr1)" using saveRecords_ok [OF assms(3,4,2)] by simp_all
  then have c: "calls_ok (m_calls fr1)" "mods_ok (m_mods fr1)" "list_all (\<lambda>e. code_ok I (snd e)) (m_calls fr1)"
    by (simp_all add: iat_ok_def)
  show "iat_ok I (loadRecords N I jh data fr0) \<or> \<not> iat_ok I fr0" using loadRecords_ok assms(2) by blast
  show "m_mods (loadRecords N I jh data fr0) = map (\<lambda>(k, m). (k, loaded_module jh m)) (m_mods fr1)"
    "map_option saved_part (map_of (m_calls (loadRecords N I jh data fr0)) a)
      = map_option saved_part (map_of (m_calls fr1) a)"
    using load_saved [OF assms(1) c, of "loadRecords N I jh data fr0" jh fr0] s(2) by simp_all
qed

end
