(* ===== verification/PacketSamples.thy ===== *)
theory PacketSamples
  imports Packets
begin

text \<open>
  A packet buffer with bytes: every field is its id, a tag and its value, whose bytes are each led by a one and
  closed by a zero.
\<close>

section \<open>Bytes that know their end\<close>

fun closed :: "cbyte list \<Rightarrow> cbyte list" where
  "closed [] = [0]"
| "closed (b # bs) = 1 # b # closed bs"

fun opened :: "cbyte list \<Rightarrow> cbyte list \<times> cbyte list" where
  "opened (x # b # bs) = (if x = 1 then (let (v, r) = opened bs in (b # v, r)) else ([], b # bs))"
| "opened [x] = ([], [])"
| "opened [] = ([], [])"

lemma opened_closed: "opened (closed bs @ r) = (bs, r)"
  by (induction bs) (auto intro: opened.cases [of r])

section \<open>Values\<close>

definition word_bits :: "'a::len word \<Rightarrow> cbyte list" where
  "word_bits w = map (\<lambda>i. if bit w i then 1 else 0) [0..<LENGTH('a)]"

definition bits_word :: "cbyte list \<Rightarrow> 'a::len word" where
  "bits_word bs = horner_sum of_bool 2 (map (\<lambda>b. b = 1) bs)"

lemma bits_word_bits: "bits_word (word_bits w) = (w :: 'a::len word)"
proof -
  have "map (\<lambda>b. b = 1) (word_bits w) = map (bit w) [0..<LENGTH('a)]"
    by (simp add: word_bits_def)
  then show ?thesis by (simp add: bits_word_def horner_sum_bit_eq_take_bit)
qed

fun wide_bytes :: "wstring \<Rightarrow> cbyte list" where
  "wide_bytes [] = []"
| "wide_bytes (c # cs) = ucast c # ucast (drop_bit 8 c) # wide_bytes cs"

fun bytes_wide :: "cbyte list \<Rightarrow> wstring" where
  "bytes_wide (l # h # bs) = (ucast l OR push_bit 8 (ucast h)) # bytes_wide bs"
| "bytes_wide bs = []"

lemma wide_char: "(ucast (ucast c :: 8 word) :: 16 word) OR push_bit 8 (ucast (ucast (drop_bit 8 c) :: 8 word)) = c"
  by (rule bit_word_eqI) (auto simp: bit_simps)

lemma bytes_wide_bytes: "bytes_wide (wide_bytes cs) = cs"
  by (induction cs) (simp_all add: wide_char)

definition val_tag :: "pk_val \<Rightarrow> cbyte" where
  "val_tag v = (case v of PInt n \<Rightarrow> 0 | PInt64 n \<Rightarrow> 1 | PByte b \<Rightarrow> 2 | PWStr s \<Rightarrow> 3 | PBin bs \<Rightarrow> 4)"

definition val_bytes :: "pk_val \<Rightarrow> cbyte list" where
  "val_bytes v = (case v of PInt n \<Rightarrow> word_bits n | PInt64 n \<Rightarrow> word_bits n | PByte b \<Rightarrow> [b]
     | PWStr s \<Rightarrow> wide_bytes s | PBin bs \<Rightarrow> bs)"

definition val_of :: "cbyte \<Rightarrow> cbyte list \<Rightarrow> pk_val" where
  "val_of t bs = (if t = 0 then PInt (bits_word bs) else if t = 1 then PInt64 (bits_word bs)
     else if t = 2 then PByte (hd bs) else if t = 3 then PWStr (bytes_wide bs) else PBin bs)"

lemma val_of_bytes: "val_of (val_tag v) (val_bytes v) = v"
  by (cases v) (simp_all add: val_of_def val_tag_def val_bytes_def bits_word_bits bytes_wide_bytes)

section \<open>Packets\<close>

definition tlv_data :: "('i \<Rightarrow> cbyte) \<Rightarrow> ('i \<times> pk_val) list \<Rightarrow> cbyte list" where
  "tlv_data en p = concat (map (\<lambda>(i, v). en i # val_tag v # closed (val_bytes v)) p)"

fun tlv_fields :: "(cbyte \<Rightarrow> 'i) \<Rightarrow> nat \<Rightarrow> cbyte list \<Rightarrow> ('i \<times> pk_val) list" where
  "tlv_fields de (Suc n) (i # t # bs) = (let (v, r) = opened bs in (de i, val_of t v) # tlv_fields de n r)"
| "tlv_fields de n bs = []"

lemma tlv_fields_data:
  assumes "\<And>i. de (en i) = i" "length p \<le> n"
  shows "tlv_fields de n (tlv_data en p) = p"
  using assms(2)
proof (induction p arbitrary: n)
  case Nil
  then show ?case by (cases n) (simp_all add: tlv_data_def)
next
  case (Cons e p)
  obtain i v where e: "e = (i, v)" by (cases e)
  obtain m where n: "n = Suc m" "length p \<le> m" using Cons.prems by (cases n) auto
  have "tlv_data en (e # p) = en i # val_tag v # closed (val_bytes v) @ tlv_data en p"
    by (simp add: tlv_data_def e)
  then show ?case using Cons.IH [OF n(2)] by (simp add: n(1) e assms(1) opened_closed val_of_bytes)
qed

lemma tlv_data_length: "length p \<le> length (tlv_data en p)"
  by (induction p) (auto simp: tlv_data_def)

definition tlv_packet :: "('i \<Rightarrow> cbyte) \<Rightarrow> (cbyte \<Rightarrow> 'i) \<Rightarrow> ('i, ('i \<times> pk_val) list) npacket" where
  "tlv_packet en de =
     \<lparr>np_empty = [], np_put = (\<lambda>p i v. p @ [(i, v)]),
      np_getInt = (\<lambda>p i d. case map_of p i of Some (PInt n) \<Rightarrow> n | _ \<Rightarrow> (case d of Some n \<Rightarrow> n | None \<Rightarrow> 0)),
      np_getLongLong = (\<lambda>p i. case map_of p i of Some (PInt64 n) \<Rightarrow> n | _ \<Rightarrow> 0),
      np_getByte = (\<lambda>p i. case map_of p i of Some (PByte b) \<Rightarrow> b | _ \<Rightarrow> 0),
      np_getWString = (\<lambda>p i. case map_of p i of Some (PWStr s) \<Rightarrow> s | _ \<Rightarrow> []),
      np_getBinary = (\<lambda>p i. case map_of p i of Some (PBin bs) \<Rightarrow> Some bs | _ \<Rightarrow> None),
      np_nodes = map (\<lambda>(i, v). (i, val_bytes v)), np_data = tlv_data en,
      np_parse = (\<lambda>bs. tlv_fields de (length bs) bs)\<rparr>"

lemma tlv_laws:
  assumes "\<And>i. de (en i) = i"
  shows "npacket_laws (tlv_packet en de)"
proof -
  have "tlv_fields de (length (tlv_data en p)) (tlv_data en p) = p" for p
    by (rule tlv_fields_data [OF assms tlv_data_length])
  moreover have "tlv_data en p = [] \<Longrightarrow> p = []" for p
    by (cases p) (auto simp: tlv_data_def)
  ultimately have "holds (tlv_packet en de) (\<lambda>p. p) val_bytes"
    by (simp add: holds_def tlv_packet_def val_bytes_def)
  then show ?thesis by (auto simp: npacket_laws_def)
qed

end
