(* ===== verification/IatSamples.thy ===== *)
theory IatSamples
  imports IatFacts PacketSamples Samples
begin

text \<open>
  A small debuggee for the import call window: a table of one pointer at \<open>0x403000\<close>, and a module
  \<open>k\<close> with one export \<open>A\<close> that it points to. The records are kept in packets with bytes.
\<close>

definition mini_type :: "IATCall_Type \<Rightarrow> int32" where
  "mini_type t =
     (case t of iatcall_call \<Rightarrow> 0 | iatcall_jmp \<Rightarrow> 1 | iatcall_callmem \<Rightarrow> 2 | iatcall_jmpmem \<Rightarrow> 3
      | iatcall_pushret \<Rightarrow> 4 | iatcall_memaddr \<Rightarrow> 5 | iatcall_other n \<Rightarrow> n)"

definition mini_typed :: "int32 \<Rightarrow> IATCall_Type" where
  "mini_typed n =
     (if n = 0 then iatcall_call else if n = 1 then iatcall_jmp else if n = 2 then iatcall_callmem
      else if n = 3 then iatcall_jmpmem else if n = 4 then iatcall_pushret else if n = 5 then iatcall_memaddr
      else iatcall_other n)"

definition mini_byte :: "addr \<Rightarrow> byte" where
  "mini_byte a = (if a = 0x403000 then 0x10 else if a = 0x403003 then 0x77 else 0)"

definition mini_module :: t_module where
  "mini_module =
     \<lparr>tm_base = 0x77000000, tm_size = 0x1000, tm_path = [67, 92, 107], tm_edatabase = 0, tm_edatasize = 0\<rparr>"

definition mini_name :: "wstring \<Rightarrow> int32" where
  "mini_name w = (case w of [] \<Rightarrow> 0 | c # cs \<Rightarrow> ucast c)"

definition mini_iat :: "(addr \<Rightarrow> byte) iat_env" where
  "mini_iat =
     \<lparr>iat_cpu = mini_env,
      dbg_read = (\<lambda>a buf. (int (length buf), map (\<lambda>i. mini_byte (a + of_nat i)) [0..<length buf])),
      junk = (\<lambda>n. replicate n 0xCC), dbg_disasm = (\<lambda>bs a. (0, 0, [])), SZ_OPCODE = 16,
      type_code = mini_type, code_type = mini_typed, call_place = (\<lambda>a as. length as),
      dbg_memory = (\<lambda>a. None),
      dbg_module = (\<lambda>a. if 0x77000000 \<le> a \<and> a < 0x77001000 then Some mini_module else None),
      map_file = (\<lambda>m. None), image_exports = (\<lambda>bs. (0, 0)), rva_offset = (\<lambda>bs a. unat a),
      to_wide = map ucast, ordinal_name = (\<lambda>n. []), nhash_name = mini_name, nhash_lower = mini_name,
      vm_step = (\<lambda>c. (VCPU_LOOPRET_other 1, c)), init_r3 = (\<lambda>b c. c), new_cpu = mini_cpu,
      IATCALL_FLAG_TRACEFAILD = 1, IATCALL_FLAG_REACHLIMIT = 2, IATCALL_FLAG_SUSPECT = 4,
      IATCALL_FLAG_TRACEDOUT = 8, IATCALL_FLAG_MARKINVAILD = 16, IATCALL_FLAG_KEEPMARK_MASK = 16\<rparr>"

lemma mini_codes_ok: "codes_ok mini_iat"
  by (auto simp: codes_ok_def named_def type_ok_def mini_iat_def mini_type_def mini_typed_def)

lemma mini_disasm_within: "disasm_within mini_iat"
  by (simp add: disasm_within_def mini_iat_def)

definition mini_api :: iatcall_api_cache where
  "mini_api = \<lparr>ia_addr = 0x10, ia_modBase = 0x77000000, ia_base = 1, ia_hasName = True, ia_name = [65]\<rparr>"

definition mini_cached :: iatcall_mod_cache where
  "mini_cached = \<lparr>im_addrbase = 0x77000000, im_addrend = 0x77001000, im_apis = [(0x10, mini_api)], im_name = [107]\<rparr>"

definition mini_win :: "(addr \<Rightarrow> byte) xVMIATCallFrame" where
  "mini_win = new_iat_frame\<lparr>m_cache := [(0x77000000, mini_cached)]\<rparr>"

lemma mini_cache_ok: "cache_ok (m_cache mini_win)"
  by (simp add: cache_ok_def mini_win_def mini_cached_def)

text \<open>What is in the table is the export, and filing it gives it its hashes.\<close>

lemma mini_read: "read_ptr mini_iat 0x403000 [0, 0, 0, 0] = (4, 0x77000010)"
  by (simp add: read_ptr_def mini_iat_def mini_byte_def le_word_def upt_rec)

lemma mini_export: "getExport mini_iat 0x77000010 (m_cache mini_win) = Inr (Some mini_api, m_cache mini_win)"
  by (simp add: getExport_def cached_module_def near_module_def mini_win_def mini_cached_def bindS_def)

definition mini_found :: iatcall_info where
  "mini_found = (table_call 0x403000)\<lparr>ic_retaddr := 0x403000, ic_result_addr := 0x77000010\<rparr>"

definition mini_filed :: iatcall_info where
  "mini_filed = mini_found\<lparr>ic_modhash := 107, ic_funchash := 65, ic_rtflags := 8\<rparr>"

definition mini_after :: "(addr \<Rightarrow> byte) xVMIATCallFrame" where
  "mini_after = mini_win\<lparr>m_mods := [(107, \<lparr>md_nameHash = 107, md_name = [107],
     md_funcs = [(65, \<lparr>fn_nameHash = 65, fn_name = [65], fn_modHash = 107, fn_IATRVA = 0\<rparr>)]\<rparr>)]\<rparr>"

lemma mini_path: "Option.bind (dbg_module mini_iat 0x77000010) (\<lambda>tm. findModName (tm_path tm)) = Some [107]"
  by (simp add: mini_iat_def mini_module_def findModName_def upt_rec)

lemma mini_sel [simp]:
  "nhash_lower mini_iat = mini_name" "nhash_name mini_iat = mini_name" "IATCALL_FLAG_TRACEDOUT mini_iat = 8"
  "IATCALL_FLAG_KEEPMARK_MASK mini_iat = 16" "iat_cpu mini_iat = mini_env" "call_place mini_iat = (\<lambda>a as. length as)"
  by (simp_all add: mini_iat_def)

lemma mini_hit:
  "hitIATCallModule mini_iat mini_found mini_win = Inr ((Some (107, 65), mini_filed), mini_after)"
  "hitIATCallModule mini_iat mini_filed mini_after = Inr ((Some (107, 65), mini_filed), mini_after)"
proof -
  have r: "ic_result_addr mini_found = 0x77000010" "ic_result_addr mini_filed = 0x77000010"
    "ic_rtflags mini_found = 0" "ic_rtflags mini_filed = 8" "m_cache mini_after = m_cache mini_win"
    "ia_name mini_api = [65]"
    by (simp_all add: mini_found_def mini_filed_def table_call_def zero_info_def mini_after_def mini_api_def)
  show "hitIATCallModule mini_iat mini_found mini_win = Inr ((Some (107, 65), mini_filed), mini_after)"
    unfolding hitIATCallModule_def r mini_export bindS_def sum.case Let_def prod.case option.case mini_path
    by (simp add: mini_name_def mini_filed_def mini_after_def add_func_def mini_win_def new_iat_frame_def)
  show "hitIATCallModule mini_iat mini_filed mini_after = Inr ((Some (107, 65), mini_filed), mini_after)"
    unfolding hitIATCallModule_def r mini_export bindS_def sum.case Let_def prod.case option.case mini_path
    by (simp add: mini_name_def mini_filed_def mini_after_def add_func_def mini_win_def new_iat_frame_def)
qed

lemma mini_trace_entry: "traceIAT mini_config mini_iat (table_call 0x403000) mini_win = Inr ((True, mini_filed), mini_after)"
proof -
  have t: "ic_calltype (table_call 0x403000) = iatcall_memaddr" "ic_callto (table_call 0x403000) = 0x403000"
    "(table_call 0x403000)\<lparr>ic_retaddr := ic_cmdaddr (table_call 0x403000) + word_of_int (ic_szop (table_call 0x403000)),
       ic_result_addr := 0x77000010\<rparr> = mini_found" "mini_win\<lparr>m_cache := m_cache mini_win\<rparr> = mini_win"
    "ic_result_addr mini_filed = 0x77000010"
    by (simp_all add: table_call_def zero_info_def mini_found_def mini_filed_def)
  show ?thesis
    unfolding traceIAT_def traceIAT_with_def t mini_read Let_def prod.case bindS_def mini_export sum.case
    using t by (simp add: mini_hit)
qed

text \<open>A call that was resolved before, traced by an emulator that gives up.\<close>

definition mini_again :: iatcall_info where
  "mini_again = zero_info\<lparr>ic_cmdaddr := 0x401000, ic_calltype := iatcall_call, ic_result_addr := 0x77000010\<rparr>"

definition mini_traced :: "(addr \<Rightarrow> byte) xVMIATCallFrame" where
  "mini_traced = mini_win\<lparr>m_vcpu := Some mini_cpu\<rparr>"

lemma mini_hit_any:
  assumes "ic_result_addr i = 0x77000010" "m_cache fr = m_cache mini_win"
  shows "\<exists>i' fr'. hitIATCallModule mini_iat i fr = Inr ((Some (107, 65), i'), fr')"
  using assms mini_export mini_path by (simp add: hitIATCallModule_def bindS_def Let_def mini_name_def mini_api_def)

lemma mini_retrace:
  "\<exists>ok i' fr'. traceIAT cfg mini_iat mini_again mini_traced = Inr ((ok, i'), fr')"
proof -
  have "\<exists>j h. trace_loop cfg mini_iat t n i fr = Inr (j, h) \<and> ic_result_addr j = ic_result_addr i \<and> m_cache h = m_cache fr"
    if "m_vcpu fr = Some c" for t n i fr c
  proof (cases n)
    case (Suc m)
    have "vm_step mini_iat c = (VCPU_LOOPRET_other 1, c)" by (simp add: mini_iat_def)
    then show ?thesis using that Suc by (auto simp: Let_def)
  qed simp
  note loop = this
  let ?i = "mini_again\<lparr>ic_rtflags := ic_rtflags mini_again AND IATCALL_FLAG_KEEPMARK_MASK mini_iat OR IATCALL_FLAG_REACHLIMIT mini_iat\<rparr>"
  let ?c = "initIATrace mini_env (ic_cmdaddr mini_again) (init_r3 mini_iat (Some False) mini_cpu)"
  obtain j h where t: "trace_loop cfg mini_iat (traceIAT cfg mini_iat) (nat (sint (maxIATTraceLines cfg))) ?i
        (mini_traced\<lparr>m_vcpu := Some ?c\<rparr>) = Inr (j, h)" "ic_result_addr j = 0x77000010" "m_cache h = m_cache mini_win"
    using loop [of "mini_traced\<lparr>m_vcpu := Some ?c\<rparr>" ?c "traceIAT cfg mini_iat" "nat (sint (maxIATTraceLines cfg))" ?i]
    by (auto simp: mini_again_def mini_traced_def)
  obtain i' h' where "hitIATCallModule mini_iat j h = Inr ((Some (107, 65), i'), h')"
    using mini_hit_any [OF t(2,3)] by blast
  then have "file_result mini_iat j h = Inr ((ic_result_addr i' \<noteq> 0, i'), h')"
    using t(2) by (simp add: file_result_def bindS_def)
  then have "trace_from cfg mini_iat (traceIAT cfg mini_iat) (ic_cmdaddr mini_again) mini_again mini_traced
      = Inr ((ic_result_addr i' \<noteq> 0, i'), h')"
    using t(1) by (simp add: trace_from_def bindS_def mini_traced_def)
  moreover have "ic_calltype mini_again \<noteq> iatcall_memaddr" by (simp add: mini_again_def)
  ultimately have "traceIAT cfg mini_iat mini_again mini_traced = Inr ((ic_result_addr i' \<noteq> 0, i'), h')"
    by (subst traceIAT_unfold) (simp add: traceIAT_with_def)
  then show ?thesis by blast
qed

text \<open>The window with the table listed.\<close>

definition mini_added :: "(addr \<Rightarrow> byte) xVMIATCallFrame" where
  "mini_added = VMDebug_AddtoIATCalls mini_iat 0x403000 0x403003 new_iat_frame"

lemma mini_added:
  "m_calls mini_added = [(0x403000, (table_call 0x403000)\<lparr>ic_addr := 1\<rparr>)]"
  "map ic_cmdaddr (m_table mini_added) = [0x403000]" "m_mods mini_added = []"
  by code_simp+

lemma mini_added_reachable: "iat_reachable N cfg mini_iat mini_added"
  unfolding mini_added_def by (rule reach_step [OF reach_new step_add]) (simp add: same_layout_def)

text \<open>A call of \<open>0x403000\<close> from \<open>0x401001\<close>.\<close>

definition mini_code :: "byte list" where
  "mini_code = [0x90, 0xE8, 0xFA, 0x1F, 0, 0, 0x90, 0x90]"

lemma mini_code:
  "length mini_code = 8" "call_kind mini_code 1 = Some iatcall_call"
  "call_target 0x401000 mini_code 1 iatcall_call = 0x403000" "mini_code ! 0 = 0x90"
  by (simp add: mini_code_def, code_simp, code_simp, simp add: mini_code_def)

text \<open>Ids of fields as bytes.\<close>

definition vids :: "iatcall_vid list" where
  "vids = [iatcall_vid_module, iatcall_vid_node, iatcall_vid_hash, iatcall_vid_name, iatcall_vid_iatrva,
     iatcall_vid_record, iatcall_vid_cmdaddr, iatcall_vid_callto, iatcall_vid_ophead, iatcall_vid_opsuffix,
     iatcall_vid_opcode, iatcall_vid_calltype, iatcall_vid_memoft, iatcall_vid_retaddr, iatcall_vid_hashead,
     iatcall_vid_rtflags, iatcall_vid_modhash, iatcall_vid_apihash]"

definition vid_byte :: "iatcall_vid \<Rightarrow> cbyte" where
  "vid_byte v = of_nat (length (takeWhile (\<lambda>w. w \<noteq> v) vids))"

definition mini_file :: "(iatcall_vid, (iatcall_vid \<times> pk_val) list) npacket" where
  "mini_file = tlv_packet vid_byte (\<lambda>b. vids ! unat b)"

lemma mini_file_laws: "npacket_laws mini_file"
  unfolding mini_file_def
proof (rule tlv_laws)
  show "vids ! unat (vid_byte v) = v" for v by (cases v) (simp_all add: vid_byte_def vids_def)
qed

end
