(* ===== verification/BlockSamples.thy ===== *)
theory BlockSamples
  imports BlockFacts IatSamples
begin

text \<open>
  A small block window: two blocks that end with the same instruction, logs of their executions, and a packet with
  bytes for its file. A trace record is written as its address, a log as its flags, block and address.
\<close>

definition mini_at :: "addr \<Rightarrow> TraceRecordEx" where
  "mini_at a = mini_rec a 0x90 0x1000 0x1000"

definition mini_insts :: "addr list \<Rightarrow> InstSequence" where
  "mini_insts as = foldl (\<lambda>is a. push_back (mini_at a) is) \<lparr>is_nodes = [], is_fresh = 0\<rparr> as"

definition mini_block :: "int32 \<Rightarrow> addr list \<Rightarrow> CodeBlock" where
  "mini_block k as =
     \<lparr>cb_refc = 0, cb_seqID = k, cb_flags = 0, cb_uuid = -1, cb_entry = 0, cb_comment = [], cb_pattern = [],
      cb_insts = mini_insts as\<rparr>"

definition mini_left :: CodeBlock where
  "mini_left = mini_block 0 [0x401000, 0x401002, 0x401004, 0x401100, 0x401102]"

definition mini_right :: CodeBlock where
  "mini_right = mini_block 1 [0x401020, 0x401022, 0x401024, 0x401100, 0x401102]"

definition mini_log :: "int32 \<Rightarrow> addr \<Rightarrow> 32 word \<Rightarrow> SequenceExecute" where
  "mini_log k a flags =
     \<lparr>se_seqid = k, se_ip = a, se_uuid = -1, se_flags = flags, se_regs = [], se_eflags = 0, se_vars = []\<rparr>"

definition mini_blocks :: "(addr \<Rightarrow> byte) block_env" where
  "mini_blocks = iat_env.extend mini_iat
     \<lparr>seq_place = (\<lambda>k ks. length ks), row_place = (\<lambda>k ks. length ks), prev_null = (\<lambda>ks. Inr None),
      new_block = mini_block (-1) [], seq_rip = (\<lambda>b. case records b of [] \<Rightarrow> 0 | tr # _ \<Rightarrow> tr_rip (tx_ctx1 tr)),
      detect_blocks = (\<lambda>rcs ls. ([], ls)), detect_file = (\<lambda>p ls. ([mini_left, mini_right], ls)),
      stack_junk = 0xCCCCCCCC, set_int3 = (\<lambda>a. 0), cpu_context = None, dbg_thread = (\<lambda>t. None),
      open_thread = (\<lambda>t. False), thread_context = (\<lambda>h. None), ud_length = (\<lambda>bs a. 1), force_flags = c_eflags,
      set_eflags = (\<lambda>f c. c\<lparr>c_eflags := f\<rparr>), wide_string = map (\<lambda>c. of_nat (of_char c)), wcstol = (\<lambda>w. 7),
      TEXTLEN = 256, INSTSEQ_FLAG_MONITER = 1, SEQEXEC_FLAG_HIDDEN = 1, SEQEXEC_FLAG_TEMP = 2,
      SEQEXEC_FLAG_BREAK = 4, bkopt_flags_showhidden = 1\<rparr>"

definition mini_struct :: struct_bytes where
  "mini_struct =
     \<lparr>rec_raw = (\<lambda>tr. le_bytes (tr_rip (tx_ctx1 tr))), raw_rec = (\<lambda>bs. mini_at (le_word bs)), SZ_REC = 4,
      exec_raw = (\<lambda>se. le_bytes (se_seqid se) @ le_bytes (se_ip se) @ le_bytes (se_flags se)),
      raw_exec = (\<lambda>bs. mini_log (le_word bs) (le_word (drop 4 bs)) (le_word (drop 8 bs))), SZ_EXEC = 12\<rparr>"

definition mini_patterns :: pattern_env where
  "mini_patterns = \<lparr>pt_x86 = mini_x86, pt_parse = mini_parse, pt_delete = 1, pt_next0 = Inr None\<rparr>"

lemma mini_place: "at_end (seq_place mini_blocks)"
  by (simp add: at_end_def mini_blocks_def iat_env.defs block_env.defs)

lemma mini_detects: "detects mini_blocks"
  by (simp add: detects_def mini_blocks_def iat_env.defs block_env.defs)

text \<open>The window after the analysis of a trace, a notice of two executions, and one of them in its file.\<close>

definition mini_settings :: xvmdbg_config where
  "mini_settings =
     \<lparr>maxPreExecLines = 0, maxIATTraceLines = 0, scp_stackSize = 0, preExecDetectMultiBranch = 0,
      enableVirtualDebug = 0, breakOnLdrLoadDll = 0, bIATTraceCheckCtx = 0, int3cmd = 0, int3ecode = 0,
      stepcmd = 0, stepecode = 0, singletd = 0, loadPatternOnStartup = 0, vdCRT = [], patternDir = [],
      enhancePreExecUI = 0, antiAntiDebug = 0, enablexVMRuntime = 0, autoRemoveJmp = 0, embedNotepadPP = 0,
      scriptDir = [], disableSafeSEH = 0, showMemAccFlags = 0, scp_libs = [], bProtectDrx = 0, bkopt_filter =
      0, bDirectImport = 0, bEnableApiSpy = 0, bStartupScript = 0, startupscp = [], bRemoteIDA = 0,
      iStartupDLL = 0, startupdll = [], vmopt_maxRecords = 0, vmopt_flags = 0, vmopt_rcfile = [], vmopt_msfile
      = [], vmopt_bkfile = [], vmopt_stopaddr = 0, bFreeStkEach = 0, bReleaseStub = 0, recentPASM = [],
      sbox_state = 0, sbox_script = [], idasvr = []\<rparr>"

definition mini_bf0 :: "(addr \<Rightarrow> byte) xVMBlockFrame" where
  "mini_bf0 = new_block_frame mini_blocks 0 0"

definition mini_bf1 :: "(addr \<Rightarrow> byte) xVMBlockFrame" where
  "mini_bf1 = analyserTraceFile mini_blocks mini_settings [] mini_bf0"

definition mini_bf2 :: "(addr \<Rightarrow> byte) xVMBlockFrame" where
  "mini_bf2 = snd (projr (addBlockExecLog mini_blocks mini_settings (mini_log 0 0x1000 0) (-1) mini_bf1))"

definition mini_bf3 :: "(addr \<Rightarrow> byte) xVMBlockFrame" where
  "mini_bf3 = snd (projr (addBlockExecLog mini_blocks mini_settings (mini_log 1 0x1004 2) (-1) mini_bf2))"

lemma mini_bf1: "bf_seqs mini_bf1 = [(0, mini_left), (1, mini_right)] \<and> bf_sseq mini_bf1 = []"
  by code_simp

lemma mini_bf3: "bf_sseq mini_bf3 = [(0, mini_log 0 0x1000 0), (1, mini_log 1 0x1004 2)]
    \<and> bf_seqs mini_bf3 = [(0, mini_left), (1, mini_right)] \<and> bf_setpl mini_bf3 = []
    \<and> map (\<lambda>(a, r). (a, lr_se r)) (bf_logs mini_bf3) = [(0, Some 0), (1, Some 1)]"
  by code_simp

text \<open>Ids of fields as bytes.\<close>

definition block_vids :: "block_vid list" where
  "block_vids = [block_vid_refc, block_vid_seqid, block_vid_flags, block_vid_uuid, block_vid_entry, block_vid_comment,
     block_vid_pattern, block_vid_record, block_vid_sequence, block_vid_seqexec, block_vid_tpl]"

definition block_vid_byte :: "block_vid \<Rightarrow> cbyte" where
  "block_vid_byte v = of_nat (length (takeWhile (\<lambda>w. w \<noteq> v) block_vids))"

definition mini_block_file :: "(block_vid, (block_vid \<times> pk_val) list) npacket" where
  "mini_block_file = tlv_packet block_vid_byte (\<lambda>b. block_vids ! unat b)"

lemma mini_block_file_laws: "npacket_laws mini_block_file"
  unfolding mini_block_file_def
proof (rule tlv_laws)
  show "block_vids ! unat (block_vid_byte v) = v" for v by (cases v) (simp_all add: block_vid_byte_def block_vids_def)
qed

lemma mini_blocks_storable: "blocks_storable mini_struct mini_bf3"
proof -
  have r: "rec_ok mini_struct (mini_at a)" for a
    using le_word_le_bytes [of a "[]"]
    by (simp add: rec_ok_def mini_struct_def mini_at_def mini_rec_def)
  have e: "exec_ok mini_struct (mini_log k a f)" for k a f
    using le_word_le_bytes [of f "[]"]
    by (simp add: exec_ok_def mini_struct_def mini_log_def le_word_le_bytes)
  have "records (mini_block k as) = map mini_at as" for k as
  proof -
    have "map snd (is_nodes (foldl (\<lambda>is a. push_back (mini_at a) is) is as)) = map snd (is_nodes is) @ map mini_at as" for "is"
      by (induction as arbitrary: "is") (simp_all add: push_back_def)
    then show ?thesis by (simp add: records_def mini_block_def mini_insts_def)
  qed
  then show ?thesis
    using mini_bf3 r e by (simp add: blocks_storable_def mini_left_def mini_right_def list_all_iff)
qed

end
