(* ===== verification/Spec2Isabelle.thy ===== *)
theory Spec2Isabelle
  imports PeepSamples StraightLine BlockSamples
begin

text \<open>
  Verification of the code-virtualisation analysis tools of \<open>src/32076\<close>: the pattern engine
  \<open>patternAsm\<close>, the tracing CPU \<open>xVMDebugCPU\<close>, the peephole pass and the push/pop elimination of
  \<open>xVMDebugFrame\<close>, the import call window \<open>xVMIATCallFrame\<close>, the window of code blocks \<open>xVMBlockFrame\<close>, and the
  debugger's settings. The line numbers are those of the files in chapter 5 (the last of the directories that hold
  \<open>patternAsm.cpp\<close>); chapter 4 holds an identical copy of the pattern engine.

  The program. The debugger plugin runs virtualised code on an emulator and records every instruction as a trace
  (\<open>xVMDebugCPU\<close>). A trace is then cleaned: the pattern engine compiles a text of patterns
  (\<open>patternAsm::loadPattern\<close>), is started on every record of the trace (\<open>initForTest\<close>), is
  fed the instructions from there (\<open>testInstruction\<close>), and where a pattern completes, its replacement
  instructions are generated (\<open>genReplaceOpcode\<close>) and put into the trace (\<open>doDeObfuscatePattern\<close>).
  Two passes work without patterns: a peephole pass compares every window of up to six instructions with built-in
  rules (\<open>doDeobfuscateNormal\<close>), and another finds registers that are pushed, used as scratch and popped
  (\<open>doDeobfuscateTempPushPop\<close>) and folds the constants they carry; \<open>dobCurrentSequenceAll\<close> repeats the two
  until neither finds anything. Another window repairs the imports of protected programs: it searches the code for
  instructions that may call an import (\<open>searchCallsInMemory\<close>), reads the export tables of the modules
  (\<open>cacheModuleExport\<close>), runs every call on the tracing CPU until it arrives at an export
  (\<open>traceIAT\<close>), and rewrites it to a plain call (\<open>fixIATCall\<close>); its calls are kept in a file
  (\<open>saveRecords\<close>, \<open>loadRecords\<close>). A third window keeps the code blocks of a virtual machine, its handlers: they come from the
  analysis of a trace (\<open>analyserTraceRecords\<close>), from a table of addresses (\<open>addBlockEntries\<close>), or from a search for the
  dispatch jump, which runs two tracing CPUs side by side, one reading the table of handlers at another offset, until
  they part (\<open>detectOPBranch\<close>); a monitor sends logs of their executions (\<open>addBlockExecLog\<close>), and the blocks at the address where the debuggee stops
  are highlighted (\<open>syncByRip\<close>). The settings of all this are a record that is
  kept in a packet buffer (\<open>loadxvmcfg\<close>, \<open>savexvmcfg\<close>).

  The theories.
  \<^item> \<open>Prelude\<close>: faults, outcomes (a fault, or a value with the state after it), loops with an early
    return, flag tests, the predicate \<open>keeps\<close> by which invariants are carried, the C functions \<open>atoi\<close> and \<open>strnicmp\<close>.
  \<^item> \<open>X86Interface\<close>: the assembler and disassembler library as the parameter \<open>x86_env\<close>.
  \<^item> \<open>PatternData\<close>: the structures of \<open>patternAsm.h\<close>, field by field. A pointer into a list is a
    position, a keyed list a map.
  \<^item> \<open>PatternVars\<close>: \<open>checkAndSaveVar\<close>, \<open>resolveVar\<close>, \<open>saveMemoryExprVar\<close>; the invariant of the
    variable table, and the interface (\<open>new_var_frame\<close>, \<open>var_frame\<close>) through which the matcher writes it.
  \<^item> \<open>PatternExpr\<close>: \<open>calculateExpress\<close> on 64-bit words, \<open>calculateMemoryExpress\<close>.
  \<^item> \<open>PatternMatch\<close>, \<open>PatternSeq\<close>: \<open>isMatchInstOperand\<close> up to \<open>testForSequence\<close>, with every branch and return
    code; the interface \<open>step_frame\<close> of a step.
  \<^item> \<open>PatternEngine\<close>: the linked list of patterns in play, \<open>initForTest\<close>, \<open>testInstruction\<close>; the
    interface \<open>active_list\<close> and the refinement to a walk over a list.
  \<^item> \<open>PatternReplace\<close>: \<open>genReplaceOpcode\<close>.
  \<^item> \<open>PatternParse\<close>: the compiler of the pattern language, \<open>loadPattern\<close> to \<open>parseInst\<close>.
  \<^item> \<open>MatcherFacts\<close>, \<open>StraightLine\<close>, \<open>EngineRun\<close>: binding, roll-back and repetition; patterns without repetition
    as plain list matching; runs of the engine.
  \<^item> \<open>TraceData\<close>, \<open>TraceCPU\<close>, \<open>TraceFacts\<close>: trace records and their list, the tracing CPU, its contexts, memory
    layer and made-up jumps.
  \<^item> \<open>Deobfuscate\<close>: \<open>doDeObfuscatePattern\<close> and \<open>matchCodeDNA\<close>.
  \<^item> \<open>ConstFold\<close>, \<open>PushPop\<close>, \<open>PushPopFacts\<close>: constant folding and the push/pop elimination.
  \<^item> \<open>PeepRules\<close>, \<open>Peephole\<close>: the rules of \<open>doDeobfuscateNormal\<close>, one definition per branch of its switch, each a
    function from the window to the writes it does; the loop, and the commands that repeat the passes.
  \<^item> \<open>PeepFrame\<close>: what the pass may touch. \<open>PeepSound\<close>, \<open>PeepWindow\<close>, \<open>PeepArith\<close>, \<open>PeepMove\<close>, \<open>PeepWhole\<close>: the rules
    against a machine of register instructions, rule by rule and then for the whole switch. \<open>PeepTrace\<close>: from windows to
    traces, and the end of the repetition.
  \<^item> \<open>Config\<close>: the settings. \<open>Packets\<close>: packets of packets.
  \<^item> \<open>IatData\<close>, \<open>IatSearch\<close>, \<open>IatExport\<close>, \<open>IatTrace\<close>, \<open>IatFix\<close>, \<open>IatRecords\<close>: the import call window, its calls, the
    search for them, exports, traces, fixes and the file. \<open>IatState\<close>, \<open>IatMenu\<close>: its invariant \<open>iat_ok\<close>, the commands
    and the menu as a step relation \<open>iat_step\<close> and the states that are reached; the debuggee may change between two
    steps, only the layout of the instructions' codes stays. \<open>IatFacts\<close>: traces and fixes together.
  \<^item> \<open>BlockData\<close>, \<open>Blocks\<close>, \<open>BlockTrace\<close>, \<open>BlockFile\<close>, \<open>BlockMenu\<close>: the window of code blocks: its lists and tables,
    a pointer of a row being the key of its element or \<open>None\<close> when the element is gone; filing blocks, logs and templates;
    the search for the dispatch jump, \<open>conciseSequences\<close>, following the debuggee; the file; menus, keys, selections and
    the messages of the monitor. \<open>BlockState\<close>: its invariant \<open>block_ok\<close>, the step relation \<open>block_step\<close> and
    the states that are reached. \<open>BlockFacts\<close>: numbers, the index of instructions, where handlers meet, removed logs.
  \<^item> \<open>Samples\<close>, \<open>PeepSamples\<close>, \<open>PacketSamples\<close>, \<open>IatSamples\<close>, \<open>BlockSamples\<close>: concrete instances of all parameters, at which the properties below are applied.

  The register machine of \<open>PeepSound\<close> has the instructions the rules rewrite when no memory is involved: unary and
  binary arithmetic, \<open>mov\<close>, \<open>xchg\<close> and \<open>lea\<close> on 32-bit registers; flags are left out, because the rules
  ignore them. A trace in its code (\<open>reg_trace\<close>) has no instruction that reads its destination through the other
  operand: for those some of the rules are wrong, one of them is shown below.

  Conventions. An error code that the code returns is an ordinary result. What the code does beyond returning is
  the value \<open>Inl\<close> of a fault: a null pointer, a write past a fixed array, a division or shift fault, a loop
  that does not end. Loops that need not end are \<open>partial_function (option)\<close> and their ending is proved; the loops of
  the parser, which take a word off a line with every turn, fault with \<open>Diverges\<close> when a turn takes nothing off. Fields
  that a constructor leaves uninitialised are arguments. \<open>finish_loop\<close> has the number of marked records as fuel,
  and every move clears a mark, so it does not run out; this is part of the proof that the pass returns.

  Parameters. The assembler, the string class and expression parser, the packet buffer, the memory layer and emulator,
  the disassembler \<open>libudis86\<close>, and what the import call window asks of OllyDbg and Windows (\<open>iat_env\<close>), and what the window of code blocks asks of them and
  of the emulator library (\<open>block_env\<close>, with the analysis of a trace into blocks, and \<open>struct_bytes\<close>) are not in the repository. Each is a record of the functions the sources call;
  what a property needs of it is a hypothesis of that property (\<open>words_ok\<close>, \<open>decoder_small\<close>, \<open>packet_laws\<close>,
  \<open>layer_law\<close>, \<open>decoder_ok\<close>, \<open>flags_apart\<close>, \<open>operands_ok\<close>, \<open>builder_ok\<close>, \<open>roundtrip_ok\<close>,
  \<open>npacket_laws\<close>, \<open>codes_ok\<close>, \<open>disasm_within\<close>, \<open>detects\<close>, \<open>at_end\<close>, \<open>blocks_storable\<close>), and one of the theories of samples has an instance for which it holds.

  Not modelled: \<open>src/bochs\<close> (a vendored emulator); creating the windows, drawing their rows, dialogs and texts for the user;
  the scripts of the plugin; the API spying DLLs and remote tools, which are calls of the Windows API; the generated and
  third-party headers.
\<close>

section \<open>Patterns and traces\<close>

text \<open>
  C1: Patterns compiled from any text can be run without crashing: after loading a text into an empty
  engine, starting a match and feeding any instructions, feeding one more never dereferences a null
  pointer and never loops; the well-formedness of every pattern in play is kept, and the only faults
  are an overflow of the table of new variables and the arithmetic faults of an expression.
\<close>

theorem loaded_run_safe:
  assumes "loadPattern P (clearPatterns eng) src = Inr (n, eng0)"
    and "decoder_small E" "engine_run E b eng0 eng1"
  shows "keeps engine_ok step_fault (testInstruction E eng1 lpop pc esp efl ud)"
proof -
  have "loaded eng0" using assms(1) loaded_empty by (rule loadPattern_loaded)
  then have "engine_ok eng1" using assms(2,3) loaded_compiled by (intro engine_run_ok)
  then show ?thesis using assms(2) by (intro testInstruction_keeps) (simp_all add: decoder_small_def)
qed

theorem loaded_run_safe_witness:
  "\<exists>eng1. engine_run mini_x86 False (snd mini_load) eng1
    \<and> keeps engine_ok step_fault (testInstruction mini_x86 eng1 [0x50] 0x401000 True False (Some 0))"
proof -
  obtain n eng1 where "initForTest False (snd mini_load) = Inr (n, eng1)" using initForTest_list by blast
  then have r: "engine_run mini_x86 False (snd mini_load) eng1" by (rule engine_run.start)
  have l: "loadPattern mini_parse (clearPatterns mini_empty) mini_text = Inr (fst mini_load, snd mini_load)"
    using mini_load(1) by simp
  show ?thesis using r loaded_run_safe [OF l mini_decoder_small r] by blast
qed

text \<open>
  C2: testInstruction on the doubly linked list of patterns refines a walk over a plain list: same
  fault, or the same answer (1 with the pattern that completed, 0 undecided, -1 none left), the
  patterns left in play are those of the specification and every pattern has the content the
  specification gives it.
\<close>

theorem testInstruction_refines:
  assumes "linked eng L"
  shows "case spec_walk E (disasm E lpop pc) esp efl ud L (contents eng) of
      Inl f \<Rightarrow> testInstruction E eng lpop pc esp efl ud = Inl f
    | Inr ((r, L'), c) \<Rightarrow> \<exists>eng'. testInstruction E eng lpop pc esp efl ud
          = Inr ((if r \<noteq> None then 1 else if L' \<noteq> [] then 0 else -1, r), eng')
        \<and> linked eng' L' \<and> contents eng' = c"
proof -
  obtain m where m: "testWalk E (disasm E lpop pc) esp efl ud (pe_seqList eng) eng = Some m"
      "walk_agrees [] m (spec_walk E (disasm E lpop pc) esp efl ud L (contents eng))"
    using testWalk_refines [of eng "[]" L E "disasm E lpop pc" esp efl ud] assms by (auto simp: linked_head)
  show ?thesis
  proof (cases m)
    case (Inl f)
    then show ?thesis using m by (simp add: walk_agrees_def testInstruction_def)
  next
    case (Inr x)
    then obtain r eng' L' where w: "m = Inr (r, eng')" "linked eng' L'"
        "spec_walk E (disasm E lpop pc) esp efl ud L (contents eng) = Inr ((r, L'), contents eng')"
      using m(2) by (cases x) (auto simp: walk_agrees_def)
    then show ?thesis using m(1) linked_head [OF w(2)]
      by (cases r) (auto simp: testInstruction_def)
  qed
qed

theorem testInstruction_refines_witness:
  "\<exists>eng'. testInstruction mini_x86 mini_started [0x50] 0x401000 True False (Some 0) = Inr ((0, None), eng') \<and> linked eng' [0]"
proof -
  have "map_sum id fst (spec_walk mini_x86 (disasm mini_x86 [0x50] 0x401000) True False (Some 0) [0] (contents mini_started))
      = Inr (None, [0])"
    by code_simp
  then obtain c where "spec_walk mini_x86 (disasm mini_x86 [0x50] 0x401000) True False (Some 0) [0] (contents mini_started)
      = Inr ((None, [0]), c)"
    by (cases "spec_walk mini_x86 (disasm mini_x86 [0x50] 0x401000) True False (Some 0) [0] (contents mini_started)") auto
  then show ?thesis using testInstruction_refines [where E = mini_x86 and lpop = "[0x50]" and
        pc = "0x401000" and esp = True and efl = False and ud = "Some 0", OF mini_started_linked]
    by auto
qed



text \<open>
  C4: A pattern whose statements are all instructions that stand once, fed an instruction sequence
  from the start of a match, completes, fails or stays undecided exactly as matching the statements
  one by one against the instructions under one table of variables says, and leaves the same
  variables.
\<close>

theorem straight_pattern_is_list_match:
  assumes "ps_insts s \<noteq> []" "\<forall>pi \<in> set (ps_insts s). straight_stmt pi"
    and "int (length (ps_insts s)) \<le> ps_maximumInst s"
  shows "case match_all E (ps_insts s) xs (ps_crt (fresh s)) of
      Inl f \<Rightarrow> feed E (fresh s) xs = Inl f
    | Inr (st, c) \<Rightarrow> \<exists>s'. feed E (fresh s) xs = Inr (st, s')
        \<and> crt_vars (ps_crt s') = crt_vars c \<and> crt_opvars (ps_crt s') = crt_opvars c"
proof -
  note run = straight_line [OF assms, of E xs]
  show ?thesis
  proof (cases "match_all E (ps_insts s) xs (ps_crt (fresh s))")
    case (Inl f)
    then show ?thesis using run by (cases "feed E (fresh s) xs") auto
  next
    case (Inr r)
    then show ?thesis using run
      by (cases r; cases "feed E (fresh s) xs") (auto dest: repos_eqD)
  qed
qed

theorem straight_pattern_is_list_match_witness:
  "map_sum id fst (feed mini_x86 (fresh mini_pattern)
     [(mini_disasm [0x53], True, False), (mini_disasm [0x5B], True, False)]) = Inr 1
   \<and> map_sum id fst (feed mini_x86 (fresh mini_pattern)
     [(mini_disasm [0x53], True, False), (mini_disasm [0x59], True, False)]) = Inr (-2)"
proof -
  have g: "ps_insts mini_pattern \<noteq> []" "int (length (ps_insts mini_pattern)) \<le> ps_maximumInst mini_pattern"
    by code_simp+
  have st: "\<forall>pi \<in> set (ps_insts mini_pattern). straight_stmt pi"
    by (simp add: mini_pattern_def mini_stmt_def straight_stmt_def new_patternInst_def)
  let ?m = "\<lambda>b. match_all mini_x86 (ps_insts mini_pattern)
     [(mini_disasm [0x53], True, False), (mini_disasm [b], True, False)] (ps_crt (fresh mini_pattern))"
  have "map_sum id fst (?m 0x5B) = Inr 1" "map_sum id fst (?m 0x59) = Inr (-2)" by code_simp+
  then obtain c d where "?m 0x5B = Inr (1, c)" "?m 0x59 = Inr (-2, d)"
    by (cases "?m 0x5B"; cases "?m 0x59") auto
  then show ?thesis
    using straight_pattern_is_list_match [OF g(1) st g(2), where E = mini_x86 and
        xs = "[(mini_disasm [0x53], True, False), (mini_disasm [0x5B], True, False)]"]
      straight_pattern_is_list_match [OF g(1) st g(2), where E = mini_x86 and
        xs = "[(mini_disasm [0x53], True, False), (mini_disasm [0x59], True, False)]"]
    by auto
qed





text \<open>
  C7: The push/pop elimination returns on every trace without stray marks: it neither adds nor loses a
  record, keeps the address, registers and memory accesses of each, and can fault only by shifting a
  constant out of range.
\<close>

theorem pushpop_keeps_records:
  assumes "flags_apart U" "decoder_ok U" "nodes_ok seq" "marks_unary U seq"
  shows "keeps (same_records seq) (\<lambda>f. f = Bad_shift) (doDeobfuscateTempPushPop U seq)"
  using assms by (rule doDeobfuscateTempPushPop_keeps)

theorem pushpop_keeps_records_witness:
  "keeps (same_records mini_pair) (\<lambda>f. f = Bad_shift) (doDeobfuscateTempPushPop mini_ud mini_pair)"
proof (rule pushpop_keeps_records [OF mini_ud_ok])
  show "nodes_ok mini_pair" by code_simp
  have "list_all (\<lambda>e. \<not> has (tx_flags (snd e)) (RECORD_FLAG_MOVETOTOP mini_ud)) (is_nodes mini_pair)" by code_simp
  then show "marks_unary mini_ud mini_pair"
    by (fastforce simp: marks_unary_def rec_at_def list_all_iff dest: map_of_SomeD)
qed

text \<open>
  C8: The peephole pass on any trace ends, and can fault only by reading an operand that is not there.
  It neither adds, loses nor moves a record, keeps the address, registers and memory accesses of each,
  leaves records flagged before as they are, sets no flag but the one it marks with, and counts at
  most one hit for each record.
\<close>

theorem peephole_keeps_records:
  assumes "nodes_ok seq" "mark = (if flagonly then RECORD_FLAG_JUNK U else RECORD_FLAG_DELETE U)"
  shows "case doDeobfuscateNormal U seq flagonly of
      Inl f \<Rightarrow> f = Null_deref
    | Inr (nrc, seq') \<Rightarrow> ids seq' = ids seq \<and> same_records seq seq' \<and> 0 \<le> nrc \<and> nrc \<le> int (length (ids seq))
        \<and> (\<forall>n tr. rec_at seq n = Some tr \<longrightarrow> has (tx_flags tr) mark \<longrightarrow> rec_at seq' n = Some tr)
        \<and> (\<forall>n tr tr'. rec_at seq n = Some tr \<longrightarrow> rec_at seq' n = Some tr' \<longrightarrow>
             tx_flags tr' \<in> {tx_flags tr, tx_flags tr OR mark})"
  using doDeobfuscateNormal_kept [OF assms(1), of U flagonly]
  unfolding only_null_def peep_kept_def assms(2) [symmetric]
  by (cases "doDeobfuscateNormal U seq flagonly") (simp_all add: case_prod_beta)

theorem peephole_keeps_records_witness:
  "case doDeobfuscateNormal mini_ud mini_trace True of
      Inl f \<Rightarrow> f = Null_deref
    | Inr (nrc, seq') \<Rightarrow> ids seq' = [0, 1, 2] \<and> nrc \<le> 3"
proof -
  have "nodes_ok mini_trace" by code_simp
  moreover have "ids mini_trace = [0, 1, 2]" by code_simp
  ultimately show ?thesis
    using peephole_keeps_records [of mini_trace _ True mini_ud, OF _ refl] by (auto split: sum.splits prod.splits)
qed

section \<open>The windows\<close>

text \<open>
  C9: In every state the import call window can reach by its commands, while the debuggee changes as
  it likes, every call is filed once and under its own address, its code fits its array and its type
  is one that is saved and loaded unchanged; the resolved modules and functions are filed under the
  hashes of their names, in order; and every row of the table names a call.
\<close>

theorem iat_window_well_formed:
  assumes "codes_ok I" "iat_reachable N cfg I fr"
  shows "calls_ok (m_calls fr) \<and> list_all (\<lambda>e. code_ok I (snd e)) (m_calls fr) \<and> mods_ok (m_mods fr)
    \<and> list_all (\<lambda>r. \<exists>i. map_of (m_calls fr) (ic_cmdaddr r) = Some i \<and> ic_cmdaddr i = ic_cmdaddr r) (m_table fr)"
proof -
  have ok: "iat_ok I fr" by (rule iat_reachable_ok [OF assms(2,1)])
  have "\<exists>i. map_of (m_calls fr) (ic_cmdaddr r) = Some i \<and> ic_cmdaddr i = ic_cmdaddr r" if "r \<in> set (m_table fr)" for r
  proof -
    have "ic_cmdaddr r \<in> fst ` set (m_calls fr)" using ok that by (auto simp: iat_ok_def rows_ok_def)
    then obtain i where "map_of (m_calls fr) (ic_cmdaddr r) = Some i" by (metis map_of_eq_None_iff not_None_eq)
    then show ?thesis using iat_ok_call [OF ok] by blast
  qed
  then show ?thesis using ok by (simp add: iat_ok_def list_all_iff)
qed

theorem iat_window_well_formed_witness:
  "m_calls mini_added \<noteq> [] \<and> calls_ok (m_calls mini_added)
    \<and> list_all (\<lambda>e. code_ok mini_iat (snd e)) (m_calls mini_added)"
  using iat_window_well_formed [OF mini_codes_ok mini_added_reachable] by (simp add: mini_added(1))





text \<open>
  C12: When an entry of an import table is traced to a function, the function is told the slot, and
  every call of that function through memory is then fixed to a call through exactly this slot; the
  slots of other functions stay.
\<close>

theorem told_slot_is_used:
  assumes "traceIAT cfg I (table_call (a + of_nat (k * 4))) fr = Inr ((True, i), fr1)"
    and "hitIATCallModule I i fr1 = Inr ((Some (mh, fh), i'), fr2)"
    and "fst (dbg_read I p (junk I 4)) = 4" "a + of_nat (k * 4) \<noteq> 0" "mods_ok (m_mods fr)"
  shows "\<exists>fr'. area_entry cfg I a False (k, p) (ws, fr) = Inr (ws, fr')
    \<and> (\<forall>j. ic_calltype j = iatcall_callmem \<and> ic_retaddr j = ic_cmdaddr j + 6
          \<and> ic_modhash j = mh \<and> ic_funchash j = fh \<longrightarrow>
         fixIATCall (m_mods fr') False j
           = (True, [(ic_cmdaddr j, [0xFF, 0x15] @ le_bytes (a + of_nat (k * 4)))], j\<lparr>ic_fixedState := fixed_realmode\<rparr>))
    \<and> (\<forall>j. (ic_modhash j, ic_funchash j) \<noteq> (mh, fh) \<longrightarrow> known_slot (m_mods fr') j = known_slot (m_mods fr2) j)"
proof -
  obtain fr' where f: "area_entry cfg I a False (k, p) (ws, fr) = Inr (ws, fr')"
      "\<And>j. known_slot (m_mods fr') j =
         (if ic_modhash j = mh \<and> ic_funchash j = fh then Some (a + of_nat (k * 4)) else known_slot (m_mods fr2) j)"
    using told_slot [OF assms, of ws] by blast
  then show ?thesis using slot_fix [of "m_mods fr'"] by auto
qed

theorem told_slot_is_used_witness:
  "\<exists>fr'. area_entry mini_config mini_iat 0x403000 False (0, 0x77000010) ([], mini_win) = Inr ([], fr')
    \<and> (let j = zero_info\<lparr>ic_cmdaddr := 0x401000, ic_calltype := iatcall_callmem, ic_retaddr := 0x401006,
                 ic_modhash := 107, ic_funchash := 65\<rparr>
       in fixIATCall (m_mods fr') False j
          = (True, [(0x401000, [0xFF, 0x15, 0, 0x30, 0x40, 0])], j\<lparr>ic_fixedState := fixed_realmode\<rparr>))"
proof -
  have t: "traceIAT mini_config mini_iat (table_call (0x403000 + of_nat (0 * 4))) mini_win = Inr ((True, mini_filed), mini_after)"
    using mini_trace_entry by simp
  have r: "fst (dbg_read mini_iat 0x77000010 (junk mini_iat 4)) = 4" by (simp add: mini_iat_def)
  have m: "mods_ok (m_mods mini_win)" by (simp add: mini_win_def new_iat_frame_def)
  have b: "le_bytes 0x403000 = [0, 0x30, 0x40, 0]" by code_simp
  show ?thesis
    using told_slot_is_used [OF t mini_hit(2) r _ m, of "[]"] b by (auto simp: Let_def)
qed

text \<open>
  C13: Saving the records of the import call window and loading them into any window gives the calls
  that were saved, but for their targets and marks in the window, and the modules and functions, but
  for the member that is not set.
\<close>

theorem imports_roundtrip:
  assumes "npacket_laws N" "codes_ok I" "iat_reachable N cfg I fr" "saveRecords N I fr = Inr (data, saved)"
  shows "m_mods (loadRecords N I jh data other) = map (\<lambda>(k, m). (k, loaded_module jh m)) (m_mods saved)
    \<and> map_option saved_part (map_of (m_calls (loadRecords N I jh data other)) a)
      = map_option saved_part (map_of (m_calls saved) a)"
  using saved_is_loaded [OF assms(1,2) iat_reachable_ok [OF assms(3,2)] assms(4)] by blast

theorem imports_roundtrip_witness:
  "\<exists>data saved. saveRecords mini_file mini_iat mini_added = Inr (data, saved)
     \<and> map_option (\<lambda>i. (ic_calltype i, ic_callto i)) (map_of (m_calls (loadRecords mini_file mini_iat 7 data mini_after)) 0x403000)
       = Some (iatcall_memaddr, 0x403000)
     \<and> m_mods (loadRecords mini_file mini_iat 7 data mini_after) = []"
proof -
  let ?i = "(table_call 0x403000)\<lparr>ic_addr := 1\<rparr>"
  have "hitIATCallModule mini_iat ?i mini_added = Inr ((None, ?i), mini_added)"
    by (simp add: hitIATCallModule_def table_call_def zero_info_def)
  then obtain data saved where s: "saveRecords mini_file mini_iat mini_added = Inr (data, saved)"
      "m_mods saved = []" "map_of (m_calls saved) 0x403000 = Some ?i"
    by (simp add: saveRecords_def hit_one_def mini_added map_of_kl_upd)
  note r = imports_roundtrip [OF mini_file_laws mini_codes_ok mini_added_reachable [of mini_file "mini_config"] s(1), of 7 mini_after]
  obtain j where j: "map_of (m_calls (loadRecords mini_file mini_iat 7 data mini_after)) 0x403000 = Some j"
      "saved_part j = saved_part ?i"
    using r [of "0x403000"] s(3) by auto
  have "ic_calltype j = iatcall_memaddr" "ic_callto j = 0x403000"
    using arg_cong [OF j(2), of ic_calltype] arg_cong [OF j(2), of ic_callto]
    by (simp_all add: saved_part_def table_call_def)
  then show ?thesis using s j(1) r by auto
qed

text \<open>
  C14: Saving the window of code blocks in any state it can reach that is not empty, and loading the
  file into any window, gives the blocks that were saved, with every member the window uses and their
  instructions renumbered in order, the logs in order under new numbers, and the templates.
\<close>

theorem blocks_roundtrip:
  assumes "block_reachable N Y T fr" "npacket_laws N" "at_end (seq_place B)" "blocks_storable Y fr"
    and "bf_seqs fr \<noteq> [] \<or> bf_sseq fr \<noteq> [] \<or> bf_setpl fr \<noteq> []"
  shows "\<exists>fr1. loadBlocksFile B cfg N Y (saveBlocks N Y fr) fr0 = Inr (0, fr1)
    \<and> bf_seqs fr1 = map (\<lambda>(k, b). (k, renumbered B b)) (bf_seqs fr)
    \<and> bf_sseq fr1 = zip (map of_nat [0..<length (bf_sseq fr)]) (map snd (bf_sseq fr))
    \<and> bf_setpl fr1 = bf_setpl fr"
  using saved_blocks_loaded [OF assms(2,3) _ _ assms(4,5)] block_reachable_ok [OF assms(1)]
  by (simp add: block_ok_def)

theorem blocks_roundtrip_witness:
  "\<exists>fr1. loadBlocksFile mini_blocks mini_settings mini_block_file mini_struct
       (saveBlocks mini_block_file mini_struct mini_bf1) mini_bf0 = Inr (0, fr1)
     \<and> map (\<lambda>(k, b). (k, rips b)) (bf_seqs fr1) = [(0, rips mini_left), (1, rips mini_right)]"
proof -
  have menu: "Block_Table_MenuProc mini_blocks mini_settings mini_block_file mini_struct mini_patterns
      \<lparr>bc_sel = 0, bc_file = None, bc_path = Some [], bc_script = None, bc_text = None\<rparr>
      xvm_blockexec_menu_analyserrecords mini_bf0 = Inr (No_out, mini_bf1)"
    by (simp add: Block_Table_MenuProc_def mini_bf1_def)
  have r: "block_reachable mini_block_file mini_struct mini_patterns mini_bf1"
    using br_step [OF br_new [of _ _ _ mini_blocks 0 0] bs_menu [OF mini_detects]] menu unfolding mini_bf0_def by blast
  have "renumbered mini_blocks mini_left = mini_left" "renumbered mini_blocks mini_right = mini_right" by code_simp+
  moreover have "blocks_storable mini_struct mini_bf1" using mini_blocks_storable mini_bf1 mini_bf3
    by (simp add: blocks_storable_def)
  ultimately show ?thesis
    using blocks_roundtrip [OF r mini_block_file_laws mini_place, of mini_settings mini_bf0] mini_bf1 by force
qed

text \<open>
  C15: A direct fix that succeeds writes one call or jump whose target is the resolved one; for a
  call, the bytes end at the return address.
\<close>

theorem direct_fix_reaches_target:
  assumes "fixIATCall mods True i = (True, ws, i')"
    and "ic_calltype i \<in> {iatcall_call, iatcall_jmp, iatcall_callmem, iatcall_jmpmem, iatcall_pushret}"
  shows "\<exists>at bs. ws = [(at, bs)] \<and> 5 \<le> length bs
    \<and> hd bs = (if is_call (ic_calltype i) then 0xE8 else 0xE9)
    \<and> at + 5 + le_word (take 4 (tl bs)) = ic_result_addr i
    \<and> (is_call (ic_calltype i) \<longrightarrow> at + of_nat (length bs) = ic_retaddr i)"
  by (rule direct_fix [OF assms])

theorem direct_fix_reaches_target_witness:
  "let i = zero_info\<lparr>ic_cmdaddr := 0x401000, ic_calltype := iatcall_callmem, ic_retaddr := 0x401006, ic_result_addr := 0x77000010\<rparr>
   in \<exists>i' at bs. fixIATCall [] True i = (True, [(at, bs)], i') \<and> at + 5 + le_word (take 4 (tl bs)) = 0x77000010
     \<and> at + of_nat (length bs) = 0x401006"
proof -
  let ?i = "zero_info\<lparr>ic_cmdaddr := 0x401000, ic_calltype := iatcall_callmem, ic_retaddr := 0x401006, ic_result_addr := 0x77000010\<rparr>"
  obtain ws i' where f: "fixIATCall [] True ?i = (True, ws, i')"
    by (simp add: fixIATCall_def fix_callmem_def zero_info_def)
  have c: "ic_calltype ?i = iatcall_callmem" "ic_retaddr ?i = 0x401006" "ic_result_addr ?i = 0x77000010" by simp_all
  show ?thesis
    using direct_fix_reaches_target [OF f] f unfolding c by (auto simp: is_call_def Let_def)
qed

text \<open>
  C16: After a trace file was analysed, following the debuggee to an address highlights exactly the
  blocks that have an instruction at this address.
\<close>

theorem sync_finds_blocks:
  assumes "detect_file B path [] = (bs, ls)" "fr1 = analyserTraceFile B cfg path fr"
    and "bf_hFrame fr1" "\<not> bf_skipNext fr1" "syncByRip rip fr1 = Inr (n, fr2)"
  shows "set (bf_hilSeqs fr2) = cb_seqID ` {b \<in> set bs. rip \<in> set (rips b)}"
  using analysed_index [OF assms(1), of cfg fr] sync_highlights [OF _ assms(3-5)] unfolding assms(2) by auto

theorem sync_finds_blocks_witness:
  "\<exists>n fr2. syncByRip 0x401100 (analyserTraceFile mini_blocks mini_settings [] (mini_bf0\<lparr>bf_hFrame := True\<rparr>)) = Inr (n, fr2)
    \<and> set (bf_hilSeqs fr2) = {0, 1}"
proof -
  let ?fr = "analyserTraceFile mini_blocks mini_settings [] (mini_bf0\<lparr>bf_hFrame := True\<rparr>)"
  let ?r = "syncByRip 0x401100 ?fr"
  have s: "isl ?r = False" "bf_hFrame ?fr" "\<not> bf_skipNext ?fr" by code_simp+
  then obtain n fr2 where r: "?r = Inr (n, fr2)" by (cases ?r) auto
  have d: "detect_file mini_blocks [] [] = ([mini_left, mini_right], [])" by code_simp
  have "{b \<in> set [mini_left, mini_right]. 0x401100 \<in> set (rips b)} = {mini_left, mini_right}"
  proof -
    have "0x401100 \<in> set (rips mini_left)" "0x401100 \<in> set (rips mini_right)" by code_simp+
    then show ?thesis by auto
  qed
  then have "set (bf_hilSeqs fr2) = {0, 1}"
    using sync_finds_blocks [OF d refl s(2,3) r] by (simp add: mini_left_def mini_right_def mini_block_def)
  then show ?thesis using r by blast
qed

text \<open>
  C17: The handlers that were traced are filed under consecutive numbers, each cut at the largest
  address at which one of the first seven meets a later one for the first time, however often they
  meet elsewhere.
\<close>

theorem handlers_cut_at_largest_meeting:
  assumes "length seqs < 2 ^ 32" "i < length seqs"
  shows "findSeq (bf_unqID fr + of_nat i) (conciseSequences B seqs fr)
    = Some (filed_block (if meetings 7 seqs = {} then 0 else Max (meetings 7 seqs)) (bf_unqID fr + of_nat i) (seqs ! i))"
  using handlers_filed [OF assms, of fr B] by (simp only: block_end_max)

theorem handlers_cut_at_largest_meeting_witness:
  "\<exists>E. findSeq 1 (conciseSequences mini_blocks [mini_left, mini_right] mini_bf0) = Some (filed_block E 1 mini_right)
    \<and> rips (filed_block E 1 mini_right) = [0x401020, 0x401022, 0x401024]"
proof -
  let ?E = "if meetings 7 [mini_left, mini_right] = {} then 0 else Max (meetings 7 [mini_left, mini_right])"
  have "findSeq (bf_unqID mini_bf0 + of_nat 1) (conciseSequences mini_blocks [mini_left, mini_right] mini_bf0)
      = Some (filed_block ?E (bf_unqID mini_bf0 + of_nat 1) ([mini_left, mini_right] ! 1))"
    by (rule handlers_cut_at_largest_meeting) simp_all
  moreover have "bf_unqID mini_bf0 = 0" by code_simp
  ultimately have f: "findSeq 1 (conciseSequences mini_blocks [mini_left, mini_right] mini_bf0) = Some (filed_block ?E 1 mini_right)"
    by simp
  have "map_option rips (findSeq 1 (conciseSequences mini_blocks [mini_left, mini_right] mini_bf0))
      = Some [0x401020, 0x401022, 0x401024]" by code_simp
  then have "rips (filed_block ?E 1 mini_right) = [0x401020, 0x401022, 0x401024]"
    unfolding f option.map option.inject .
  then show ?thesis using f by blast
qed

text \<open>
  C18: Adding a log of an execution always returns, as long as a number is free; it is filed under a
  number no log has, with its requests to name the block taken off, and every other log stays as it
  was.
\<close>

theorem new_log_keeps_others:
  assumes "length (bf_sseq fr) < 2 ^ 32"
  shows "\<exists>sid fr'. addBlockExecLog B cfg se start fr = Inr (sid, fr') \<and> sid \<notin> fst ` set (bf_sseq fr)
    \<and> map_of (bf_sseq fr') = (map_of (bf_sseq fr))(sid \<mapsto> settled se)"
  using assms by (rule added_log)

theorem new_log_keeps_others_witness:
  "\<exists>sid fr'. addBlockExecLog mini_blocks mini_settings (mini_log 1 0x1008 0) 1 mini_bf3 = Inr (sid, fr') \<and> sid \<notin> {0, 1}
    \<and> map_of (bf_sseq fr') 1 = Some (mini_log 1 0x1004 2)"
proof -
  have "length (bf_sseq mini_bf3) < 2 ^ 32" using mini_bf3 by simp
  from new_log_keeps_others [OF this, of mini_blocks mini_settings "mini_log 1 0x1008 0" 1] show ?thesis
    using mini_bf3 by fastforce
qed

text \<open>
  C19: Caching the exports of a module files it under its base with its range, and at every relative
  address the export table has the first export with this address and nothing else; other modules stay
  as they were.
\<close>

theorem export_table_is_first_of_each:
  assumes "cache_module m ed ex cache = Inr (r, cache')" "im_sorted cache" "map_of cache (tm_base m) = None"
  shows "\<exists>c. r = Some c \<and> map_of cache' = (map_of cache)(tm_base m \<mapsto> c)
    \<and> im_addrbase c = tm_base m \<and> im_addrend c = tm_base m + tm_size m
    \<and> (\<forall>i < unat (ed_NumberOfFunctions ed). \<exists>x. ex i = Inr x)
    \<and> (\<forall>rva x. map_of (im_apis c) rva = Some x \<longleftrightarrow>
         (\<exists>i < unat (ed_NumberOfFunctions ed). ex i = Inr x \<and> ia_addr x = rva
            \<and> (\<forall>j < i. \<forall>y. ex j = Inr y \<longrightarrow> ia_addr y \<noteq> rva)))"
proof -
  obtain nm apis where a: "foldF (add_export ex) [0..<unat (ed_NumberOfFunctions ed)] [] = Inr apis"
      "cache' = im_insert (tm_base m) \<lparr>im_addrbase = tm_base m, im_addrend = tm_base m + tm_size m, im_apis = apis, im_name = nm\<rparr> cache"
      "r = map_of cache' (tm_base m)"
    using assms(1) by (auto simp: cache_module_def bindF_Inr_eq Let_def split: option.splits)
  have k: "tm_base m \<notin> fst ` set cache" using assms(3) by (simp add: map_of_eq_None_iff)
  have c: "map_of cache' = (map_of cache)(tm_base m \<mapsto>
      \<lparr>im_addrbase = tm_base m, im_addrend = tm_base m + tm_size m, im_apis = apis, im_name = nm\<rparr>)"
    unfolding a(2) using map_of_im_insert [OF assms(2)] k by (auto simp: fun_eq_iff)
  show ?thesis using add_exports [OF a(1)] a(3) unfolding c by simp
qed

theorem export_table_is_first_of_each_witness:
  "let ex = (\<lambda>i. if i < 2 then Inr (mini_api\<lparr>ia_base := of_nat i\<rparr>) else Inl Array_overflow);
       ed = \<lparr>ed_Base = 1, ed_NumberOfFunctions = 2, ed_NumberOfNames = 0, ed_AddressOfFunctions = 0,
             ed_AddressOfNames = 0, ed_AddressOfNameOrdinals = 0\<rparr>
   in \<exists>c cache. cache_module mini_module ed ex [] = Inr (Some c, cache)
        \<and> map_of (im_apis c) 0x10 = Some (mini_api\<lparr>ia_base := 0\<rparr>) \<and> map_of (im_apis c) 0x11 = None"
proof -
  let ?ex = "\<lambda>i. if i < 2 then Inr (mini_api\<lparr>ia_base := of_nat i\<rparr>) else Inl Array_overflow"
  let ?ed = "\<lparr>ed_Base = 1, ed_NumberOfFunctions = 2, ed_NumberOfNames = 0, ed_AddressOfFunctions = 0,
             ed_AddressOfNames = 0, ed_AddressOfNameOrdinals = 0\<rparr>"
  obtain r cache where e: "cache_module mini_module ?ed ?ex [] = Inr (r, cache)"
    by (auto simp: cache_module_def mini_module_def findModName_def upt_rec add_export_def Let_def)
  obtain c where c: "r = Some c"
      "\<forall>rva x. map_of (im_apis c) rva = Some x \<longleftrightarrow>
         (\<exists>i < unat (2 :: 32 word). ?ex i = Inr x \<and> ia_addr x = rva \<and> (\<forall>j < i. \<forall>y. ?ex j = Inr y \<longrightarrow> ia_addr y \<noteq> rva))"
    using export_table_is_first_of_each [OF e] by (auto simp: im_sorted_def)
  have "map_of (im_apis c) 0x10 = Some (mini_api\<lparr>ia_base := 0\<rparr>)"
    unfolding c(2) [THEN spec, THEN spec] by (intro exI [of _ 0]) (simp add: mini_api_def)
  moreover have "map_of (im_apis c) 0x11 \<noteq> Some x" for x
    unfolding c(2) [THEN spec, THEN spec] by (auto simp: mini_api_def)
  then have "map_of (im_apis c) 0x11 = None" by (cases "map_of (im_apis c) 0x11") auto
  ultimately show ?thesis using e c(1) by (auto simp: Let_def)
qed



section \<open>Loading and running patterns\<close>



text \<open>
  C22: initForTest puts exactly the switched-on patterns of the wanted mode in play, in the order of
  loading, returns their number, links each to its neighbours, and resets them to their first
  statement with nothing counted and nothing bound; the others are untouched.
\<close>

theorem initForTest_selects:
  "\<exists>eng' L. initForTest b eng = Inr (int (length L), eng') \<and> linked eng' L
    \<and> L = filter (\<lambda>i. \<not> has (ps_flags (seq_at eng i)) PATTERN_SEQ_FLAG_OFF
            \<and> ps_mode (seq_at eng i) = (if b then mode_reverse else mode_sequence)) [0..<length (pe_patterns eng)]
    \<and> (\<forall>i. if i \<in> set L
           then identity (seq_at eng' i) = identity (seq_at eng i)
             \<and> list_all (\<lambda>pi. pi_matched_count pi = 0 \<and> pi_userdata pi = None) (ps_insts (seq_at eng' i))
             \<and> crt_inst (ps_crt (seq_at eng' i)) = (if ps_insts (seq_at eng i) = [] then None else Some 0)
             \<and> crt_count (ps_crt (seq_at eng' i)) = 0 \<and> crt_vars (ps_crt (seq_at eng' i)) = Map.empty
             \<and> crt_opvars (ps_crt (seq_at eng' i)) = ps_dyops (seq_at eng i)
           else seq_at eng' i = seq_at eng i)"
proof -
  obtain eng' where "initForTest b eng = Inr (int (length (chosen b eng)), eng')" "linked eng' (chosen b eng)"
      "\<forall>i. if i \<in> set (chosen b eng) then relink None None (seq_at eng' i) = fresh (seq_at eng i)
           else seq_at eng' i = seq_at eng i"
    using initForTest_list [of b eng] unfolding chosen_def by blast
  then show ?thesis using fresh_start
    by (intro exI [of _ eng'] exI [of _ "chosen b eng"]) (auto simp: chosen_def selected_def wanted_def)
qed

text \<open>
  C23: A step of a well-formed pattern keeps it well formed and changes nothing of its statements but
  their match counters and the record noted with them; it faults only by an overflow of new variables
  or in arithmetic.
\<close>

theorem step_frame_safe:
  assumes "wf_seq s" "env_small E" "small_ins ins"
  shows "keeps (\<lambda>s'. wf_seq s' \<and> same_stmts s s') step_fault (testForSequence E s ins esp efl ud)"
  using testForSequence_keeps [OF assms] by (simp add: step_inv_def [abs_def])

theorem step_frame_safe_witness:
  "keeps (\<lambda>s'. wf_seq s' \<and> same_stmts (fresh mini_pattern) s') step_fault
    (testForSequence mini_x86 (fresh mini_pattern) (mini_disasm [0x53]) True False (Some 7))"
  by (rule step_frame_safe [OF mini_fresh mini_ins_small])

text \<open>
  C24: In every run of the engine the patterns in play form a consistent linked list and are among
  those selected at the start; no pattern is added or lost.
\<close>

theorem engine_run_only_selected:
  assumes "engine_run E b eng0 eng"
  shows "\<exists>L. linked eng L \<and> set L \<subseteq> set (chosen b eng0)
    \<and> length (pe_patterns eng) = length (pe_patterns eng0)"
  using assms by (rule engine_run_in_play)

theorem engine_run_only_selected_witness:
  "\<exists>L. linked mini_started L \<and> set L \<subseteq> set (chosen False mini_engine)
    \<and> length (pe_patterns mini_started) = length (pe_patterns mini_engine)"
proof -
  obtain n e where "initForTest False mini_engine = Inr (n, e)" using initForTest_list by blast
  then have "engine_run mini_x86 False mini_engine mini_started"
    by (auto simp: mini_started_def intro: engine_run.start)
  then show ?thesis by (rule engine_run_only_selected)
qed



section \<open>Variables, expressions and statements\<close>

text \<open>
  C26: On a table whose entries name no variables, resolveVar returns, with one look-up per member, if
  the size variable the operand names is bound.
\<close>

theorem resolveVar_total:
  assumes "vars_resolved crt"
    and "0 < po_szid pop \<Longrightarrow> crt_vars crt (varid pattern_op_size (po_szid pop)) \<noteq> None"
  shows "resolveVar crt op pop = Inr (resolve1 crt pop op)"
  using assms by (rule resolveVar_resolve1)

theorem resolveVar_total_witness:
  "resolveVar mini_crt ((new_pasm_operand mini_x86)\<lparr>pa_base := varid pattern_op_reg 1\<rparr>) new_pattern_op
    = Inr ((new_pasm_operand mini_x86)\<lparr>pa_base := 3\<rparr>)"
proof -
  have r: "resolve1 mini_crt new_pattern_op ((new_pasm_operand mini_x86)\<lparr>pa_base := varid pattern_op_reg 1\<rparr>)
      = (new_pasm_operand mini_x86)\<lparr>pa_base := 3\<rparr>"
    by (simp add: resolve1_def chase1_def new_pattern_op_def mini_crt_def new_seqRuntime_def
        new_pasm_operand_def mini_x86_def varid_def op_varid_base_def)
  show ?thesis
    unfolding r [symmetric] by (rule resolveVar_total [OF mini_crt_resolved]) (simp add: new_pattern_op_def)
qed

text \<open>
  C27: calculateExpress computes expressions of literals, bound variables, sums, differences,
  products, bitwise operators, complement and negation as over the integers, reduced modulo 2 to the
  64.
\<close>

theorem calculateExpress_wraps:
  assumes "ideal_expr (var_env crt) e = Some x"
  shows "calculateExpress crt e val = Inr (0, word_of_int x)"
  using assms by (rule calculateExpress_ideal)

theorem calculateExpress_wraps_witness:
  "calculateExpress mini_crt (nexpr_node False True nexpr_oper_mul
     (Some (nexpr_node False False nexpr_oper_add (Some (nexpr_value_var False False ''imm1''))
       (Some (nexpr_value_imm False False 0x7FFFFFFFFFFFFFFF))))
     (Some (nexpr_value_imm False False 3))) 0 = Inr (0, 0x7FFFFFFFFFFFFFF4)"
proof -
  let ?e = "nexpr_node False True nexpr_oper_mul
     (Some (nexpr_node False False nexpr_oper_add (Some (nexpr_value_var False False ''imm1''))
       (Some (nexpr_value_imm False False 0x7FFFFFFFFFFFFFFF))))
     (Some (nexpr_value_imm False False 3))"
  have "ideal_expr (var_env mini_crt) ?e = Some (- ((5 + 0x7FFFFFFFFFFFFFFF) * 3))" by code_simp
  from calculateExpress_wraps [OF this, of 0] show ?thesis by simp
qed

text \<open>
  C28: When the look-ahead of a lazy statement fails on a statement without memory expressions, the
  variables are exactly those before the try, and the position is kept.
\<close>

theorem failed_lookahead_rolls_back:
  assumes "has (pi_flags (ps_insts s ! i)) PATTERN_FLAG_LESSMATCH"
    and "pi_matched_count (ps_insts s ! i) \<noteq> pi_maxc (ps_insts s ! i)"
    and "next_inst s i = Some j" "plain_stmt (ps_insts s ! j)"
    and "isMatchInst E s j ins esp efl = Inr (st, s1)" "st < 0"
  shows "\<exists>s'. matched_step E s i ins esp efl ud = Inr ((), s')
    \<and> crt_vars (ps_crt s') = crt_vars (ps_crt s) \<and> crt_inst (ps_crt s') = crt_inst (ps_crt s1)"
  using assms by (rule matched_step_rollback)

theorem failed_lookahead_rolls_back_witness:
  "\<exists>s'. matched_step mini_x86 mini_lazy 0 (mini_disasm [0x53]) True False (Some 1) = Inr ((), s')
    \<and> crt_vars (ps_crt s') = crt_vars (ps_crt mini_lazy)"
proof -
  let ?m = "isMatchInst mini_x86 mini_lazy 1 (mini_disasm [0x53]) True False"
  have "map_sum id fst ?m = Inr (-1)" by code_simp
  then obtain s1 where m: "?m = Inr (-1, s1)" by (cases ?m) auto
  have g: "has (pi_flags (ps_insts mini_lazy ! 0)) PATTERN_FLAG_LESSMATCH"
      "pi_matched_count (ps_insts mini_lazy ! 0) \<noteq> pi_maxc (ps_insts mini_lazy ! 0)"
      "next_inst mini_lazy 0 = Some 1"
    by code_simp+
  have "plain_stmt (ps_insts mini_lazy ! 1)"
    by (simp add: plain_stmt_def mini_lazy_def mini_stmt_def new_patternInst_def mini_body_def new_pattern_op_def)
  from failed_lookahead_rolls_back [OF g this m] show ?thesis by auto
qed

section \<open>Replacements\<close>



section \<open>The debugger\<close>

text \<open>
  C30: Settings written to a packet buffer and read back into any settings record are the settings
  written, for a buffer that returns the fields put into it.
\<close>

theorem settings_roundtrip:
  assumes "packet_laws P" "storable cfg" "length (recentPASM old) = DEFAULT_RECENTPASM_NUM"
  shows "loadxvmcfg P (savexvmcfg P (pk_empty P) cfg) old = cfg"
  using assms by (rule load_save)

theorem settings_roundtrip_witness:
  "loadxvmcfg mini_packet (savexvmcfg mini_packet [] mini_config) mini_config = mini_config"
proof -
  have st: "storable mini_config"
    by (simp add: mini_config_def storable_def loadxvmcfg_def mini_packet_def load_recent_def calls_of_def
        DEFAULT_RECENTPASM_NUM_def lit_def code_of_def)
  have "length (recentPASM mini_config) = DEFAULT_RECENTPASM_NUM" using st by (simp add: storable_def)
  from settings_roundtrip [OF mini_packet_laws st this] show ?thesis by (simp add: mini_packet_def)
qed





text \<open>
  C33: The targets computed for a short conditional jump are the real ones exactly when its
  displacement byte is below 0x80, that is, for jumps forward.
\<close>

theorem jcc_short_forward_only:
  assumes "0x70 \<le> op" "op \<le> 0x7F"
  shows "jcc_targets (op # d # rest) rip = Some (rip + 2, short_target rip d) \<longleftrightarrow> d < 0x80"
  using assms by (rule jcc_short_target)

theorem jcc_short_forward_only_witness:
  "jcc_targets [0x75, 0xFE] 0x401000 \<noteq> Some (0x401002, short_target 0x401000 0xFE)
    \<and> jcc_targets [0x75, 0x10] 0x401000 = Some (0x401002, short_target 0x401000 0x10)"
  using jcc_short_forward_only [of "0x75" "0xFE" "[]" "0x401000"]
    jcc_short_forward_only [of "0x75" "0x10" "[]" "0x401000"] by simp

section \<open>Temporary pushes and pops\<close>

text \<open>
  C34: Folding add, sub, xor, and, or, shl or shr with a constant gives, at the operand's size, what
  the processor computes, and leaves the higher bits alone.
\<close>

theorem folded_binary_is_processor:
  assumes "LENGTH('w::len) = lv_bits sz" "is_binary m" "fold_binary m sz i lv = Inr v"
  shows "(ucast v :: 'w word) = reg_binary m (nat (sint i)) (ucast i) (ucast lv)
    \<and> drop_bit (lv_bits sz) v = drop_bit (lv_bits sz) lv"
  using fold_binary_reg [OF assms] by blast

theorem folded_binary_is_processor_witness:
  "(ucast (projr (fold_binary UD_Isub 16 3 0x10001)) :: 16 word) = 0xFFFE"
proof -
  have "fold_binary UD_Isub 16 3 0x10001 = Inr (projr (fold_binary UD_Isub 16 3 0x10001))"
    by (simp add: fold_binary_def)
  from folded_binary_is_processor [where 'w = 16, OF _ _ this] show ?thesis
    by (simp add: lv_bits_def is_binary_def reg_binary_def)
qed

section \<open>Faults\<close>

text \<open>
  C35: Of two moves to the same register the peephole pass drops the first, also when the second reads
  the register: the trace then computes something else whenever the value moved first is not what the
  register held.
\<close>

theorem self_move_changes_result:
  assumes "2 \<le> length ws" "IsSameOperand U (op01 ws) (op11 ws)"
    and "rinsn_of U (insn ws 0) = Some (Op2 UD_Imov r x)" "rinsn_of U (insn ws 1) = Some (Op2 UD_Imov r (Reg r))"
    and "src_val x st \<noteq> st r"
  shows "peep U ws = Inr (True, [Drop 0])
    \<and> run [Op2 UD_Imov r (Reg r)] st \<noteq> run [Op2 UD_Imov r x, Op2 UD_Imov r (Reg r)] st"
proof -
  have "mn ws 0 = UD_Imov" "mn ws 1 = UD_Imov"
    using assms(3,4) by (simp_all add: rinsn_of_Op2 mn_def)
  then have "peep U ws = Inr (True, [Drop 0])"
    using assms(2)
    by (simp add: peep_def first_switch_def mov_rule_def mov_mov_rule_def hit_def drop_at_def or_else_def)
  moreover have "run [Op2 UD_Imov r (Reg r)] st r \<noteq> run [Op2 UD_Imov r x, Op2 UD_Imov r (Reg r)] st r"
    using assms(5) by (simp add: run_def)
  ultimately show ?thesis by metis
qed

theorem self_move_changes_result_witness:
  "peep mini_regs mini_self = Inr (True, [Drop 0])
    \<and> run [Op2 UD_Imov 1 (Reg 1)] (\<lambda>r. 0) \<noteq> run [Op2 UD_Imov 1 (Imm 5), Op2 UD_Imov 1 (Reg 1)] (\<lambda>r. 0)"
  by (rule self_move_changes_result; code_simp)

text \<open>
  C36: A push followed by a store of y relative to the stack pointer becomes a push of y, whatever the
  displacement of the store is, although only a store at displacement 0 overwrites what was pushed.
\<close>

theorem stored_push_ignores_displacement:
  assumes "ui_mnemonic i0 = UD_Ipush" "ui_opr i0 0 = Some x"
    and "\<not> IsRegister U (Some x) (udex_get_rel_reg U (UD_R_RSP U) (uo_size x)) False"
    and "ui_mnemonic i1 = UD_Imov" "ui_opr i1 1 = Some y" "\<not> IsRegister U (Some y) (UD_R_RSP U) True"
    and "uo_type m = UD_OP_MEM U" "ui_opr_mode i1 = uo_size m" "uo_base m = UD_R_ESP U"
      "uo_index m = UD_NONE U" "uo_scale m = 0"
  shows "peep U [(n0, t0, i0), (n1, t1, i1\<lparr>ui_opr := (ui_opr i1)(0 := Some (m\<lparr>uo_lval := d\<rparr>))\<rparr>)]
    = (let new = udex_init U UD_Ipush (tr_rip (tx_ctx1 t0))
       in Inr (True, [Emit 0 (new\<lparr>ui_opr := (ui_opr new)(0 := Some y)\<rparr>), Drop 1]))"
proof -
  let ?ws = "[(n0, t0, i0), (n1, t1, i1\<lparr>ui_opr := (ui_opr i1)(0 := Some (m\<lparr>uo_lval := d\<rparr>))\<rparr>)]"
  have "push_mov_rule U ?ws = store_top U ?ws"
    using assms by (simp add: push_mov_rule_def opr_def insn_def op_is_def deref_def first_of.simps all_of.simps)
  then show ?thesis
    using assms
    by (simp add: peep_def first_switch_def push_rule_def mn_def insn_def store_top_def opr_def deref_def
        emit_def rip_of_def hit_def drop_at_def or_else_def Let_def)
qed

theorem stored_push_ignores_displacement_witness:
  "case peep mini_ud [(0, mini_rec 0x401000 0 0 0, reg_insn UD_Ipush [opd_reg 1]),
      (1, mini_rec 0x401001 0 0 0, reg_insn UD_Imov [mini_uop 4 5 8, opd_reg 2])] of
    Inr (True, [Emit 0 ud, Drop k]) \<Rightarrow> ui_mnemonic ud = UD_Ipush \<and> ui_opr ud 0 = Some (opd_reg 2) \<and> k = 1 | _ \<Rightarrow> False"
proof -
  let ?x = "reg_insn UD_Imov [mini_uop 4 5 0, opd_reg 2]"
  have e: "reg_insn UD_Imov [mini_uop 4 5 8, opd_reg 2]
      = ?x\<lparr>ui_opr := (ui_opr ?x)(0 := Some (mini_uop 4 5 0\<lparr>uo_lval := 8\<rparr>))\<rparr>"
    by (auto simp: reg_insn_def mini_uop_def fun_eq_iff)
  show ?thesis
    unfolding e
    by (subst stored_push_ignores_displacement [where x = "opd_reg 1" and y = "opd_reg 2"])
      (simp_all add: reg_insn_def mini_uop_def mini_ud_def mini_is_reg_def Let_def)
qed



text \<open>
  C38: A jump of five bytes is fixed through its slot by writing six bytes, so the byte after the jump
  is overwritten.
\<close>

theorem jump_fix_overruns:
  assumes "known_slot mods i = Some slot" "ic_calltype i = iatcall_jmp" "\<not> ic_hasHead i" "ic_szop i = 5"
  shows "\<exists>bs. fixIATCall mods False i = (True, [(ic_cmdaddr i, bs)], i\<lparr>ic_fixedState := fixed_realmode\<rparr>)
    \<and> int (length bs) = ic_szop i + 1"
  using slot_jmp [OF assms(1-3)] assms(4) by (simp add: le_bytes_def)

theorem jump_fix_overruns_witness:
  "let i = zero_info\<lparr>ic_cmdaddr := 0x401000, ic_calltype := iatcall_jmp, ic_szop := 5, ic_modhash := 107, ic_funchash := 65\<rparr>;
       mods = upd_func 107 65 (\<lambda>f. f\<lparr>fn_IATRVA := 0x403000\<rparr>) (m_mods mini_after)
   in \<exists>bs. fixIATCall mods False i = (True, [(0x401000, bs)], i\<lparr>ic_fixedState := fixed_realmode\<rparr>) \<and> length bs = 6"
proof -
  let ?i = "zero_info\<lparr>ic_cmdaddr := 0x401000, ic_calltype := iatcall_jmp, ic_szop := 5, ic_modhash := 107, ic_funchash := 65\<rparr>"
  let ?mods = "upd_func 107 65 (\<lambda>f. f\<lparr>fn_IATRVA := 0x403000\<rparr>) (m_mods mini_after)"
  have s: "known_slot ?mods ?i = Some 0x403000"
    by (simp add: known_slot_def getFuncInfo_upd) (simp add: getFuncInfo_def mini_after_def)
  show ?thesis using jump_fix_overruns [OF s] by (auto simp: Let_def zero_info_def)
qed

text \<open>
  C39: When a message without a log takes the last temporary log away, the row of this log stays in
  the table with a pointer to what is gone, and selecting the logs of a block then follows it.
\<close>

theorem removed_log_leaves_row:
  assumes "block_ok fr" "bf_sseq fr = xs @ [(k, se)]" "has (se_flags se) (SEQEXEC_FLAG_TEMP B)"
    and "(a, r) \<in> set (bf_logs fr)" "lr_se r = Some k" "notice_bkexec B cfg Y None fr = Inr fr1"
  shows "(a, r\<lparr>lr_se := None\<rparr>) \<in> set (bf_logs fr1) \<and> selectLogsBySeqID j fr1 = Inl Null_deref"
proof -
  have "removeLastTempExecLogs B fr = Inr fr1" using assms(6) by (auto simp: notice_bkexec_def bindF_Inr_eq)
  then show ?thesis using removed_log_row [OF assms(1-5)] by blast
qed

theorem removed_log_leaves_row_witness:
  "\<exists>fr1. notice_bkexec mini_blocks mini_settings mini_struct None mini_bf3 = Inr fr1 \<and> selectLogsBySeqID 0 fr1 = Inl Null_deref"
proof -
  have "block_ok mini_bf1" unfolding mini_bf1_def mini_bf0_def by (rule analyserTraceFile_ok [OF block_ok_new mini_detects])
  moreover have "isl (addBlockExecLog mini_blocks mini_settings (mini_log 0 0x1000 0) (-1) mini_bf1) = False"
    "isl (addBlockExecLog mini_blocks mini_settings (mini_log 1 0x1004 2) (-1) mini_bf2) = False" by code_simp+
  ultimately have ok: "block_ok mini_bf3"
    unfolding mini_bf3_def using addBlockExecLog_ok mini_bf2_def by (metis prod.collapse sum.collapse(2))
  obtain a r where row: "(a, r) \<in> set (bf_logs mini_bf3)" "lr_se r = Some 1"
  proof -
    have "(1, Some 1) \<in> set (map (\<lambda>(a, r). (a, lr_se r)) (bf_logs mini_bf3))" using mini_bf3 by simp
    then show thesis using that by auto
  qed
  have "isl (notice_bkexec mini_blocks mini_settings mini_struct None mini_bf3) = False" by code_simp
  then obtain fr1 where n: "notice_bkexec mini_blocks mini_settings mini_struct None mini_bf3 = Inr fr1"
    by (metis sum.collapse(2))
  have t: "has (se_flags (mini_log 1 0x1004 2)) (SEQEXEC_FLAG_TEMP mini_blocks)" by code_simp
  have l: "bf_sseq mini_bf3 = [(0, mini_log 0 0x1000 0)] @ [(1, mini_log 1 0x1004 2)]" using mini_bf3 by simp
  show ?thesis using removed_log_leaves_row [OF ok l t row n, of 0] n by blast
qed

text \<open>
  C40: A block whose shared instructions all stand further back in every block than they are blocks
  that have them is not cut, although it shares code: the inner counter takes the place of the
  position in the block.
\<close>

theorem late_shared_code_survives:
  assumes "(k, b) \<in> set seqs"
    and "\<And>a sid iid. a \<in> set (rips b) \<Longrightarrow> (a, sid, iid) \<in> set (inst_places (map snd seqs))
      \<Longrightarrow> 1 < mm_count a (inst_places (map snd seqs)) \<Longrightarrow> mm_count a (inst_places (map snd seqs)) \<le> iid"
  shows "(k, b) \<in> set (conciseSequences1 seqs)"
  using late_code_kept [OF assms(1) refl assms(2)] .

theorem late_shared_code_survives_witness:
  "(0, mini_left) \<in> set (conciseSequences1 [(0, mini_left), (1, mini_right)])
    \<and> set (rips mini_left) \<inter> set (rips mini_right) \<noteq> {}"
proof
  let ?s = "[(0, mini_left), (1, mini_right)]"
  have c: "list_all (\<lambda>(a, sid, iid). mm_count a (inst_places (map snd ?s)) \<le> 1 \<or> mm_count a (inst_places (map snd ?s)) \<le> iid)
      (inst_places (map snd ?s))" by code_simp
  show "(0, mini_left) \<in> set (conciseSequences1 ?s)"
    by (rule late_shared_code_survives) (use c in \<open>fastforce simp: list_all_iff\<close>)+
  have "0x401100 \<in> set (rips mini_left)" "0x401100 \<in> set (rips mini_right)" by code_simp+
  then show "set (rips mini_left) \<inter> set (rips mini_right) \<noteq> {}" by blast
qed

section \<open>Further facts\<close>

text \<open>Smaller facts of the same definitions, each with the input it is applied at.\<close>

lemma reg_variable_binds:
  assumes "checkAndSaveVar_reg E crt pop iop = Inr (st, crt')" "0 \<le> st" "\<not> ref_or_noref pop"
  shows "\<exists>v. crt_vars crt' (varid (po_type pop) (po_id pop)) = Some v
    \<and> pa_base v = xo_index iop \<and> pa_size v = xo_size iop"
  using assms by (rule checkAndSaveVar_reg_binds)

lemma reg_variable_binds_witness:
  "\<exists>st crt'. checkAndSaveVar_reg mini_x86 mini_crt (mini_pop pattern_op_reg 2) (mini_opr 6) = Inr (st, crt')
    \<and> map_option pa_base (crt_vars crt' (varid pattern_op_reg 2)) = Some 6"
proof -
  let ?m = "checkAndSaveVar_reg mini_x86 mini_crt (mini_pop pattern_op_reg 2) (mini_opr 6)"
  have "map_sum id fst ?m = Inr 1" by code_simp
  then obtain crt' where m: "?m = Inr (1, crt')" by (cases ?m) auto
  have "\<not> ref_or_noref (mini_pop pattern_op_reg 2)" by code_simp
  from reg_variable_binds [OF m _ this] show ?thesis using m by (auto simp: new_pattern_op_def)
qed

lemma imm_variable_binds:
  assumes "checkAndSaveVar_imm E crt pop ins iop = Inr (st, crt')" "0 \<le> st" "\<not> ref_or_noref pop"
  shows "\<exists>v. crt_vars crt' (varid (po_type pop) (po_id pop)) = Some v
    \<and> pa_imm v = xi_imm ins \<and> pa_size v = xo_size iop"
  using assms by (rule checkAndSaveVar_imm_binds)

lemma imm_variable_binds_witness:
  "\<exists>st crt'. checkAndSaveVar_imm mini_x86 mini_crt (mini_pop pattern_op_imm 1)
      ((mini_disasm [])\<lparr>xi_imm := 5\<rparr>) (mini_opr 0) = Inr (st, crt')
    \<and> map_option pa_imm (crt_vars crt' (varid pattern_op_imm 1)) = Some 5"
proof -
  let ?m = "checkAndSaveVar_imm mini_x86 mini_crt (mini_pop pattern_op_imm 1)
      ((mini_disasm [])\<lparr>xi_imm := 5\<rparr>) (mini_opr 0)"
  have "map_sum id fst ?m = Inr 1" by code_simp
  then obtain crt' where m: "?m = Inr (1, crt')" by (cases ?m) auto
  have "\<not> ref_or_noref (mini_pop pattern_op_imm 1)" by code_simp
  from imm_variable_binds [OF m _ this] show ?thesis using m by (auto simp: new_pattern_op_def)
qed

lemma unbound_size_is_null:
  assumes "OPERANDS_NO E = Suc n" "po_type (ib_ops pi 0) = pattern_op_memexpr"
    and "crt_opvars (ps_crt seq) (po_id (ib_ops pi 0)) = Some iop" "resolved iop"
    and "0 < po_szid (ib_ops pi 0)"
      "crt_vars (ps_crt seq) (varid pattern_op_size (po_szid (ib_ops pi 0))) = None"
  shows "genReplaceOpcode E seq pi szop = Inl Null_deref"
  using assms by (rule genReplaceOpcode_null)

lemma unbound_size_is_null_witness:
  "genReplaceOpcode mini_x86
     (mini_bound\<lparr>ps_crt := mini_crt\<lparr>crt_opvars := [0 \<mapsto> new_pasm_operand mini_x86]\<rparr>\<rparr>)
     (mini_template ((mini_pop pattern_op_memexpr 0)\<lparr>po_szid := 4\<rparr>)) 1 = Inl Null_deref"
proof (rule unbound_size_is_null [where n = 2])
  let ?s = "mini_bound\<lparr>ps_crt := mini_crt\<lparr>crt_opvars := [0 \<mapsto> new_pasm_operand mini_x86]\<rparr>\<rparr>"
  show "crt_vars (ps_crt ?s) (varid pattern_op_size
      (po_szid (ib_ops (mini_template ((mini_pop pattern_op_memexpr 0)\<lparr>po_szid := 4\<rparr>)) 0))) = None"
    by code_simp
  show "resolved (new_pasm_operand mini_x86)" by (rule resolved_new [OF mini_ins_small(1)])
qed (simp_all add: mini_x86_def new_pattern_op_def)

lemma base_variable_not_noted:
  assumes "crt_opvars crt (po_id pop) = Some op" "op_varid_base \<le> pa_base op"
    and "pa_dispvar op < op_varid_base" "pa_size op < op_varid_base" "pa_index op < op_varid_base"
    and "crt_vars crt (pa_base op) = None" "vars_resolved crt" "env_small E" "po_szid pop = 0"
    and "small_operand iop" "xi_base ins < op_varid_base"
  shows "\<exists>crt'. saveMemoryExprVar E crt pop ins iop = Inr (0, crt')
    \<and> crt_vars crt' (pa_base op) \<noteq> None \<and> crt_nvars crt' = crt_nvars crt"
  using assms by (rule saveMemoryExprVar_unnoted)

lemma base_variable_not_noted_witness:
  "\<exists>crt'. saveMemoryExprVar mini_x86
      (mini_crt\<lparr>crt_opvars := [0 \<mapsto> (new_pasm_operand mini_x86)\<lparr>pa_base := varid pattern_op_reg 2\<rparr>]\<rparr>)
      (mini_pop pattern_op_memexpr 0) (mini_disasm []) (mini_opr 3) = Inr (0, crt')
    \<and> crt_vars crt' (varid pattern_op_reg 2) \<noteq> None \<and> crt_nvars crt' = []"
proof -
  let ?op = "(new_pasm_operand mini_x86)\<lparr>pa_base := varid pattern_op_reg 2\<rparr>"
  let ?c = "mini_crt\<lparr>crt_opvars := [0 \<mapsto> ?op]\<rparr>"
  have "crt_opvars ?c (po_id (mini_pop pattern_op_memexpr 0)) = Some ?op"
    by (simp add: new_pattern_op_def)
  moreover have "op_varid_base \<le> pa_base ?op" "pa_dispvar ?op < op_varid_base" "pa_size ?op < op_varid_base"
      "pa_index ?op < op_varid_base" "crt_vars ?c (pa_base ?op) = None"
    by code_simp+
  moreover have "vars_resolved ?c" using mini_crt_resolved by (simp add: vars_resolved_def)
  moreover have "po_szid (mini_pop pattern_op_memexpr 0) = 0" by (simp add: new_pattern_op_def)
  moreover have "small_operand (mini_opr 3)" "xi_base (mini_disasm []) < op_varid_base" by code_simp+
  ultimately have "\<exists>crt'. saveMemoryExprVar mini_x86 ?c (mini_pop pattern_op_memexpr 0) (mini_disasm []) (mini_opr 3)
      = Inr (0, crt') \<and> crt_vars crt' (pa_base ?op) \<noteq> None \<and> crt_nvars crt' = crt_nvars ?c"
    using mini_ins_small(1) by (intro base_variable_not_noted)
  then show ?thesis by (simp add: mini_crt_def new_seqRuntime_def)
qed

lemma unbound_replacement_fails:
  assumes "vars_resolved (ps_crt seq)" "i < OPERANDS_NO E"
    and "\<forall>j < i. operand_ready (ps_crt seq) (ib_ops pi j)"
    and "po_type (ib_ops pi i) \<in> {pattern_op_any, pattern_op_reg, pattern_op_imm, pattern_op_mem}"
    and "crt_vars (ps_crt seq) (varid (po_type (ib_ops pi i)) (po_id (ib_ops pi i))) = None"
  shows "\<exists>seq'. genReplaceOpcode E seq pi szop = Inr (Inl (-1), seq')"
  using assms by (rule genReplaceOpcode_unbound)

lemma unbound_replacement_fails_witness:
  "\<exists>seq'. genReplaceOpcode mini_x86 mini_bound (mini_template (mini_pop pattern_op_reg 2)) 1 = Inr (Inl (-1), seq')"
proof (rule unbound_replacement_fails [where i = 0])
  show "vars_resolved (ps_crt mini_bound)" using mini_crt_resolved by (simp add: mini_bound_def)
  show "crt_vars (ps_crt mini_bound) (varid (po_type (ib_ops (mini_template (mini_pop pattern_op_reg 2)) 0))
      (po_id (ib_ops (mini_template (mini_pop pattern_op_reg 2)) 0))) = None"
    by code_simp
qed (simp_all add: mini_x86_def new_pattern_op_def)

lemma not_left_before_minc:
  assumes "testForInstruction E s i ins esp efl ud = Inr (st, s')" "0 \<le> st"
    and "i < length (ps_insts s)" "crt_inst (ps_crt s) = Some i"
    and "isMatchInst E s i ins esp efl = Inr (st1, s1)"
    and "pi_matched_count (ps_insts s1 ! i) < pi_minc (ps_insts s ! i)"
  shows "crt_inst (ps_crt s') = Some i \<and> 0 \<le> st1
    \<and> pi_matched_count (ps_insts s' ! i) = pi_matched_count (ps_insts s ! i) + 1"
  using assms by (rule testForInstruction_minc)

lemma not_left_before_minc_witness:
  "\<exists>s'. testForInstruction mini_x86 mini_lazy 0 (mini_disasm [0x53]) True False (Some 1) = Inr (0, s')
    \<and> crt_inst (ps_crt s') = Some 0 \<and> pi_matched_count (ps_insts s' ! 0) = 1"
proof -
  let ?t = "testForInstruction mini_x86 mini_lazy 0 (mini_disasm [0x53]) True False (Some 1)"
  let ?m = "isMatchInst mini_x86 mini_lazy 0 (mini_disasm [0x53]) True False"
  have "map_sum id fst ?t = Inr 0" by code_simp
  then obtain s' where t: "?t = Inr (0, s')" by (cases ?t) auto
  have "map_sum id (\<lambda>r. (fst r, pi_matched_count (ps_insts (snd r) ! 0))) ?m = Inr (1, 1)" by code_simp
  then obtain s1 where m: "?m = Inr (1, s1)" "pi_matched_count (ps_insts s1 ! 0) = 1" by (cases ?m) auto
  have g: "0 < length (ps_insts mini_lazy)" "crt_inst (ps_crt mini_lazy) = Some 0"
      "pi_minc (ps_insts mini_lazy ! 0) = 2" "pi_matched_count (ps_insts mini_lazy ! 0) = 0"
    by code_simp+
  have "pi_matched_count (ps_insts s1 ! 0) < pi_minc (ps_insts mini_lazy ! 0)" using m(2) g(3) by simp
  from not_left_before_minc [OF t _ g(1,2) m(1) this] show ?thesis using t g by simp
qed

lemma getPattern_by_number:
  assumes "loaded eng" "i < length (pe_patterns eng)"
  shows "getPattern eng (int i) = Some (seq_at eng i) \<and> ps_id (seq_at eng i) = int i"
  using getPattern_loaded [OF assms] by blast

lemma getPattern_by_number_witness:
  "getPattern mini_engine 0 = Some (seq_at mini_engine 0) \<and> ps_id (seq_at mini_engine 0) = 0"
  using getPattern_by_number [OF mini_loaded, of 0] by (simp add: mini_engine_def)

lemma varid_unique:
  assumes "0 \<le> i" "i < op_varid_base" "0 \<le> j" "j < op_varid_base"
  shows "varid t i = varid u j \<longleftrightarrow> t = u \<and> i = j"
  using assms by (rule varid_inject)

lemma varid_unique_witness: "varid pattern_op_reg 1 \<noteq> varid pattern_op_imm 1"
  using varid_unique [of 1 1 pattern_op_reg pattern_op_imm] by (simp add: op_varid_base_def)

lemma repeated_instruction_is_left:
  assumes "0 < bx_ilen inst" "bx_ilen inst < 2 ^ 32"
  shows "c_RIP (skip_repeat inst c) \<noteq> c_prev_rip c"
  using assms by (rule skip_repeat_moves)

lemma repeated_instruction_is_left_witness:
  "c_RIP (skip_repeat \<lparr>bx_ilen = 2, bx_opcode_bytes = [0xF3, 0xA4]\<rparr> mini_cpu) \<noteq> 0x401000"
  using repeated_instruction_is_left [of "\<lparr>bx_ilen = 2, bx_opcode_bytes = [0xF3, 0xA4]\<rparr>" mini_cpu]
  by (simp add: mini_cpu_def)

lemma bswap32_reverses_bytes: "le_bytes (xvm_bswap32 w) = rev (le_bytes w)"
  by (rule le_bytes_bswap32)

lemma bswap64_involution: "xvm_bswap64 (xvm_bswap64 w) = w"
  by (rule xvm_bswap64_inv)

lemma deleteFlagged_is_filter:
  "deleteFlagedInSeq flags seq =
    (int (length (filter (\<lambda>e. has (tx_flags (snd e)) flags) (is_nodes seq))),
     seq\<lparr>is_nodes := filter (\<lambda>e. \<not> has (tx_flags (snd e)) flags) (is_nodes seq)\<rparr>)"
  by (rule deleteFlagedInSeq_filter)

lemma made_jump_reaches_target:
  "jmp_target a (jmp_bytes a target @ rest) = target"
  by (rule jmp_bytes_target)

lemma context_roundtrip:
  assumes "length (tr_regs ctx) = 8"
  shows "same_context (loadContextFromRecord (saveContextToRecord c ctx inst) d) c
    \<and> tr_regs (saveContextToRecord (loadContextFromRecord ctx c) ctx' inst) = tr_regs ctx
    \<and> tr_eflags (saveContextToRecord (loadContextFromRecord ctx c) ctx' inst) = tr_eflags ctx"
  using context_saved_loaded context_loaded_saved [OF assms] by blast

lemma context_roundtrip_witness:
  "same_context (loadContextFromRecord (saveContextToRecord mini_cpu
     (tx_ctx1 (mini_rec 0x401000 0x90 1 2)) None) mini_cpu) mini_cpu"
  by (rule conjunct1 [OF context_roundtrip]) (simp add: mini_rec_def Let_def)

lemma loading_appends:
  assumes "loadPattern P eng src = Inr (n, eng')" "loaded eng"
  shows "loaded eng' \<and> (\<exists>ps. pe_patterns eng' = pe_patterns eng @ ps \<and> int (length ps) \<le> n)"
  using loadPattern_loaded [OF assms] loadPattern_appends [OF assms(1)] by blast

lemma loading_appends_witness:
  "loaded (snd mini_load) \<and> int (length (pe_patterns (snd mini_load))) \<le> fst mini_load"
proof -
  have "loadPattern mini_parse (clearPatterns mini_empty) mini_text = Inr (fst mini_load, snd mini_load)"
    using mini_load(1) by simp
  from loading_appends [OF this loaded_empty] show ?thesis by (auto simp: clearPatterns_def)
qed

lemma constant_replaces_scratch_register:
  "map_sum id (shown \<circ> snd) (doDeobfuscateTempPushPop mini_ud mini_pair)
    = Inr [(0, 3, [0x50]), (1, 3, [0xB8, 5]), (2, 3, [0x40]), (3, 0, [0xB9, 6]), (4, 3, [0x58])]"
  by code_simp

lemma calculateExpress_faults:
  assumes "calculateExpress crt e val = Inl f"
  shows "f = Div_fault \<or> f = Bad_shift"
  using calculateExpress_fault [OF assms] by (simp add: arith_fault_def)

lemma calculateExpress_faults_witness:
  "calculateExpress mini_crt (nexpr_node False False nexpr_oper_mod
     (Some (nexpr_value_imm False False 7)) (Some (nexpr_value_imm False False 0))) 0 = Inl Div_fault
   \<and> (Div_fault = Div_fault \<or> Div_fault = Bad_shift)"
proof -
  have c: "calculateExpress mini_crt (nexpr_node False False nexpr_oper_mod
     (Some (nexpr_value_imm False False 7)) (Some (nexpr_value_imm False False 0))) 0 = Inl Div_fault"
    by code_simp
  with calculateExpress_faults [OF this] show ?thesis by blast
qed

lemma folded_unary_is_processor:
  assumes "LENGTH('w::len) = lv_bits sz" "is_unary m" "m \<noteq> UD_Ibswap"
  shows "(ucast (fold_unary m sz lv) :: 'w word) = reg_unary m (ucast lv)
    \<and> drop_bit (lv_bits sz) (fold_unary m sz lv) = drop_bit (lv_bits sz) lv"
  using fold_unary_reg [OF assms] by blast

lemma folded_unary_is_processor_witness:
  "(ucast (fold_unary UD_Ineg 8 0x1101) :: 8 word) = 0xFF"
  using folded_unary_is_processor [where 'w = 8 and sz = 8 and m = UD_Ineg and lv = "0x1101"]
  by (simp add: lv_bits_def is_unary_def reg_unary_def)

lemma unmatched_pop_pairs_with_later_push:
  "map_sum id (shown \<circ> snd) (doDeobfuscateTempPushPop mini_ud
      (mini_records [([0x50], -4), ([0x58], 4), ([0x58], 4), ([0x90], 0), ([0x50], -4), ([0x90], 0)]))
    = Inr [(0, 3, [0x50]), (1, 3, [0x58]), (2, 4, [0x58]), (3, 0, [0x90]), (4, 3, [0x50]), (5, 0, [0x90])]"
  by code_simp

end
